(* ===== verification/Acts_Prelude.thy ===== *)
theory Acts_Prelude
  imports Main "HOL-Library.Word"
begin

text \<open>
  The vocabulary the component theories share: the machine integer types of the
  sources, C strings as lists of bytes, results that may be an exception, the
  alignment helpers of \<^verbatim>\<open>src/core/shared/utils/utils.hpp\<close> and the little-endian
  image of an integer, with the generic lemmas about them.

  \<^item> A \<^verbatim>\<open>size_t\<close> that is only a length or an index of a list is a \<open>nat\<close>; a value whose
    wrap-around the code can observe keeps its width and is a word.
  \<^item> A \<^verbatim>\<open>throw\<close> is \<open>Inl\<close> of the component's own error type, a normal return is \<open>Inr\<close>.
\<close>

unbundle bit_operations_syntax

section \<open>Machine integers and strings\<close>

type_synonym u8 = "8 word"
type_synonym u16 = "16 word"
type_synonym u32 = "32 word"
type_synonym u64 = "64 word"

lemma unat_bound: "unat (w :: 'a::len word) < 2 ^ LENGTH('a)"
  by (rule unsigned_less)

lemma u64_bound: "unat (w :: u64) < 2 ^ 64"
  using unat_bound [of w] by simp

lemma u32_bound: "unat (w :: u32) < 2 ^ 32"
  using unat_bound [of w] by simp

lemma u8_bound: "unat (w :: u8) < 256"
  using unat_bound [of w] by simp

lemma unat_of_nat_mod: "unat (of_nat n :: 'a::len word) = n mod 2 ^ LENGTH('a)"
  by (simp add: unat_of_nat take_bit_eq_mod)

lemma unat_of_nat_u64: "n < 2 ^ 64 \<Longrightarrow> unat (of_nat n :: u64) = n"
  by (simp add: unat_of_nat_mod)

text \<open>Narrowing a word commutes with the ring operations and the bitwise ones.\<close>

lemma unat_and_mask: "unat (w AND mask n :: 'a::len word) = unat w mod 2 ^ n"
  by (simp only: unsigned_take_bit_eq flip: take_bit_eq_mask) (simp add: take_bit_eq_mod)

lemma of_nat_mod_down:
  "LENGTH('b) \<le> n \<Longrightarrow> (of_nat (x mod 2 ^ n) :: 'b::len word) = of_nat x"
  by (rule unsigned_word_eqI [where ?'a = nat]) (simp add: unat_of_nat_mod mod_mod_cancel le_imp_power_dvd)

lemma ucast_eq_of_nat: "(ucast (w :: 'a::len word) :: 'b::len word) = of_nat (unat w)"
  by simp

lemma ucast_down_mult:
  "LENGTH('b) \<le> LENGTH('a) \<Longrightarrow> (ucast (a * b :: 'a::len word) :: 'b::len word) = ucast a * ucast b"
  by (simp add: ucast_eq_of_nat unat_word_ariths of_nat_mod_down del: of_nat_unat)

lemma ucast_down_add:
  "LENGTH('b) \<le> LENGTH('a) \<Longrightarrow> (ucast (a + b :: 'a::len word) :: 'b::len word) = ucast a + ucast b"
  by (simp add: ucast_eq_of_nat unat_word_ariths of_nat_mod_down del: of_nat_unat)

lemma ucast_and_mask: "LENGTH('b) \<le> n \<Longrightarrow> LENGTH('b) \<le> LENGTH('a) \<Longrightarrow> (ucast (x AND mask n :: 'a::len word) :: 'b::len word) = ucast x"
  by (rule bit_word_eqI) (auto simp: bit_simps)

lemma ucast_down_xor: "LENGTH('b) \<le> LENGTH('a) \<Longrightarrow> (ucast (a XOR b :: 'a::len word) :: 'b::len word) = ucast a XOR ucast b"
  by (rule bit_word_eqI) (auto simp: bit_simps)

lemma ucast_scast_down: "LENGTH('c) \<le> LENGTH('b) \<Longrightarrow> LENGTH('a) \<le> LENGTH('c) \<Longrightarrow>
   (ucast (scast (c :: 'a::len word) :: 'b::len word) :: 'c::len word) = scast c"
  by (rule bit_word_eqI) (auto simp: bit_simps)

lemma ucast_ucast_up: "LENGTH('a) \<le> LENGTH('b) \<Longrightarrow> (ucast (ucast (c :: 'a::len word) :: 'b::len word) :: 'a word) = c"
  by (rule bit_word_eqI) (auto simp: bit_simps)

lemma unat_ucast_up: "LENGTH('a) \<le> LENGTH('b) \<Longrightarrow> unat (ucast (w :: 'a::len word) :: 'b::len word) = unat w"
  by (simp add: unsigned_ucast_eq take_bit_word_eq_self unsigned_take_bit_eq [symmetric])

text \<open>
  A C string: the bytes of the buffer from the pointer on. The string ends before the first
  zero byte, or where the list ends (the terminator is then the byte after the list).
\<close>

type_synonym cstr = "u8 list"

definition cstr_of :: "string \<Rightarrow> cstr" where
  "cstr_of s = map (\<lambda>c. of_char c) s"

definition c_chars :: "cstr \<Rightarrow> cstr" where
  "c_chars s = takeWhile (\<lambda>c. c \<noteq> 0) s"

definition no_nul :: "cstr \<Rightarrow> bool" where
  "no_nul s \<longleftrightarrow> 0 \<notin> set s"

lemma no_nul_Nil [simp]: "no_nul []"
  by (simp add: no_nul_def)

lemma no_nul_Cons [simp]: "no_nul (c # s) \<longleftrightarrow> c \<noteq> 0 \<and> no_nul s"
  by (auto simp: no_nul_def)

lemma no_nul_append [simp]: "no_nul (s @ t) \<longleftrightarrow> no_nul s \<and> no_nul t"
  by (auto simp: no_nul_def)

lemma c_chars_no_nul [simp]: "no_nul (c_chars s)"
  by (induction s) (auto simp: c_chars_def)

lemma c_chars_id: "no_nul s \<Longrightarrow> c_chars s = s"
  by (induction s) (auto simp: c_chars_def)

lemma c_chars_append_nul: "no_nul s \<Longrightarrow> c_chars (s @ 0 # t) = s"
  by (induction s) (auto simp: c_chars_def)

section \<open>Results\<close>

text \<open>Sequencing of computations that may throw: the first exception ends the run.\<close>

definition ebind :: "'e + 'a \<Rightarrow> ('a \<Rightarrow> 'e + 'b) \<Rightarrow> 'e + 'b" where
  "ebind m f = (case m of Inl e \<Rightarrow> Inl e | Inr a \<Rightarrow> f a)"

lemma ebind_Inl [simp]: "ebind (Inl e) f = Inl e"
  by (simp add: ebind_def)

lemma ebind_Inr [simp]: "ebind (Inr a) f = f a"
  by (simp add: ebind_def)

lemma ebind_assoc: "ebind (ebind m f) g = ebind m (\<lambda>x. ebind (f x) g)"
  by (simp add: ebind_def split: sum.splits)

lemma ebind_eq_Inr_iff: "ebind m f = Inr b \<longleftrightarrow> (\<exists>a. m = Inr a \<and> f a = Inr b)"
  by (auto simp: ebind_def split: sum.splits)

lemma ebind_eq_Inl_iff: "ebind m f = Inl e \<longleftrightarrow> m = Inl e \<or> (\<exists>a. m = Inr a \<and> f a = Inl e)"
  by (auto simp: ebind_def split: sum.splits)

lemma ebind_InrE:
  assumes "ebind m f = Inr b"
  obtains a where "m = Inr a" and "f a = Inr b"
  using assms by (auto simp: ebind_eq_Inr_iff)

lemma ebind_cong [fundef_cong]:
  "m = m' \<Longrightarrow> (\<And>a. m' = Inr a \<Longrightarrow> f a = g a) \<Longrightarrow> ebind m f = ebind m' g"
  by (auto simp: ebind_def split: sum.splits)

lemma if_throw_iff: "(if b then Inl e else x) = Inr y \<longleftrightarrow> \<not> b \<and> x = Inr y"
  by simp

lemmas returns_iff = ebind_eq_Inr_iff if_throw_iff

definition guard_or :: "'e \<Rightarrow> bool \<Rightarrow> 'e + unit" where
  "guard_or e b = (if b then Inr () else Inl e)"

lemma guard_or_simps [simp]:
  "guard_or e True = Inr ()" "guard_or e False = Inl e"
  by (simp_all add: guard_or_def)

lemma guard_or_eq_Inr_iff [simp]: "guard_or e b = Inr u \<longleftrightarrow> b"
  by (simp add: guard_or_def)

lemma guard_or_eq_Inl_iff [simp]: "guard_or e b = Inl e' \<longleftrightarrow> \<not> b \<and> e' = e"
  by (auto simp: guard_or_def)

section \<open>Alignment\<close>

text \<open>
  \<^verbatim>\<open>utils::Aligned(ptr, len)\<close> and \<^verbatim>\<open>utils::Aligned<Type>(ptr)\<close>:
  \<^verbatim>\<open>(ptr + (len - 1)) & ~(len - 1)\<close> at the width of the operand.
\<close>

definition aligned_w :: "'a::len word \<Rightarrow> 'a word \<Rightarrow> 'a word" where
  "aligned_w p len = (p + (len - 1)) AND NOT (len - 1)"

text \<open>Rounding up to a multiple on natural numbers, the meaning of the above for powers of two.\<close>

definition align_up :: "nat \<Rightarrow> nat \<Rightarrow> nat" where
  "align_up n a = ((n + (a - 1)) div a) * a"

lemma align_up_ge: "0 < a \<Longrightarrow> n \<le> align_up n a"
proof -
  assume a: "0 < a"
  have "n + (a - 1) = align_up n a + (n + (a - 1)) mod a"
    unfolding align_up_def by simp
  moreover have "(n + (a - 1)) mod a \<le> a - 1"
    using mod_less_divisor [OF a, of "n + (a - 1)"] by linarith
  ultimately show ?thesis by linarith
qed

lemma align_up_dvd [simp]: "a dvd align_up n a"
  by (simp add: align_up_def)

lemma align_up_less: "0 < a \<Longrightarrow> align_up n a < n + a"
proof -
  assume a: "0 < a"
  have "align_up n a \<le> n + (a - 1)"
    unfolding align_up_def by simp
  with a show ?thesis by linarith
qed

lemma align_up_1 [simp]: "align_up n (Suc 0) = n"
  by (simp add: align_up_def)

lemma align_up_id: "0 < a \<Longrightarrow> a dvd n \<Longrightarrow> align_up n a = n"
proof -
  assume a: "0 < a" and "a dvd n"
  then obtain k where k: "n = a * k" by blast
  have "(a - 1 + a * k) div a = k" using a by (simp only: div_mult_self2) simp
  then have "(a * k + (a - 1)) div a = k" by (simp only: add.commute)
  then show ?thesis using k by (simp add: align_up_def mult.commute)
qed

lemma align_up_idem [simp]: "0 < a \<Longrightarrow> align_up (align_up n a) a = align_up n a"
  by (simp add: align_up_id)

lemma unat_mask_le:
  assumes "n \<le> LENGTH('a)"
  shows "unat (mask n :: 'a::len word) = 2 ^ n - 1"
proof -
  have "(mask n :: 'a word) = of_nat (2 ^ n - 1)"
    by (simp add: mask_eq_exp_minus_1 of_nat_diff)
  moreover have "2 ^ n - 1 < (2 :: nat) ^ LENGTH('a)"
    using power_increasing [OF assms, of "2 :: nat"] by (simp add: less_le_trans [of _ "2 ^ n"])
  ultimately show ?thesis
    using unat_of_nat_mod [of "2 ^ n - 1", where ?'a = 'a] by (metis mod_less)
qed

lemma unat_and_not_mask: "unat (x AND NOT (mask k) :: 'a::len word) = (unat x div 2 ^ k) * 2 ^ k"
proof -
  have "x AND NOT (mask k) = push_bit k (drop_bit k x)"
    by (rule bit_word_eqI) (auto simp: bit_simps)
  moreover have "unat x div 2 ^ k * 2 ^ k < 2 ^ LENGTH('a)"
    using unat_bound [of x] by (meson div_times_less_eq_dividend le_less_trans)
  moreover have "unat (push_bit k (drop_bit k x)) = take_bit LENGTH('a) (unat x div 2 ^ k * 2 ^ k)"
    by (subst unsigned_push_bit_eq, subst unat_drop_bit_eq) (simp only: push_bit_eq_mult drop_bit_eq_div)
  ultimately show ?thesis
    by (simp add: take_bit_eq_mod)
qed

text \<open>\<^verbatim>\<open>Aligned\<close> rounds up to the next multiple, unless the sum wraps around.\<close>

lemma unat_aligned_w:
  fixes p :: "'a::len word"
  assumes "k < LENGTH('a)" "unat p + 2 ^ k \<le> 2 ^ LENGTH('a)"
  shows "unat (aligned_w p (2 ^ k)) = align_up (unat p) (2 ^ k)"
proof -
  have "unat p + (2 ^ k - 1) < 2 ^ LENGTH('a)"
    using assms(2) using zero_less_power [of "2::nat" k] by linarith
  then have "unat (p + mask k) = unat p + (2 ^ k - 1)"
    using assms(1) by (simp add: unat_word_ariths unat_mask_le)
  moreover have "aligned_w p (2 ^ k) = (p + mask k) AND NOT (mask k)"
    by (simp add: aligned_w_def mask_eq_exp_minus_1)
  ultimately show ?thesis
    by (simp add: unat_and_not_mask align_up_def)
qed

text \<open>
  Alignment commutes with narrowing, and with a base that is itself aligned: relative and absolute
  locations have the same padding.
\<close>

lemma and_not_mask_eq: "x AND NOT (mask k) = x - take_bit k (x :: 'a::len word)"
proof -
  have "NOT x AND take_bit k x = 0" by (rule bit_word_eqI) (auto simp: bit_simps)
  then have "x - take_bit k x = x AND NOT (take_bit k x)" by (rule disjunctive_diff_eq_and_not)
  also have "\<dots> = x AND NOT (mask k)" by (rule bit_word_eqI) (auto simp: bit_simps)
  finally show ?thesis by simp
qed

lemma take_bit_add_dvd:
  assumes "take_bit k (b :: 'a::len word) = 0" shows "take_bit k (b + x) = take_bit k x"
proof (cases "k \<le> LENGTH('a)")
  case True
  have u: "unat (take_bit k w) = unat w mod 2 ^ k" for w :: "'a word"
    by (simp only: unsigned_take_bit_eq) (simp add: take_bit_eq_mod)
  have "unat b mod 2 ^ k = 0" using assms u [of b] by simp
  then have "2 ^ k dvd unat b" by (simp add: dvd_eq_mod_eq_0)
  then have "(unat b + unat x) mod 2 ^ k = unat x mod 2 ^ k" by (metis mod_add_left_eq dvd_imp_mod_0 add_0)
  moreover have "(2::nat) ^ k dvd 2 ^ LENGTH('a)" using True by (simp add: le_imp_power_dvd)
  ultimately have "unat (take_bit k (b + x)) = unat (take_bit k x)"
    by (simp only: u unat_word_ariths mod_mod_cancel)
  then show ?thesis by (simp add: word_unat_eq_iff)
next
  case False
  then have "take_bit k w = w" for w :: "'a word" by (rule_tac bit_word_eqI) (auto simp: bit_simps)
  with assms show ?thesis by simp
qed

lemma aligned_w_base:
  "take_bit k (b :: 'a::len word) = 0 \<Longrightarrow> aligned_w (b + x) (2 ^ k) = b + aligned_w x (2 ^ k)"
proof -
  assume b: "take_bit k b = 0"
  have m: "(2 ^ k - 1 :: 'a word) = mask k" by (simp add: mask_eq_exp_minus_1)
  have "take_bit k (b + (x + mask k)) = take_bit k (x + mask k)" by (rule take_bit_add_dvd [OF b])
  then show ?thesis by (simp add: aligned_w_def m and_not_mask_eq add.assoc)
qed

lemma aligned_w_of_nat: "aligned_w (of_nat n :: 'a::len word) (2 ^ k) = of_nat (align_up n (2 ^ k))"
proof -
  let ?n = "n + (2 ^ k - 1)"
  have mk: "(2 ^ k - 1 :: 'a word) = mask k" by (simp add: mask_eq_exp_minus_1)
  have "of_nat (2 ^ k - 1) = (2 ^ k - 1 :: 'a word)"
    using of_nat_diff [of 1 "2 ^ k", where ?'a = "'a word"] by simp
  then have on: "of_nat n + mask k = (of_nat ?n :: 'a word)"
    by (simp only: of_nat_add mask_eq_exp_minus_1)
  have "aligned_w (of_nat n :: 'a word) (2 ^ k) = of_nat ?n - take_bit k (of_nat ?n)"
    unfolding aligned_w_def mk on and_not_mask_eq ..
  also have "take_bit k (of_nat ?n :: 'a word) = of_nat (take_bit k ?n)"
    by (rule bit_word_eqI) (auto simp: bit_simps)
  also have "of_nat ?n - of_nat (take_bit k ?n) = (of_nat (?n - take_bit k ?n) :: 'a word)"
    by (rule of_nat_diff [symmetric]) (simp add: take_bit_nat_less_eq_self)
  also have "?n - take_bit k ?n = align_up n (2 ^ k)"
    by (simp add: align_up_def take_bit_eq_mod minus_mod_eq_div_mult)
  finally show ?thesis .
qed

section \<open>Groups of seven bits\<close>

lemma and_7F: "unat (x AND 0x7F :: u8) = unat x mod 128"
proof -
  have "(0x7F :: u8) = mask 7" by (simp add: mask_eq_exp_minus_1)
  then show ?thesis using unat_and_mask [of x 7] by simp
qed

lemma and_80: "(x AND 0x80 :: u8) = 0 \<longleftrightarrow> unat x < 128"
proof -
  have "(x AND 0x80 :: u8) = 0 \<longleftrightarrow> \<not> bit x 7"
    using and_exp_eq_0_iff_not_bit [of x 7] by simp
  moreover have "bit x 7 \<longleftrightarrow> odd (unat x div 2 ^ 7)"
    using bit_unsigned_iff [of x 7, where ?'a = nat] by (simp add: bit_iff_odd)
  moreover have "odd (unat x div 128) \<longleftrightarrow> \<not> unat x < 128"
  proof (cases "unat x < 128")
    case False
    then have "unat x div 128 = 1" using u8_bound [of x] by (simp add: div_nat_eqI)
    with False show ?thesis by simp
  qed simp
  ultimately show ?thesis by simp
qed

lemma or_add_low:
  assumes m: "m < 2 ^ s"
  shows "push_bit s v OR of_nat m = v * 2 ^ s + (of_nat m :: u64)"
proof -
  have "\<not> bit (of_nat m :: u64) n" if "s \<le> n" for n
  proof -
    have "m < 2 ^ n" using power_increasing [OF that, of "2::nat"] m by (meson less_le_trans one_le_numeral)
    then have "\<not> bit m n" by (simp add: bit_iff_odd)
    then show ?thesis by (simp add: bit_simps)
  qed
  then have "push_bit s v OR of_nat m = push_bit s v + (of_nat m :: u64)"
    by (intro disjunctive_add [symmetric]) (auto simp: bit_simps not_le)
  then show ?thesis by (simp add: push_bit_eq_mult)
qed

section \<open>Integers in memory\<close>

text \<open>The little-endian value of a run of bytes, and the bytes of a value.\<close>

fun le_nat :: "u8 list \<Rightarrow> nat" where
  "le_nat [] = 0"
| "le_nat (b # bs) = unat b + 256 * le_nat bs"

fun le_bytes :: "nat \<Rightarrow> nat \<Rightarrow> u8 list" where
  "le_bytes 0 v = []"
| "le_bytes (Suc n) v = of_nat (v mod 256) # le_bytes n (v div 256)"

lemma length_le_bytes [simp]: "length (le_bytes n v) = n"
  by (induction n arbitrary: v) auto

lemma le_bytes_numeral:
  "le_bytes (numeral k) v = of_nat (v mod 256) # le_bytes (pred_numeral k) (v div 256)"
  by (simp only: numeral_eq_Suc [of k] le_bytes.simps)

lemma le_nat_bound: "le_nat bs < 256 ^ length bs"
proof (induction bs)
  case (Cons b bs)
  have "unat b < 256" by (rule u8_bound)
  with Cons show ?case by simp
qed simp

lemma le_nat_le_bytes: "le_nat (le_bytes n v) = v mod 256 ^ n"
proof (induction n arbitrary: v)
  case (Suc n)
  have "v mod (256 * 256 ^ n) = 256 * (v div 256 mod 256 ^ n) + v mod 256"
    by (rule mod_mult2_eq)
  then show ?case by (simp add: Suc unat_of_nat_mod)
qed simp

lemma le_bytes_le_nat: "le_bytes (length bs) (le_nat bs) = bs"
  by (induction bs) (auto simp: u8_bound div_mult_self2 )

lemma le_nat_append: "le_nat (xs @ ys) = le_nat xs + 256 ^ length xs * le_nat ys"
  by (induction xs) (auto simp: algebra_simps)

end
