(* ===== verification/C_Library.thy ===== *)
theory C_Library
  imports Acts_Prelude
begin

text \<open>
  The functions of the C and C++ standard library the components call, on byte strings:
  character classes of the C locale, \<^verbatim>\<open>strtoull\<close>/\<^verbatim>\<open>strtoll\<close> and the integer conversions of
  \<^verbatim>\<open>printf\<close> (\<^verbatim>\<open>%llx\<close>, \<^verbatim>\<open>%lld\<close>), with the round trip between printing and parsing.
\<close>

section \<open>Character classes\<close>

definition c_isspace :: "u8 \<Rightarrow> bool" where
  "c_isspace c \<longleftrightarrow> c = 32 \<or> (9 \<le> c \<and> c \<le> 13)"

definition c_isdigit :: "u8 \<Rightarrow> bool" where
  "c_isdigit c \<longleftrightarrow> 48 \<le> c \<and> c \<le> 57"

definition c_isalpha :: "u8 \<Rightarrow> bool" where
  "c_isalpha c \<longleftrightarrow> (65 \<le> c \<and> c \<le> 90) \<or> (97 \<le> c \<and> c \<le> 122)"

definition c_isalnum :: "u8 \<Rightarrow> bool" where
  "c_isalnum c \<longleftrightarrow> c_isalpha c \<or> c_isdigit c"

definition c_tolower :: "u8 \<Rightarrow> u8" where
  "c_tolower c = (if 65 \<le> c \<and> c \<le> 90 then c + 32 else c)"

lemma c_isspace_0 [simp]: "\<not> c_isspace 0"
  by (simp add: c_isspace_def)

section \<open>Parsing integers\<close>

text \<open>The value of a digit or letter in a base, \<open>None\<close> when it is not a digit of that base.\<close>

definition digit_val :: "nat \<Rightarrow> u8 \<Rightarrow> nat option" where
  "digit_val b c =
     (let v = (if c_isdigit c then unat c - 48
               else if 97 \<le> c \<and> c \<le> 122 then unat c - 87
               else if 65 \<le> c \<and> c \<le> 90 then unat c - 55
               else b)
      in if v < b then Some v else None)"

definition is_digit_in :: "nat \<Rightarrow> u8 \<Rightarrow> bool" where
  "is_digit_in b c \<longleftrightarrow> digit_val b c \<noteq> None"

text \<open>The number a run of digits denotes.\<close>

fun digits_value :: "nat \<Rightarrow> nat \<Rightarrow> u8 list \<Rightarrow> nat" where
  "digits_value b acc [] = acc"
| "digits_value b acc (c # cs) =
     (case digit_val b c of None \<Rightarrow> acc | Some v \<Rightarrow> digits_value b (b * acc + v) cs)"

text \<open>An optional sign: whether it is a minus, and the rest.\<close>

definition take_sign :: "cstr \<Rightarrow> bool \<times> cstr" where
  "take_sign s =
     (case s of [] \<Rightarrow> (False, [])
      | c # cs \<Rightarrow> if c = 45 then (True, cs) else if c = 43 then (False, cs) else (False, s))"

text \<open>The optional \<^verbatim>\<open>0x\<close> prefix of base 16: skipped only in front of a hexadecimal digit.\<close>

definition skip_0x :: "nat \<Rightarrow> cstr \<Rightarrow> cstr" where
  "skip_0x b s =
     (case s of
        z # x # d # r \<Rightarrow>
          if b = 16 \<and> z = 48 \<and> (x = 120 \<or> x = 88) \<and> is_digit_in 16 d then d # r else s
      | _ \<Rightarrow> s)"

definition strto_parts :: "nat \<Rightarrow> cstr \<Rightarrow> bool \<times> nat" where
  "strto_parts b s =
     (let (neg, r) = take_sign (dropWhile c_isspace s)
      in (neg, digits_value b 0 (skip_0x b r)))"

text \<open>
  \<^verbatim>\<open>strtoull(s, nullptr, b)\<close>: \<^verbatim>\<open>ULLONG_MAX\<close> on overflow, the negated value after a minus sign.
\<close>

definition strtoull :: "nat \<Rightarrow> cstr \<Rightarrow> u64" where
  "strtoull b s =
     (let (neg, v) = strto_parts b s
      in if 2 ^ 64 \<le> v then - 1 else if neg then - of_nat v else of_nat v)"

text \<open>\<^verbatim>\<open>strtoll(s, nullptr, b)\<close>: saturates at the limits of \<^verbatim>\<open>long long\<close>.\<close>

definition strtoll :: "nat \<Rightarrow> cstr \<Rightarrow> int" where
  "strtoll b s =
     (let (neg, v) = strto_parts b s
      in if neg then max (- (2 ^ 63)) (- int v) else min (2 ^ 63 - 1) (int v))"

section \<open>Printing integers\<close>

definition digit_char :: "nat \<Rightarrow> u8" where
  "digit_char v = (if v < 10 then of_nat (48 + v) else of_nat (87 + v))"

fun fmt_nat :: "nat \<Rightarrow> nat \<Rightarrow> cstr" where
  "fmt_nat b n = (if b < 2 \<or> n < b then [digit_char n]
                  else fmt_nat b (n div b) @ [digit_char (n mod b)])"

declare fmt_nat.simps [simp del]

definition fmt_hex :: "u64 \<Rightarrow> cstr" where
  "fmt_hex w = fmt_nat 16 (unat w)"

definition fmt_dec :: "nat \<Rightarrow> cstr" where
  "fmt_dec n = fmt_nat 10 n"

lemma digit_val_digit_char: "v < b \<Longrightarrow> b \<le> 36 \<Longrightarrow> digit_val b (digit_char v) = Some v"
proof -
  assume v: "v < b" "b \<le> 36"
  show ?thesis
  proof (cases "v < 10")
    case True
    then have "unat (of_nat (48 + v) :: u8) = 48 + v"
      by (subst unat_of_nat) (simp add: take_bit_eq_mod)
    with True v show ?thesis
      by (simp add: digit_val_def digit_char_def c_isdigit_def word_le_nat_alt del: of_nat_add)
  next
    case False
    with v have "unat (of_nat (87 + v) :: u8) = 87 + v"
      by (subst unat_of_nat) (simp add: take_bit_eq_mod)
    with False v show ?thesis
      by (simp add: digit_val_def digit_char_def c_isdigit_def word_le_nat_alt del: of_nat_add)
  qed
qed

lemma digits_value_append:
  "(\<forall>c \<in> set xs. is_digit_in b c) \<Longrightarrow>
   digits_value b acc (xs @ ys) = digits_value b (digits_value b acc xs) ys"
  by (induction xs arbitrary: acc) (auto simp: is_digit_in_def split: option.splits)

lemma fmt_nat_digits: "2 \<le> b \<Longrightarrow> b \<le> 36 \<Longrightarrow> \<forall>c \<in> set (fmt_nat b n). is_digit_in b c"
proof (induction b n rule: fmt_nat.induct)
  case (1 b n)
  have d: "\<And>v. v < b \<Longrightarrow> is_digit_in b (digit_char v)"
    using "1.prems" by (simp add: is_digit_in_def digit_val_digit_char)
  show ?case
  proof (cases "b < 2 \<or> n < b")
    case True
    with "1.prems" d show ?thesis by (subst fmt_nat.simps) auto
  next
    case False
    with "1.IH" "1.prems" d [of "n mod b"] show ?thesis
      by (subst fmt_nat.simps) auto
  qed
qed

lemma digits_value_fmt_nat: "2 \<le> b \<Longrightarrow> b \<le> 36 \<Longrightarrow> digits_value b 0 (fmt_nat b n) = n"
proof (induction b n rule: fmt_nat.induct)
  case (1 b n)
  show ?case
  proof (cases "b < 2 \<or> n < b")
    case True
    with "1.prems" show ?thesis
      by (subst fmt_nat.simps) (auto simp: digit_val_digit_char)
  next
    case False
    then have "digits_value b 0 (fmt_nat b (n div b)) = n div b"
      using "1.IH" "1.prems" by simp
    with False "1.prems" show ?thesis
      by (subst fmt_nat.simps)
        (simp add: digits_value_append fmt_nat_digits digit_val_digit_char)
  qed
qed

lemma fmt_nat_ne_Nil [simp]: "fmt_nat b n \<noteq> []"
  by (subst fmt_nat.simps) simp

lemma hex_digit_class:
  "is_digit_in 16 c \<Longrightarrow> c \<noteq> 0 \<and> \<not> c_isspace c \<and> c \<noteq> 45 \<and> c \<noteq> 43 \<and> c \<noteq> 120 \<and> c \<noteq> 88"
  by (auto simp: is_digit_in_def digit_val_def c_isdigit_def c_isspace_def Let_def
      word_le_nat_alt split: if_splits)

lemma no_nul_fmt_hex [simp]: "no_nul (fmt_hex w)"
  using fmt_nat_digits [of 16 "unat w"] hex_digit_class
  by (auto simp: no_nul_def fmt_hex_def)

lemma strto_parts_hex:
  assumes d: "\<forall>c \<in> set s. is_digit_in 16 c"
  shows "strto_parts 16 s = (False, digits_value 16 0 s)"
proof -
  have cls: "\<And>c. c \<in> set s \<Longrightarrow> \<not> c_isspace c \<and> c \<noteq> 45 \<and> c \<noteq> 43 \<and> c \<noteq> 120 \<and> c \<noteq> 88"
    using d hex_digit_class by blast
  have "dropWhile c_isspace s = s"
    using cls by (cases s) auto
  moreover have "take_sign s = (False, s)"
    using cls by (cases s) (auto simp: take_sign_def)
  moreover have "skip_0x 16 s = s"
    using cls by (auto simp: skip_0x_def split: list.splits)
  ultimately show ?thesis
    by (simp add: strto_parts_def)
qed

text \<open>What \<^verbatim>\<open>%llx\<close> prints, \<^verbatim>\<open>strtoull(..., 16)\<close> reads back.\<close>

lemma strtoull_fmt_hex [simp]: "strtoull 16 (fmt_hex w) = w"
proof -
  have "unat w < 2 ^ 64"
    by (rule u64_bound)
  then show ?thesis
    by (simp add: strtoull_def fmt_hex_def strto_parts_hex fmt_nat_digits digits_value_fmt_nat)
qed

section \<open>Comparison of memory and strings\<close>

text \<open>\<^verbatim>\<open>memcmp\<close> and \<^verbatim>\<open>strcmp\<close> compare bytes as unsigned values; only the sign of the result means something.\<close>

fun c_memcmp :: "u8 list \<Rightarrow> u8 list \<Rightarrow> nat \<Rightarrow> int" where
  "c_memcmp (a # as) (b # bs) (Suc n) = (if a = b then c_memcmp as bs n else if a < b then - 1 else 1)"
| "c_memcmp _ _ _ = 0"

fun c_strcmp :: "cstr \<Rightarrow> cstr \<Rightarrow> int" where
  "c_strcmp (a # as) (b # bs) =
     (if a \<noteq> b then (if a < b then - 1 else 1) else if a = 0 then 0 else c_strcmp as bs)"
| "c_strcmp [] [] = 0"
| "c_strcmp [] (b # bs) = (if b = 0 then 0 else - 1)"
| "c_strcmp (a # as) [] = (if a = 0 then 0 else 1)"

end
