(* ===== verification/Hash_Mini.thy ===== *)
theory Hash_Mini
  imports C_Library
begin

text \<open>
  The hash functions of the game engines, \<^verbatim>\<open>src/core/shared/utils/hash_mini.hpp\<close> and
  \<^verbatim>\<open>src/core/shared/utils/hash.hpp\<close>: the FNV-1a family, the two 32-bit script hashes, the
  salted ("secure") hashes, the multiplicative ones, and the \<^verbatim>\<open>hash_1234\<close> patterns.

  A \<^verbatim>\<open>char\<close> is signed, so a byte from 128 on is sign-extended where the code widens it to
  \<^verbatim>\<open>uint64_t\<close> or \<^verbatim>\<open>uint32_t\<close> (\<open>scast\<close>); the wide-character versions mask with \<^verbatim>\<open>0xFF\<close> first.
\<close>

section \<open>Constants\<close>

definition MASK32 :: u64 where "MASK32 = 0xFFFFFFFF"
definition MASK60 :: u64 where "MASK60 = 0xFFFFFFFFFFFFFFF"
definition MASK63 :: u64 where "MASK63 = 0x7FFFFFFFFFFFFFFF"

definition IV_DEFAULT :: u64 where "IV_DEFAULT = 0x100000001b3"
definition IV_32_DEFAULT :: u64 where "IV_32_DEFAULT = 0x1000193"
definition IV_TYPE2 :: u64 where "IV_TYPE2 = 0x10000000233"
definition IV_TYPE3 :: u64 where "IV_TYPE3 = 0x100000002C1"

definition FNV1A_PRIME :: u64 where "FNV1A_PRIME = 0xcbf29ce484222325"
definition FNV1A_32_PRIME :: u64 where "FNV1A_32_PRIME = 0x811C9DC5"
definition FNV1A_IW_ASSET_PRIME :: u64 where "FNV1A_IW_ASSET_PRIME = 0x47F5817A5EF961BA"
definition FNV1A_IW_SCR_PRIME :: u64 where "FNV1A_IW_SCR_PRIME = 0x79D6530B0BB9B5D1"
definition FNV1A_IW_DVAR_OFFSET :: u64 where "FNV1A_IW_DVAR_OFFSET = 0xD86A3B09566EBAAC"
definition FNV1A_T10_OMNVAR_OFFSET :: u64 where "FNV1A_T10_OMNVAR_OFFSET = 0xCBF28CE593123345"
definition FNV1A_T10_SCR_OFFSET :: u64 where "FNV1A_T10_SCR_OFFSET = 0x1C2F2E3C8A257D07"
definition FNV1A_32_T7_PRIME :: u32 where "FNV1A_32_T7_PRIME = 0x4B9ACE2F"

definition XHASHSEC_DVAR_STR :: cstr where "XHASHSEC_DVAR_STR = cstr_of ''q6n-+7=tyytg94_*''"
definition XHASHSEC_T10_SCR_STR :: cstr where "XHASHSEC_T10_SCR_STR = cstr_of ''zt@f3yp(d[kkd=_@''"
definition XHASHSEC_T10_OMNVAR_STR :: cstr where "XHASHSEC_T10_OMNVAR_STR = cstr_of ''gvbs9*vpm@mh@krh''"

section \<open>The FNV-1a loop and the hashes built on it\<close>

definition lowerc :: "u8 \<Rightarrow> u8" where
  "lowerc c = (if 65 \<le> c \<and> c \<le> 90 then 97 + (c - 65)
               else if c = 92 then 47
               else c)"

fun Hash64A :: "cstr \<Rightarrow> u64 \<Rightarrow> u64 \<Rightarrow> u64" where
  "Hash64A [] h iv = h"
| "Hash64A (c # cs) h iv =
     (if c = 0 then h else Hash64A cs ((h XOR scast (lowerc c)) * iv) iv)"

fun HashT89ScrPre :: "cstr \<Rightarrow> u32 \<Rightarrow> u32" where
  "HashT89ScrPre [] h = h"
| "HashT89ScrPre (c # cs) h =
     (if c = 0 then h
      else (let x = scast (lowerc c) + h
            in HashT89ScrPre cs ((x XOR push_bit 10 x) + drop_bit 6 (x XOR push_bit 10 x))))"

definition HashT89ScrPost :: "u32 \<Rightarrow> u32" where
  "HashT89ScrPost h = 0x8001 * ((9 * h) XOR drop_bit 11 (9 * h))"

definition HashT7Pre :: "cstr \<Rightarrow> u32 \<Rightarrow> u32" where
  "HashT7Pre s start = ucast (Hash64A s (ucast start) IV_32_DEFAULT AND MASK32)"

definition HashT7Post :: "u32 \<Rightarrow> u32" where
  "HashT7Post h = ucast ((ucast h :: u64) * IV_32_DEFAULT)"

definition Hash64 :: "cstr \<Rightarrow> u64 \<Rightarrow> u64 \<Rightarrow> u64" where
  "Hash64 s start iv = Hash64A s start iv AND MASK63"

definition HashT10ScrSPPre :: "cstr \<Rightarrow> u64 \<Rightarrow> u64" where
  "HashT10ScrSPPre s start = Hash64A s start IV_TYPE2"

definition HashT10ScrSPPost :: "u64 \<Rightarrow> u64" where
  "HashT10ScrSPPost h = Hash64A XHASHSEC_T10_SCR_STR h IV_TYPE2"

text \<open>A \<^verbatim>\<open>nullptr\<close> string is \<open>None\<close>.\<close>

definition HashSecure :: "cstr \<Rightarrow> u64 \<Rightarrow> cstr option \<Rightarrow> u64 \<Rightarrow> u64" where
  "HashSecure pat start str iv =
     (case str of
        None \<Rightarrow> 0
      | Some [] \<Rightarrow> 0
      | Some (c # cs) \<Rightarrow>
          if c = 0 then 0
          else (let base = Hash64A pat ((start XOR scast (lowerc c)) * iv) iv
                in Hash64A cs base iv))"

fun HashPrime :: "cstr \<Rightarrow> u32 \<Rightarrow> u32 \<Rightarrow> u32" where
  "HashPrime [] h p = h"
| "HashPrime (c # cs) h p = (if c = 0 then h else HashPrime cs (p * h + scast (lowerc c)) p)"

fun HashDJB2 :: "cstr \<Rightarrow> u32 \<Rightarrow> u32 \<Rightarrow> u32" where
  "HashDJB2 [] h p = h"
| "HashDJB2 (c # cs) h p = (if c = 0 then h else HashDJB2 cs ((p * h) XOR scast (lowerc c)) p)"

fun HashKVP_loop :: "cstr \<Rightarrow> u64 \<Rightarrow> u64 \<Rightarrow> u64" where
  "HashKVP_loop [] acc mul = acc"
| "HashKVP_loop (c # cs) acc mul =
     (if c = 0 then acc else HashKVP_loop cs (acc + mul * scast (lowerc c)) (mul + 1))"

definition HashKVP :: "cstr option \<Rightarrow> u64 \<Rightarrow> u64 \<Rightarrow> u64" where
  "HashKVP str acc mul =
     (case str of
        None \<Rightarrow> 0
      | Some s \<Rightarrow>
          if c_chars s = [] then 0
          else (let a = HashKVP_loop s acc mul
                in a XOR drop_bit 10 (a XOR drop_bit 10 a)))"

section \<open>The named algorithms\<close>

definition HashX64 :: "cstr \<Rightarrow> u64 \<Rightarrow> u64" where
  "HashX64 s start = Hash64A s start IV_DEFAULT"

definition HashX63 :: "cstr \<Rightarrow> u64 \<Rightarrow> u64" where
  "HashX63 s start = Hash64 s start IV_DEFAULT"

definition HashX32 :: "cstr \<Rightarrow> u64 \<Rightarrow> u64" where
  "HashX32 s start = Hash64 s start IV_32_DEFAULT AND MASK32"

definition HashT7 :: "cstr \<Rightarrow> u32" where
  "HashT7 s = HashT7Post (HashT7Pre s FNV1A_32_T7_PRIME)"

definition HashT89Scr :: "cstr \<Rightarrow> u32" where
  "HashT89Scr s = HashT89ScrPost (HashT89ScrPre s FNV1A_32_T7_PRIME)"

definition HashIWAsset :: "cstr \<Rightarrow> u64 \<Rightarrow> u64" where
  "HashIWAsset s start = Hash64 s start IV_DEFAULT"

definition HashJupScr :: "cstr \<Rightarrow> u64 \<Rightarrow> u64" where
  "HashJupScr s start = Hash64A s start IV_TYPE2"

definition HashIWDVar :: "cstr \<Rightarrow> u64 \<Rightarrow> u64" where
  "HashIWDVar s start =
     (if start = 0 then HashSecure XHASHSEC_DVAR_STR FNV1A_IW_DVAR_OFFSET (Some s) IV_TYPE2
      else Hash64A s start IV_TYPE2)"

definition HashT10Scr :: "cstr \<Rightarrow> u64 \<Rightarrow> u64" where
  "HashT10Scr s start =
     (if start = 0 then HashSecure XHASHSEC_T10_SCR_STR FNV1A_T10_SCR_OFFSET (Some s) IV_TYPE2
      else Hash64A s start IV_TYPE2)"

definition HashT10ScrSP :: "cstr \<Rightarrow> u64" where
  "HashT10ScrSP s = HashT10ScrSPPost (HashT10ScrSPPre s FNV1A_T10_SCR_OFFSET)"

definition HashT10OmnVar :: "cstr \<Rightarrow> u64 \<Rightarrow> u64" where
  "HashT10OmnVar s start =
     (if start = 0 then HashSecure XHASHSEC_T10_OMNVAR_STR FNV1A_T10_OMNVAR_OFFSET (Some s) IV_TYPE3
      else Hash64A s start IV_TYPE3)"

text \<open>The \<^verbatim>\<open>std::string\<close> overloads of \<^verbatim>\<open>hash.hpp\<close>: these two do not pass \<open>start\<close> on.\<close>

definition HashIWAsset_str :: "cstr \<Rightarrow> u64 \<Rightarrow> u64" where
  "HashIWAsset_str s start = HashIWAsset s FNV1A_IW_ASSET_PRIME"

definition HashJupScr_str :: "cstr \<Rightarrow> u64 \<Rightarrow> u64" where
  "HashJupScr_str s start = HashJupScr s FNV1A_IW_SCR_PRIME"

section \<open>Wide characters and sized strings\<close>

type_synonym wcstr = "16 word list"

definition lowerc_w :: "16 word \<Rightarrow> 16 word" where
  "lowerc_w c = (if 65 \<le> c \<and> c \<le> 90 then 97 + (c - 65)
                 else if c = 92 then 47
                 else c)"

fun HashT89Scr_w_loop :: "wcstr \<Rightarrow> u32 \<Rightarrow> u32" where
  "HashT89Scr_w_loop [] h = h"
| "HashT89Scr_w_loop (w # ws) h =
     (if w = 0 then h
      else (let c = (ucast (lowerc_w w AND 0xFF) :: u8);
                x = scast c + h
            in HashT89Scr_w_loop ws ((x XOR push_bit 10 x) + drop_bit 6 (x XOR push_bit 10 x))))"

definition HashT89Scr_w :: "wcstr \<Rightarrow> u32" where
  "HashT89Scr_w s = (let h = HashT89Scr_w_loop s 0x4B9ACE2F
                     in 0x8001 * ((9 * h) XOR drop_bit 11 (9 * h)))"

fun Hash64A_w :: "wcstr \<Rightarrow> u64 \<Rightarrow> u64 \<Rightarrow> u64" where
  "Hash64A_w [] h iv = h"
| "Hash64A_w (w # ws) h iv =
     (if w = 0 then h else Hash64A_w ws ((h XOR ucast (lowerc_w w AND 0xFF)) * iv) iv)"

text \<open>\<^verbatim>\<open>Hash64AStr\<close> and \<^verbatim>\<open>Hash64Str\<close> hash every element of the container, zeros included.\<close>

fun Hash64AStr :: "u8 list \<Rightarrow> u64 \<Rightarrow> u64 \<Rightarrow> u64" where
  "Hash64AStr [] h iv = h"
| "Hash64AStr (c # cs) h iv = Hash64AStr cs ((h XOR scast (lowerc c)) * iv) iv"

definition Hash64Str :: "u8 list \<Rightarrow> u64 \<Rightarrow> u64 \<Rightarrow> u64" where
  "Hash64Str s start iv = Hash64AStr s start iv AND MASK63"

section \<open>Hash patterns\<close>

text \<open>
  The prefixes of \<^verbatim>\<open>TryHashPattern\<close>, in the order it tests them. What follows the prefix is read
  by \<^verbatim>\<open>strtoull\<close> in base 16. The empty string is the hash 0.
\<close>

definition pattern_prefixes :: "cstr list" where
  "pattern_prefixes = map cstr_of
     [''var_'', ''event_'', ''function_'', ''namespace_'', ''script_'', ''hash_'', ''file_'']"

fun starts_with :: "'a list \<Rightarrow> 'a list \<Rightarrow> bool" where
  "starts_with [] s = True"
| "starts_with (p # ps) [] = False"
| "starts_with (p # ps) (c # cs) = (p = c \<and> starts_with ps cs)"

fun try_prefixes :: "cstr list \<Rightarrow> cstr \<Rightarrow> u64 option" where
  "try_prefixes [] s = None"
| "try_prefixes (p # ps) s =
     (if starts_with p s then Some (strtoull 16 (drop (length p) s)) else try_prefixes ps s)"

definition TryHashPattern :: "cstr \<Rightarrow> u64 option" where
  "TryHashPattern str =
     (let s = c_chars str
      in if s = [] then Some 0 else try_prefixes pattern_prefixes s)"

definition HashPattern :: "cstr \<Rightarrow> u64" where
  "HashPattern str = (case TryHashPattern str of Some v \<Rightarrow> v | None \<Rightarrow> 0)"

definition Hash64Pattern :: "cstr \<Rightarrow> u64 \<Rightarrow> u64 \<Rightarrow> u64" where
  "Hash64Pattern str start iv =
     (case TryHashPattern str of Some v \<Rightarrow> v | None \<Rightarrow> Hash64 str start iv)"

section \<open>The interface of the character hashes\<close>

text \<open>
  Every loop above folds a step function over the normalised characters of the string, up to the
  terminator. What the clients rely on follows from that shape: a hash can be continued from the
  hash of a prefix, and neither letter case nor the path separator matters. Where the step is
  injective in the running value, the hash of a prefix is determined by the hash of the whole.
\<close>

locale char_hash =
  fixes hash :: "cstr \<Rightarrow> 'h \<Rightarrow> 'h" and step :: "u8 \<Rightarrow> 'h \<Rightarrow> 'h"
  assumes hash_Nil: "hash [] h = h"
    and hash_Cons: "hash (c # cs) h = (if c = 0 then h else hash cs (step (lowerc c) h))"

locale invertible_char_hash = char_hash hash step
  for hash :: "cstr \<Rightarrow> 'h \<Rightarrow> 'h" and step :: "u8 \<Rightarrow> 'h \<Rightarrow> 'h" +
  assumes step_inj: "step c h = step c h' \<Longrightarrow> h = h'"

lemma lowerc_eq_0_iff [simp]: "lowerc c = 0 \<longleftrightarrow> c = 0"
  unfolding lowerc_def by (auto simp: word_le_nat_alt unat_word_ariths dest!: arg_cong [where f = unat])

lemma lowerc_idem [simp]: "lowerc (lowerc c) = lowerc c"
proof (cases "65 \<le> c \<and> c \<le> 90")
  case True
  then have "unat (97 + (c - 65)) = unat c + 32"
    by (simp add: unat_word_ariths word_le_nat_alt unat_sub)
  moreover have "unat c + 32 \<noteq> unat (92 :: u8)" "\<not> unat c + 32 \<le> unat (90 :: u8)"
    using True by (auto simp: word_le_nat_alt)
  ultimately show ?thesis
    using True by (auto simp: lowerc_def word_le_nat_alt)
qed (auto simp: lowerc_def)

context char_hash
begin

lemma hash_append: "no_nul s \<Longrightarrow> hash (s @ t) h = hash t (hash s h)"
  by (induction s arbitrary: h) (auto simp: hash_Nil hash_Cons)

lemma hash_c_chars: "hash (c_chars s) h = hash s h"
  by (induction s arbitrary: h) (auto simp: hash_Nil hash_Cons c_chars_def)

lemma hash_map_lowerc: "hash (map lowerc s) h = hash s h"
  by (induction s arbitrary: h) (auto simp: hash_Nil hash_Cons)

lemma hash_normalised: "map lowerc s = map lowerc t \<Longrightarrow> hash s h = hash t h"
  by (metis hash_map_lowerc)

end

context invertible_char_hash
begin

lemma hash_seed_inj: "hash s h = hash s h' \<longleftrightarrow> h = h'"
  by (induction s arbitrary: h h') (auto simp: hash_Nil hash_Cons dest: step_inj)

lemma hash_suffix_cancel:
  "no_nul s \<Longrightarrow> no_nul s' \<Longrightarrow> hash (s @ t) h = hash (s' @ t) h' \<longleftrightarrow> hash s h = hash s' h'"
  by (simp add: hash_append hash_seed_inj)

end

section \<open>The hashes provide the interface\<close>

lemma odd_mult_eq_0:
  fixes a z :: "'a::len word"
  assumes "odd (uint a)" and "a * z = 0"
  shows "z = 0"
proof -
  have "uint (a * z) = (uint a * uint z) mod 2 ^ LENGTH('a)"
    by (simp add: uint_word_ariths)
  with assms(2) have "2 ^ LENGTH('a) dvd uint a * uint z"
    by (simp add: dvd_eq_mod_eq_0)
  moreover have "coprime (2 ^ LENGTH('a)) (uint a)"
    using assms(1) by simp
  ultimately have "2 ^ LENGTH('a) dvd uint z"
    by (metis coprime_dvd_mult_right_iff)
  moreover have "0 \<le> uint z" "uint z < 2 ^ LENGTH('a)"
    by simp_all
  ultimately have "uint z = 0"
    by (metis mod_pos_pos_trivial dvd_eq_mod_eq_0)
  then show ?thesis by (simp add: uint_0_iff)
qed

lemma odd_mult_cancel:
  fixes a x y :: "'a::len word"
  assumes "odd (uint a)" and "a * x = a * y"
  shows "x = y"
proof -
  have "a * (x - y) = 0" using assms(2) by (simp add: right_diff_distrib)
  then have "x - y = 0" by (rule odd_mult_eq_0 [OF assms(1)])
  then show ?thesis by simp
qed

lemma word_xor_cancel: "(x :: 'a::len word) XOR c = y XOR c \<Longrightarrow> x = y"
  by (metis xor.assoc xor_self_eq xor.right_neutral)

definition fnv_step :: "u64 \<Rightarrow> u8 \<Rightarrow> u64 \<Rightarrow> u64" where
  "fnv_step iv c h = (h XOR scast c) * iv"

lemma fnv_step_inj: "odd (uint iv) \<Longrightarrow> fnv_step iv c h = fnv_step iv c h' \<Longrightarrow> h = h'"
  unfolding fnv_step_def by (metis mult.commute odd_mult_cancel word_xor_cancel)

lemma odd_ivs:
  "odd (uint IV_DEFAULT)" "odd (uint IV_32_DEFAULT)" "odd (uint IV_TYPE2)" "odd (uint IV_TYPE3)"
  by (simp_all add: IV_DEFAULT_def IV_32_DEFAULT_def IV_TYPE2_def IV_TYPE3_def)

lemmas fnv_steps_inj = odd_ivs [THEN fnv_step_inj]

interpretation fnv: invertible_char_hash "\<lambda>s h. Hash64A s h IV_DEFAULT" "fnv_step IV_DEFAULT"
  by unfold_locales (simp add: fnv_step_def, simp add: fnv_step_def, rule fnv_steps_inj)

interpretation fnv32: invertible_char_hash "\<lambda>s h. Hash64A s h IV_32_DEFAULT" "fnv_step IV_32_DEFAULT"
  by unfold_locales (simp add: fnv_step_def, simp add: fnv_step_def, rule fnv_steps_inj)

interpretation fnv2: invertible_char_hash "\<lambda>s h. Hash64A s h IV_TYPE2" "fnv_step IV_TYPE2"
  by unfold_locales (simp add: fnv_step_def, simp add: fnv_step_def, rule fnv_steps_inj)

interpretation fnv3: invertible_char_hash "\<lambda>s h. Hash64A s h IV_TYPE3" "fnv_step IV_TYPE3"
  by unfold_locales (simp add: fnv_step_def, simp add: fnv_step_def, rule fnv_steps_inj)

interpretation fnv_any: char_hash "\<lambda>s h. Hash64A s h iv" "fnv_step iv" for iv
  by unfold_locales (simp_all add: fnv_step_def)

interpretation t89: char_hash HashT89ScrPre
  "\<lambda>c h. let x = scast c + h in (x XOR push_bit 10 x) + drop_bit 6 (x XOR push_bit 10 x)"
  by unfold_locales (simp_all add: Let_def)

interpretation djb2: invertible_char_hash "\<lambda>s h. HashDJB2 s h 33" "\<lambda>c h. (33 * h) XOR scast c"
  by unfold_locales (auto dest!: word_xor_cancel odd_mult_cancel [rotated])

interpretation prime33: invertible_char_hash "\<lambda>s h. HashPrime s h 33" "\<lambda>c h. 33 * h + scast c"
  by unfold_locales (auto dest!: odd_mult_cancel [rotated])

section \<open>Reference definitions\<close>

text \<open>The textbook FNV-1a loop in 32-bit arithmetic, the specification of the T7 hash.\<close>

fun fnv1a_32 :: "cstr \<Rightarrow> u32 \<Rightarrow> u32" where
  "fnv1a_32 [] h = h"
| "fnv1a_32 (c # cs) h = fnv1a_32 cs ((h XOR scast (lowerc c)) * 0x1000193)"

lemma Hash64A_low_bits: "ucast (Hash64A s h IV_32_DEFAULT) = fnv1a_32 (c_chars s) (ucast h)"
  by (induction s arbitrary: h)
    (simp_all add: c_chars_def ucast_down_mult ucast_down_xor ucast_scast_down IV_32_DEFAULT_def)

lemma salts_no_nul [simp]:
  "no_nul XHASHSEC_DVAR_STR" "no_nul XHASHSEC_T10_SCR_STR" "no_nul XHASHSEC_T10_OMNVAR_STR"
  by (simp_all add: XHASHSEC_DVAR_STR_def XHASHSEC_T10_SCR_STR_def XHASHSEC_T10_OMNVAR_STR_def
      cstr_of_def of_char_def)

lemma HashSecure_eq:
  "no_nul pat \<Longrightarrow> c \<noteq> 0 \<Longrightarrow> HashSecure pat start (Some (c # cs)) iv = Hash64A (c # pat @ cs) start iv"
  by (simp add: HashSecure_def fnv_any.hash_append)

section \<open>ASCII strings\<close>

lemma ascii_no_sign: "c < 128 \<Longrightarrow> \<not> bit (c::u8) 7"
proof -
  assume "c < 128"
  then have "unat c div 2 ^ 7 = 0" by (simp add: word_less_nat_alt)
  then have "\<not> bit (unat c) 7" by (simp add: bit_iff_odd)
  then show ?thesis by (simp add: bit_simps)
qed

lemma ascii_scast: "c < 128 \<Longrightarrow> scast (c::u8) = (ucast c :: 'b::len word)"
proof (rule bit_word_eqI)
  fix n assume c: "c < 128" and "n < LENGTH('b)"
  have "\<forall>n. 7 \<le> n \<longrightarrow> \<not> bit c n"
  proof (intro allI impI)
    fix n :: nat assume "7 \<le> n"
    show "\<not> bit c n"
      using ascii_no_sign [OF c] bit_imp_le_length [of c n] \<open>7 \<le> n\<close> by (cases "n = 7") auto
  qed
  then show "bit (scast c :: 'b word) n = bit (ucast c :: 'b word) n"
    by (cases "n < 7") (auto simp: bit_simps min_def)
qed

lemma lowerc_w_ascii: "lowerc_w (ucast c) = ucast (lowerc c)"
proof -
  have b: "unat c < 256" by (rule u8_bound)
  have u: "unat (c - 65) = unat c - 65" if "65 \<le> unat c" using that by (simp add: unat_sub word_le_nat_alt)
  have u2: "unat ((ucast c :: 16 word) - 65) = unat c - 65" if "65 \<le> unat c" using that b by (subst unat_sub) (simp_all add: word_le_nat_alt unat_ucast_up)
  show ?thesis using b
  by (auto simp add: lowerc_w_def lowerc_def word_le_nat_alt word_unat_eq_iff unat_word_ariths unat_ucast_up u u2)
qed

lemma lowerc_ascii: "c < 128 \<Longrightarrow> lowerc c < 128"
 by (auto simp add: lowerc_def word_le_nat_alt word_less_nat_alt unat_word_ariths unat_sub)

lemma and_ff: "(ucast (c :: u8) :: 16 word) AND 255 = ucast c"
proof -
  have m: "(255 :: 16 word) = mask 8" by (simp add: mask_eq_exp_minus_1)
  show ?thesis using u8_bound [of c] by (simp only: m word_unat_eq_iff unat_and_mask) (simp add: unat_ucast_up)
qed

lemma Hash64A_w_ascii: "\<forall>c \<in> set s. c < 128 \<Longrightarrow> Hash64A_w (map ucast s) h iv = Hash64A s h iv"
proof (induction s arbitrary: h)
  case (Cons c s)
  have "lowerc c < 128" using Cons.prems lowerc_ascii by simp
  then have "(ucast (lowerc_w (ucast c) AND 255) :: u64) = ucast (ucast (lowerc c) :: 16 word) \<and> (scast (lowerc c) :: u64) = ucast (lowerc c)"
    by (simp add: lowerc_w_ascii and_ff ascii_scast)
  then have "(ucast (lowerc_w (ucast c) AND 255) :: u64) = scast (lowerc c)"
    using u8_bound [of "lowerc c"] by (simp add: word_unat_eq_iff unat_ucast_up)
  moreover have "((ucast c :: 16 word) = 0) = (c = 0)"
    by (simp add: word_unat_eq_iff unat_ucast_up)
  ultimately show ?case using Cons by simp
qed simp

lemma HashT89Scr_w_ascii:
  "\<forall>c \<in> set s. c < 128 \<Longrightarrow> HashT89Scr_w_loop (map ucast s) h = HashT89ScrPre s h"
proof (induction s arbitrary: h)
  case (Cons c s)
  have "(ucast (lowerc_w (ucast c) AND 255) :: u8) = lowerc c"
    by (simp add: lowerc_w_ascii and_ff ucast_ucast_up)
  moreover have "((ucast c :: 16 word) = 0) = (c = 0)"
    by (simp add: word_unat_eq_iff unat_ucast_up)
  ultimately show ?case using Cons by (simp add: Let_def)
qed simp

section \<open>Properties of the hashes\<close>

text \<open>
  The salted hashes of the engine (dvars, script variables, omnvars) are the plain FNV-1a hash,
  with their own offset and multiplier, of the name with the secret salt inserted behind its first
  character; the single-player script hash is the one of the name with the salt at its end.
\<close>
theorem salted_hashes:
  assumes "c \<noteq> 0"
  shows "HashIWDVar (c # cs) 0 = Hash64A (c # XHASHSEC_DVAR_STR @ cs) FNV1A_IW_DVAR_OFFSET IV_TYPE2
    \<and> HashT10Scr (c # cs) 0 = Hash64A (c # XHASHSEC_T10_SCR_STR @ cs) FNV1A_T10_SCR_OFFSET IV_TYPE2
    \<and> HashT10OmnVar (c # cs) 0 =
        Hash64A (c # XHASHSEC_T10_OMNVAR_STR @ cs) FNV1A_T10_OMNVAR_OFFSET IV_TYPE3
    \<and> HashT10ScrSP (c # cs) = Hash64A (c_chars (c # cs) @ XHASHSEC_T10_SCR_STR) FNV1A_T10_SCR_OFFSET IV_TYPE2"
  using assms
  by (simp add: HashIWDVar_def HashT10Scr_def HashT10OmnVar_def HashT10ScrSP_def HashT10ScrSPPre_def
      HashT10ScrSPPost_def HashSecure_eq fnv2.hash_append fnv2.hash_c_chars del: Hash64A.simps)

theorem salted_hashes_witness:
  "HashIWDVar (cstr_of ''sv'') 0 = Hash64A (115 # XHASHSEC_DVAR_STR @ [118]) FNV1A_IW_DVAR_OFFSET IV_TYPE2"
  using salted_hashes [of 115 "[118]"] by (simp add: cstr_of_def of_char_def)

text \<open>
  For each multiplier the tools use, appending the same text to two names neither makes nor
  hides a collision, and a hash can be continued from the hash of a prefix: the step is a
  permutation of the 64-bit values.
\<close>
theorem hash_suffix_collision:
  assumes "no_nul s" and "no_nul s'"
    and "iv \<in> {IV_DEFAULT, IV_32_DEFAULT, IV_TYPE2, IV_TYPE3}"
  shows "Hash64A (s @ t) h iv = Hash64A t (Hash64A s h iv) iv
    \<and> (Hash64A (s @ t) h iv = Hash64A (s' @ t) h' iv \<longleftrightarrow> Hash64A s h iv = Hash64A s' h' iv)"
  using assms fnv.hash_suffix_cancel fnv32.hash_suffix_cancel fnv2.hash_suffix_cancel
    fnv3.hash_suffix_cancel fnv_any.hash_append by auto

theorem hash_suffix_collision_witness:
  "Hash64A (cstr_of ''a'' @ cstr_of ''.gsc'') 0 IV_TYPE2 = Hash64A (cstr_of ''A'' @ cstr_of ''.gsc'') 0 IV_TYPE2"
  using hash_suffix_collision [of "cstr_of ''a''" "cstr_of ''A''" IV_TYPE2 "cstr_of ''.gsc''" 0 0]
  by (simp add: cstr_of_def of_char_def lowerc_def)

text \<open>
  The Black Ops 3 script hash, which the code computes in 64-bit arithmetic masked to 32 bits,
  is the 32-bit FNV-1a hash of the normalised name multiplied once more by the FNV prime.
\<close>
theorem HashT7_is_fnv1a_32:
  "HashT7 s = fnv1a_32 (c_chars s) FNV1A_32_T7_PRIME * 0x1000193"
proof -
  have m: "MASK32 = mask 32" by (simp add: MASK32_def mask_eq_exp_minus_1)
  have "HashT7Pre s x = fnv1a_32 (c_chars s) x" for x
    by (simp add: HashT7Pre_def m ucast_and_mask Hash64A_low_bits ucast_ucast_up)
  then show ?thesis
    by (simp add: HashT7_def HashT7Post_def IV_32_DEFAULT_def ucast_down_mult ucast_ucast_up)
qed

text \<open>
  On ASCII names the wide-character versions of the hashes give the hashes of the narrow ones,
  although they are written with a mask instead of a sign extension.
\<close>
theorem wide_hashes_agree:
  assumes "\<forall>c \<in> set s. c < 128"
  shows "Hash64A_w (map ucast s) h iv = Hash64A s h iv
    \<and> HashT89Scr_w (map ucast s) = HashT89Scr s"
  using assms Hash64A_w_ascii HashT89Scr_w_ascii
  by (simp add: HashT89Scr_w_def HashT89Scr_def HashT89ScrPost_def FNV1A_32_T7_PRIME_def Let_def)

theorem wide_hashes_agree_witness:
  "Hash64A_w [77, 92] 5 7 = Hash64A [77, 92] 5 7"
  using wide_hashes_agree [of "[77, 92]" 5 7] by simp

end
