(* ===== verification/Hash_Store.thy ===== *)
theory Hash_Store
  imports Hash_Mini
begin

text \<open>
  The store of known names, \<^verbatim>\<open>src/core/shared/core/hashes/hash_store.cpp\<close>: a map from the low
  60 bits of a hash to a name, filled by \<^verbatim>\<open>Add\<close> with the hash of a name under every algorithm, and
  read by the \<^verbatim>\<open>Extract\<close> functions, which print unknown hashes as \<^verbatim>\<open>type_hash\<close>.

  The map holds names by value: \<^verbatim>\<open>CloneHashStr\<close> copies the string up to its terminator, and every
  insertion of \<^verbatim>\<open>Add\<close> clones.
\<close>

section \<open>The store\<close>

type_synonym store = "u64 \<rightharpoonup> cstr"

definition AddPrecomputed :: "store \<Rightarrow> u64 \<Rightarrow> cstr \<Rightarrow> store \<times> cstr" where
  "AddPrecomputed d value str =
     (case d (value AND MASK60) of
        Some kstr \<Rightarrow> (d, kstr)
      | None \<Rightarrow> (d((value AND MASK60) \<mapsto> c_chars str), c_chars str))"

definition Clean :: "store \<Rightarrow> store" where
  "Clean d = Map.empty"

definition ExtractPtr :: "store \<Rightarrow> u64 \<Rightarrow> cstr option" where
  "ExtractPtr d h = d (h AND MASK60)"

text \<open>\<^verbatim>\<open>snprintf\<close> into a buffer of \<open>n\<close> bytes: at most \<open>n - 1\<close> characters and the terminator.\<close>

definition snprintf_out :: "nat \<Rightarrow> cstr \<Rightarrow> cstr" where
  "snprintf_out n s = take (n - 1) s"

definition Extract :: "store \<Rightarrow> cstr \<Rightarrow> u64 \<Rightarrow> nat \<Rightarrow> bool \<times> cstr" where
  "Extract d type h outSize =
     (if h = 0 then (True, [])
      else (case d (h AND MASK60) of
              None \<Rightarrow> (False, snprintf_out outSize (type @ [95] @ fmt_hex h))
            | Some s \<Rightarrow> (True, snprintf_out outSize s)))"

text \<open>The thread-local ring of buffers of \<^verbatim>\<open>ExtractTmpPair\<close>: the index, and the ten buffers.\<close>

record tmp_buffers =
  bufferIndex :: nat
  buffers :: "cstr list"

definition ExtractTmpPair ::
  "store \<Rightarrow> cstr \<Rightarrow> u64 \<Rightarrow> tmp_buffers \<Rightarrow> (bool \<times> nat) \<times> tmp_buffers" where
  "ExtractTmpPair d type h t =
     (let i = (bufferIndex t + 1) mod 10;
          (ok, out) = Extract d type h 0x600
      in ((ok, i), t\<lparr>bufferIndex := i, buffers := (buffers t)[i := out]\<rparr>))"

section \<open>Adding a name\<close>

definition hash32_char :: "u8 \<Rightarrow> bool" where
  "hash32_char c \<longleftrightarrow> (65 \<le> c \<and> c \<le> 90) \<or> (97 \<le> c \<and> c \<le> 122) \<or> (48 \<le> c \<and> c \<le> 57) \<or> c = 95"

fun cand32_loop :: "cstr \<Rightarrow> bool" where
  "cand32_loop [] = True"
| "cand32_loop (c # cs) = (if c = 0 then True else if \<not> hash32_char c then False else cand32_loop cs)"

text \<open>\<^verbatim>\<open>_strcmpi(a, b) != 0\<close>.\<close>

definition strcmpi_differs :: "cstr \<Rightarrow> cstr \<Rightarrow> bool" where
  "strcmpi_differs a b \<longleftrightarrow> map c_tolower (c_chars a) \<noteq> map c_tolower (c_chars b)"

definition Add :: "store \<Rightarrow> cstr \<Rightarrow> bool \<Rightarrow> bool \<Rightarrow> store \<times> bool" where
  "Add d str ignoreCol iw =
     (let d = fst (AddPrecomputed d (Hash64 str FNV1A_PRIME IV_DEFAULT) str);
          d = (if iw then
                 let d = fst (AddPrecomputed d (HashIWAsset str FNV1A_IW_ASSET_PRIME) str);
                     d = fst (AddPrecomputed d (HashJupScr str FNV1A_IW_SCR_PRIME) str);
                     d = fst (AddPrecomputed d (Hash64 str 0x811C9DC5 0x1000193 AND 0xFFFFFFFF) str);
                     d = fst (AddPrecomputed d (HashIWDVar str 0) str);
                     d = fst (AddPrecomputed d (HashT10Scr str 0) str);
                     d = fst (AddPrecomputed d (HashT10ScrSP str) str)
                 in fst (AddPrecomputed d (HashT10OmnVar str 0) str)
               else d)
      in if cand32_loop str then
           let d = fst (AddPrecomputed d (ucast (HashT7 str)) str);
               h = ucast (HashT89Scr str);
               find = ExtractPtr d h
           in if \<not> ignoreCol \<and> find \<noteq> None \<and> strcmpi_differs str (the find)
              then (d, False)
              else (fst (AddPrecomputed d h str), True)
         else (d, True))"

section \<open>The interface of a first-wins store\<close>

text \<open>
  What the tools rely on: an insertion never changes a name that is already known, and a lookup
  after a series of insertions finds the first of them for that key.
\<close>

locale first_wins_store =
  fixes ins :: "'s \<Rightarrow> 'k \<Rightarrow> 'v \<Rightarrow> 's" and look :: "'s \<Rightarrow> 'k \<Rightarrow> 'v option" and norm :: "'k \<Rightarrow> 'k"
    and val :: "'v \<Rightarrow> 'v"
  assumes look_ins:
    "look (ins d k v) k' = (if norm k' = norm k \<and> look d k' = None then Some (val v) else look d k')"

context first_wins_store
begin

definition ins_all :: "'s \<Rightarrow> 'k list \<Rightarrow> 'v \<Rightarrow> 's" where
  "ins_all d ks v = foldl (\<lambda>d k. ins d k v) d ks"

lemma ins_all_Nil [simp]: "ins_all d [] v = d"
  by (simp add: ins_all_def)

lemma ins_all_Cons: "ins_all d (k # ks) v = ins_all (ins d k v) ks v"
  by (simp add: ins_all_def)

lemma look_ins_all:
  "look (ins_all d ks v) k =
     (if look d k = None \<and> norm k \<in> norm ` set ks then Some (val v) else look d k)"
  by (induction ks arbitrary: d) (auto simp: ins_all_Cons look_ins)

lemma look_mono: "look d k = Some w \<Longrightarrow> look (ins_all d ks v) k = Some w"
  by (simp add: look_ins_all)

end

interpretation names: first_wins_store "\<lambda>d k v. fst (AddPrecomputed d k v)" ExtractPtr
  "\<lambda>k. k AND MASK60" c_chars
  by unfold_locales (auto simp: AddPrecomputed_def ExtractPtr_def split: option.splits)

section \<open>What Add stores\<close>

text \<open>The hashes of a name under the algorithms \<^verbatim>\<open>Add\<close> applies to it, in its order.\<close>

definition iw_hashes :: "cstr \<Rightarrow> u64 list" where
  "iw_hashes s =
     [HashIWAsset s FNV1A_IW_ASSET_PRIME, HashJupScr s FNV1A_IW_SCR_PRIME,
      Hash64 s 0x811C9DC5 0x1000193 AND 0xFFFFFFFF, HashIWDVar s 0, HashT10Scr s 0,
      HashT10ScrSP s, HashT10OmnVar s 0]"

definition main_hashes :: "cstr \<Rightarrow> bool \<Rightarrow> u64 list" where
  "main_hashes s iw = Hash64 s FNV1A_PRIME IV_DEFAULT # (if iw then iw_hashes s else [])"

definition T7_hash :: "cstr \<Rightarrow> u64" where "T7_hash s = ucast (HashT7 s)"
definition T89_hash :: "cstr \<Rightarrow> u64" where "T89_hash s = ucast (HashT89Scr s)"

text \<open>A name refused for its T8/T9 script hash: another name is already stored under it.\<close>

definition collides :: "store \<Rightarrow> cstr \<Rightarrow> bool" where
  "collides d s = (case ExtractPtr d (T89_hash s) of None \<Rightarrow> False | Some t \<Rightarrow> strcmpi_differs s t)"

definition stored_hashes :: "store \<Rightarrow> cstr \<Rightarrow> bool \<Rightarrow> bool \<Rightarrow> u64 list" where
  "stored_hashes d s ignoreCol iw =
     main_hashes s iw @
     (if cand32_loop s then
        T7_hash s # (if \<not> ignoreCol \<and> collides d s then [] else [T89_hash s])
      else [])"

lemma ins_all_append: "names.ins_all d (ks @ ls) v = names.ins_all (names.ins_all d ks v) ls v"
  by (simp add: names.ins_all_def)

lemma strcmpi_differs_refl [simp]: "\<not> strcmpi_differs s (c_chars s)" "\<not> strcmpi_differs s s"
  by (simp_all add: strcmpi_differs_def c_chars_id)

lemma collides_ins_all: "collides (names.ins_all d ks s) s = collides d s"
  by (auto simp: collides_def names.look_ins_all split: option.splits)

lemma Add_unfold:
  "Add d s ignoreCol iw =
     (let d1 = names.ins_all d (main_hashes s iw) s; d2 = fst (AddPrecomputed d1 (T7_hash s) s);
          find = ExtractPtr d2 (T89_hash s)
      in if cand32_loop s then
           (if \<not> ignoreCol \<and> find \<noteq> None \<and> strcmpi_differs s (the find) then (d2, False)
            else (fst (AddPrecomputed d2 (T89_hash s) s), True))
         else (d1, True))"
  unfolding Add_def main_hashes_def iw_hashes_def T7_hash_def T89_hash_def names.ins_all_def
  by (cases iw) (simp_all only: Let_def foldl.simps if_True if_False)

lemma Add_eq:
  "Add d s ignoreCol iw =
     (names.ins_all d (stored_hashes d s ignoreCol iw) s,
      \<not> (cand32_loop s \<and> \<not> ignoreCol \<and> collides d s))"
proof -
  have c: "(ExtractPtr d2 (T89_hash s) \<noteq> None \<and> strcmpi_differs s (the (ExtractPtr d2 (T89_hash s))))
      = collides d2 s" for d2
    by (auto simp: collides_def split: option.splits)
  have "fst (AddPrecomputed (names.ins_all d ks s) k s) = names.ins_all d (ks @ [k]) s" for ks k
    by (simp add: names.ins_all_def)
  then show ?thesis
    by (simp add: Add_unfold Let_def c collides_ins_all stored_hashes_def del: not_None_eq)
qed

section \<open>Properties of the store\<close>

text \<open>
  C6. \<^verbatim>\<open>Add\<close> stores the name under exactly the algorithms it is eligible for, never replaces a name
  that is already known, and refuses a name only when its T8/T9 script hash belongs to a name
  with another spelling: the exact contents of the store after every call, on every branch.
\<close>
theorem Add_lookup:
  assumes "Add d s ignoreCol iw = (d', ok)"
  shows "ExtractPtr d' h =
      (if ExtractPtr d h = None \<and> h AND MASK60 \<in> (\<lambda>k. k AND MASK60) ` set (stored_hashes d s ignoreCol iw)
       then Some (c_chars s) else ExtractPtr d h)
    \<and> (ok \<longleftrightarrow> \<not> (cand32_loop s \<and> \<not> ignoreCol \<and>
        (\<exists>t. ExtractPtr d (T89_hash s) = Some t \<and> strcmpi_differs s t)))"
  using assms
  by (auto simp: Add_eq names.look_ins_all collides_def split: option.splits)

theorem Add_lookup_witness:
  "ExtractPtr (fst (Add Map.empty [43] False False)) (Hash64 [43] FNV1A_PRIME IV_DEFAULT) = Some [43]"
  using Add_lookup [of Map.empty "[43]" False False "fst (Add Map.empty [43] False False)"
      "snd (Add Map.empty [43] False False)" "Hash64 [43] FNV1A_PRIME IV_DEFAULT"]
  by (simp add: ExtractPtr_def stored_hashes_def main_hashes_def c_chars_def)

text \<open>
  The invariant of a store filled by \<^verbatim>\<open>Add\<close> with the names \<open>N\<close>: each entry is one of these
  names, and a preimage of its key.
\<close>

definition algorithms_of :: "cstr \<Rightarrow> u64 set" where
  "algorithms_of s = set (main_hashes s True) \<union> {T7_hash s, T89_hash s}"

definition store_ok :: "cstr set \<Rightarrow> store \<Rightarrow> bool" where
  "store_ok N d \<longleftrightarrow>
     (\<forall>k s. d k = Some s \<longrightarrow> s \<in> c_chars ` N \<and> k \<in> (\<lambda>h. h AND MASK60) ` algorithms_of s)"

text \<open>A run of \<^verbatim>\<open>Add\<close> calls, as the loaders make them: the name and the two flags of each.\<close>

definition Adds :: "store \<Rightarrow> (cstr \<times> bool \<times> bool) list \<Rightarrow> store" where
  "Adds d cs = foldl (\<lambda>d (s, ignoreCol, iw). fst (Add d s ignoreCol iw)) d cs"

lemma main_hashes_subset: "set (main_hashes s iw) \<subseteq> set (main_hashes s True)"
  by (auto simp: main_hashes_def)

lemma stored_hashes_subset: "set (stored_hashes d s ignoreCol iw) \<subseteq> algorithms_of s"
  using main_hashes_subset by (auto simp: stored_hashes_def algorithms_of_def split: if_splits)

lemma HashSecure_c_chars: "HashSecure pat start (Some (c_chars s)) iv = HashSecure pat start (Some s) iv"
  using fnv_any.hash_c_chars
  by (cases s) (auto simp: HashSecure_def c_chars_def)

lemma algorithms_of_c_chars [simp]: "algorithms_of (c_chars s) = algorithms_of s"
  by (simp add: algorithms_of_def main_hashes_def iw_hashes_def T7_hash_def T89_hash_def HashT7_def
      HashT7Pre_def HashT89Scr_def Hash64_def HashIWAsset_def HashJupScr_def HashIWDVar_def
      HashT10Scr_def HashT10ScrSP_def HashT10ScrSPPre_def HashT10OmnVar_def HashSecure_c_chars
      fnv_any.hash_c_chars t89.hash_c_chars)

lemma store_ok_mono: "store_ok N d \<Longrightarrow> N \<subseteq> N' \<Longrightarrow> store_ok N' d"
  unfolding store_ok_def by blast

lemma store_ok_ins_all:
  assumes "store_ok N d" and "set ks \<subseteq> algorithms_of s"
  shows "store_ok (insert s N) (names.ins_all d ks s)"
  using store_ok_mono [OF assms(1) subset_insertI [of N s]] assms(2)
proof (induction ks arbitrary: d)
  case (Cons k ks)
  have "store_ok (insert s N) (fst (AddPrecomputed d k s))"
    using Cons.prems by (auto simp: store_ok_def AddPrecomputed_def split: option.splits if_splits)
  with Cons show ?case by (simp add: names.ins_all_Cons)
qed simp

lemma store_ok_Add: "store_ok N d \<Longrightarrow> store_ok (insert s N) (fst (Add d s ignoreCol iw))"
  by (simp add: Add_eq store_ok_ins_all stored_hashes_subset)

lemma store_ok_Adds: "store_ok N d \<Longrightarrow> store_ok (fst ` set cs \<union> N) (Adds d cs)"
proof (induction cs arbitrary: d N)
  case (Cons c cs)
  obtain s i w where c: "c = (s, i, w)" by (cases c)
  have "store_ok (insert s N) (fst (Add d s i w))" by (rule store_ok_Add [OF Cons.prems])
  from Cons.IH [OF this] show ?case by (simp add: c Adds_def)
qed (simp add: Adds_def)

text \<open>
  C29. After any run of \<^verbatim>\<open>Add\<close> calls, a name the store gives for a hash is one of the names that were
  added, and one of the supported algorithms maps it to that hash, up to the 60 bits of the key.
\<close>
theorem store_names_are_preimages:
  assumes "ExtractPtr (Adds Map.empty cs) h = Some s"
  shows "s \<in> c_chars ` fst ` set cs
    \<and> (\<exists>a \<in> algorithms_of s. a AND MASK60 = h AND MASK60)"
proof -
  have "store_ok {} Map.empty" by (simp add: store_ok_def)
  from store_ok_Adds [OF this, of cs] assms show ?thesis
    by (fastforce simp: store_ok_def ExtractPtr_def)
qed

theorem store_names_are_preimages_witness:
  "\<exists>a \<in> algorithms_of [43]. a AND MASK60 = Hash64 [43] FNV1A_PRIME IV_DEFAULT AND MASK60"
  using store_names_are_preimages [of "[([43], False, False)]" "Hash64 [43] FNV1A_PRIME IV_DEFAULT" "[43]"]
  by (simp add: ExtractPtr_def Adds_def Add_def AddPrecomputed_def hash32_char_def c_chars_def Let_def)

definition pattern_types :: "cstr list" where
  "pattern_types = map cstr_of
     [''var'', ''event'', ''function'', ''namespace'', ''script'', ''hash'', ''file'']"

lemma pattern_prefixes_eq: "pattern_prefixes = map (\<lambda>t. t @ [95]) pattern_types"
  by (simp add: pattern_prefixes_def pattern_types_def cstr_of_def of_char_def)

lemma pattern_types_no_nul: "\<forall>t \<in> set pattern_types. no_nul t \<and> 95 \<notin> set t"
  by (simp add: pattern_types_def cstr_of_def of_char_def)

lemma starts_with_sep:
  "x \<notin> set t \<Longrightarrow> x \<notin> set t' \<Longrightarrow> starts_with (t' @ [x]) (t @ x # s) \<longleftrightarrow> t = t'"
proof (induction t arbitrary: t')
  case Nil
  then show ?case by (cases t') auto
next
  case (Cons a t)
  then show ?case by (cases t') auto
qed

lemma try_prefixes_sep:
  "\<forall>t \<in> set ts. x \<notin> set t \<Longrightarrow> t \<in> set ts \<Longrightarrow>
   try_prefixes (map (\<lambda>t. t @ [x]) ts) (t @ x # s) = Some (strtoull 16 s)"
  by (induction ts) (auto simp: starts_with_sep)

text \<open>
  C22. A hash the store does not know is printed as \<^verbatim>\<open>type_hash\<close>, and what is printed reads back as
  that hash through the pattern parser, for every type the parser knows and a buffer that holds it.
\<close>
theorem unknown_hash_roundtrip:
  assumes "h \<noteq> 0" and "ExtractPtr d h = None"
    and "type \<in> set pattern_types"
    and "length type + 1 + length (fmt_hex h) < outSize"
  shows "\<exists>out. Extract d type h outSize = (False, out) \<and> TryHashPattern out = Some h \<and> HashPattern out = h"
proof -
  have e: "Extract d type h outSize = (False, type @ [95] @ fmt_hex h)"
    using assms by (simp add: Extract_def ExtractPtr_def snprintf_out_def)
  have "try_prefixes pattern_prefixes (type @ 95 # fmt_hex h) = Some (strtoull 16 (fmt_hex h))"
    unfolding pattern_prefixes_eq using assms(3) pattern_types_no_nul by (intro try_prefixes_sep) auto
  moreover have "no_nul (type @ [95] @ fmt_hex h)"
    using assms(3) pattern_types_no_nul by auto
  ultimately have "TryHashPattern (type @ [95] @ fmt_hex h) = Some h"
    by (simp add: TryHashPattern_def c_chars_id Let_def)
  then show ?thesis by (simp add: e HashPattern_def)
qed

theorem unknown_hash_roundtrip_witness:
  "HashPattern (snd (Extract Map.empty (cstr_of ''var'') 171 64)) = 171"
  using unknown_hash_roundtrip [where h = 171 and d = Map.empty and type = "cstr_of ''var''" and outSize = 64]
  by (auto simp: ExtractPtr_def pattern_types_def cstr_of_def fmt_hex_def fmt_nat.simps)
end
