(* ===== verification/Utils.thy ===== *)
theory Utils
  imports C_Library
begin

text \<open>
  The helpers of \<^verbatim>\<open>src/core/shared/utils/utils.cpp\<close> the components call.
\<close>

section \<open>Byte order\<close>

text \<open>
  \<^verbatim>\<open>SwapByte\<close> exchanges the ends with three exclusive ors until the indices meet. The upper index
  starts at \<^verbatim>\<open>n - 1\<close>, which wraps for an empty object: \<open>None\<close> is the access out of bounds then.
\<close>

function SwapByte_loop :: "u8 list \<Rightarrow> nat \<Rightarrow> nat \<Rightarrow> u8 list option" where
  "SwapByte_loop bs lo hi =
     (if lo < hi then
        if hi < length bs then
          let bs = bs[lo := (bs ! lo) XOR (bs ! hi)];
              bs = bs[hi := (bs ! hi) XOR (bs ! lo)];
              bs = bs[lo := (bs ! lo) XOR (bs ! hi)]
          in SwapByte_loop bs (lo + 1) (hi - 1)
        else None
      else Some bs)"
  by pat_completeness auto
termination by (relation "measure (\<lambda>(bs, lo, hi). hi)") auto

declare SwapByte_loop.simps [simp del]

definition SwapByte :: "u8 list \<Rightarrow> u8 list option" where
  "SwapByte bs = SwapByte_loop bs 0 (if bs = [] then 2 ^ 64 - 1 else length bs - 1)"

lemma xor_swap:
  fixes a b :: "'a::len word"
  shows "b XOR (a XOR b) = a" "(a XOR b) XOR a = b"
  by (rule bit_word_eqI, auto simp: bit_simps)+

lemma SwapByte_loop_step:
  "SwapByte_loop (p @ a # m @ b # s) (length p) (Suc (length p + length m)) =
   SwapByte_loop ((p @ [b]) @ m @ a # s) (Suc (length p)) (length p + length m)"
  by (subst SwapByte_loop.simps) (simp add: nth_append list_update_append Let_def xor_swap)

lemma SwapByte_loop_rev:
  "SwapByte_loop (p @ m @ s) (length p) (length p + length m - 1) = Some (p @ rev m @ s)"
proof (induction "length m" arbitrary: p m s rule: less_induct)
  case less
  show ?case
  proof (cases "1 < length m")
    case True
    then obtain a m' where m: "m = a # m'" by (cases m) auto
    then obtain m'' b where m': "m' = m'' @ [b]" using True by (cases m' rule: rev_cases) auto
    have "SwapByte_loop ((p @ [b]) @ m'' @ a # s) (length (p @ [b])) (length (p @ [b]) + length m'' - 1)
        = Some ((p @ [b]) @ rev m'' @ a # s)"
      by (rule less.hyps) (simp add: m m')
    then show ?thesis by (simp add: m m' SwapByte_loop_step [simplified])
  next
    case False
    then have "rev m = m" by (cases m) auto
    with False show ?thesis by (subst SwapByte_loop.simps) auto
  qed
qed

lemma SwapByte_rev: "bs \<noteq> [] \<Longrightarrow> SwapByte bs = Some (rev bs)"
  using SwapByte_loop_rev [of "[]" bs "[]"] by (simp add: SwapByte_def)

end
