(* ===== verification/Byte_Buffer.thy ===== *)
theory Byte_Buffer
  imports Utils
begin

text \<open>
  The binary readers, \<^verbatim>\<open>src/core/shared/core/bytebuffer_abstract.hpp\<close>,
  \<^verbatim>\<open>bytebuffer.hpp\<close> and \<^verbatim>\<open>bytebuffer_file.hpp\<close>.

  The abstract class is a record of its own fields around the state of the implementation, and its
  virtual methods are a record of functions, which every derived operation takes as its first
  argument. \<^verbatim>\<open>ByteBuffer\<close> (memory) and \<^verbatim>\<open>FileReader\<close> (a stream) provide the methods.
  Sizes and locations are \<^verbatim>\<open>size_t\<close> words. A loop that reads until a mark is a partial function:
  its value is \<open>None\<close> when it does not return.
\<close>

section \<open>Errors, endianness and the virtual methods\<close>

text \<open>
  The exceptions, and three outcomes that are no exceptions of the code: \<open>OutOfBounds\<close> is an
  access outside the memory the code was given, \<open>BadShift\<close> a shift by the width or more.
\<close>

datatype bb_error =
    ReadTooMuch | GotoAfterEnd
  | LocStackOverflow | LocStackUnderflow | EndianStackOverflow | EndianStackUnderflow
  | InvalidState
  | OutOfBounds | BadShift

datatype endianness = Little | Big

text \<open>\<^verbatim>\<open>std::endian::native\<close> on the supported targets.\<close>

definition native :: endianness where "native = Little"

record 's vtable =
  vCanRead :: "'s \<Rightarrow> u64 \<Rightarrow> bool"
  vReadImpl :: "'s \<Rightarrow> u64 \<Rightarrow> bb_error + (u8 list \<times> 's)"
  vGoto :: "'s \<Rightarrow> u64 \<Rightarrow> bb_error + 's"
  vLength :: "'s \<Rightarrow> u64"
  vRemaining :: "'s \<Rightarrow> u64"
  vLoc :: "'s \<Rightarrow> u64"

text \<open>\<^verbatim>\<open>AbstractByteBuffer\<close>: the used parts of the two stacks, their tops first.\<close>

record 's abuf =
  impl :: 's
  locstack :: "u64 list"
  endianstack :: "endianness list"
  endian :: endianness

definition new_abuf :: "'s \<Rightarrow> 's abuf" where
  "new_abuf s = \<lparr>impl = s, locstack = [], endianstack = [], endian = native\<rparr>"

definition BYTE_BUFFER_MAX_LOC_STACK :: nat where
  "BYTE_BUFFER_MAX_LOC_STACK = 16"

section \<open>The operations of the abstract class\<close>

definition SetEndian :: "endianness \<Rightarrow> 's abuf \<Rightarrow> 's abuf" where
  "SetEndian e a = a\<lparr>endian := e\<rparr>"

definition PushLocation :: "'s vtable \<Rightarrow> 's abuf \<Rightarrow> bb_error + 's abuf" where
  "PushLocation vt a =
     (if length (locstack a) = BYTE_BUFFER_MAX_LOC_STACK then Inl LocStackOverflow
      else Inr (a\<lparr>locstack := vLoc vt (impl a) # locstack a\<rparr>))"

definition bb_Goto :: "'s vtable \<Rightarrow> 's abuf \<Rightarrow> u64 \<Rightarrow> bb_error + 's abuf" where
  "bb_Goto vt a loc = ebind (vGoto vt (impl a) loc) (\<lambda>s. Inr (a\<lparr>impl := s\<rparr>))"

definition PopLocation :: "'s vtable \<Rightarrow> 's abuf \<Rightarrow> bb_error + 's abuf" where
  "PopLocation vt a =
     (case locstack a of
        [] \<Rightarrow> Inl LocStackUnderflow
      | l # ls \<Rightarrow> bb_Goto vt (a\<lparr>locstack := ls\<rparr>) l)"

definition PushEndian :: "'s abuf \<Rightarrow> bb_error + 's abuf" where
  "PushEndian a =
     (if length (endianstack a) = BYTE_BUFFER_MAX_LOC_STACK then Inl EndianStackOverflow
      else Inr (a\<lparr>endianstack := endian a # endianstack a\<rparr>))"

definition PopEndian :: "'s abuf \<Rightarrow> bb_error + 's abuf" where
  "PopEndian a =
     (case endianstack a of
        [] \<Rightarrow> Inl EndianStackUnderflow
      | e # es \<Rightarrow> Inr (a\<lparr>endian := e, endianstack := es\<rparr>))"

definition End :: "'s vtable \<Rightarrow> 's abuf \<Rightarrow> bool" where
  "End vt a \<longleftrightarrow> vLength vt (impl a) \<le> vLoc vt (impl a)"

definition GotoEnd :: "'s vtable \<Rightarrow> 's abuf \<Rightarrow> bb_error + 's abuf" where
  "GotoEnd vt a = bb_Goto vt a (vLength vt (impl a))"

text \<open>\<^verbatim>\<open>Read(to, n)\<close>: the bytes written to \<^verbatim>\<open>to\<close>.\<close>

definition bb_Read :: "'s vtable \<Rightarrow> 's abuf \<Rightarrow> u64 \<Rightarrow> bb_error + (u8 list \<times> 's abuf)" where
  "bb_Read vt a n = ebind (vReadImpl vt (impl a) n) (\<lambda>(bs, s). Inr (bs, a\<lparr>impl := s\<rparr>))"

text \<open>The loop of \<^verbatim>\<open>Skip\<close>, over the number of bytes that remain to be skipped.\<close>

function Skip_loop :: "'s vtable \<Rightarrow> 's abuf \<Rightarrow> u64 \<Rightarrow> bb_error + 's abuf" where
  "Skip_loop vt a tor =
     (if tor = 0 then Inr a
      else let r = min 0x400 tor
           in ebind (bb_Read vt a r) (\<lambda>(_, a'). Skip_loop vt a' (tor - r)))"
  by pat_completeness auto
termination
proof (relation "measure (\<lambda>(vt, a, tor). unat tor)")
  fix vt :: "'s vtable" and a a' :: "'s abuf" and tor x :: u64
  assume "tor \<noteq> 0" and x: "x = min 0x400 tor"
  then have "unat x \<noteq> 0" by (auto simp: min_def word_unat_eq_iff)
  moreover have "x \<le> tor" using x by simp
  ultimately show "((vt, a', tor - x), vt, a, tor) \<in> measure (\<lambda>(vt, a, tor). unat tor)"
    by (simp add: unat_sub word_le_nat_alt)
qed simp

declare Skip_loop.simps [simp del]

definition Skip :: "'s vtable \<Rightarrow> u64 \<Rightarrow> 's abuf \<Rightarrow> u64 \<Rightarrow> bb_error + 's abuf" where
  "Skip vt sizeof_T a len = Skip_loop vt a (sizeof_T * len)"

definition Align :: "'s vtable \<Rightarrow> 's abuf \<Rightarrow> u64 \<Rightarrow> bb_error + 's abuf" where
  "Align vt a val =
     (let l = vLoc vt (impl a); al = aligned_w l val
      in if l \<noteq> al then Skip vt 1 a (al - l) else Inr a)"

text \<open>\<^verbatim>\<open>Read<T>()\<close>, \<^verbatim>\<open>ReadObject<T>\<close>: the bytes of the object.\<close>

definition ReadT :: "'s vtable \<Rightarrow> u64 \<Rightarrow> 's abuf \<Rightarrow> bb_error + (u8 list \<times> 's abuf)" where
  "ReadT vt sizeof_T a =
     (if \<not> vCanRead vt (impl a) sizeof_T then Inl ReadTooMuch else bb_Read vt a sizeof_T)"

text \<open>\<^verbatim>\<open>ReadNumber<T>()\<close>: the value, its bytes exchanged when the endianness is not the native one.\<close>

definition ReadNumber :: "'s vtable \<Rightarrow> u64 \<Rightarrow> 's abuf \<Rightarrow> bb_error + (nat \<times> 's abuf)" where
  "ReadNumber vt sizeof_T a =
     ebind (ReadT vt sizeof_T a) (\<lambda>(bs, a').
       if endian a \<noteq> native
       then (case SwapByte bs of None \<Rightarrow> Inl OutOfBounds | Some bs' \<Rightarrow> Inr (le_nat bs', a'))
       else Inr (le_nat bs, a'))"

text \<open>
  \<^verbatim>\<open>Read<T>(size_t len)\<close>: \<^verbatim>\<open>toread\<close> is bounded by the size of \<^verbatim>\<open>len\<close>, not of \<^verbatim>\<open>T\<close>, and the rest
  is skipped by the (wrapped) difference \<^verbatim>\<open>toread - len\<close>. The bytes of \<^verbatim>\<open>T\<close> that are written.
\<close>

definition ReadN :: "'s vtable \<Rightarrow> u64 \<Rightarrow> 's abuf \<Rightarrow> u64 \<Rightarrow> bb_error + (u8 list \<times> 's abuf)" where
  "ReadN vt sizeof_T a len =
     (if \<not> vCanRead vt (impl a) len then Inl ReadTooMuch
      else let toread = min 8 len
           in if sizeof_T < toread then Inl OutOfBounds
              else ebind (bb_Read vt a toread) (\<lambda>(bs, a').
                if toread < len
                then ebind (Skip vt 1 a' (toread - len)) (\<lambda>a''. Inr (bs, a''))
                else Inr (bs, a')))"

definition ReadArray :: "'s vtable \<Rightarrow> u64 \<Rightarrow> 's abuf \<Rightarrow> u64 \<Rightarrow> bb_error + (u8 list \<times> 's abuf)" where
  "ReadArray vt sizeof_T a count =
     (if \<not> vCanRead vt (impl a) (sizeof_T * count) then Inl ReadTooMuch
      else bb_Read vt a (sizeof_T * count))"

definition ReadByte :: "'s vtable \<Rightarrow> 's abuf \<Rightarrow> bb_error + (u8 \<times> 's abuf)" where
  "ReadByte vt a = ebind (ReadT vt 1 a) (\<lambda>(bs, a'). Inr (hd bs, a'))"

text \<open>The variable-length integers.\<close>

partial_function (option) ReadVByte_loop ::
  "'s vtable \<Rightarrow> u64 \<Rightarrow> 's abuf \<Rightarrow> (bb_error + (u64 \<times> 's abuf)) option" where
  "ReadVByte_loop vt v a =
     (case ReadByte vt a of
        Inl e \<Rightarrow> Some (Inl e)
      | Inr (r, a') \<Rightarrow>
          let v = push_bit 7 v OR ucast (r AND 0x7F)
          in if r AND 0x80 \<noteq> 0 then ReadVByte_loop vt v a' else Some (Inr (v, a')))"

definition ReadVByte :: "'s vtable \<Rightarrow> 's abuf \<Rightarrow> (bb_error + (u64 \<times> 's abuf)) option" where
  "ReadVByte vt a = ReadVByte_loop vt 0 a"

partial_function (option) ReadVByteInv_loop ::
  "'s vtable \<Rightarrow> u64 \<Rightarrow> nat \<Rightarrow> 's abuf \<Rightarrow> (bb_error + (u64 \<times> 's abuf)) option" where
  "ReadVByteInv_loop vt v shift a =
     (case ReadByte vt a of
        Inl e \<Rightarrow> Some (Inl e)
      | Inr (r, a') \<Rightarrow>
          if 64 \<le> shift then Some (Inl BadShift)
          else let v = v OR push_bit shift (ucast (r AND 0x7F))
               in if r AND 0x80 = 0 then ReadVByteInv_loop vt v (shift + 7) a'
                  else Some (Inr (v, a')))"

definition ReadVByteInv :: "'s vtable \<Rightarrow> 's abuf \<Rightarrow> (bb_error + (u64 \<times> 's abuf)) option" where
  "ReadVByteInv vt a = ReadVByteInv_loop vt 0 0 a"

text \<open>The continuation of a reader that may fail or not return.\<close>

definition obind :: "('e + 'a) option \<Rightarrow> ('a \<Rightarrow> ('e + 'b) option) \<Rightarrow> ('e + 'b) option" where
  "obind m f = (case m of None \<Rightarrow> None | Some (Inl e) \<Rightarrow> Some (Inl e) | Some (Inr x) \<Rightarrow> f x)"

definition ReadSignedVByte :: "'s vtable \<Rightarrow> 's abuf \<Rightarrow> (bb_error + (u64 \<times> 's abuf)) option" where
  "ReadSignedVByte vt a =
     obind (ReadVByte vt a) (\<lambda>(v, a').
       Some (Inr (if v AND 1 \<noteq> 0 then NOT (drop_bit 1 v) else drop_bit 1 v, a')))"

text \<open>The sized strings: the length is read first, then as many bytes.\<close>

definition ReadSizedString ::
  "'s vtable \<Rightarrow> u64 \<Rightarrow> 's abuf \<Rightarrow> bb_error + (u8 list \<times> nat \<times> 's abuf)" where
  "ReadSizedString vt sizeof_S a =
     ebind (ReadT vt sizeof_S a) (\<lambda>(bs, a').
       ebind (bb_Read vt a' (of_nat (le_nat bs))) (\<lambda>(s, a''). Inr (s, le_nat bs, a'')))"

definition ReadVByteSizedString ::
  "'s vtable \<Rightarrow> 's abuf \<Rightarrow> (bb_error + (u8 list \<times> u64 \<times> 's abuf)) option" where
  "ReadVByteSizedString vt a =
     obind (ReadVByte vt a) (\<lambda>(l, a'). Some (ebind (bb_Read vt a' l) (\<lambda>(s, a''). Inr (s, l, a''))))"

definition ReadVByteInvSizedString ::
  "'s vtable \<Rightarrow> 's abuf \<Rightarrow> (bb_error + (u8 list \<times> u64 \<times> 's abuf)) option" where
  "ReadVByteInvSizedString vt a =
     obind (ReadVByteInv vt a) (\<lambda>(l, a'). Some (ebind (bb_Read vt a' l) (\<lambda>(s, a''). Inr (s, l, a''))))"

text \<open>\<^verbatim>\<open>ReadUnkString\<close>: the string grows by doubling, from 16 characters.\<close>

partial_function (option) ReadUnkString_loop ::
  "'s vtable \<Rightarrow> u8 list \<Rightarrow> nat \<Rightarrow> 's abuf \<Rightarrow> (bb_error + (u8 list \<times> nat \<times> 's abuf)) option" where
  "ReadUnkString_loop vt ret l a =
     (case ReadByte vt a of
        Inl e \<Rightarrow> Some (Inl e)
      | Inr (c, a') \<Rightarrow>
          if c = 0 then Some (Inr (ret, l, a'))
          else let ret = ret[l := c];
                   l = l + 1;
                   ret = (if l = length ret then ret @ replicate (length ret) 0 else ret)
               in ReadUnkString_loop vt ret l a')"

definition ReadUnkString ::
  "'s vtable \<Rightarrow> 's abuf \<Rightarrow> (bb_error + (u8 list \<times> nat \<times> 's abuf)) option" where
  "ReadUnkString vt a =
     obind (ReadUnkString_loop vt (replicate 16 0) 0 a) (\<lambda>(ret, l, a').
       Some (Inr (take l (ret[l := 0]), l, a')))"

section \<open>ByteBuffer\<close>

record byte_buffer =
  bb_buffer :: "u8 list"
  bb_len :: u64
  bb_pointer :: u64

definition new_ByteBuffer :: "u8 list \<Rightarrow> byte_buffer" where
  "new_ByteBuffer buff = \<lparr>bb_buffer = buff, bb_len = of_nat (length buff), bb_pointer = 0\<rparr>"

definition bb_CanRead :: "byte_buffer \<Rightarrow> u64 \<Rightarrow> bool" where
  "bb_CanRead b n \<longleftrightarrow> bb_pointer b + n \<le> bb_len b"

text \<open>The memory at an offset, when it is inside the buffer.\<close>

definition bb_mem :: "byte_buffer \<Rightarrow> nat \<Rightarrow> nat \<Rightarrow> u8 list option" where
  "bb_mem b off n = (if off + n \<le> length (bb_buffer b) then Some (take n (drop off (bb_buffer b))) else None)"

definition bb_ReadImpl :: "byte_buffer \<Rightarrow> u64 \<Rightarrow> bb_error + (u8 list \<times> byte_buffer)" where
  "bb_ReadImpl b n =
     (if \<not> bb_CanRead b n then Inl ReadTooMuch
      else case bb_mem b (unat (bb_pointer b)) (unat n) of
             None \<Rightarrow> Inl OutOfBounds
           | Some bs \<Rightarrow> Inr (bs, b\<lparr>bb_pointer := bb_pointer b + n\<rparr>))"

definition ByteBuffer_Goto :: "byte_buffer \<Rightarrow> u64 \<Rightarrow> bb_error + byte_buffer" where
  "ByteBuffer_Goto b loc =
     (if bb_len b < loc then Inl GotoAfterEnd else Inr (b\<lparr>bb_pointer := loc\<rparr>))"

definition bb_vt :: "byte_buffer vtable" where
  "bb_vt = \<lparr>vCanRead = bb_CanRead, vReadImpl = bb_ReadImpl, vGoto = ByteBuffer_Goto,
            vLength = bb_len, vRemaining = (\<lambda>b. bb_len b - bb_pointer b), vLoc = bb_pointer\<rparr>"

text \<open>\<^verbatim>\<open>ReadPtr<T>(count)\<close>: the offset of the result in the buffer.\<close>

definition ReadPtr :: "u64 \<Rightarrow> byte_buffer \<Rightarrow> u64 \<Rightarrow> bb_error + (u64 \<times> byte_buffer)" where
  "ReadPtr sizeof_T b count =
     (if \<not> bb_CanRead b (sizeof_T * count) then Inl ReadTooMuch
      else Inr (bb_pointer b, b\<lparr>bb_pointer := bb_pointer b + sizeof_T * count\<rparr>))"

text \<open>\<^verbatim>\<open>ReadString\<close> and \<^verbatim>\<open>ReadStringOrCStr\<close>: the offset of the string, and its length.\<close>

partial_function (option) ReadString_loop ::
  "(u8 \<Rightarrow> bool) \<Rightarrow> nat \<Rightarrow> byte_buffer abuf \<Rightarrow> (bb_error + (nat \<times> byte_buffer abuf)) option" where
  "ReadString_loop cont l a =
     (case ReadByte bb_vt a of
        Inl e \<Rightarrow> Some (Inl e)
      | Inr (c, a') \<Rightarrow> if cont c then ReadString_loop cont (l + 1) a' else Some (Inr (l, a')))"

definition ReadString ::
  "byte_buffer abuf \<Rightarrow> u8 \<Rightarrow> (bb_error + (u64 \<times> nat \<times> byte_buffer abuf)) option" where
  "ReadString a endc =
     obind (ReadString_loop (if endc \<noteq> 0 then (\<lambda>c. c \<noteq> endc) else (\<lambda>c. c \<noteq> 0)) 0 a)
       (\<lambda>(l, a'). Some (Inr (bb_pointer (impl a), l, a')))"

definition ReadStringOrCStr ::
  "byte_buffer abuf \<Rightarrow> u8 \<Rightarrow> (bb_error + (u64 \<times> nat \<times> byte_buffer abuf)) option" where
  "ReadStringOrCStr a endc =
     obind (ReadString_loop (if endc \<noteq> 0 then (\<lambda>c. c \<noteq> 0 \<and> c \<noteq> endc) else (\<lambda>c. c \<noteq> 0)) 0 a)
       (\<lambda>(l, a'). Some (Inr (bb_pointer (impl a), l, a')))"

text \<open>
  The searches: the first index at which a test succeeds, or all of them, while the pattern fits.
  A test that reads outside the buffer ends the search with \<open>OutOfBounds\<close>. The offsets are sizes of
  objects in memory, whose sums do not wrap. \<^verbatim>\<open>npos\<close> is \<open>None\<close>.
\<close>

function scan_first :: "(nat \<Rightarrow> bb_error + bool) \<Rightarrow> nat \<Rightarrow> nat \<Rightarrow> nat \<Rightarrow> bb_error + nat option" where
  "scan_first test l n cur =
     (if cur + n \<le> l
      then ebind (test cur) (\<lambda>b. if b then Inr (Some cur) else scan_first test l n (cur + 1))
      else Inr None)"
  by pat_completeness auto
termination by (relation "measure (\<lambda>(test, l, n, cur). l + 1 - cur)") auto

function scan_all :: "(nat \<Rightarrow> bb_error + bool) \<Rightarrow> nat \<Rightarrow> nat \<Rightarrow> nat \<Rightarrow> nat list \<Rightarrow> bb_error + nat list" where
  "scan_all test l n cur r =
     (if cur + n \<le> l
      then ebind (test cur) (\<lambda>b. scan_all test l n (cur + 1) (if b then r @ [cur] else r))
      else Inr r)"
  by pat_completeness auto
termination by (relation "measure (\<lambda>(test, l, n, cur, r). l + 1 - cur)") auto

declare scan_first.simps [simp del] scan_all.simps [simp del]

text \<open>\<^verbatim>\<open>memcmp(ptr, Ptr(cur), ptrSize) == 0\<close>: \<^verbatim>\<open>Ptr\<close> adds the pointer of the buffer.\<close>

definition memcmp_at :: "byte_buffer \<Rightarrow> u8 list \<Rightarrow> nat \<Rightarrow> bb_error + bool" where
  "memcmp_at b pat cur =
     (case bb_mem b (unat (bb_pointer b) + cur) (length pat) of
        None \<Rightarrow> Inl OutOfBounds | Some m \<Rightarrow> Inr (m = pat))"

fun masked_eq :: "u8 list \<Rightarrow> u8 list \<Rightarrow> u8 list \<Rightarrow> bool" where
  "masked_eq (m # ms) (k # ks) (p # ps) = (if m AND k \<noteq> p then False else masked_eq ms ks ps)"
| "masked_eq ms ks ps = True"

definition masked_at :: "byte_buffer \<Rightarrow> u8 list \<Rightarrow> u8 list \<Rightarrow> nat \<Rightarrow> bb_error + bool" where
  "masked_at b pat msk cur =
     (case bb_mem b cur (length pat) of
        None \<Rightarrow> Inl OutOfBounds | Some m \<Rightarrow> Inr (masked_eq m msk pat))"

definition Find :: "byte_buffer \<Rightarrow> u8 list \<Rightarrow> nat \<Rightarrow> bb_error + nat option" where
  "Find b pat offset =
     scan_first (memcmp_at b pat) (unat (bb_len b)) (length pat) (unat (bb_pointer b) + offset)"

definition FindAll :: "byte_buffer \<Rightarrow> u8 list \<Rightarrow> bb_error + nat list" where
  "FindAll b pat = scan_all (memcmp_at b pat) (unat (bb_len b)) (length pat) (unat (bb_pointer b)) []"

definition FindAllMasked :: "byte_buffer \<Rightarrow> u8 list \<Rightarrow> u8 list \<Rightarrow> bb_error + nat list" where
  "FindAllMasked b pat msk =
     scan_all (masked_at b pat msk) (unat (bb_len b)) (length pat) (unat (bb_pointer b)) []"

definition FindMasked :: "byte_buffer \<Rightarrow> u8 list \<Rightarrow> u8 list \<Rightarrow> nat \<Rightarrow> bb_error + nat option" where
  "FindMasked b pat msk offset =
     scan_first (masked_at b pat msk) (unat (bb_len b)) (length pat) (unat (bb_pointer b) + offset)"

section \<open>FileReader\<close>

text \<open>
  The \<^verbatim>\<open>std::istream\<close> over a file: its content, the position, and the two state bits. An unformatted
  input function on a stream that is not good fails, a short read sets both bits, and \<^verbatim>\<open>seekg\<close>
  clears the end-of-file bit first.
\<close>

record istream =
  is_content :: "u8 list"
  is_pos :: nat
  is_eof :: bool
  is_fail :: bool

definition is_read :: "istream \<Rightarrow> nat \<Rightarrow> u8 list \<times> istream" where
  "is_read i n =
     (if is_eof i \<or> is_fail i then ([], i\<lparr>is_fail := True\<rparr>)
      else if n \<le> length (is_content i) - is_pos i
      then (take n (drop (is_pos i) (is_content i)), i\<lparr>is_pos := is_pos i + n\<rparr>)
      else (drop (is_pos i) (is_content i),
            i\<lparr>is_pos := max (is_pos i) (length (is_content i)), is_eof := True, is_fail := True\<rparr>))"

definition is_seek :: "istream \<Rightarrow> nat \<Rightarrow> istream" where
  "is_seek i p = (if is_fail i then i\<lparr>is_eof := False\<rparr> else i\<lparr>is_eof := False, is_pos := p\<rparr>)"

definition is_tell :: "istream \<Rightarrow> u64" where
  "is_tell i = (if is_fail i then - 1 else of_nat (is_pos i))"

record file_reader =
  fr_is :: istream
  fr_fileend :: u64
  fr_filestart :: u64
  fr_location :: u64

definition fr_Remaining :: "file_reader \<Rightarrow> u64" where
  "fr_Remaining f = fr_fileend f - fr_location f"

definition ValidateState :: "file_reader \<Rightarrow> bb_error + unit" where
  "ValidateState f =
     (if \<not> is_fail (fr_is f) then Inr ()
      else if is_eof (fr_is f) \<and> fr_Remaining f = 0 then Inr ()
      else Inl InvalidState)"

definition new_FileReader :: "istream \<Rightarrow> u64 \<Rightarrow> u64 option \<Rightarrow> bb_error + file_reader" where
  "new_FileReader i start fileend =
     (let f = (case fileend of
                 None \<Rightarrow>
                   (let i1 = is_seek i (length (is_content i))
                    in \<lparr>fr_is = is_seek i1 (unat start), fr_fileend = is_tell i1,
                        fr_filestart = start, fr_location = start\<rparr>)
               | Some e \<Rightarrow> \<lparr>fr_is = i, fr_fileend = e, fr_filestart = start, fr_location = start\<rparr>)
      in ebind (ValidateState f) (\<lambda>_. Inr f))"

definition fr_CanRead :: "file_reader \<Rightarrow> u64 \<Rightarrow> bool" where
  "fr_CanRead f n \<longleftrightarrow> fr_location f + n \<le> fr_fileend f"

definition fr_ReadImpl :: "file_reader \<Rightarrow> u64 \<Rightarrow> bb_error + (u8 list \<times> file_reader)" where
  "fr_ReadImpl f n =
     (if \<not> fr_CanRead f n then Inl ReadTooMuch
      else let (bs, i) = is_read (fr_is f) (unat n); f1 = f\<lparr>fr_is := i\<rparr>
           in ebind (ValidateState f1) (\<lambda>_. Inr (bs, f1\<lparr>fr_location := fr_location f + n\<rparr>)))"

definition FileReader_Goto :: "file_reader \<Rightarrow> u64 \<Rightarrow> bb_error + file_reader" where
  "FileReader_Goto f loc =
     (let trueloc = fr_filestart f + loc
      in if fr_fileend f < trueloc then Inl GotoAfterEnd
         else let i = (if trueloc = fr_fileend f then is_seek (fr_is f) (length (is_content (fr_is f)))
                       else is_seek (fr_is f) (unat (fr_filestart f + loc)));
                  f1 = f\<lparr>fr_is := i\<rparr>
              in ebind (ValidateState f1) (\<lambda>_. Inr (f1\<lparr>fr_location := is_tell i\<rparr>)))"

definition fr_vt :: "file_reader vtable" where
  "fr_vt = \<lparr>vCanRead = fr_CanRead, vReadImpl = fr_ReadImpl, vGoto = FileReader_Goto,
            vLength = fr_fileend, vRemaining = fr_Remaining, vLoc = fr_location\<rparr>"

end
