(* ===== verification/Byte_Reader.thy ===== *)
theory Byte_Reader
  imports Byte_Buffer
begin

text \<open>
  The contract of \<^verbatim>\<open>AbstractByteBuffer\<close>: what its derived operations need of the virtual methods, as
  a locale, the lemmas about the derived operations under that contract, and the proofs that
  \<^verbatim>\<open>ByteBuffer\<close> and \<^verbatim>\<open>FileReader\<close> honour it.

  A reader presents a sequence of bytes and a position in it. Below \<^verbatim>\<open>2 ^ 63\<close> no sum of a position
  and a size wraps around.
\<close>

section \<open>The contract\<close>

locale byte_reader =
  fixes vt :: "'s vtable" and wf :: "'s \<Rightarrow> bool" and bytes :: "'s \<Rightarrow> u8 list" and pos :: "'s \<Rightarrow> nat"
  assumes bounds: "wf s \<Longrightarrow> pos s \<le> length (bytes s) \<and> length (bytes s) < 2 ^ 63"
    and can: "wf s \<Longrightarrow> unat n \<le> 2 ^ 63 \<Longrightarrow> vCanRead vt s n \<longleftrightarrow> pos s + unat n \<le> length (bytes s)"
    and read_ok: "wf s \<Longrightarrow> pos s + unat n \<le> length (bytes s) \<Longrightarrow>
      \<exists>s'. vReadImpl vt s n = Inr (take (unat n) (drop (pos s) (bytes s)), s') \<and> wf s' \<and>
        bytes s' = bytes s \<and> pos s' = pos s + unat n"
    and read_err: "wf s \<Longrightarrow> unat n \<le> 2 ^ 63 \<Longrightarrow> length (bytes s) < pos s + unat n \<Longrightarrow>
      vReadImpl vt s n = Inl ReadTooMuch"
    and goto_ok: "wf s \<Longrightarrow> unat l \<le> length (bytes s) \<Longrightarrow>
      \<exists>s'. vGoto vt s l = Inr s' \<and> wf s' \<and> bytes s' = bytes s \<and> pos s' = unat l"
    and goto_err: "wf s \<Longrightarrow> length (bytes s) < unat l \<Longrightarrow> vGoto vt s l = Inl GotoAfterEnd"
    and loc: "wf s \<Longrightarrow> vLoc vt s = of_nat (pos s)"
    and len: "wf s \<Longrightarrow> vLength vt s = of_nat (length (bytes s))"

text \<open>What a run of bytes means as a variable-length integer: the value and the bytes it takes.\<close>

fun vbyte_of :: "u64 \<Rightarrow> u8 list \<Rightarrow> (u64 \<times> nat) option" where
  "vbyte_of v [] = None"
| "vbyte_of v (r # rs) =
     (let v' = push_bit 7 v OR ucast (r AND 0x7F)
      in if r AND 0x80 \<noteq> 0 then map_option (apsnd Suc) (vbyte_of v' rs) else Some (v', 1))"

text \<open>The encoding: groups of seven bits, the most significant first, all but the last marked.\<close>

function vbyte_high :: "nat \<Rightarrow> u8 list" where
  "vbyte_high n = (if n = 0 then [] else vbyte_high (n div 128) @ [of_nat (128 + n mod 128)])"
  by pat_completeness auto
termination by (relation "measure id") auto

declare vbyte_high.simps [simp del]

definition vbyte_enc :: "nat \<Rightarrow> u8 list" where
  "vbyte_enc n = vbyte_high (n div 128) @ [of_nat (n mod 128)]"

lemma vbyte_group:
  "m < 128 \<Longrightarrow> (x :: u8) = of_nat (c + m) \<Longrightarrow> c = 0 \<or> c = 128 \<Longrightarrow>
   push_bit 7 v OR ucast (x AND 0x7F) = v * 128 + (of_nat m :: u64) \<and> (x AND 0x80 \<noteq> 0 \<longleftrightarrow> c = 128)"
proof -
  assume m: "m < 128" and x: "(x :: u8) = of_nat (c + m)" and c: "c = 0 \<or> c = 128"
  have u: "unat x = c + m" using m c unat_of_nat_mod [of "c + m", where ?'a = 8] by (auto simp: x simp del: of_nat_add)
  have "(ucast (x AND 0x7F) :: u64) = of_nat m"
    using m c u by (auto simp: ucast_eq_of_nat and_7F simp del: of_nat_unat)
  then show ?thesis using u c m using or_add_low [of m 7] by (auto simp: and_80)
qed

lemma of_nat_128: "of_nat (n div 128) * 128 + of_nat (n mod 128) = (of_nat n :: u64)"
  by (metis of_nat_add of_nat_mult of_nat_numeral div_mult_mod_eq)

lemma vbyte_of_high:
  "vbyte_of 0 (vbyte_high n @ rest) =
     map_option (apsnd ((+) (length (vbyte_high n)))) (vbyte_of (of_nat n) rest)"
proof (induction n arbitrary: rest rule: vbyte_high.induct)
  case (1 n)
  show ?case
  proof (cases "n = 0")
    case True
    then show ?thesis by (simp add: vbyte_high.simps option.map_ident prod.map_ident apsnd_def id_def)
  next
    case False
    let ?x = "of_nat (128 + n mod 128) :: u8"
    have g: "push_bit 7 (of_nat (n div 128)) OR ucast (?x AND 0x7F) = (of_nat n :: u64)" "?x AND 0x80 \<noteq> 0"
      using vbyte_group [of "n mod 128" ?x 128 "of_nat (n div 128)"] unfolding of_nat_128
      by simp_all
    have "vbyte_of (of_nat (n div 128)) (?x # rest) = map_option (apsnd Suc) (vbyte_of (of_nat n) rest)"
      unfolding vbyte_of.simps Let_def g using g(2) by simp
    with 1 [OF False, of "?x # rest"] False show ?thesis
      by (subst (1 2) vbyte_high.simps) (simp add: option.map_comp comp_def apsnd_def map_prod_def case_prod_beta')
  qed
qed

lemma vbyte_of_enc: "vbyte_of 0 (vbyte_enc n @ rest) = Some (of_nat n, length (vbyte_enc n))"
proof -
  have g: "push_bit 7 (of_nat (n div 128)) OR ucast ((of_nat (n mod 128) :: u8) AND 0x7F) = (of_nat n :: u64)"
    "(of_nat (n mod 128) :: u8) AND 0x80 = 0"
    using vbyte_group [of "n mod 128" "of_nat (n mod 128)" 0 "of_nat (n div 128)"] unfolding of_nat_128
    by simp_all
  show ?thesis unfolding vbyte_enc_def append_assoc vbyte_of_high append.simps vbyte_of.simps Let_def g
    by simp
qed

text \<open>The inverse encoding: the least significant group first, the last one marked.\<close>

function vinv_enc :: "nat \<Rightarrow> u8 list" where
  "vinv_enc n = (if n < 128 then [of_nat (128 + n)] else of_nat (n mod 128) # vinv_enc (n div 128))"
  by pat_completeness auto
termination by (relation "measure id") auto

declare vinv_enc.simps [simp del]

context byte_reader
begin

definition view :: "'s abuf \<Rightarrow> u8 list" where
  "view a = drop (pos (impl a)) (bytes (impl a))"

definition ok :: "'s abuf \<Rightarrow> bool" where
  "ok a \<longleftrightarrow> wf (impl a)"

definition moves :: "'s abuf \<Rightarrow> nat \<Rightarrow> 's abuf \<Rightarrow> bool" where
  "moves a k a' \<longleftrightarrow> ok a' \<and> bytes (impl a') = bytes (impl a) \<and>
     pos (impl a') = pos (impl a) + k \<and> a' = a\<lparr>impl := impl a'\<rparr>"

lemma moves_view: "moves a k a' \<Longrightarrow> view a' = drop k (view a)"
  by (simp add: moves_def view_def add.commute)

lemma moves_ok: "moves a k a' \<Longrightarrow> ok a'"
  by (simp add: moves_def)

lemma moves_refl: "ok a \<Longrightarrow> moves a 0 a"
  by (simp add: moves_def)

lemma moves_trans: "moves a j a' \<Longrightarrow> moves a' k a'' \<Longrightarrow> moves a (j + k) a''"
  by (cases a, cases a', cases a'') (simp add: moves_def)

lemma view_small: "ok a \<Longrightarrow> length (view a) < 2 ^ 63"
  using bounds [of "impl a"] by (auto simp: ok_def view_def)

lemma bb_Read_ok:
  assumes "ok a" and "unat n \<le> length (view a)"
  obtains a' where "bb_Read vt a n = Inr (take (unat n) (view a), a')" and "moves a (unat n) a'"
proof -
  have "pos (impl a) + unat n \<le> length (bytes (impl a))"
    using assms bounds [of "impl a"] by (auto simp: ok_def view_def)
  then obtain s' where s': "vReadImpl vt (impl a) n = Inr (take (unat n) (view a), s')"
    "wf s'" "bytes s' = bytes (impl a)" "pos s' = pos (impl a) + unat n"
    using read_ok [of "impl a" n] assms by (auto simp: ok_def view_def)
  show ?thesis
    by (rule that [of "a\<lparr>impl := s'\<rparr>"]) (simp_all add: bb_Read_def s' moves_def ok_def)
qed

lemma bb_Read_err:
  "ok a \<Longrightarrow> unat n \<le> 2 ^ 63 \<Longrightarrow> length (view a) < unat n \<Longrightarrow> bb_Read vt a n = Inl ReadTooMuch"
  using bounds [of "impl a"] by (simp add: bb_Read_def read_err ok_def view_def)

lemma can_read: "ok a \<Longrightarrow> unat n \<le> 2 ^ 63 \<Longrightarrow> vCanRead vt (impl a) n \<longleftrightarrow> unat n \<le> length (view a)"
  using bounds [of "impl a"] can [of "impl a" n] by (auto simp: ok_def view_def)

lemma ReadT_ok:
  assumes "ok a" and "unat n \<le> length (view a)"
  obtains a' where "ReadT vt n a = Inr (take (unat n) (view a), a')" and "moves a (unat n) a'"
proof -
  have "vCanRead vt (impl a) n"
    using assms view_small [of a] by (subst can_read) auto
  with bb_Read_ok [OF assms] that show ?thesis by (auto simp: ReadT_def)
qed

lemma ReadT_err:
  "ok a \<Longrightarrow> unat n \<le> 2 ^ 63 \<Longrightarrow> length (view a) < unat n \<Longrightarrow> ReadT vt n a = Inl ReadTooMuch"
  by (simp add: ReadT_def can_read)

lemma ReadByte_ok:
  assumes "ok a" and "view a = r # rs"
  obtains a' where "ReadByte vt a = Inr (r, a')" and "moves a 1 a'"
proof -
  obtain a' where "ReadT vt 1 a = Inr (take (unat (1::u64)) (view a), a')" "moves a (unat (1::u64)) a'"
    using ReadT_ok [of a 1] assms by auto
  with that show ?thesis by (simp add: ReadByte_def assms(2))
qed

lemma ReadByte_err: "ok a \<Longrightarrow> view a = [] \<Longrightarrow> ReadByte vt a = Inl ReadTooMuch"
  by (simp add: ReadByte_def ReadT_err)

lemma ReadVByte_loop_eq:
  assumes "ok a"
  shows "case vbyte_of v (view a) of
      None \<Rightarrow> ReadVByte_loop vt v a = Some (Inl ReadTooMuch)
    | Some (w, k) \<Rightarrow> \<exists>a'. ReadVByte_loop vt v a = Some (Inr (w, a')) \<and> moves a k a'"
  using assms
proof (induction "view a" arbitrary: v a)
  case Nil
  then show ?case by (subst ReadVByte_loop.simps) (simp add: ReadByte_err flip: Nil.hyps)
next
  case (Cons r rs)
  obtain a' where a': "ReadByte vt a = Inr (r, a')" "moves a 1 a'"
    using ReadByte_ok [OF Cons.prems Cons.hyps(2) [symmetric]] by blast
  have v: "view a' = rs" "ok a'" using moves_view [OF a'(2)] moves_ok [OF a'(2)] by (simp_all flip: Cons.hyps(2))
  show ?case
  proof (cases "r AND 0x80 = 0")
    case True
    then show ?thesis
      using a' by (subst ReadVByte_loop.simps) (simp add: Let_def flip: Cons.hyps(2))
  next
    case False
    let ?v = "push_bit 7 v OR ucast (r AND 0x7F)"
    have "ReadVByte_loop vt v a = ReadVByte_loop vt ?v a'"
      using a' False by (subst ReadVByte_loop.simps) (simp add: Let_def)
    with Cons.hyps(1) [OF v(1) [symmetric] v(2), of ?v] False a'(2) v(1) show ?thesis
      by (auto simp: Let_def split: option.splits dest: moves_trans simp flip: Cons.hyps(2))
  qed
qed

lemma ReadVByte_enc:
  assumes "ok a" and "view a = vbyte_enc n @ rest"
  obtains a' where "ReadVByte vt a = Some (Inr (of_nat n, a'))" and "moves a (length (vbyte_enc n)) a'"
  using ReadVByte_loop_eq [OF assms(1), of 0] assms(2) that
  by (auto simp: ReadVByte_def vbyte_of_enc)

lemma ReadVByte_total: "ok a \<Longrightarrow> ReadVByte vt a \<noteq> None"
  using ReadVByte_loop_eq [of a 0] by (auto simp: ReadVByte_def split: option.splits)

lemma ReadVByteInv_loop_enc:
  assumes "ok a" and "view a = vinv_enc n @ rest" and "m < 2 ^ shift" and "shift < 64"
    and "n * 2 ^ shift < 2 ^ 64"
  shows "\<exists>a'. ReadVByteInv_loop vt (of_nat m) shift a = Some (Inr (of_nat (m + n * 2 ^ shift), a'))
    \<and> moves a (length (vinv_enc n)) a'"
  using assms
proof (induction n arbitrary: a m shift rule: vinv_enc.induct)
  case (1 n)
  have or: "of_nat m OR push_bit shift (of_nat k) = (of_nat (m + k * 2 ^ shift) :: u64)" for k
    using or_add_low [OF "1.prems"(3), of "of_nat k"] by (simp add: or.commute add.commute)
  show ?case
  proof (cases "n < 128")
    case True
    then have v: "view a = of_nat (128 + n) # rest" using "1.prems"(2) by (simp add: vinv_enc.simps)
    obtain a' where a': "ReadByte vt a = Inr (of_nat (128 + n), a')" "moves a 1 a'"
      using ReadByte_ok [OF "1.prems"(1) v] by blast
    have u: "unat (of_nat (128 + n) :: u8) = 128 + n"
      using True unat_of_nat_mod [of "128 + n", where ?'a = 8] by (simp del: of_nat_add)
    then have "(ucast (of_nat (128 + n) AND 0x7F :: u8) :: u64) = of_nat n" "of_nat (128 + n) AND 0x80 \<noteq> (0 :: u8)"
      using True by (simp_all add: ucast_eq_of_nat and_7F and_80 del: of_nat_add of_nat_unat)
    with a' True "1.prems"(4) show ?thesis
      by (subst ReadVByteInv_loop.simps) (simp add: or vinv_enc.simps del: of_nat_add)
  next
    case False
    let ?x = "of_nat (n mod 128) :: u8"
    have v: "view a = ?x # vinv_enc (n div 128) @ rest"
      using "1.prems"(2) False by (subst (asm) vinv_enc.simps) simp
    obtain a' where a': "ReadByte vt a = Inr (?x, a')" "moves a 1 a'"
      using ReadByte_ok [OF "1.prems"(1) v] by blast
    have u: "unat ?x = n mod 128"
      using unat_of_nat_mod [of "n mod 128", where ?'a = 8] by (simp add: mod_mod_cancel)
    then have x: "(ucast (?x AND 0x7F) :: u64) = of_nat (n mod 128)" "?x AND 0x80 = 0"
      by (simp_all add: ucast_eq_of_nat and_7F and_80 del: of_nat_unat)
    have e: "m + (n mod 128) * 2 ^ shift + (n div 128) * 2 ^ (shift + 7) = m + n * 2 ^ shift"
    proof -
      have "(n mod 128 + n div 128 * 128) * 2 ^ shift = n * 2 ^ shift" by simp
      then show ?thesis by (simp only: add_mult_distrib power_add) simp
    qed
    have lt: "(n div 128) * 2 ^ (shift + 7) < 2 ^ 64"
      using e "1.prems"(5) by linarith
    moreover have "1 * 2 ^ (shift + 7) \<le> (n div 128) * 2 ^ (shift + 7)"
      using False by (intro mult_le_mono1) linarith
    ultimately have "2 ^ (shift + 7) < (2 :: nat) ^ 64" by linarith
    then have s: "shift + 7 < 64" by (rule power_less_imp_less_exp [rotated]) simp
    have "(n mod 128) * 2 ^ shift \<le> 127 * 2 ^ shift" by (intro mult_le_mono1) linarith
    then have m: "m + (n mod 128) * 2 ^ shift < 2 ^ (shift + 7)"
    proof -
      have "2 ^ (shift + 7) = 128 * (2 :: nat) ^ shift" by (simp add: power_add)
      with \<open>(n mod 128) * 2 ^ shift \<le> 127 * 2 ^ shift\<close> "1.prems"(3) show ?thesis by linarith
    qed
    have v': "view a' = vinv_enc (n div 128) @ rest"
      using moves_view [OF a'(2)] by (simp add: v)
    obtain a'' where a'': "ReadVByteInv_loop vt (of_nat (m + (n mod 128) * 2 ^ shift)) (shift + 7) a' =
        Some (Inr (of_nat (m + n * 2 ^ shift), a''))" "moves a' (length (vinv_enc (n div 128))) a''"
      using "1.IH" [OF False moves_ok [OF a'(2)] v' m s lt] unfolding e by blast
    have "ReadVByteInv_loop vt (of_nat m) shift a = Some (Inr (of_nat (m + n * 2 ^ shift), a''))"
      using a' a'' x "1.prems"(4) by (subst ReadVByteInv_loop.simps) (simp add: or del: of_nat_add of_nat_mult)
    moreover have "moves a (length (vinv_enc n)) a''"
      using moves_trans [OF a'(2) a''(2)] False by (subst vinv_enc.simps) simp
    ultimately show ?thesis by blast
  qed
qed

lemma Skip_loop_ok:
  "ok a \<Longrightarrow> unat tor \<le> length (view a) \<Longrightarrow> \<exists>a'. Skip_loop vt a tor = Inr a' \<and> moves a (unat tor) a'"
proof (induction "unat tor" arbitrary: a tor rule: less_induct)
  case less
  show ?case
  proof (cases "tor = 0")
    case True
    then show ?thesis using less.prems by (simp add: Skip_loop.simps moves_refl)
  next
    case False
    let ?r = "min 0x400 tor"
    have r: "unat ?r \<le> unat tor" "unat ?r \<noteq> 0"
      using False by (auto simp: min_def word_unat_eq_iff word_le_nat_alt)
    obtain a' where a': "bb_Read vt a ?r = Inr (take (unat ?r) (view a), a')" "moves a (unat ?r) a'"
      using bb_Read_ok [of a ?r] less.prems r by auto
    have d: "unat (tor - ?r) = unat tor - unat ?r"
      using r by (simp add: unat_sub word_le_nat_alt)
    have "unat (tor - ?r) < unat tor" "unat (tor - ?r) \<le> length (view a')"
      using less.prems r d moves_view [OF a'(2)] by auto
    then obtain a'' where a'': "Skip_loop vt a' (tor - ?r) = Inr a''" "moves a' (unat (tor - ?r)) a''"
      using less.hyps [of "tor - ?r" a'] moves_ok [OF a'(2)] by blast
    have "Skip_loop vt a tor = Inr a''"
      using False a'(1) a''(1) by (subst Skip_loop.simps) (simp add: Let_def)
    moreover have "moves a (unat tor) a''"
      using moves_trans [OF a'(2) a''(2)] r d by simp
    ultimately show ?thesis by blast
  qed
qed

lemma Skip_loop_err:
  "ok a \<Longrightarrow> length (view a) < unat tor \<Longrightarrow> Skip_loop vt a tor = Inl ReadTooMuch"
proof (induction "unat tor" arbitrary: a tor rule: less_induct)
  case less
  let ?r = "min 0x400 tor"
  have tor: "tor \<noteq> 0" using less.prems by auto
  have r: "unat ?r \<le> unat tor" "unat ?r \<noteq> 0" "unat ?r \<le> 0x400"
    using tor by (auto simp: min_def word_unat_eq_iff word_le_nat_alt)
  show ?case
  proof (cases "unat ?r \<le> length (view a)")
    case True
    obtain a' where a': "bb_Read vt a ?r = Inr (take (unat ?r) (view a), a')" "moves a (unat ?r) a'"
      using bb_Read_ok [of a ?r] less.prems True by auto
    have d: "unat (tor - ?r) = unat tor - unat ?r"
      using r by (simp add: unat_sub word_le_nat_alt)
    have "unat (tor - ?r) < unat tor" "length (view a') < unat (tor - ?r)"
      using less.prems r d moves_view [OF a'(2)] True by (simp_all only: length_drop) linarith+
    then have "Skip_loop vt a' (tor - ?r) = Inl ReadTooMuch"
      using less.hyps [of "tor - ?r" a'] moves_ok [OF a'(2)] by blast
    then show ?thesis using tor a'(1) by (subst Skip_loop.simps) (simp add: Let_def)
  next
    case False
    then have "bb_Read vt a ?r = Inl ReadTooMuch"
      using less.prems r by (intro bb_Read_err) auto
    then show ?thesis using tor by (subst Skip_loop.simps) (simp add: Let_def)
  qed
qed

lemma Align_eq:
  assumes "ok a" and "k < 63"
  shows "if align_up (pos (impl a)) (2 ^ k) \<le> length (bytes (impl a))
    then \<exists>a'. Align vt a (2 ^ k) = Inr a' \<and> moves a (align_up (pos (impl a)) (2 ^ k) - pos (impl a)) a'
    else Align vt a (2 ^ k) = Inl ReadTooMuch"
proof -
  have b: "pos (impl a) \<le> length (bytes (impl a))" "length (bytes (impl a)) < 2 ^ 63"
    using bounds [of "impl a"] assms(1) by (auto simp: ok_def)
  have p: "unat (vLoc vt (impl a)) = pos (impl a)"
    using loc [of "impl a"] assms(1) b by (simp add: ok_def unat_of_nat_u64 del: of_nat_unat)
  have "2 ^ k \<le> (2 :: nat) ^ 62" using assms(2) by (intro power_increasing) auto
  then have al: "unat (aligned_w (vLoc vt (impl a)) (2 ^ k)) = align_up (pos (impl a)) (2 ^ k)"
    using unat_aligned_w [of k "vLoc vt (impl a)"] assms(2) b p by simp
  have ge: "pos (impl a) \<le> align_up (pos (impl a)) (2 ^ k)" by (simp add: align_up_ge)
  let ?d = "aligned_w (vLoc vt (impl a)) (2 ^ k) - vLoc vt (impl a)"
  have d: "unat ?d = align_up (pos (impl a)) (2 ^ k) - pos (impl a)"
    using al p ge by (simp add: unat_sub word_le_nat_alt)
  have l: "length (view a) = length (bytes (impl a)) - pos (impl a)" by (simp add: view_def)
  have z: "vLoc vt (impl a) = aligned_w (vLoc vt (impl a)) (2 ^ k) \<longleftrightarrow> align_up (pos (impl a)) (2 ^ k) = pos (impl a)"
    using al p by (auto simp: word_unat_eq_iff)
  show ?thesis
  proof (cases "align_up (pos (impl a)) (2 ^ k) = pos (impl a)")
    case True
    then show ?thesis using z b assms by (auto simp: Align_def Let_def moves_refl)
  next
    case False
    then have e: "Align vt a (2 ^ k) = Skip_loop vt a ?d"
      using z by (simp add: Align_def Let_def Skip_def)
    show ?thesis
      using Skip_loop_ok [OF assms(1), of ?d] Skip_loop_err [OF assms(1), of ?d] d l b ge by (auto simp: e)
  qed
qed

lemma Push_Pop:
  assumes "ok a" and "PushLocation vt a = Inr a1" and "moves a1 k a2"
  obtains a3 where "PopLocation vt a2 = Inr a3" and "moves a 0 a3"
proof -
  have b: "pos (impl a) \<le> length (bytes (impl a))" "length (bytes (impl a)) < 2 ^ 63"
    using bounds [of "impl a"] assms(1) by (auto simp: ok_def)
  have a1: "a1 = a\<lparr>locstack := vLoc vt (impl a) # locstack a\<rparr>"
    using assms(2) by (simp add: PushLocation_def split: if_splits)
  have s: "bytes (impl a2) = bytes (impl a)" "wf (impl a2)"
    using assms(3) a1 by (simp_all add: moves_def ok_def)
  have a2: "a2 = a\<lparr>locstack := vLoc vt (impl a) # locstack a, impl := impl a2\<rparr>"
    using assms(3) a1 by (simp add: moves_def)
  have p: "unat (vLoc vt (impl a)) = pos (impl a)"
    using loc [of "impl a"] assms(1) b by (simp add: ok_def unat_of_nat_u64 del: of_nat_unat)
  then obtain s' where s': "vGoto vt (impl a2) (vLoc vt (impl a)) = Inr s'" "wf s'"
      "bytes s' = bytes (impl a)" "pos s' = pos (impl a)"
    using goto_ok [of "impl a2" "vLoc vt (impl a)"] s b by auto
  show ?thesis
    by (rule that [of "a\<lparr>impl := s'\<rparr>"])
      (subst a2, use s s' in \<open>simp_all add: PopLocation_def bb_Goto_def moves_def ok_def\<close>)
qed

end

section \<open>ByteBuffer and FileReader honour the contract\<close>

definition bb_wf :: "byte_buffer \<Rightarrow> bool" where
  "bb_wf b \<longleftrightarrow> unat (bb_len b) = length (bb_buffer b) \<and> bb_pointer b \<le> bb_len b \<and>
     length (bb_buffer b) < 2 ^ 63"

lemma unat_add_small: "unat (a :: u64) \<le> 2 ^ 63 \<Longrightarrow> unat b < 2 ^ 63 \<Longrightarrow> unat (b + a) = unat b + unat a"
  by (simp add: unat_word_ariths)

lemma bb_wf_pos: "bb_wf b \<Longrightarrow> unat (bb_pointer b) \<le> length (bb_buffer b) \<and> unat (bb_pointer b) < 2 ^ 63"
  by (auto simp: bb_wf_def word_le_nat_alt)

lemma bb_CanRead_iff:
  "bb_wf b \<Longrightarrow> unat n \<le> 2 ^ 63 \<Longrightarrow> bb_CanRead b n \<longleftrightarrow> unat (bb_pointer b) + unat n \<le> length (bb_buffer b)"
  using unat_add_small [of n "bb_pointer b"] bb_wf_pos [of b]
  by (simp add: bb_CanRead_def bb_wf_def word_le_nat_alt)

interpretation buf: byte_reader bb_vt bb_wf bb_buffer "\<lambda>b. unat (bb_pointer b)"
proof
  fix s n
  assume wf: "bb_wf s"
  show "unat (bb_pointer s) \<le> length (bb_buffer s) \<and> length (bb_buffer s) < 2 ^ 63"
    using wf bb_wf_pos [OF wf] by (simp add: bb_wf_def)
  show "vLoc bb_vt s = of_nat (unat (bb_pointer s))"
    by (simp add: bb_vt_def)
  show "vLength bb_vt s = of_nat (length (bb_buffer s))"
    using wf by (simp add: bb_vt_def bb_wf_def) (metis of_nat_unat ucast_id)
next
  fix s and n :: u64
  assume wf: "bb_wf s" and n: "unat n \<le> 2 ^ 63"
  show "vCanRead bb_vt s n \<longleftrightarrow> unat (bb_pointer s) + unat n \<le> length (bb_buffer s)"
    using wf n by (simp add: bb_vt_def bb_CanRead_iff)
next
  fix s and n :: u64
  assume wf: "bb_wf s" and n: "unat n \<le> 2 ^ 63" and "length (bb_buffer s) < unat (bb_pointer s) + unat n"
  then show "vReadImpl bb_vt s n = Inl ReadTooMuch"
    by (simp add: bb_vt_def bb_ReadImpl_def bb_CanRead_iff)
next
  fix s and n :: u64
  assume wf: "bb_wf s" and n: "unat (bb_pointer s) + unat n \<le> length (bb_buffer s)"
  let ?s = "s\<lparr>bb_pointer := bb_pointer s + n\<rparr>"
  have small: "unat n \<le> 2 ^ 63" "length (bb_buffer s) < 2 ^ 63" using n wf by (auto simp: bb_wf_def)
  have u: "unat (bb_pointer s + n) = unat (bb_pointer s) + unat n"
    using unat_add_small [OF small(1)] bb_wf_pos [OF wf] by blast
  have "vReadImpl bb_vt s n = Inr (take (unat n) (drop (unat (bb_pointer s)) (bb_buffer s)), ?s)"
    using wf n small by (simp add: bb_vt_def bb_ReadImpl_def bb_CanRead_iff bb_mem_def)
  moreover have "bb_wf ?s" using wf n u by (simp add: bb_wf_def word_le_nat_alt)
  ultimately show "\<exists>s'. vReadImpl bb_vt s n =
      Inr (take (unat n) (drop (unat (bb_pointer s)) (bb_buffer s)), s') \<and> bb_wf s' \<and>
      bb_buffer s' = bb_buffer s \<and> unat (bb_pointer s') = unat (bb_pointer s) + unat n"
    using u by auto
next
  fix s and l :: u64
  assume wf: "bb_wf s" and l: "unat l \<le> length (bb_buffer s)"
  then show "\<exists>s'. vGoto bb_vt s l = Inr s' \<and> bb_wf s' \<and> bb_buffer s' = bb_buffer s \<and> unat (bb_pointer s') = unat l"
    by (auto simp: bb_vt_def ByteBuffer_Goto_def bb_wf_def word_less_nat_alt word_le_nat_alt)
next
  fix s and l :: u64
  assume wf: "bb_wf s" and l: "length (bb_buffer s) < unat l"
  then show "vGoto bb_vt s l = Inl GotoAfterEnd"
    by (simp add: bb_vt_def ByteBuffer_Goto_def bb_wf_def word_less_nat_alt)
qed

text \<open>A file reader on the whole of a healthy stream, whose position is the location.\<close>

definition fr_wf :: "file_reader \<Rightarrow> bool" where
  "fr_wf f \<longleftrightarrow> fr_filestart f = 0 \<and> unat (fr_fileend f) = length (is_content (fr_is f)) \<and>
     fr_location f \<le> fr_fileend f \<and> length (is_content (fr_is f)) < 2 ^ 63 \<and>
     \<not> is_eof (fr_is f) \<and> \<not> is_fail (fr_is f) \<and> is_pos (fr_is f) = unat (fr_location f)"

lemma fr_wf_pos:
  "fr_wf f \<Longrightarrow> unat (fr_location f) \<le> length (is_content (fr_is f)) \<and> unat (fr_location f) < 2 ^ 63"
  by (auto simp: fr_wf_def word_le_nat_alt)

lemma fr_CanRead_iff:
  "fr_wf f \<Longrightarrow> unat n \<le> 2 ^ 63 \<Longrightarrow>
   fr_CanRead f n \<longleftrightarrow> unat (fr_location f) + unat n \<le> length (is_content (fr_is f))"
  using unat_add_small [of n "fr_location f"] fr_wf_pos [of f]
  by (simp add: fr_CanRead_def fr_wf_def word_le_nat_alt)

interpretation filer: byte_reader fr_vt fr_wf "\<lambda>f. is_content (fr_is f)" "\<lambda>f. unat (fr_location f)"
proof
  fix s n
  assume wf: "fr_wf s"
  show "unat (fr_location s) \<le> length (is_content (fr_is s)) \<and> length (is_content (fr_is s)) < 2 ^ 63"
    using wf fr_wf_pos [OF wf] by (simp add: fr_wf_def)
  show "vLoc fr_vt s = of_nat (unat (fr_location s))"
    by (simp add: fr_vt_def)
  show "vLength fr_vt s = of_nat (length (is_content (fr_is s)))"
    using wf by (simp add: fr_vt_def fr_wf_def) (metis of_nat_unat ucast_id)
next
  fix s and n :: u64
  assume wf: "fr_wf s" and n: "unat n \<le> 2 ^ 63"
  show "vCanRead fr_vt s n \<longleftrightarrow> unat (fr_location s) + unat n \<le> length (is_content (fr_is s))"
    using wf n by (simp add: fr_vt_def fr_CanRead_iff)
next
  fix s and n :: u64
  assume wf: "fr_wf s" and n: "unat n \<le> 2 ^ 63" and "length (is_content (fr_is s)) < unat (fr_location s) + unat n"
  then show "vReadImpl fr_vt s n = Inl ReadTooMuch"
    by (simp add: fr_vt_def fr_ReadImpl_def fr_CanRead_iff)
next
  fix s and n :: u64
  assume wf: "fr_wf s" and n: "unat (fr_location s) + unat n \<le> length (is_content (fr_is s))"
  let ?i = "(fr_is s)\<lparr>is_pos := is_pos (fr_is s) + unat n\<rparr>"
  let ?s = "s\<lparr>fr_is := ?i, fr_location := fr_location s + n\<rparr>"
  have small: "unat n \<le> 2 ^ 63" "length (is_content (fr_is s)) < 2 ^ 63" using n wf by (auto simp: fr_wf_def)
  have u: "unat (fr_location s + n) = unat (fr_location s) + unat n"
    using unat_add_small [OF small(1)] fr_wf_pos [OF wf] by blast
  have r: "is_read (fr_is s) (unat n) = (take (unat n) (drop (unat (fr_location s)) (is_content (fr_is s))), ?i)"
    using wf n by (auto simp: is_read_def fr_wf_def)
  have "vReadImpl fr_vt s n = Inr (take (unat n) (drop (unat (fr_location s)) (is_content (fr_is s))), ?s)"
    using wf n small r by (simp add: fr_vt_def fr_ReadImpl_def fr_CanRead_iff Let_def ValidateState_def fr_wf_def)
  moreover have "fr_wf ?s" using wf n u by (simp add: fr_wf_def word_le_nat_alt)
  ultimately show "\<exists>s'. vReadImpl fr_vt s n =
      Inr (take (unat n) (drop (unat (fr_location s)) (is_content (fr_is s))), s') \<and> fr_wf s' \<and>
      is_content (fr_is s') = is_content (fr_is s) \<and> unat (fr_location s') = unat (fr_location s) + unat n"
    using u by auto
next
  fix s and l :: u64
  assume wf: "fr_wf s" and l: "unat l \<le> length (is_content (fr_is s))"
  have st: "fr_filestart s = 0" "\<not> fr_fileend s < l" "\<not> is_fail (fr_is s)"
      "unat (fr_fileend s) = length (is_content (fr_is s))"
    using wf l by (simp_all add: fr_wf_def word_less_nat_alt)
  have "vGoto fr_vt s l = Inr (s\<lparr>fr_is := (fr_is s)\<lparr>is_eof := False, is_pos := unat l\<rparr>, fr_location := l\<rparr>)"
  proof (cases "l = fr_fileend s")
    case True
    then show ?thesis using st
      by (simp add: fr_vt_def FileReader_Goto_def Let_def is_seek_def is_tell_def ValidateState_def flip: st(4))
  next
    case False
    then show ?thesis using st
      by (simp add: fr_vt_def FileReader_Goto_def Let_def is_seek_def is_tell_def ValidateState_def)
  qed
  then show "\<exists>s'. vGoto fr_vt s l = Inr s' \<and> fr_wf s' \<and> is_content (fr_is s') = is_content (fr_is s) \<and>
      unat (fr_location s') = unat l"
    using wf l by (simp add: fr_wf_def word_le_nat_alt)
next
  fix s and l :: u64
  assume wf: "fr_wf s" and l: "length (is_content (fr_is s)) < unat l"
  then show "vGoto fr_vt s l = Inl GotoAfterEnd"
    by (simp add: fr_vt_def FileReader_Goto_def fr_wf_def word_less_nat_alt Let_def)
qed

end
