(* ===== verification/Reader_Properties.thy ===== *)
theory Reader_Properties
  imports Byte_Reader
begin

text \<open>
  What the readers guarantee: a file reader and a memory reader over the same bytes are
  indistinguishable, the variable-length integers round trip, and the memory reader stays inside
  its buffer exactly when the sum of its bounds check does not wrap.
\<close>

section \<open>Sequences of read operations\<close>

datatype rop =
    OpRead u64 | OpNumber u64 | OpArray u64 u64 | OpSizedString u64
  | OpSkip u64 | OpAlign u64
  | OpVByte | OpSignedVByte | OpVByteInv
  | OpPushLoc | OpPopLoc | OpGoto u64 | OpGotoEnd
  | OpPushEndian | OpPopEndian | OpSetEndian endianness
  | OpEnd

datatype obs = ONone | OBytes "u8 list" | ONat nat | OWord u64 | OBool bool

definition ret :: "'e + ('a \<times> 's) \<Rightarrow> ('a \<Rightarrow> obs) \<Rightarrow> ('e + (obs \<times> 's)) option" where
  "ret m f = Some (ebind m (\<lambda>(x, a). Inr (f x, a)))"

definition ret0 :: "'e + 's \<Rightarrow> ('e + (obs \<times> 's)) option" where
  "ret0 m = Some (ebind m (\<lambda>a. Inr (ONone, a)))"

fun run_op :: "'s vtable \<Rightarrow> rop \<Rightarrow> 's abuf \<Rightarrow> (bb_error + (obs \<times> 's abuf)) option" where
  "run_op vt (OpRead n) a = ret (ReadT vt n a) OBytes"
| "run_op vt (OpNumber n) a = ret (ReadNumber vt n a) ONat"
| "run_op vt (OpArray n c) a = ret (ReadArray vt n a c) OBytes"
| "run_op vt (OpSizedString n) a =
     Some (ebind (ReadSizedString vt n a) (\<lambda>(s, l, a'). Inr (OBytes s, a')))"
| "run_op vt (OpSkip n) a = ret0 (Skip vt 1 a n)"
| "run_op vt (OpAlign n) a = ret0 (Align vt a n)"
| "run_op vt OpVByte a = obind (ReadVByte vt a) (\<lambda>(v, a'). Some (Inr (OWord v, a')))"
| "run_op vt OpSignedVByte a = obind (ReadSignedVByte vt a) (\<lambda>(v, a'). Some (Inr (OWord v, a')))"
| "run_op vt OpVByteInv a = obind (ReadVByteInv vt a) (\<lambda>(v, a'). Some (Inr (OWord v, a')))"
| "run_op vt OpPushLoc a = ret0 (PushLocation vt a)"
| "run_op vt OpPopLoc a = ret0 (PopLocation vt a)"
| "run_op vt (OpGoto l) a = ret0 (bb_Goto vt a l)"
| "run_op vt OpGotoEnd a = ret0 (GotoEnd vt a)"
| "run_op vt OpPushEndian a = ret0 (PushEndian a)"
| "run_op vt OpPopEndian a = ret0 (PopEndian a)"
| "run_op vt (OpSetEndian e) a = Some (Inr (ONone, SetEndian e a))"
| "run_op vt OpEnd a = Some (Inr (OBool (End vt a), a))"

fun run_ops :: "'s vtable \<Rightarrow> rop list \<Rightarrow> 's abuf \<Rightarrow> (bb_error + (obs list \<times> 's abuf)) option" where
  "run_ops vt [] a = Some (Inr ([], a))"
| "run_ops vt (op # ops) a =
     obind (run_op vt op a) (\<lambda>(x, a'). obind (run_ops vt ops a') (\<lambda>(xs, a''). Some (Inr (x # xs, a''))))"

text \<open>The sizes below which no bounds check wraps.\<close>

fun small_op :: "rop \<Rightarrow> bool" where
  "small_op (OpRead n) \<longleftrightarrow> unat n \<le> 2 ^ 63"
| "small_op (OpNumber n) \<longleftrightarrow> 0 < unat n \<and> unat n \<le> 2 ^ 63"
| "small_op (OpArray n c) \<longleftrightarrow> unat (n * c) \<le> 2 ^ 63"
| "small_op (OpSizedString n) \<longleftrightarrow> unat n \<le> 4"
| "small_op _ \<longleftrightarrow> True"

section \<open>Two readers of the same bytes\<close>

abbreviation rel_res :: "('a \<Rightarrow> 'b \<Rightarrow> bool) \<Rightarrow> 'e + 'a \<Rightarrow> 'e + 'b \<Rightarrow> bool" where
  "rel_res \<equiv> rel_sum (=)"

lemma rel_ebind:
  "rel_res R m m' \<Longrightarrow> (\<And>x y. m = Inr x \<Longrightarrow> R x y \<Longrightarrow> rel_res S (f x) (g y)) \<Longrightarrow> rel_res S (ebind m f) (ebind m' g)"
  by (cases m; cases m') (auto simp: ebind_def)

lemma rel_obind:
  "rel_option (rel_res R) m m' \<Longrightarrow> (\<And>x y. R x y \<Longrightarrow> rel_option (rel_res S) (f x) (g y)) \<Longrightarrow>
   rel_option (rel_res S) (obind m f) (obind m' g)"
  by (cases m; cases m') (auto simp: obind_def rel_sum.simps split: sum.splits)

lemma rel_ret:
  "rel_res (rel_prod (=) R) m m' \<Longrightarrow> rel_option (rel_res (rel_prod (=) R)) (ret m f) (ret m' f)"
  unfolding ret_def by (auto intro!: rel_ebind)

lemma rel_ret0: "rel_res R m m' \<Longrightarrow> rel_option (rel_res (rel_prod (=) R)) (ret0 m) (ret0 m')"
  unfolding ret0_def by (auto intro!: rel_ebind)

locale reader_pair =
  one: byte_reader vt wf bytes pos + two: byte_reader vt' wf' bytes' pos'
  for vt :: "'s vtable" and wf bytes pos and vt' :: "'t vtable" and wf' bytes' pos'

context reader_pair
begin

definition sim :: "'s abuf \<Rightarrow> 't abuf \<Rightarrow> bool" where
  "sim a b \<longleftrightarrow> wf (impl a) \<and> wf' (impl b) \<and> bytes (impl a) = bytes' (impl b) \<and>
     pos (impl a) = pos' (impl b) \<and> locstack a = locstack b \<and> endianstack a = endianstack b \<and>
     endian a = endian b"

lemma sim_ok: "sim a b \<Longrightarrow> one.ok a \<and> two.ok b \<and> two.view b = one.view a"
  by (simp add: sim_def one.ok_def two.ok_def one.view_def two.view_def)

lemma sim_moves: "sim a b \<Longrightarrow> one.moves a k a' \<Longrightarrow> two.moves b k b' \<Longrightarrow> sim a' b'"
  by (cases a, cases a', cases b, cases b')
    (simp add: sim_def one.moves_def two.moves_def one.ok_def two.ok_def)

lemma sim_loc: "sim a b \<Longrightarrow> vLoc vt (impl a) = vLoc vt' (impl b)"
  by (simp add: sim_def one.loc two.loc)

lemma sim_len: "sim a b \<Longrightarrow> vLength vt (impl a) = vLength vt' (impl b)"
  by (simp add: sim_def one.len two.len)

lemma sim_can: "sim a b \<Longrightarrow> unat n \<le> 2 ^ 63 \<Longrightarrow> vCanRead vt (impl a) n = vCanRead vt' (impl b) n"
  by (simp add: sim_def one.can two.can)

lemma sim_Read:
  assumes "sim a b" and "unat n \<le> 2 ^ 63"
  shows "rel_res (rel_prod (=) sim) (bb_Read vt a n) (bb_Read vt' b n)"
proof (cases "unat n \<le> length (one.view a)")
  case True
  then obtain a' b' where "bb_Read vt a n = Inr (take (unat n) (one.view a), a')" "one.moves a (unat n) a'"
    "bb_Read vt' b n = Inr (take (unat n) (two.view b), b')" "two.moves b (unat n) b'"
    using one.bb_Read_ok [of a n] two.bb_Read_ok [of b n] sim_ok [OF assms(1)] by metis
  with sim_moves [OF assms(1)] sim_ok [OF assms(1)] show ?thesis by auto
next
  case False
  with one.bb_Read_err two.bb_Read_err sim_ok [OF assms(1)] assms(2) show ?thesis by simp
qed

lemma sim_ReadT:
  "sim a b \<Longrightarrow> unat n \<le> 2 ^ 63 \<Longrightarrow> rel_res (rel_prod (=) sim) (ReadT vt n a) (ReadT vt' n b)"
  by (simp add: ReadT_def sim_can sim_Read)

lemma sim_Goto: "sim a b \<Longrightarrow> rel_res sim (bb_Goto vt a l) (bb_Goto vt' b l)"
proof -
  assume s: "sim a b"
  show ?thesis
  proof (cases "unat l \<le> length (bytes (impl a))")
    case True
    then obtain s1 s2 where "vGoto vt (impl a) l = Inr s1" "wf s1" "bytes s1 = bytes (impl a)" "pos s1 = unat l"
      "vGoto vt' (impl b) l = Inr s2" "wf' s2" "bytes' s2 = bytes' (impl b)" "pos' s2 = unat l"
      using one.goto_ok [of "impl a" l] two.goto_ok [of "impl b" l] s by (auto simp: sim_def)
    with s show ?thesis by (simp add: bb_Goto_def sim_def)
  next
    case False
    with s show ?thesis by (simp add: bb_Goto_def sim_def one.goto_err two.goto_err)
  qed
qed

lemma sim_Skip: "sim a b \<Longrightarrow> rel_res sim (Skip_loop vt a n) (Skip_loop vt' b n)"
proof -
  assume s: "sim a b"
  show ?thesis
  proof (cases "unat n \<le> length (one.view a)")
    case True
    then obtain a' b' where "Skip_loop vt a n = Inr a'" "one.moves a (unat n) a'"
      "Skip_loop vt' b n = Inr b'" "two.moves b (unat n) b'"
      using one.Skip_loop_ok [of a n] two.Skip_loop_ok [of b n] sim_ok [OF s] by auto
    with sim_moves [OF s] show ?thesis by simp
  next
    case False
    with sim_ok [OF s] one.Skip_loop_err two.Skip_loop_err show ?thesis by simp
  qed
qed

lemma sim_ReadByte: "sim a b \<Longrightarrow> rel_res (rel_prod (=) sim) (ReadByte vt a) (ReadByte vt' b)"
  unfolding ReadByte_def by (rule rel_ebind [OF sim_ReadT]) auto

lemma sim_VByte: "sim a b \<Longrightarrow> rel_option (rel_res (rel_prod (=) sim)) (ReadVByte vt a) (ReadVByte vt' b)"
  using one.ReadVByte_loop_eq [of a 0] two.ReadVByte_loop_eq [of b 0] sim_ok [of a b] sim_moves [of a b]
  by (auto simp: ReadVByte_def split: option.splits)

lemma sim_VByteInv_loop:
  "sim a b \<Longrightarrow>
   rel_option (rel_res (rel_prod (=) sim)) (ReadVByteInv_loop vt v s a) (ReadVByteInv_loop vt' v s b)"
proof (induction "one.view a" arbitrary: a b v s)
  case Nil
  then have "ReadByte vt a = Inl ReadTooMuch" "ReadByte vt' b = Inl ReadTooMuch"
    using one.ReadByte_err two.ReadByte_err sim_ok by metis+
  then show ?case by (subst (1 2) ReadVByteInv_loop.simps) simp
next
  case (Cons r rs)
  obtain a' b' where ab: "ReadByte vt a = Inr (r, a')" "one.moves a 1 a'"
      "ReadByte vt' b = Inr (r, b')" "two.moves b 1 b'"
    using one.ReadByte_ok [of a r rs] two.ReadByte_ok [of b r rs] sim_ok [OF Cons.prems] Cons.hyps(2) by metis
  have s: "sim a' b'" "rs = one.view a'"
    using sim_moves [OF Cons.prems ab(2,4)] one.moves_view [OF ab(2)] by (simp_all flip: Cons.hyps(2))
  show ?case using ab Cons.hyps(1) [OF s(2,1)] s(1)
    by (subst (1 2) ReadVByteInv_loop.simps) (simp add: Let_def)
qed

lemma sim_update:
  "sim a b \<Longrightarrow> sim (a\<lparr>locstack := ls\<rparr>) (b\<lparr>locstack := ls\<rparr>)"
  "sim a b \<Longrightarrow> sim (a\<lparr>endian := e, endianstack := es\<rparr>) (b\<lparr>endian := e, endianstack := es\<rparr>)"
  "sim a b \<Longrightarrow> sim (a\<lparr>endianstack := es\<rparr>) (b\<lparr>endianstack := es\<rparr>)"
  "sim a b \<Longrightarrow> sim (SetEndian e a) (SetEndian e b)"
  by (simp_all add: sim_def SetEndian_def)

lemma sim_fields:
  "sim a b \<Longrightarrow> locstack b = locstack a" "sim a b \<Longrightarrow> endianstack b = endianstack a"
  "sim a b \<Longrightarrow> endian b = endian a"
  by (simp_all add: sim_def)

lemma le_nat_4: "length bs \<le> 4 \<Longrightarrow> le_nat bs < 2 ^ 32"
proof -
  assume "length bs \<le> 4"
  then have "256 ^ length bs \<le> (256 :: nat) ^ 4" by (intro power_increasing) auto
  with le_nat_bound [of bs] show ?thesis by simp
qed

lemma sim_ReadT_length:
  assumes "sim a b" and "unat n \<le> 2 ^ 63" and "ReadT vt n a = Inr (bs, a')"
  shows "length bs \<le> unat n"
proof (cases "unat n \<le> length (one.view a)")
  case True
  then obtain a'' where "ReadT vt n a = Inr (take (unat n) (one.view a), a'')"
    using one.ReadT_ok [of a n] sim_ok [OF assms(1)] by blast
  with assms(3) show ?thesis by auto
next
  case False
  with one.ReadT_err [of a n] sim_ok [OF assms(1)] assms show ?thesis by simp
qed

lemma sim_run_op:
  assumes s: "sim a b" and small: "small_op op"
  shows "rel_option (rel_res (rel_prod (=) sim)) (run_op vt op a) (run_op vt' op b)"
proof (cases op)
  case (OpNumber n)
  have "rel_res (rel_prod (=) sim) (ReadNumber vt n a) (ReadNumber vt' n b)"
    unfolding ReadNumber_def sim_fields(3) [OF s]
    using small OpNumber s by (intro rel_ebind [OF sim_ReadT]) (auto split: option.splits)
  then show ?thesis using OpNumber by (simp add: rel_ret)
next
  case (OpSizedString n)
  have n: "unat n \<le> 2 ^ 63" "unat n \<le> 4" using small OpSizedString by auto
  have "rel_res (rel_prod (=) sim)
      (ebind (ReadSizedString vt n a) (\<lambda>(s, l, a'). Inr (OBytes s, a')))
      (ebind (ReadSizedString vt' n b) (\<lambda>(s, l, a'). Inr (OBytes s, a')))"
    unfolding ReadSizedString_def ebind_assoc
  proof (rule rel_ebind [OF sim_ReadT [OF s n(1)]], clarsimp simp: ebind_assoc simp del: of_nat_unat)
    fix bs a' b'
    assume r: "ReadT vt n a = Inr (bs, a')" and s': "sim a' b'"
    have "le_nat bs < 2 ^ 32" using le_nat_4 [of bs] sim_ReadT_length [OF s n(1) r] n(2) by linarith
    then have "unat (of_nat (le_nat bs) :: u64) \<le> 2 ^ 63" by (subst unat_of_nat_u64) auto
    then show "rel_res (rel_prod (=) sim)
        (ebind (bb_Read vt a' (of_nat (le_nat bs))) (\<lambda>x. ebind (case x of (s, a'') \<Rightarrow> Inr (s, le_nat bs, a'')) (\<lambda>(s, l, a'). Inr (OBytes s, a'))))
        (ebind (bb_Read vt' b' (of_nat (le_nat bs))) (\<lambda>x. ebind (case x of (s, a'') \<Rightarrow> Inr (s, le_nat bs, a'')) (\<lambda>(s, l, a'). Inr (OBytes s, a'))))"
      by (intro rel_ebind [OF sim_Read [OF s']]) auto
  qed
  then show ?thesis using OpSizedString by simp
next
  case (OpAlign n)
  have "rel_res sim (Align vt a n) (Align vt' b n)"
    using s sim_Skip [OF s] by (simp add: Align_def sim_loc [OF s] Let_def Skip_def)
  then show ?thesis using OpAlign by (simp add: rel_ret0)
next
  case OpVByte
  then show ?thesis by (auto intro: rel_obind [OF sim_VByte [OF s]])
next
  case OpSignedVByte
  have "rel_option (rel_res (rel_prod (=) sim)) (ReadSignedVByte vt a) (ReadSignedVByte vt' b)"
    unfolding ReadSignedVByte_def by (auto intro: rel_obind [OF sim_VByte [OF s]])
  then show ?thesis using OpSignedVByte by (auto intro: rel_obind)
next
  case OpVByteInv
  then show ?thesis
    by (auto simp: ReadVByteInv_def intro!: rel_obind [OF sim_VByteInv_loop [OF s]])
next
  case OpPopLoc
  have "rel_res sim (PopLocation vt a) (PopLocation vt' b)"
    using sim_Goto [OF sim_update(1) [OF s]] sim_fields(1) [OF s]
    by (simp add: PopLocation_def split: list.splits)
  then show ?thesis using OpPopLoc by (simp add: rel_ret0)
qed (use s small sim_ReadT [OF s] sim_Read [OF s] sim_Skip [OF s] sim_Goto [OF s] sim_fields [OF s]
      sim_update [OF s] sim_loc [OF s] sim_len [OF s] sim_can [OF s]
    in \<open>auto simp: ReadArray_def Skip_def PushLocation_def PushEndian_def PopEndian_def GotoEnd_def
      End_def intro!: rel_ret rel_ret0 split: list.splits\<close>)

theorem sim_run_ops:
  "sim a b \<Longrightarrow> \<forall>op \<in> set ops. small_op op \<Longrightarrow>
   rel_option (rel_res (rel_prod (=) sim)) (run_ops vt ops a) (run_ops vt' ops b)"
proof (induction ops arbitrary: a b)
  case (Cons op ops)
  have "rel_option (rel_res (rel_prod (=) sim)) (run_op vt op a) (run_op vt' op b)"
    using Cons.prems by (intro sim_run_op) auto
  then show ?case unfolding run_ops.simps
    by (rule rel_obind) (use Cons in \<open>auto intro!: rel_obind [OF Cons.IH]\<close>)
qed simp

end

interpretation buf_file: reader_pair bb_vt bb_wf bb_buffer "\<lambda>b. unat (bb_pointer b)"
  fr_vt fr_wf "\<lambda>f. is_content (fr_is f)" "\<lambda>f. unat (fr_location f)" ..

section \<open>Properties of the readers\<close>

text \<open>
  C3. A \<^verbatim>\<open>FileReader\<close> over a file and a \<^verbatim>\<open>ByteBuffer\<close> over its content give the same values and the
  same errors for every sequence of read, skip, alignment, seek and stack operations: the
  two classes refine one abstract reader.
\<close>
theorem file_reader_refines_buffer:
  assumes "length content < 2 ^ 63" and "\<forall>op \<in> set ops. small_op op"
    and "new_FileReader \<lparr>is_content = content, is_pos = 0, is_eof = False, is_fail = False\<rparr> 0 None = Inr f"
  shows "map_option (map_sum id fst) (run_ops fr_vt ops (new_abuf f)) =
    map_option (map_sum id fst) (run_ops bb_vt ops (new_abuf (new_ByteBuffer content)))"
proof -
  let ?i = "\<lparr>is_content = content, is_pos = 0, is_eof = False, is_fail = False\<rparr>"
  have f: "f = \<lparr>fr_is = ?i, fr_fileend = of_nat (length content), fr_filestart = 0, fr_location = 0\<rparr>"
    using assms(3) by (simp add: new_FileReader_def is_seek_def is_tell_def Let_def ValidateState_def)
  have "buf_file.sim (new_abuf (new_ByteBuffer content)) (new_abuf f)"
    using assms(1) by (simp add: buf_file.sim_def f new_abuf_def new_ByteBuffer_def bb_wf_def fr_wf_def
        unat_of_nat_u64)
  from buf_file.sim_run_ops [OF this assms(2)] show ?thesis
    by (cases "run_ops bb_vt ops (new_abuf (new_ByteBuffer content))")
      (auto simp: option_rel_Some1 elim!: rel_sum.cases)
qed

theorem file_reader_refines_buffer_witness:
  "map_option (map_sum id fst) (run_ops fr_vt [OpVByte, OpRead 1] (new_abuf
      \<lparr>fr_is = \<lparr>is_content = [0x81, 5, 7], is_pos = 0, is_eof = False, is_fail = False\<rparr>,
       fr_fileend = 3, fr_filestart = 0, fr_location = 0\<rparr>)) =
   map_option (map_sum id fst) (run_ops bb_vt [OpVByte, OpRead 1] (new_abuf (new_ByteBuffer [0x81, 5, 7])))"
  by (rule file_reader_refines_buffer)
    (simp_all add: new_FileReader_def is_seek_def is_tell_def Let_def ValidateState_def)

text \<open>
  C10. A value written in either variable-length encoding is read back exactly, from any position
  of the buffer, and the pointer ends behind its last byte.
\<close>
theorem vbyte_roundtrip:
  assumes "bb_wf b" and "n < 2 ^ 64"
    and "drop (unat (bb_pointer b)) (bb_buffer b) = (if low_first then vinv_enc n else vbyte_enc n) @ rest"
  shows "\<exists>a'. (if low_first then ReadVByteInv else ReadVByte) bb_vt (new_abuf b) = Some (Inr (of_nat n, a')) \<and>
    unat (bb_pointer (impl a')) = unat (bb_pointer b) + length (if low_first then vinv_enc n else vbyte_enc n)"
proof -
  have ok: "buf.ok (new_abuf b)" "buf.view (new_abuf b) = drop (unat (bb_pointer b)) (bb_buffer b)"
    using assms(1) by (simp_all add: buf.ok_def buf.view_def new_abuf_def)
  show ?thesis
  proof (cases low_first)
    case False
    then show ?thesis using buf.ReadVByte_enc [of "new_abuf b" n rest] ok assms(3)
      by (auto simp: buf.moves_def new_abuf_def)
  next
    case True
    then show ?thesis using buf.ReadVByteInv_loop_enc [of "new_abuf b" n rest 0 0] ok assms(2,3)
      by (auto simp: ReadVByteInv_def buf.moves_def new_abuf_def)
  qed
qed

theorem vbyte_roundtrip_witness:
  "\<exists>a'. ReadVByte bb_vt (new_abuf (new_ByteBuffer [0x82, 44])) = Some (Inr (300, a')) \<and>
    unat (bb_pointer (impl a')) = 2"
  using vbyte_roundtrip [of "new_ByteBuffer [0x82, 44]" 300 False "[]"]
  by (simp add: bb_wf_def new_ByteBuffer_def vbyte_enc_def vbyte_high.simps eval_nat_numeral(3) [of num.One] flip: One_nat_def)

text \<open>
  C23. The bounds check of \<^verbatim>\<open>ByteBuffer\<close> is exact while its sum does not wrap, and when it wraps the
  read passes the check and leaves the buffer: what \<^verbatim>\<open>ReadImpl\<close> does on every input.
\<close>
theorem ReadImpl_bounds:
  assumes "bb_wf b"
  shows "bb_ReadImpl b n =
    (if 2 ^ 64 \<le> unat (bb_pointer b) + unat n then Inl OutOfBounds
     else if length (bb_buffer b) < unat (bb_pointer b) + unat n then Inl ReadTooMuch
     else Inr (take (unat n) (drop (unat (bb_pointer b)) (bb_buffer b)),
               b\<lparr>bb_pointer := bb_pointer b + n\<rparr>))"
proof -
  have p: "unat (bb_pointer b) \<le> length (bb_buffer b)" "length (bb_buffer b) < 2 ^ 63"
      "unat (bb_len b) = length (bb_buffer b)"
    using bb_wf_pos [OF assms] assms by (auto simp: bb_wf_def)
  show ?thesis
  proof (cases "2 ^ 64 \<le> unat (bb_pointer b) + unat n")
    case True
    then have "unat (bb_pointer b + n) = unat (bb_pointer b) + unat n - 2 ^ 64"
      using u64_bound [of n] p by (simp add: unat_plus_if' not_less)
    then have "unat (bb_pointer b + n) \<le> length (bb_buffer b)"
      using u64_bound [of n] p by simp
    then have "bb_CanRead b n" using p by (simp add: bb_CanRead_def word_le_nat_alt)
    with True p show ?thesis by (simp add: bb_ReadImpl_def bb_mem_def)
  next
    case False
    then have "unat (bb_pointer b + n) = unat (bb_pointer b) + unat n"
      by (simp add: unat_plus_if' not_less)
    then have "bb_CanRead b n \<longleftrightarrow> unat (bb_pointer b) + unat n \<le> length (bb_buffer b)"
      using p by (simp add: bb_CanRead_def word_le_nat_alt)
    with False show ?thesis by (simp add: bb_ReadImpl_def bb_mem_def)
  qed
qed

theorem ReadImpl_bounds_witness:
  "bb_ReadImpl \<lparr>bb_buffer = [1, 2], bb_len = 2, bb_pointer = 1\<rparr> 0xFFFFFFFFFFFFFFFF = Inl OutOfBounds"
  using ReadImpl_bounds [of "\<lparr>bb_buffer = [1, 2], bb_len = 2, bb_pointer = 1\<rparr>" "0xFFFFFFFFFFFFFFFF"]
  by (simp add: bb_wf_def)

lemma scan_first_find:
  "\<forall>i. lo \<le> i \<and> i + n \<le> l \<longrightarrow> test i = Inr (P i) \<Longrightarrow>
   scan_first test l n lo = Inr (find P [lo..<Suc l - n])"
proof (induction test l n lo rule: scan_first.induct)
  case (1 test l n lo)
  show ?case
  proof (cases "lo + n \<le> l")
    case True
    then have "[lo..<Suc l - n] = lo # [Suc lo..<Suc l - n]" by (intro upt_conv_Cons) simp
    with 1 True show ?thesis by (subst scan_first.simps) auto
  qed (subst scan_first.simps, simp)
qed

lemma masked_eq_FF: "length m = length pat \<Longrightarrow> masked_eq m (replicate (length pat) (- 1)) pat \<longleftrightarrow> m = pat"
  by (induction m pat rule: list_induct2) auto

definition match_at :: "byte_buffer \<Rightarrow> u8 list \<Rightarrow> nat \<Rightarrow> bool" where
  "match_at b pat i \<longleftrightarrow> take (length pat) (drop i (bb_buffer b)) = pat"

text \<open>
  The byte searches: \<^verbatim>\<open>FindMasked\<close> with a full mask gives the first index at or behind the start
  whose bytes are the pattern. \<^verbatim>\<open>Find\<close> adds the pointer twice, so it compares the bytes \<^verbatim>\<open>pointer\<close>
  places behind each index, and agrees with \<^verbatim>\<open>FindMasked\<close> at the start of the buffer only.
\<close>
theorem Find_spec:
  assumes "bb_wf b"
  shows "FindMasked b pat (replicate (length pat) (- 1)) offset =
      Inr (find (match_at b pat) [unat (bb_pointer b) + offset..<Suc (length (bb_buffer b)) - length pat])
    \<and> (bb_pointer b = 0 \<longrightarrow> Find b pat offset = FindMasked b pat (replicate (length pat) (- 1)) offset)
    \<and> (bb_pointer b \<noteq> 0 \<and> unat (bb_pointer b) + offset + length pat = length (bb_buffer b) \<longrightarrow> Find b pat offset = Inl OutOfBounds)"
proof -
  have l: "unat (bb_len b) = length (bb_buffer b)" using assms(1) by (simp add: bb_wf_def)
  have m: "masked_at b pat (replicate (length pat) (- 1)) i = Inr (match_at b pat i)"
    if "i + length pat \<le> length (bb_buffer b)" for i
    using that by (simp add: masked_at_def bb_mem_def match_at_def masked_eq_FF)
  have "FindMasked b pat (replicate (length pat) (- 1)) offset =
      Inr (find (match_at b pat) [unat (bb_pointer b) + offset..<Suc (length (bb_buffer b)) - length pat])"
    unfolding FindMasked_def l by (rule scan_first_find) (simp add: m)
  moreover have "Find b pat offset = Inr (find (match_at b pat) [unat (bb_pointer b) + offset..<Suc (length (bb_buffer b)) - length pat])"
    if "bb_pointer b = 0"
    unfolding Find_def l
    by (rule scan_first_find) (simp add: memcmp_at_def bb_mem_def match_at_def that)
  moreover have "Find b pat offset = Inl OutOfBounds"
    if "bb_pointer b \<noteq> 0" "unat (bb_pointer b) + offset + length pat = length (bb_buffer b)"
  proof -
    have "unat (bb_pointer b) \<noteq> 0" using that(1) by (simp add: word_unat_eq_iff)
    with that(2) show ?thesis
      unfolding Find_def l by (subst scan_first.simps) (simp add: memcmp_at_def bb_mem_def)
  qed
  ultimately show ?thesis by simp
qed

theorem Find_spec_witness:
  "Find \<lparr>bb_buffer = [1, 2, 3], bb_len = 3, bb_pointer = 1\<rparr> [3] 1 = Inl OutOfBounds"
  using Find_spec [of "\<lparr>bb_buffer = [1, 2, 3], bb_len = 3, bb_pointer = 1\<rparr>" "[3]" 1]
  by (simp add: bb_wf_def)

text \<open>
  A \<^verbatim>\<open>FileReader\<close> that starts inside its stream does not return to a pushed location: \<^verbatim>\<open>Loc\<close> counts
  from the start of the stream and \<^verbatim>\<open>Goto\<close> from the start of the reader, so every
  push and pop moves it by \<^verbatim>\<open>filestart\<close>; only with \<^verbatim>\<open>filestart = 0\<close> is the pair the identity.
\<close>
theorem file_reader_pop_shifts:
  assumes "PushLocation fr_vt (new_abuf f) = Inr a" and "PopLocation fr_vt a = Inr a'"
    and "\<not> is_fail (fr_is f)"
    and "unat (fr_filestart f + fr_location f) < unat (fr_fileend f)"
  shows "fr_location (impl a') = fr_filestart f + fr_location f"
  using assms
  by (auto simp: PushLocation_def PopLocation_def bb_Goto_def new_abuf_def fr_vt_def FileReader_Goto_def
      Let_def is_seek_def is_tell_def ValidateState_def BYTE_BUFFER_MAX_LOC_STACK_def ebind_eq_Inr_iff
      split: if_splits)

theorem file_reader_pop_shifts_witness:
  "fr_location (impl (projr (PopLocation fr_vt (projr (PushLocation fr_vt (new_abuf
     \<lparr>fr_is = \<lparr>is_content = [1, 2, 3, 4], is_pos = 1, is_eof = False, is_fail = False\<rparr>,
      fr_fileend = 4, fr_filestart = 1, fr_location = 1\<rparr>)))))) = 2"
proof -
  let ?f = "\<lparr>fr_is = \<lparr>is_content = [1, 2, 3, 4], is_pos = 1, is_eof = False, is_fail = False\<rparr>,
      fr_fileend = 4, fr_filestart = 1, fr_location = 1\<rparr> :: file_reader"
  let ?a = "projr (PushLocation fr_vt (new_abuf ?f))"
  have 1: "PushLocation fr_vt (new_abuf ?f) = Inr ?a"
    by (simp add: PushLocation_def new_abuf_def BYTE_BUFFER_MAX_LOC_STACK_def)
  have 2: "PopLocation fr_vt ?a = Inr (projr (PopLocation fr_vt ?a))"
    by (simp add: PushLocation_def PopLocation_def bb_Goto_def new_abuf_def fr_vt_def FileReader_Goto_def
      Let_def is_seek_def is_tell_def ValidateState_def BYTE_BUFFER_MAX_LOC_STACK_def)
  show ?thesis using file_reader_pop_shifts [OF 1 2] by simp
qed

end
