(* ===== verification/Vm_Info.thy ===== *)
theory Vm_Info
  imports Hash_Store
begin

text \<open>
  The descriptions of the script virtual machines, \<^verbatim>\<open>src/core/acts/tools/gsc/gsc_opcodes.hpp\<close>,
  \<^verbatim>\<open>gsc_opcodes.cpp\<close> and \<^verbatim>\<open>gsc_opcodes_load.hpp\<close>: the VM identifiers and their one-byte revisions, the
  platforms, the flags, and the record \<^verbatim>\<open>VmInfo\<close> with the opcode tables the assembler and the
  disassembler look up. A C++ map is a HOL map, a reference to a default-constructed entry is
  written out.
\<close>

section \<open>Identifiers and platforms\<close>

definition VMI_TRE_BASE :: u64 where "VMI_TRE_BASE = 0xa0d43534780"
definition VMI_DBG_TRE_BASE :: u64 where "VMI_DBG_TRE_BASE = 0xa0d42444780"
definition VMI_IW_BASE :: u64 where "VMI_IW_BASE = 0xa0d43534700"
definition VMI_ACTS_F1 :: u64 where "VMI_ACTS_F1 = 0x4d565354434124F1"

definition OldVmOf :: "u8 \<Rightarrow> u64" where
  "OldVmOf v =
     (if v = 0x1B then 0x1B000a0d43534780
      else if v = 0x1C then 0x1C000a0d43534780
      else if v = 0x31 then 0x31000a0d43534780
      else if v = 0x36 then 0x36000a0d43534780
      else if v = 0x37 then 0x37000a0d43534780
      else if v = 0x38 then 0x38000a0d43534780
      else if v = 0x8a then 0xa0d4353478a
      else if v = 0x8b then 0xa0d4353478b
      else if v = 0x06 then 0xa0d43534706
      else if v = 0x07 then 0xa0d43534707
      else if v = 0x0B then 0xa0d4353470B
      else if v = 0x0C then 0xa0d4353470C
      else if v = 0xF1 then VMI_ACTS_F1
      else 0)"

definition MapAsOldVM :: "u64 \<Rightarrow> u8" where
  "MapAsOldVM magicVal =
     (if magicVal AND NOT 0xFF = VMI_IW_BASE then ucast (magicVal AND 0xFF)
      else if magicVal AND NOT 0xFF00000000000000 = VMI_TRE_BASE
      then ucast (drop_bit 56 magicVal AND 0xFF)
      else 0)"

text \<open>The number printed with \<^verbatim>\<open>%02llx\<close>.\<close>

definition fmt_02x :: "u64 \<Rightarrow> cstr" where
  "fmt_02x v = (let s = fmt_hex v in replicate (2 - length s) 48 @ s)"

definition VMIdFancyName :: "u64 \<Rightarrow> cstr" where
  "VMIdFancyName magicVal =
     (let (vm, type) =
        (if magicVal AND NOT 0xFF = VMI_IW_BASE then (magicVal AND 0xFF, ''iw'')
         else if magicVal AND NOT 0xFF00000000000000 = VMI_TRE_BASE
         then (drop_bit 56 magicVal AND 0xFF, ''t'')
         else if magicVal AND NOT 0xFF00000000000000 = VMI_DBG_TRE_BASE
         then (drop_bit 56 magicVal AND 0xFF, ''dbg-t'')
         else (magicVal, ''''))
      in cstr_of ''vm-'' @ cstr_of type @ fmt_02x vm)"

definition GetGscOldVm_step :: "u8 \<Rightarrow> u64 \<times> nat \<Rightarrow> u64 \<times> nat" where
  "GetGscOldVm_step c p = (case p of (uid, offset) \<Rightarrow> (uid OR push_bit offset (scast c), offset + 8))"

definition GetGscOldVm :: "cstr \<Rightarrow> u64" where
  "GetGscOldVm vid = fst (fold GetGscOldVm_step (c_chars vid) (0x2d435347, 32))"

datatype Platform =
    PLATFORM_UNKNOWN | PLATFORM_PC | PLATFORM_PLAYSTATION | PLATFORM_XBOX | PLATFORM_PC_ALPHA
  | PLATFORM_ACTS_TEST | PLATFORM_BO6_V1 | PLATFORM_BO6 | PLATFORM_BO7

definition all_platforms :: "Platform list" where
  "all_platforms = [PLATFORM_UNKNOWN, PLATFORM_PC, PLATFORM_PLAYSTATION, PLATFORM_XBOX, PLATFORM_PC_ALPHA,
     PLATFORM_ACTS_TEST, PLATFORM_BO6_V1, PLATFORM_BO6, PLATFORM_BO7]"

fun plt_num :: "Platform \<Rightarrow> nat" where
  "plt_num PLATFORM_UNKNOWN = 0"
| "plt_num PLATFORM_PC = 1"
| "plt_num PLATFORM_PLAYSTATION = 2"
| "plt_num PLATFORM_XBOX = 3"
| "plt_num PLATFORM_PC_ALPHA = 4"
| "plt_num PLATFORM_ACTS_TEST = 5"
| "plt_num PLATFORM_BO6_V1 = 6"
| "plt_num PLATFORM_BO6 = 7"
| "plt_num PLATFORM_BO7 = 8"

fun PlatformIdName :: "Platform \<Rightarrow> string" where
  "PlatformIdName PLATFORM_UNKNOWN = ''unk''"
| "PlatformIdName PLATFORM_PC = ''pc''"
| "PlatformIdName PLATFORM_PLAYSTATION = ''ps''"
| "PlatformIdName PLATFORM_XBOX = ''xbox''"
| "PlatformIdName PLATFORM_PC_ALPHA = ''pc_alpha''"
| "PlatformIdName PLATFORM_ACTS_TEST = ''test''"
| "PlatformIdName PLATFORM_BO6_V1 = ''bo6_v1''"
| "PlatformIdName PLATFORM_BO6 = ''bo6''"
| "PlatformIdName PLATFORM_BO7 = ''bo7''"

definition strcmpi_eq :: "string \<Rightarrow> cstr \<Rightarrow> bool" where
  "strcmpi_eq a name \<longleftrightarrow> \<not> strcmpi_differs (cstr_of a) name"

definition PlatformOf :: "cstr \<Rightarrow> Platform" where
  "PlatformOf name =
     (if strcmpi_eq ''pc'' name then PLATFORM_PC
      else if strcmpi_eq ''pc_alpha'' name \<or> strcmpi_eq ''pca'' name \<or> strcmpi_eq ''alpha'' name \<or>
        strcmpi_eq ''a'' name then PLATFORM_PC_ALPHA
      else if strcmpi_eq ''xbox'' name \<or> strcmpi_eq ''xb'' name then PLATFORM_XBOX
      else if strcmpi_eq ''ps'' name \<or> strcmpi_eq ''ps4'' name \<or> strcmpi_eq ''playstation'' name
      then PLATFORM_PLAYSTATION
      else if strcmpi_eq ''acts'' name \<or> strcmpi_eq ''test'' name then PLATFORM_ACTS_TEST
      else if strcmpi_eq ''bo6_v1'' name then PLATFORM_BO6_V1
      else if strcmpi_eq ''bo6'' name then PLATFORM_BO6
      else if strcmpi_eq ''bo7'' name then PLATFORM_BO7
      else PLATFORM_UNKNOWN)"

section \<open>Flags\<close>

text \<open>
  The flags the modelled code tests. \<^verbatim>\<open>1 << 31\<close> is an \<^verbatim>\<open>int\<close>, the least one, and its conversion to
  the underlying type \<^verbatim>\<open>uint64_t\<close> of the enumeration sets all bits from 31 on.
\<close>

definition VMF_ALIGN :: u64 where "VMF_ALIGN = 1"
definition VMF_HASH64 :: u64 where "VMF_HASH64 = 0x2"
definition VMF_NO_PARAM_FLAGS :: u64 where "VMF_NO_PARAM_FLAGS = 0x8"
definition VMF_HASH_IW :: u64 where "VMF_HASH_IW = 0x40"
definition VMF_OPCODE_U16 :: u64 where "VMF_OPCODE_U16 = 0x200"
definition VMF_IW_CALLS :: u64 where "VMF_IW_CALLS = 0x800"
definition VMF_HASH_CER :: u64 where "VMF_HASH_CER = 0x2000"
definition VMF_HASH_T7 :: u64 where "VMF_HASH_T7 = 0x8000"
definition VMF_HASH_CER_SP :: u64 where "VMF_HASH_CER_SP = 0x80000"
definition VMF_HASH_PATH_IW :: u64 where "VMF_HASH_PATH_IW = 0x100000"
definition VMF_UNIQUE_HASH :: u64 where "VMF_UNIQUE_HASH = 0x40000000"
definition VMF_HASH_ACTS :: u64 where "VMF_HASH_ACTS = 0xFFFFFFFF80000000"

section \<open>VmInfo\<close>

text \<open>
  The opcodes the modelled code names; the many others are \<open>OPCODE_Other\<close> with their number.
\<close>

datatype OPCODE =
    OPCODE_Undefined
  | OPCODE_GetFunction | OPCODE_IW_GetBuiltinFunction | OPCODE_IW_GetBuiltinMethod | OPCODE_GetResolveFunction
  | OPCODE_ScriptThreadCallPointerEndOn | OPCODE_ScriptThreadCallPointer
  | OPCODE_ScriptMethodThreadCallPointer | OPCODE_ScriptMethodThreadCallPointerEndOn
  | OPCODE_IW_BuiltinFunctionCallPointer | OPCODE_IW_BuiltinMethodCallPointer
  | OPCODE_ScriptFunctionCallPointer | OPCODE_ScriptMethodCallPointer
  | OPCODE_ScriptThreadCallEndOn | OPCODE_ScriptThreadCall
  | OPCODE_ScriptMethodThreadCallEndOn | OPCODE_ScriptMethodThreadCall
  | OPCODE_ScriptFunctionCall | OPCODE_ScriptMethodCall
  | OPCODE_CallBuiltinFunction | OPCODE_CallBuiltinMethod
  | OPCODE_SafeCreateLocalVariables | OPCODE_CheckClearParams
  | OPCODE_IW_RegisterVariable | OPCODE_IW_RegisterMultipleVariables
  | OPCODE_T8C_GetLazyFunction
  | OPCODE_Other nat

record vm_hash_func =
  vhf_type :: u8
  vhf_opCode :: OPCODE
  vhf_size :: int
  vhf_hashFunc :: "cstr \<Rightarrow> u64"

record global_variable_def =
  gv_name :: cstr
  gv_getOpCode :: OPCODE

record function_operator =
  fo_name :: cstr
  fo_usage :: cstr
  fo_opCode :: OPCODE
  fo_flags :: int
  fo_minParam :: int
  fo_maxParam :: int

record vm_info =
  vmMagic :: u64
  vm_name :: cstr
  vm_codeName :: cstr
  vm_internalName :: cstr
  vm_flags :: u64
  compilerHookFunctionName :: u64
  platforms :: u8
  platformEndians :: u8
  maxOpCode :: u16
  modToolFlag :: u16
  opaqueStringCount :: nat
  gdbMagic :: u64
  hashesFunc :: "u8 \<rightharpoonup> vm_hash_func"
  devCallsNames :: "u64 set"
  opcodemap :: "u16 \<rightharpoonup> (Platform \<rightharpoonup> OPCODE)"
  opcodemaplookup :: "OPCODE \<rightharpoonup> (Platform \<rightharpoonup> u16 list)"
  opcodemaplookupModTool :: "OPCODE \<rightharpoonup> (Platform \<rightharpoonup> u16 list)"
  opcodemappltlookup :: "Platform \<rightharpoonup> (OPCODE \<rightharpoonup> u16 set)"
  globalvars :: "u64 \<rightharpoonup> global_variable_def"
  opFuncs :: "u64 \<rightharpoonup> function_operator"
  dataType :: "u64 \<rightharpoonup> cstr"
  sameVmMap :: "Platform \<rightharpoonup> Platform"

definition new_vm_info :: vm_info where
  "new_vm_info =
     \<lparr>vmMagic = 0, vm_name = cstr_of ''unknown'', vm_codeName = cstr_of ''unk'',
      vm_internalName = cstr_of ''unk'', vm_flags = 0, compilerHookFunctionName = 0, platforms = 0,
      platformEndians = 0, maxOpCode = 0xFFF, modToolFlag = 0, opaqueStringCount = 0, gdbMagic = 0,
      hashesFunc = Map.empty, devCallsNames = {}, opcodemap = Map.empty, opcodemaplookup = Map.empty,
      opcodemaplookupModTool = Map.empty, opcodemappltlookup = Map.empty, globalvars = Map.empty,
      opFuncs = Map.empty, dataType = Map.empty, sameVmMap = Map.empty\<rparr>"

definition HasFlag :: "vm_info \<Rightarrow> u64 \<Rightarrow> bool" where
  "HasFlag vm flag \<longleftrightarrow> vm_flags vm AND flag = flag"

definition plt_bit :: "Platform \<Rightarrow> u8" where
  "plt_bit plt = push_bit (plt_num plt - 1) 1"

definition AddPlatform :: "vm_info \<Rightarrow> Platform \<Rightarrow> vm_info" where
  "AddPlatform vm plt =
     (if plt \<noteq> PLATFORM_UNKNOWN then vm\<lparr>platforms := platforms vm OR plt_bit plt\<rparr> else vm)"

definition SetPlatformBigEndian :: "vm_info \<Rightarrow> Platform \<Rightarrow> vm_info" where
  "SetPlatformBigEndian vm plt =
     (if plt \<noteq> PLATFORM_UNKNOWN then vm\<lparr>platformEndians := platformEndians vm OR plt_bit plt\<rparr> else vm)"

definition HasPlatform :: "vm_info \<Rightarrow> Platform \<Rightarrow> bool" where
  "HasPlatform vm plt \<longleftrightarrow> plt \<noteq> PLATFORM_UNKNOWN \<and> platforms vm AND plt_bit plt \<noteq> 0"

definition IsPlatformBigEndian :: "vm_info \<Rightarrow> Platform \<Rightarrow> bool" where
  "IsPlatformBigEndian vm plt \<longleftrightarrow> plt \<noteq> PLATFORM_UNKNOWN \<and> platformEndians vm AND plt_bit plt \<noteq> 0"

section \<open>Hashing under a VM\<close>

definition HashField :: "vm_info \<Rightarrow> cstr option \<Rightarrow> u64" where
  "HashField vm v =
     (case v of
        None \<Rightarrow> 0
      | Some s \<Rightarrow>
          if c_chars s = [] then 0
          else case TryHashPattern s of
            Some t \<Rightarrow> t
          | None \<Rightarrow>
              if HasFlag vm VMF_HASH_ACTS then Hash64A s FNV1A_PRIME IV_DEFAULT
              else if HasFlag vm VMF_HASH_CER then HashT10Scr s 0
              else if HasFlag vm VMF_HASH_CER_SP then HashT10ScrSP s
              else if HasFlag vm VMF_HASH_IW then HashJupScr s FNV1A_IW_SCR_PRIME
              else if HasFlag vm VMF_HASH_T7 then ucast (HashT7 s)
              else ucast (HashT89Scr s))"

definition HashPath :: "vm_info \<Rightarrow> cstr option \<Rightarrow> u64" where
  "HashPath vm v =
     (case v of
        None \<Rightarrow> 0
      | Some s \<Rightarrow>
          if c_chars s = [] then 0
          else case TryHashPattern s of
            Some t \<Rightarrow> t
          | None \<Rightarrow>
              if HasFlag vm VMF_HASH_PATH_IW then HashIWAsset s FNV1A_IW_ASSET_PRIME
              else Hash64 s FNV1A_PRIME IV_DEFAULT)"

definition HashFilePath :: "vm_info \<Rightarrow> cstr option \<Rightarrow> u64" where
  "HashFilePath vm v = HashField vm v"

definition IsScrHash :: "store \<Rightarrow> vm_info \<Rightarrow> u64 \<Rightarrow> bool" where
  "IsScrHash d vm h =
     (if HasFlag vm VMF_UNIQUE_HASH then False
      else case ExtractPtr d h of
             None \<Rightarrow> False
           | Some pt \<Rightarrow> HashField vm (Some pt) AND MASK60 = h AND MASK60)"

section \<open>Registration\<close>

definition AddDevCallName :: "vm_info \<Rightarrow> u64 \<Rightarrow> vm_info" where
  "AddDevCallName vm h = vm\<lparr>devCallsNames := insert (h AND MASK60) (devCallsNames vm)\<rparr>"

definition RegisterDevCall :: "vm_info \<Rightarrow> cstr \<Rightarrow> vm_info" where
  "RegisterDevCall vm devCall = AddDevCallName vm (HashField vm (Some devCall))"

definition SetCompilerHookFunctionName :: "vm_info \<Rightarrow> cstr \<Rightarrow> vm_info" where
  "SetCompilerHookFunctionName vm s = vm\<lparr>compilerHookFunctionName := HashField vm (Some s)\<rparr>"

definition RegisterVMOperatorFunction ::
  "vm_info \<Rightarrow> cstr \<Rightarrow> cstr \<Rightarrow> OPCODE \<Rightarrow> int \<Rightarrow> int \<Rightarrow> int \<Rightarrow> vm_info" where
  "RegisterVMOperatorFunction vm s usage opcode flags minArgs maxArgs =
     (let funcHash = HashField vm (Some s)
      in if opFuncs vm funcHash \<noteq> None then vm
         else vm\<lparr>opFuncs := (opFuncs vm)(funcHash \<mapsto>
           \<lparr>fo_name = s, fo_usage = usage, fo_opCode = opcode, fo_flags = flags,
            fo_minParam = minArgs, fo_maxParam = maxArgs\<rparr>)\<rparr>)"

definition RegisterVMGlobalVariable :: "vm_info \<Rightarrow> cstr \<Rightarrow> OPCODE \<Rightarrow> vm_info" where
  "RegisterVMGlobalVariable vm s getOpCode =
     (let h = HashField vm (Some s)
      in if globalvars vm h \<noteq> None then vm
         else vm\<lparr>globalvars := (globalvars vm)(h \<mapsto> \<lparr>gv_name = s, gv_getOpCode = getOpCode\<rparr>)\<rparr>)"

definition RegisterDatatypeRenamed :: "vm_info \<Rightarrow> cstr \<Rightarrow> cstr \<Rightarrow> vm_info" where
  "RegisterDatatypeRenamed vm datatype_name trueName =
     vm\<lparr>dataType := (dataType vm)(Hash64 datatype_name FNV1A_PRIME IV_DEFAULT \<mapsto> trueName)\<rparr>"

text \<open>The hash types: the character that names one, from a character or a short name.\<close>

definition chr :: "char \<Rightarrow> u8" where "chr c = of_char c"

definition MapVMHashTypeToChar :: "cstr option \<Rightarrow> u8" where
  "MapVMHashTypeToChar type =
     (case type of
        None \<Rightarrow> 0
      | Some s \<Rightarrow>
          (case c_chars s of
             [] \<Rightarrow> 0
           | [c] \<Rightarrow>
               if c = chr (CHR ''x'') \<or> c = chr (CHR ''#'') then chr (CHR ''x'')
               else if c = chr (CHR ''d'') \<or> c = chr (CHR ''D'') \<or> c = chr (CHR ''@'') then chr (CHR ''d'')
               else if c = chr (CHR ''s'') \<or> c = chr (CHR ''S'') then chr (CHR ''s'')
               else if c = chr (CHR ''a'') \<or> c = chr (CHR ''A'') \<or> c = chr (CHR ''%'') then chr (CHR ''a'')
               else if c = chr (CHR ''o'') \<or> c = chr (CHR ''O'') then chr (CHR ''o'')
               else if c = chr (CHR ''t'') \<or> c = chr (CHR ''T'') then chr (CHR ''t'')
               else c
           | _ \<Rightarrow>
               let h = (\<lambda>x. Hash64A x FNV1A_PRIME IV_DEFAULT)
               in if h s = h (cstr_of ''x64'') then chr (CHR ''x'')
                  else if h s = h (cstr_of ''x32'') then chr (CHR ''t'')
                  else if h s = h (cstr_of ''scr'') then chr (CHR ''s'')
                  else if h s = h (cstr_of ''asset'') then chr (CHR ''a'')
                  else if h s = h (cstr_of ''dvar'') then chr (CHR ''d'')
                  else if h s = h (cstr_of ''omn'') then chr (CHR ''o'')
                  else 0))"

definition GetVMHashOPCode :: "vm_info \<Rightarrow> cstr option \<Rightarrow> vm_hash_func option" where
  "GetVMHashOPCode vm type = hashesFunc vm (MapVMHashTypeToChar type)"

definition RegisterVMHashOPCode ::
  "vm_info \<Rightarrow> u8 \<Rightarrow> OPCODE \<Rightarrow> int \<Rightarrow> (cstr \<Rightarrow> u64) \<Rightarrow> vm_info" where
  "RegisterVMHashOPCode vm type opCode sz hf =
     (let type = MapVMHashTypeToChar (Some [type])
      in if \<not> (sz = 8 \<or> sz = 4) then vm
         else if hashesFunc vm type \<noteq> None then vm
         else vm\<lparr>hashesFunc := (hashesFunc vm)(type \<mapsto>
           \<lparr>vhf_type = type, vhf_opCode = opCode, vhf_size = sz, vhf_hashFunc = hf\<rparr>)\<rparr>)"

section \<open>The opcode tables\<close>

definition inner :: "('a \<rightharpoonup> ('b \<rightharpoonup> 'c)) \<Rightarrow> 'a \<Rightarrow> ('b \<rightharpoonup> 'c)" where
  "inner m a = (case m a of None \<Rightarrow> Map.empty | Some n \<Rightarrow> n)"

definition push2 :: "('a \<rightharpoonup> ('b \<rightharpoonup> 'c list)) \<Rightarrow> 'a \<Rightarrow> 'b \<Rightarrow> 'c \<Rightarrow> ('a \<rightharpoonup> ('b \<rightharpoonup> 'c list))" where
  "push2 m a b x = m(a \<mapsto> (inner m a)(b \<mapsto> (case inner m a b of None \<Rightarrow> [] | Some l \<Rightarrow> l) @ [x]))"

definition RegisterOpCode :: "vm_info \<Rightarrow> Platform \<Rightarrow> OPCODE \<Rightarrow> u16 \<Rightarrow> vm_info" where
  "RegisterOpCode vm platform enumValue op =
     (let vm1 = vm\<lparr>opcodemap := (opcodemap vm)(op \<mapsto> (inner (opcodemap vm) op)(platform \<mapsto> enumValue))\<rparr>;
          vm2 = (if op AND modToolFlag vm \<noteq> 0
                 then vm1\<lparr>opcodemaplookupModTool := push2 (opcodemaplookupModTool vm) enumValue platform op\<rparr>
                 else vm1\<lparr>opcodemaplookup := push2 (opcodemaplookup vm) enumValue platform op\<rparr>);
          ops = inner (opcodemappltlookup vm) platform
      in vm2\<lparr>opcodemappltlookup := (opcodemappltlookup vm)(platform \<mapsto>
           ops(enumValue \<mapsto> insert op (case ops enumValue of None \<Rightarrow> {} | Some s \<Rightarrow> s)))\<rparr>)"

definition ClearPlatformOpCode :: "vm_info \<Rightarrow> Platform \<Rightarrow> vm_info" where
  "ClearPlatformOpCode vm platform =
     vm\<lparr>opcodemap := (\<lambda>op. map_option (\<lambda>m. m(platform := None)) (opcodemap vm op)),
        opcodemaplookup := (\<lambda>e. map_option (\<lambda>m. m(platform := None)) (opcodemaplookup vm e)),
        opcodemappltlookup := (opcodemappltlookup vm)(platform := None)\<rparr>"

text \<open>Following the chain of a platform: \<open>None\<close> when it never ends.\<close>

partial_function (option) same_plt_end :: "(Platform \<rightharpoonup> Platform) \<Rightarrow> Platform \<Rightarrow> Platform option" where
  "same_plt_end m p = (case m p of None \<Rightarrow> Some p | Some q \<Rightarrow> same_plt_end m q)"

definition RegisterSameCodePlatform :: "vm_info \<Rightarrow> Platform \<Rightarrow> Platform \<Rightarrow> vm_info option" where
  "RegisterSameCodePlatform vm main sub =
     (let vm = AddPlatform vm sub
      in case same_plt_end (sameVmMap vm) main of
           None \<Rightarrow> None
         | Some p \<Rightarrow> if p = sub then Some vm else Some (vm\<lparr>sameVmMap := (sameVmMap vm)(sub \<mapsto> p)\<rparr>))"

definition RemapSamePlatform :: "vm_info \<Rightarrow> Platform \<Rightarrow> Platform" where
  "RemapSamePlatform vm p = (case sameVmMap vm p of None \<Rightarrow> p | Some q \<Rightarrow> q)"

text \<open>
  \<^verbatim>\<open>GetOpCodeId\<close> chooses one of the values of an opcode at random: \<open>rnd n\<close> is the value of \<^verbatim>\<open>Rand(n)\<close>.
\<close>

definition GetOpCodeId :: "vm_info \<Rightarrow> (nat \<Rightarrow> nat) \<Rightarrow> Platform \<Rightarrow> OPCODE \<Rightarrow> bool \<Rightarrow> u16 option" where
  "GetOpCodeId vm rnd platform opcode modTool =
     (if modTool \<and> modToolFlag vm = 0 then None
      else case (if modTool then opcodemaplookupModTool vm else opcodemaplookup vm) opcode of
             None \<Rightarrow> None
           | Some ref \<Rightarrow>
               (case ref (RemapSamePlatform vm platform) of
                  None \<Rightarrow> None
                | Some ops \<Rightarrow> if ops = [] then None else Some (ops ! rnd (length ops))))"

definition HasOpCode :: "vm_info \<Rightarrow> Platform \<Rightarrow> OPCODE \<Rightarrow> bool \<Rightarrow> bool" where
  "HasOpCode vm plt opcode modTool \<longleftrightarrow> GetOpCodeId vm (\<lambda>_. 0) plt opcode modTool \<noteq> None"

text \<open>\<^verbatim>\<open>LookupOpCode\<close>: the opcode whose handler is found; \<open>handled\<close> tells which have one.\<close>

definition LookupOpCode :: "(OPCODE \<Rightarrow> bool) \<Rightarrow> vm_info \<Rightarrow> Platform \<Rightarrow> u16 \<Rightarrow> OPCODE" where
  "LookupOpCode handled vm platform opcode =
     (case opcodemap vm opcode of
        None \<Rightarrow> OPCODE_Undefined
      | Some ref \<Rightarrow>
          (case ref (RemapSamePlatform vm platform) of
             None \<Rightarrow> OPCODE_Undefined
           | Some e \<Rightarrow> if handled e then e else OPCODE_Undefined))"

text \<open>
  \<^verbatim>\<open>FindPlatform\<close>: \<open>valids\<close> counts, for each platform, the expected values it agrees with.
\<close>

fun count_valids :: "vm_info \<Rightarrow> (OPCODE \<times> u16) list \<Rightarrow> (Platform \<Rightarrow> nat) \<Rightarrow> (Platform \<Rightarrow> nat) option" where
  "count_valids vm [] valids = Some valids"
| "count_valids vm ((ev_opcode, ev_value) # evs) valids =
     (case opcodemap vm ev_value of
        None \<Rightarrow> None
      | Some plts \<Rightarrow>
          (if \<exists>p \<in> set all_platforms. plts p = Some ev_opcode
           then count_valids vm evs (\<lambda>p. if plts p = Some ev_opcode then valids p + 1 else valids p)
           else None))"

fun unique_valid :: "(Platform \<Rightarrow> nat) \<Rightarrow> nat \<Rightarrow> Platform list \<Rightarrow> Platform \<Rightarrow> Platform" where
  "unique_valid valids n [] res = res"
| "unique_valid valids n (p # ps) res =
     (if valids p = n
      then (if res \<noteq> PLATFORM_UNKNOWN then PLATFORM_UNKNOWN else unique_valid valids n ps p)
      else unique_valid valids n ps res)"

definition FindPlatform :: "vm_info \<Rightarrow> (OPCODE \<times> u16) list \<Rightarrow> Platform" where
  "FindPlatform vm evs =
     (if evs = [] then PLATFORM_UNKNOWN
      else case count_valids vm evs (\<lambda>_. 0) of
             None \<Rightarrow> PLATFORM_UNKNOWN
           | Some valids \<Rightarrow> unique_valid valids (length evs) all_platforms PLATFORM_UNKNOWN)"

section \<open>The registry of VMs\<close>

record vm_registry =
  g_opcodeMap :: "u64 \<rightharpoonup> vm_info"
  g_vmMap :: "u64 \<rightharpoonup> u64"

definition hash_name :: "cstr \<Rightarrow> u64" where
  "hash_name s = Hash64 s FNV1A_PRIME IV_DEFAULT"

definition RegisterVM :: "vm_registry \<Rightarrow> u64 \<Rightarrow> cstr \<Rightarrow> cstr \<Rightarrow> cstr \<Rightarrow> u64 \<Rightarrow> vm_registry" where
  "RegisterVM g vm nm codeName internalName flags =
     (if (case g_opcodeMap g vm of None \<Rightarrow> False | Some i \<Rightarrow> vmMagic i \<noteq> 0) then g
      else
        let nfo = new_vm_info\<lparr>vmMagic := vm, vm_name := nm, vm_codeName := codeName,
                    vm_internalName := internalName, vm_flags := flags\<rparr>;
            m1 = (g_vmMap g)(hash_name (fmt_hex vm) \<mapsto> vm);
            revVm = MapAsOldVM vm;
            m2 = (if revVm \<noteq> 0 then m1(hash_name (fmt_02x (ucast revVm)) \<mapsto> vm) else m1);
            m3 = m2(hash_name internalName \<mapsto> vm)
        in g\<lparr>g_opcodeMap := (g_opcodeMap g)(vm \<mapsto> nfo), g_vmMap := m3\<rparr>)"

definition RegisterVmName :: "vm_registry \<Rightarrow> u64 \<Rightarrow> u64 \<Rightarrow> vm_registry" where
  "RegisterVmName g vm h = g\<lparr>g_vmMap := (g_vmMap g)(h \<mapsto> vm)\<rparr>"

definition VMOf :: "vm_registry \<Rightarrow> cstr \<Rightarrow> u64" where
  "VMOf g nm = (case g_vmMap g (hash_name nm) of None \<Rightarrow> 0 | Some v \<Rightarrow> v)"

definition GetVm :: "vm_registry \<Rightarrow> u64 \<Rightarrow> vm_info \<times> vm_registry" where
  "GetVm g vm =
     (case g_opcodeMap g vm of
        Some i \<Rightarrow> (i, g)
      | None \<Rightarrow> (new_vm_info, g\<lparr>g_opcodeMap := (g_opcodeMap g)(vm \<mapsto> new_vm_info)\<rparr>))"

definition IsValidVm :: "vm_registry \<Rightarrow> u64 \<Rightarrow> vm_info option" where
  "IsValidVm g vm = g_opcodeMap g vm"

definition GetOpCodeId_vm ::
  "vm_registry \<Rightarrow> (nat \<Rightarrow> nat) \<Rightarrow> u64 \<Rightarrow> Platform \<Rightarrow> OPCODE \<Rightarrow> bool \<Rightarrow> u16 option" where
  "GetOpCodeId_vm g rnd vm platform opcode modTool =
     (case IsValidVm g vm of None \<Rightarrow> None | Some info \<Rightarrow> GetOpCodeId info rnd platform opcode modTool)"

end
