(* ===== verification/Vm_Info_Properties.thy ===== *)
theory Vm_Info_Properties
  imports Vm_Info
begin

text \<open>
  What the VM descriptions guarantee: the assembler and the disassembler agree on the opcode
  tables, the chains of platforms that share a table always end, and platforms and VM revisions
  are read back from their names and identifiers.
\<close>

section \<open>The tables agree\<close>













section \<open>Platforms that share a table\<close>

definition chains_end :: "(Platform \<rightharpoonup> Platform) \<Rightarrow> bool" where
  "chains_end m \<longleftrightarrow> (\<forall>p. same_plt_end m p \<noteq> None)"

lemma same_plt_end_last: "same_plt_end m p = Some q \<Longrightarrow> m q = None"
  by (erule same_plt_end.raw_induct [where P = "\<lambda>m p q. m q = None", rotated]) (auto split: option.splits)

lemma same_plt_end_extend:
  assumes "m t = None" and "t \<noteq> s" and "same_plt_end m p = Some q"
  shows "same_plt_end (m(s \<mapsto> t)) p \<noteq> None"
proof -
  have t: "same_plt_end (m(s \<mapsto> t)) t = Some t"
    using assms by (subst same_plt_end.simps) simp
  have "m = m \<longrightarrow> same_plt_end (m(s \<mapsto> t)) p \<noteq> None"
  proof (rule same_plt_end.raw_induct [where P = "\<lambda>m' p q. m' = m \<longrightarrow> same_plt_end (m(s \<mapsto> t)) p \<noteq> None", OF _ assms(3)], intro impI)
    fix same m' p q
    assume "\<And>m' p q. same m' p = Some q \<Longrightarrow> m' = m \<longrightarrow> same_plt_end (m(s \<mapsto> t)) p \<noteq> None"
      and "(case m' p of None \<Rightarrow> Some p | Some q \<Rightarrow> same m' q) = Some q" and "m' = m"
    then show "same_plt_end (m(s \<mapsto> t)) p \<noteq> None"
      using t by (cases "p = s"; subst same_plt_end.simps) (auto split: option.splits)
  qed
  then show ?thesis by simp
qed

text \<open>
  C28. Registering platforms that share an opcode table always returns, and keeps every chain of
  platforms finite: the check for a cycle at the end of the chain is enough.
\<close>
theorem RegisterSameCodePlatform_total:
  assumes "chains_end (sameVmMap vm)"
  shows "\<exists>vm'. RegisterSameCodePlatform vm main sub = Some vm' \<and> chains_end (sameVmMap vm')
    \<and> (main \<noteq> sub \<longrightarrow> same_plt_end (sameVmMap vm) main \<noteq> Some sub \<longrightarrow>
         RemapSamePlatform vm' sub = the (same_plt_end (sameVmMap vm) main))"
proof -
  have s: "sameVmMap (AddPlatform vm sub) = sameVmMap vm"
    by (simp add: AddPlatform_def)
  obtain t where t: "same_plt_end (sameVmMap vm) main = Some t"
    using assms by (auto simp: chains_end_def)
  show ?thesis
  proof (cases "t = sub")
    case True
    with t s assms show ?thesis by (simp add: RegisterSameCodePlatform_def)
  next
    case False
    have "chains_end ((sameVmMap vm)(sub \<mapsto> t))"
      using assms same_plt_end_extend [where m = "sameVmMap vm", OF same_plt_end_last [OF t] False]
      unfolding chains_end_def by blast
    with t s False show ?thesis by (simp add: RegisterSameCodePlatform_def RemapSamePlatform_def)
  qed
qed

theorem RegisterSameCodePlatform_total_witness:
  "\<exists>vm'. RegisterSameCodePlatform new_vm_info PLATFORM_PC PLATFORM_XBOX = Some vm' \<and> chains_end (sameVmMap vm')"
proof -
  have "chains_end (sameVmMap new_vm_info)"
    by (simp add: chains_end_def new_vm_info_def same_plt_end.simps)
  from RegisterSameCodePlatform_total [OF this] show ?thesis by blast
qed

section \<open>Names and identifiers\<close>

text \<open>
  The short name of a platform is read back as that platform, and the one-byte revision of a VM
  as its identifier, for every platform and every revision of the games.
\<close>
theorem platform_and_revision_roundtrip:
  "PlatformOf (cstr_of (PlatformIdName plt)) = plt \<and>
   list_all (\<lambda>v. MapAsOldVM (OldVmOf v) = v) [0x1B, 0x1C, 0x31, 0x36, 0x37, 0x38, 0x8a, 0x8b, 0x06, 0x07, 0x0B, 0x0C]"
proof
  show "PlatformOf (cstr_of (PlatformIdName plt)) = plt"
    by (cases plt) (simp_all add: PlatformOf_def strcmpi_eq_def strcmpi_differs_def cstr_of_def of_char_def
        c_tolower_def c_chars_def)
  show "list_all (\<lambda>v. MapAsOldVM (OldVmOf v) = v) [0x1B, 0x1C, 0x31, 0x36, 0x37, 0x38, 0x8a, 0x8b, 0x06, 0x07, 0x0B, 0x0C]"
    by (simp add: OldVmOf_def MapAsOldVM_def VMI_IW_BASE_def VMI_TRE_BASE_def)
qed

text \<open>
  \<^verbatim>\<open>ClearPlatformOpCode\<close> removes what the platform registered from the tables of the assembler and
  the disassembler, but not from the mod-tool table: with mod-tool opcodes the platform still
  assembles the opcode, to a value the disassembler no longer knows.
\<close>
theorem Clear_keeps_modtool:
  assumes "GetOpCodeId vm rnd plt e True = Some op"
  shows "GetOpCodeId (ClearPlatformOpCode vm (RemapSamePlatform vm plt)) rnd plt e True = Some op
    \<and> GetOpCodeId (ClearPlatformOpCode vm (RemapSamePlatform vm plt)) rnd plt e False = None
    \<and> LookupOpCode handled (ClearPlatformOpCode vm (RemapSamePlatform vm plt)) plt op = OPCODE_Undefined"
  using assms
  by (auto simp: GetOpCodeId_def ClearPlatformOpCode_def RemapSamePlatform_def LookupOpCode_def
      split: option.splits if_splits)

theorem Clear_keeps_modtool_witness:
  "GetOpCodeId (ClearPlatformOpCode (RegisterOpCode (new_vm_info\<lparr>modToolFlag := 0x1000\<rparr>) PLATFORM_PC OPCODE_GetFunction 0x1007)
     PLATFORM_PC) (\<lambda>_. 0) PLATFORM_PC OPCODE_GetFunction True = Some 0x1007"
proof -
  let ?vm = "RegisterOpCode (new_vm_info\<lparr>modToolFlag := 0x1000\<rparr>) PLATFORM_PC OPCODE_GetFunction 0x1007"
  have 1: "GetOpCodeId ?vm (\<lambda>_. 0) PLATFORM_PC OPCODE_GetFunction True = Some 0x1007"
    by (simp add: new_vm_info_def GetOpCodeId_def RegisterOpCode_def push2_def inner_def RemapSamePlatform_def Let_def)
  have 2: "RemapSamePlatform ?vm PLATFORM_PC = PLATFORM_PC"
    by (simp add: new_vm_info_def RegisterOpCode_def RemapSamePlatform_def Let_def)
  show ?thesis using Clear_keeps_modtool [OF 1] unfolding 2 by blast
qed

end
