(* ===== verification/Gsc_Asm.thy ===== *)
theory Gsc_Asm
  imports Vm_Info
begin

text \<open>
  The assembler of the script compiler, \<^verbatim>\<open>src/core/acts/tools/gsc/compiler/gsc_compiler_asm.hpp\<close>,
  \<^verbatim>\<open>gsc_compiler_context.hpp\<close>, \<^verbatim>\<open>gsc_compiler_asm.cpp\<close> and the layout of a function in
  \<^verbatim>\<open>gsc_compiler_function_object.cpp\<close>. Each node class has a size, \<^verbatim>\<open>ShiftSize\<close>, from which
  the locations and the jumps are computed before anything is written, and a \<^verbatim>\<open>Write\<close>, which appends
  its bytes to the data of the script.

  Locations are 32-bit words. A function is the list of its nodes, a node is named by its index.
\<close>

section \<open>The context\<close>

text \<open>\<^verbatim>\<open>Write\<close> returns false, or throws.\<close>

datatype asm_fail = WriteFalse | WriteThrow

text \<open>
  \<open>cx_rnd\<close> gives the values of \<^verbatim>\<open>Rand\<close>: by the size of the data when it is called, and its bound.
\<close>

record asm_ctx =
  cx_registry :: vm_registry
  cx_vmInfo :: vm_info
  cx_plt :: Platform
  cx_lvars :: nat
  cx_useModToolOpCodes :: bool
  cx_rnd :: "nat \<Rightarrow> nat \<Rightarrow> nat"

definition HasAlign :: "asm_ctx \<Rightarrow> bool" where
  "HasAlign ctx \<longleftrightarrow> HasFlag (cx_vmInfo ctx) VMF_ALIGN"

definition ctx_Align :: "asm_ctx \<Rightarrow> nat \<Rightarrow> u8 list \<Rightarrow> u8 list" where
  "ctx_Align ctx len data =
     (if HasAlign ctx then
        (let pre = length data;
             post = unat (aligned_w (of_nat (length data)) (of_nat len) :: u64)
         in data @ replicate (post - pre) 0)
      else data)"

text \<open>\<^verbatim>\<open>ctx.Write<T>(value)\<close> for an integer type of \<open>n\<close> bytes.\<close>

definition ctx_Write :: "nat \<Rightarrow> nat \<Rightarrow> u8 list \<Rightarrow> u8 list" where
  "ctx_Write n v data = data @ le_bytes n v"

definition MAX_JUMP :: int where "MAX_JUMP = 2 ^ 16"

section \<open>The nodes\<close>

definition FCF_THREAD :: u32 where "FCF_THREAD = 0x1"
definition FCF_CHILDTHREAD :: u32 where "FCF_CHILDTHREAD = 0x2"
definition FCF_METHOD :: u32 where "FCF_METHOD = 0x4"
definition FCF_POINTER :: u32 where "FCF_POINTER = 0x8"
definition FCF_POINTER_CLASS :: u32 where "FCF_POINTER_CLASS = 0x10"
definition FCF_BUILTIN :: u32 where "FCF_BUILTIN = 0x20"
definition FCF_GETTER :: u32 where "FCF_GETTER = 0x40"

record func_call =
  fc_opcode :: OPCODE
  fc_flags :: u32
  fc_params :: u8
  fc_clsName :: u64
  fc_nameSpace :: u64
  fc_inlineCall :: bool
  fc_useIWCalls :: bool
  fc_hashSize :: nat

definition AscmNodeFunctionCall :: "OPCODE \<Rightarrow> u32 \<Rightarrow> u8 \<Rightarrow> u64 \<Rightarrow> u64 \<Rightarrow> vm_info \<Rightarrow> func_call" where
  "AscmNodeFunctionCall opcode flags params clsName nameSpace vm =
     \<lparr>fc_opcode = opcode, fc_flags = flags, fc_params = params, fc_clsName = clsName,
      fc_nameSpace = nameSpace, fc_inlineCall = HasFlag vm VMF_ALIGN,
      fc_useIWCalls = HasFlag vm VMF_IW_CALLS, fc_hashSize = (if HasFlag vm VMF_HASH64 then 8 else 4)\<rparr>"

record function_var =
  fv_name :: cstr
  fv_id :: nat
  fv_flags :: u8

record local_vars =
  lv_vars :: "function_var list"
  lv_params :: nat
  lv_hasRegister :: bool
  lv_hasRegisters :: bool
  lv_hasFlag :: bool
  lv_obfuscate :: bool
  lv_hashSize :: nat

definition AscmNodeCreateLocalVariables ::
  "function_var list \<Rightarrow> nat \<Rightarrow> (OPCODE \<Rightarrow> bool) \<Rightarrow> vm_info \<Rightarrow> bool \<Rightarrow> local_vars" where
  "AscmNodeCreateLocalVariables lvars params hasOp vm obfuscate =
     \<lparr>lv_vars = lvars, lv_params = params, lv_hasRegister = hasOp OPCODE_IW_RegisterVariable,
      lv_hasRegisters = hasOp OPCODE_IW_RegisterMultipleVariables,
      lv_hasFlag = (\<not> HasFlag vm VMF_NO_PARAM_FLAGS), lv_obfuscate = obfuscate,
      lv_hashSize = (if HasFlag vm VMF_HASH64 then 8 else 4)\<rparr>"

datatype asm_node =
    AscmNode
  | AscmNodeRaw "u8 list" nat
  | AscmNodeOpCode OPCODE
  | AscmNodeRawOpCode u16
  | AscmNodeData nat u64 OPCODE
  | AscmNodeHash u64 OPCODE nat
  | AscmNodeStringData "u8 list" OPCODE
  | NodeFunctionCall func_call
  | AscmNodeVariable nat OPCODE
  | NodeLocalVariables local_vars
  | AscmNodeGlobalVariable OPCODE
  | AscmNodeLazyLink u64 u32 u32
  | AscmNodeJump nat OPCODE

section \<open>Sizes\<close>

definition align32 :: "bool \<Rightarrow> nat \<Rightarrow> u32 \<Rightarrow> u32" where
  "align32 al n x = (if al then aligned_w x (of_nat n) else x)"

definition op_ShiftSize :: "bool \<Rightarrow> u32 \<Rightarrow> u32" where
  "op_ShiftSize al start = (if al then aligned_w start 2 + 2 else start + 1)"

definition inline_getter :: "OPCODE \<Rightarrow> bool" where
  "inline_getter opcode \<longleftrightarrow> opcode \<in> {OPCODE_GetFunction, OPCODE_IW_GetBuiltinFunction,
     OPCODE_IW_GetBuiltinMethod, OPCODE_GetResolveFunction}"

text \<open>\<^verbatim>\<open>LoadData\<close>: whether the number of parameters is written, and the size of the reference.\<close>

definition LoadData :: "func_call \<Rightarrow> asm_fail + (bool \<times> nat)" where
  "LoadData fc =
     (if fc_inlineCall fc then
        Inr (\<not> inline_getter (fc_opcode fc), if fc_flags fc AND FCF_POINTER \<noteq> 0 then 0 else 8)
      else if fc_opcode fc \<in> {OPCODE_ScriptThreadCallPointerEndOn, OPCODE_ScriptThreadCallPointer,
          OPCODE_ScriptMethodThreadCallPointer, OPCODE_ScriptMethodThreadCallPointerEndOn,
          OPCODE_IW_BuiltinFunctionCallPointer, OPCODE_IW_BuiltinMethodCallPointer} then Inr (True, 0)
      else if fc_opcode fc \<in> {OPCODE_ScriptFunctionCallPointer, OPCODE_ScriptMethodCallPointer} then Inr (False, 0)
      else if fc_opcode fc \<in> {OPCODE_ScriptThreadCallEndOn, OPCODE_ScriptThreadCall,
          OPCODE_ScriptMethodThreadCallEndOn, OPCODE_ScriptMethodThreadCall} then Inr (True, 4)
      else if fc_opcode fc \<in> {OPCODE_ScriptFunctionCall, OPCODE_ScriptMethodCall} then Inr (False, 4)
      else if fc_opcode fc \<in> {OPCODE_CallBuiltinFunction, OPCODE_CallBuiltinMethod} then Inr (True, 2)
      else if fc_opcode fc \<in> {OPCODE_GetFunction, OPCODE_IW_GetBuiltinFunction, OPCODE_IW_GetBuiltinMethod}
      then Inr (False, 2)
      else if fc_opcode fc = OPCODE_GetResolveFunction then Inr (False, 4)
      else Inl WriteThrow)"

definition fc_ShiftSize :: "func_call \<Rightarrow> bool \<Rightarrow> u32 \<Rightarrow> asm_fail + u32" where
  "fc_ShiftSize fc al start =
     ebind (LoadData fc) (\<lambda>(useParams, dataSize).
       let op = op_ShiftSize al start
       in if al then
            Inr (if fc_flags fc AND FCF_POINTER_CLASS \<noteq> 0
                 then align32 True 4 (op + (if useParams then 1 else 0)) + of_nat (fc_hashSize fc)
                 else if fc_flags fc AND FCF_POINTER \<noteq> 0 then op + (if useParams then 1 else 0)
                 else align32 True 8 (op + (if useParams then 1 else 0)) + of_nat dataSize)
          else
            Inr ((if (fc_inlineCall fc \<and> useParams) \<or> (useParams \<and> fc_useIWCalls fc) then op + 1 else op)
                 + of_nat dataSize))"

text \<open>The loops over the variables: one field each, with its flags byte or its opcode.\<close>

fun shift_params :: "bool \<Rightarrow> nat \<Rightarrow> bool \<Rightarrow> nat \<Rightarrow> u32 \<Rightarrow> u32" where
  "shift_params al hs flag 0 e = e"
| "shift_params al hs flag (Suc n) e =
     shift_params al hs flag n (align32 al hs e + of_nat hs + (if flag then 1 else 0))"

fun shift_register :: "bool \<Rightarrow> nat \<Rightarrow> nat \<Rightarrow> u32 \<Rightarrow> u32" where
  "shift_register al hs 0 e = e"
| "shift_register al hs (Suc n) e =
     shift_register al hs n (align32 al hs (op_ShiftSize al e) + of_nat hs)"

definition lv_ShiftSize :: "local_vars \<Rightarrow> bool \<Rightarrow> u32 \<Rightarrow> u32" where
  "lv_ShiftSize lv al start =
     (let hs = lv_hashSize lv; nvars = length (lv_vars lv); params = lv_params lv;
          e = op_ShiftSize al start
      in if lv_hasRegister lv \<or> lv_hasRegisters lv then
           let e = (if params \<noteq> 0 then shift_params al hs (lv_hasFlag lv) params (e + 1) else e)
           in if lv_hasRegister lv then shift_register al hs (nvars - params) e
              else if nvars - params \<noteq> 0
              then align32 al hs (op_ShiftSize al e + 1) + of_nat (hs * (nvars - params))
              else e
         else if nvars \<noteq> 0 then shift_params al hs (lv_hasFlag lv) nvars (e + 1)
         else e)"

definition ShiftSize :: "asm_node \<Rightarrow> bool \<Rightarrow> u32 \<Rightarrow> asm_fail + u32" where
  "ShiftSize node al start =
     (case node of
        AscmNode \<Rightarrow> Inr start
      | AscmNodeRaw data align \<Rightarrow> Inr (align32 al align start + of_nat (length data))
      | AscmNodeOpCode op \<Rightarrow> Inr (op_ShiftSize al start)
      | AscmNodeRawOpCode op \<Rightarrow> Inr (op_ShiftSize al start)
      | AscmNodeData n v op \<Rightarrow> Inr (align32 al n (op_ShiftSize al start) + of_nat n)
      | AscmNodeHash v op hs \<Rightarrow> Inr (align32 al hs (op_ShiftSize al start) + of_nat hs)
      | AscmNodeStringData s op \<Rightarrow> Inr (op_ShiftSize al start + of_nat (length s) + 1)
      | NodeFunctionCall fc \<Rightarrow> fc_ShiftSize fc al start
      | AscmNodeVariable i op \<Rightarrow> Inr (op_ShiftSize al start + 1)
      | NodeLocalVariables lv \<Rightarrow> Inr (lv_ShiftSize lv al start)
      | AscmNodeGlobalVariable op \<Rightarrow> Inr (align32 al 2 (op_ShiftSize al start) + 2)
      | AscmNodeLazyLink path nsp func \<Rightarrow> Inr (align32 al 4 (op_ShiftSize al start) + 16)
      | AscmNodeJump target op \<Rightarrow> Inr (align32 al 2 (op_ShiftSize al start) + 2))"

section \<open>Writing\<close>

definition op_Write :: "asm_ctx \<Rightarrow> OPCODE \<Rightarrow> u8 list \<Rightarrow> asm_fail + u8 list" where
  "op_Write ctx opcode data =
     (case GetOpCodeId_vm (cx_registry ctx) (cx_rnd ctx (length data)) (vmMagic (cx_vmInfo ctx)) (cx_plt ctx)
             opcode (cx_useModToolOpCodes ctx) of
        None \<Rightarrow> Inl WriteFalse
      | Some op \<Rightarrow>
          (let data = ctx_Align ctx 2 data
           in if HasAlign ctx then Inr (ctx_Write 2 (unat op) data)
              else Inr (ctx_Write 1 (unat (ucast op :: u8)) data)))"

definition raw_op_Write :: "asm_ctx \<Rightarrow> u16 \<Rightarrow> u8 list \<Rightarrow> u8 list" where
  "raw_op_Write ctx op data =
     (let data = ctx_Align ctx 2 data
      in if HasAlign ctx then ctx_Write 2 (unat op) data else ctx_Write 1 (unat (ucast op :: u8)) data)"

text \<open>An aligned integer of \<open>n\<close> bytes.\<close>

definition write_aligned :: "asm_ctx \<Rightarrow> nat \<Rightarrow> nat \<Rightarrow> u8 list \<Rightarrow> u8 list" where
  "write_aligned ctx n v data = ctx_Write n v (ctx_Align ctx n data)"

definition CatLocated :: "u32 \<Rightarrow> u32 \<Rightarrow> u64" where
  "CatLocated name_space local_name = push_bit 32 (ucast name_space) OR ucast local_name"

definition fc_Write :: "asm_ctx \<Rightarrow> func_call \<Rightarrow> u8 list \<Rightarrow> asm_fail + u8 list" where
  "fc_Write ctx fc data =
     ebind (op_Write ctx (fc_opcode fc) data) (\<lambda>data.
     ebind (LoadData fc) (\<lambda>(useParams, dataSize).
       let data = (if (fc_inlineCall fc \<and> useParams) \<or> (useParams \<and> fc_useIWCalls fc)
                   then ctx_Write 1 (unat (fc_params fc)) data else data)
       in if fc_flags fc AND FCF_POINTER_CLASS \<noteq> 0 then
            (if fc_hashSize fc = 4 then Inr (write_aligned ctx 4 (unat (ucast (fc_clsName fc) :: u32)) data)
             else if fc_hashSize fc = 8 then Inr (write_aligned ctx 8 (unat (fc_clsName fc)) data)
             else Inl WriteThrow)
          else if fc_flags fc AND FCF_POINTER = 0 then
            (let data = ctx_Align ctx dataSize data
             in if dataSize = 8
                then Inr (ctx_Write 8 (unat (CatLocated (ucast (fc_nameSpace fc)) (ucast (fc_clsName fc)))) data)
                else Inr (data @ map of_nat [0..<dataSize]))
          else Inr data))"

text \<open>The name of a variable: its hash, or its number when the script is obfuscated.\<close>

definition write_field :: "asm_ctx \<Rightarrow> bool \<Rightarrow> nat \<Rightarrow> cstr \<Rightarrow> u8 list \<Rightarrow> u8 list" where
  "write_field ctx obfuscate i nm data =
     (let v = (if obfuscate then of_nat (i + 1) else HashField (cx_vmInfo ctx) (Some nm)) :: u64
      in if HasFlag (cx_vmInfo ctx) VMF_HASH64 then write_aligned ctx 8 (unat v) data
         else write_aligned ctx 4 (unat (ucast v :: u32)) data)"

fun write_params :: "asm_ctx \<Rightarrow> bool \<Rightarrow> bool \<Rightarrow> (nat \<times> function_var) list \<Rightarrow> u8 list \<Rightarrow> u8 list" where
  "write_params ctx obf flag [] data = data"
| "write_params ctx obf flag ((i, var) # vs) data =
     (let data = write_field ctx obf i (fv_name var) data;
          data = (if flag then ctx_Write 1 (unat (fv_flags var)) data else data)
      in write_params ctx obf flag vs data)"

fun write_register :: "asm_ctx \<Rightarrow> bool \<Rightarrow> bool \<Rightarrow> (nat \<times> function_var) list \<Rightarrow> u8 list \<Rightarrow> asm_fail + u8 list" where
  "write_register ctx obf flag [] data = Inr data"
| "write_register ctx obf flag ((i, var) # vs) data =
     ebind (op_Write ctx OPCODE_IW_RegisterVariable data) (\<lambda>data.
       let data = write_field ctx obf i (fv_name var) data;
           data = (if flag then ctx_Write 1 (unat (fv_flags var)) data else data)
       in write_register ctx obf flag vs data)"

definition lv_Write :: "asm_ctx \<Rightarrow> local_vars \<Rightarrow> u8 list \<Rightarrow> asm_fail + u8 list" where
  "lv_Write ctx lv data =
     (let vars = zip [0..<length (lv_vars lv)] (lv_vars lv); params = lv_params lv;
          nvars = length (lv_vars lv); flag = lv_hasFlag lv; obf = lv_obfuscate lv
      in if lv_hasRegister lv \<or> lv_hasRegisters lv then
           ebind
             (if params \<noteq> 0 then
                ebind (op_Write ctx OPCODE_SafeCreateLocalVariables data) (\<lambda>data.
                  Inr (write_params ctx obf flag (take params vars) (ctx_Write 1 (params mod 256) data)))
              else op_Write ctx OPCODE_CheckClearParams data) (\<lambda>data.
             if lv_hasRegister lv then write_register ctx obf flag (drop params vars) data
             else if nvars - params \<noteq> 0 then
               ebind (op_Write ctx OPCODE_IW_RegisterMultipleVariables data) (\<lambda>data.
                 Inr (write_params ctx obf False (drop params vars) (ctx_Write 1 ((nvars - params) mod 256) data)))
             else Inr data)
         else if nvars \<noteq> 0 then
           ebind (op_Write ctx OPCODE_SafeCreateLocalVariables data) (\<lambda>data.
             Inr (write_params ctx obf flag (map (\<lambda>v. (fv_id v, v)) (lv_vars lv))
               (ctx_Write 1 (nvars mod 256) data)))
         else op_Write ctx OPCODE_CheckClearParams data)"

text \<open>
  \<^verbatim>\<open>Write\<close> of a node, given the relative locations of all nodes: \<open>i\<close> is the index of the node.
\<close>

definition write_node :: "asm_ctx \<Rightarrow> u32 list \<Rightarrow> nat \<Rightarrow> asm_node \<Rightarrow> u8 list \<Rightarrow> asm_fail + u8 list" where
  "write_node ctx rlocs i node data =
     (case node of
        AscmNode \<Rightarrow> Inr data
      | AscmNodeRaw bs align \<Rightarrow> Inr (ctx_Align ctx align data @ bs)
      | AscmNodeOpCode op \<Rightarrow> op_Write ctx op data
      | AscmNodeRawOpCode op \<Rightarrow> Inr (raw_op_Write ctx op data)
      | AscmNodeData n v op \<Rightarrow> ebind (op_Write ctx op data) (\<lambda>data. Inr (write_aligned ctx n (unat v) data))
      | AscmNodeHash v op hs \<Rightarrow>
          ebind (op_Write ctx op data) (\<lambda>data.
            if hs = 8 then Inr (write_aligned ctx 8 (unat v) data)
            else if hs = 4 then Inr (write_aligned ctx 4 (unat (ucast v :: u32)) data)
            else Inl WriteThrow)
      | AscmNodeStringData s op \<Rightarrow> ebind (op_Write ctx op data) (\<lambda>data. Inr (data @ s @ [0]))
      | NodeFunctionCall fc \<Rightarrow> fc_Write ctx fc data
      | AscmNodeVariable v op \<Rightarrow>
          ebind (op_Write ctx op data) (\<lambda>data.
            Inr (ctx_Write 1 (unat (of_nat (cx_lvars ctx) - of_nat v - 1 :: u8)) data))
      | NodeLocalVariables lv \<Rightarrow> lv_Write ctx lv data
      | AscmNodeGlobalVariable op \<Rightarrow> ebind (op_Write ctx op data) (\<lambda>data. Inr (write_aligned ctx 2 0 data))
      | AscmNodeLazyLink path nsp func \<Rightarrow>
          ebind (op_Write ctx OPCODE_T8C_GetLazyFunction data) (\<lambda>data.
            Inr (ctx_Write 8 (unat path) (ctx_Write 4 (unat func) (write_aligned ctx 4 (unat nsp) data))))
      | AscmNodeJump target op \<Rightarrow>
          ebind (op_Write ctx op data) (\<lambda>data.
          ebind (ShiftSize node (HasAlign ctx) (rlocs ! i)) (\<lambda>e.
            let delta = rlocs ! target - e
            in if sint delta \<ge> MAX_JUMP \<or> sint delta \<le> - MAX_JUMP then Inl WriteFalse
               else Inr (write_aligned ctx 2 (unat (ucast delta :: u16)) data))))"

section \<open>The layout and the output of a function\<close>

text \<open>\<^verbatim>\<open>SetScriptCall\<close>: the opcode of a call once its target is known.\<close>

definition SetScriptCall :: "(OPCODE \<Rightarrow> bool) \<Rightarrow> func_call \<Rightarrow> bool \<Rightarrow> asm_fail + func_call" where
  "SetScriptCall hasOp fc scriptCall =
     (let flag = (\<lambda>f. fc_flags fc AND f \<noteq> 0)
      in if flag FCF_GETTER then
           (if scriptCall \<or> \<not> hasOp OPCODE_IW_GetBuiltinFunction
            then Inr (fc\<lparr>fc_opcode := OPCODE_GetResolveFunction\<rparr>) else Inl WriteThrow)
         else Inr (fc\<lparr>fc_opcode :=
           (if scriptCall then
              (if flag FCF_METHOD then
                 (if flag FCF_CHILDTHREAD then OPCODE_ScriptMethodThreadCallEndOn
                  else if flag FCF_THREAD then OPCODE_ScriptMethodThreadCall
                  else OPCODE_ScriptMethodCall)
               else
                 (if flag FCF_CHILDTHREAD then OPCODE_ScriptThreadCallEndOn
                  else if flag FCF_THREAD then OPCODE_ScriptThreadCall
                  else OPCODE_ScriptFunctionCall))
            else if flag FCF_METHOD then OPCODE_CallBuiltinMethod else OPCODE_CallBuiltinFunction)\<rparr>))"

text \<open>
  \<^verbatim>\<open>ComputeRelativeLocations\<close>: the relative and the file location of each node and the final
  location, a throw of \<^verbatim>\<open>ShiftSize\<close>, or -1 (\<open>WriteFalse\<close>) when a location exceeds the next.
\<close>

fun layout :: "bool \<Rightarrow> u32 \<Rightarrow> u32 \<Rightarrow> asm_node list \<Rightarrow> asm_fail + ((u32 \<times> u32) list \<times> u32)" where
  "layout al floc cur [] = Inr ([], cur)"
| "layout al floc cur (n # ns) =
     ebind (ShiftSize n al cur) (\<lambda>next_loc.
       if sint next_loc < sint cur then Inl WriteFalse
       else ebind (layout al floc next_loc ns) (\<lambda>(ls, e).
         Inr ((cur, align32 al 2 (floc + cur)) # ls, e)))"

definition ComputeRelativeLocations ::
  "vm_info \<Rightarrow> u32 \<Rightarrow> asm_node list \<Rightarrow> asm_fail + ((u32 \<times> u32) list \<times> u32)" where
  "ComputeRelativeLocations vm floc ns =
     layout (HasFlag vm VMF_ALIGN \<and> HasFlag vm VMF_OPCODE_U16) floc 0 ns"

fun write_nodes :: "asm_ctx \<Rightarrow> u32 list \<Rightarrow> nat \<Rightarrow> asm_node list \<Rightarrow> u8 list \<Rightarrow> asm_fail + u8 list" where
  "write_nodes ctx rlocs i [] data = Inr data"
| "write_nodes ctx rlocs i (n # ns) data =
     ebind (write_node ctx rlocs i n data) (\<lambda>data. write_nodes ctx rlocs (i + 1) ns data)"

text \<open>The locations the linker patches.\<close>

definition GetDataFLoc :: "asm_node \<Rightarrow> u32 \<Rightarrow> bool \<Rightarrow> asm_fail + u32" where
  "GetDataFLoc node floc al =
     (case node of
        AscmNodeData n v op \<Rightarrow> ebind (ShiftSize node al floc) (\<lambda>e. Inr (e - of_nat n))
      | AscmNodeHash v op hs \<Rightarrow> ebind (ShiftSize node al floc) (\<lambda>e. Inr (e - of_nat hs))
      | AscmNodeGlobalVariable op \<Rightarrow> ebind (ShiftSize node al floc) (\<lambda>e. Inr (e - 2))
      | _ \<Rightarrow> Inl WriteThrow)"

definition GetFLoc :: "func_call \<Rightarrow> u32 \<Rightarrow> u32" where
  "GetFLoc fc floc =
     (if fc_inlineCall fc then floc
      else if fc_opcode fc \<in> {OPCODE_CallBuiltinFunction, OPCODE_CallBuiltinMethod} \<and> fc_useIWCalls fc
      then floc + 2
      else floc + 1)"

section \<open>The variables of a function\<close>

record function_object =
  m_vars :: "function_var list"
  rndVarStart :: nat
  specialTempVar :: "nat option"

definition new_function :: function_object where
  "new_function = \<lparr>m_vars = [], rndVarStart = 0, specialTempVar = None\<rparr>"

text \<open>\<^verbatim>\<open>FindVar\<close>: the index of the first variable with the name, the number of variables if none.\<close>

fun FindVar :: "function_var list \<Rightarrow> cstr \<Rightarrow> nat" where
  "FindVar [] nm = 0"
| "FindVar (v # vs) nm = (if nm = fv_name v then 0 else FindVar vs nm + 1)"

datatype var_error = VarExists | TooManyVars

definition RegisterVar ::
  "function_object \<Rightarrow> cstr \<Rightarrow> bool \<Rightarrow> u8 \<Rightarrow> (var_error + nat) \<times> function_object" where
  "RegisterVar f nm allowExisting flags =
     (let i = FindVar (m_vars f) nm
      in if i \<noteq> length (m_vars f) then (if allowExisting then (Inr i, f) else (Inl VarExists, f))
         else if 256 \<le> length (m_vars f) then (Inl TooManyVars, f)
         else (Inr (length (m_vars f)),
               f\<lparr>m_vars := m_vars f @ [\<lparr>fv_name = nm, fv_id = length (m_vars f), fv_flags = flags\<rparr>]\<rparr>))"

definition RegisterVarRnd :: "function_object \<Rightarrow> (var_error + nat) \<times> function_object" where
  "RegisterVarRnd f =
     RegisterVar (f\<lparr>rndVarStart := rndVarStart f + 1\<rparr>) (cstr_of ''$$v'' @ fmt_nat 16 (rndVarStart f)) False 0"

definition GetSpecialTmpVar :: "function_object \<Rightarrow> (var_error + nat) \<times> function_object" where
  "GetSpecialTmpVar f =
     (case specialTempVar f of
        Some i \<Rightarrow> (Inr i, f)
      | None \<Rightarrow>
          (case RegisterVar f (cstr_of ''$$tmp'') False 0 of
             (Inl e, f') \<Rightarrow> (Inl e, f')
           | (Inr i, f') \<Rightarrow> (Inr i, f'\<lparr>specialTempVar := Some i\<rparr>)))"

end
