(* ===== verification/Gsc_Asm_Properties.thy ===== *)
theory Gsc_Asm_Properties
  imports Gsc_Asm
begin

text \<open>
  The assembler writes what its layout announced: each node takes exactly the bytes \<^verbatim>\<open>ShiftSize\<close>
  computed for it, so the relative locations are the true ones, and a jump lands at its
  target exactly when its distance fits a signed 16-bit word.
\<close>

section \<open>Positions relative to the start of a function\<close>

text \<open>The start of a function is aligned to 8 bytes; \<open>rpos\<close> is the location relative to it.\<close>

definition base_ok :: "u32 \<Rightarrow> bool" where
  "base_ok b \<longleftrightarrow> take_bit 3 b = 0"

definition rpos :: "u32 \<Rightarrow> u8 list \<Rightarrow> u32" where
  "rpos b data = of_nat (length data) - b"

definition sizes :: "nat set" where "sizes = {1, 2, 4, 8}"

lemma sizes_pow: "n \<in> sizes \<Longrightarrow> \<exists>k \<le> 3. n = 2 ^ k"
  by (auto simp: sizes_def intro: exI [of _ 0] exI [of _ 1] exI [of _ 2] exI [of _ 3])

lemma rpos_append: "rpos b (data @ xs) = rpos b data + of_nat (length xs)"
  by (simp add: rpos_def)

lemma rpos_Write [simp]: "rpos b (ctx_Write n v data) = rpos b data + of_nat n"
  by (simp add: ctx_Write_def rpos_append)

lemma length_Write [simp]: "length (ctx_Write n v data) = length data + n"
  by (simp add: ctx_Write_def)

lemma length_Align_ge: "length data \<le> length (ctx_Align ctx n data)"
  by (simp add: ctx_Align_def Let_def)

lemma base_take_bit: "base_ok b \<Longrightarrow> k \<le> 3 \<Longrightarrow> take_bit k b = 0"
proof -
  assume b: "base_ok b" and k: "k \<le> 3"
  have "take_bit k b = take_bit k (take_bit 3 b)" using k by (simp add: min.absorb1)
  also have "\<dots> = 0" using b by (simp only: base_ok_def take_bit_of_0)
  finally show ?thesis .
qed

lemma rpos_Align:
  assumes "base_ok b" and "n \<in> sizes" and "length data < 2 ^ 63"
  shows "rpos b (ctx_Align ctx n data) = align32 (HasAlign ctx) n (rpos b data)"
proof (cases "HasAlign ctx")
  case True
  obtain k where k: "k \<le> 3" "n = 2 ^ k" using sizes_pow [OF assms(2)] by blast
  have "(2 :: nat) ^ k \<le> 2 ^ 3" using k(1) by (intro power_increasing) auto
  then have "unat (aligned_w (of_nat (length data)) (2 ^ k) :: u64) = align_up (length data) (2 ^ k)"
    using k(1) assms(3) by (subst unat_aligned_w) (simp_all add: unat_of_nat_u64 del: of_nat_unat)
  then have "length (ctx_Align ctx n data) = align_up (length data) (2 ^ k)"
    using True align_up_ge [of "2 ^ k" "length data"] by (simp add: ctx_Align_def Let_def k)
  then have "rpos b (ctx_Align ctx n data) = aligned_w (of_nat (length data)) (2 ^ k) - b"
    by (simp only: rpos_def aligned_w_of_nat)
  also have "of_nat (length data) = b + rpos b data" by (simp add: rpos_def)
  also have "aligned_w (b + rpos b data) (2 ^ k) - b = aligned_w (rpos b data) (2 ^ k)"
    by (simp only: aligned_w_base [OF base_take_bit [OF assms(1) k(1)]] add_diff_cancel_left')
  also have "\<dots> = align32 (HasAlign ctx) n (rpos b data)"
    using True by (simp add: align32_def k(2))
  finally show ?thesis .
next
  case False
  then show ?thesis by (simp add: ctx_Align_def align32_def)
qed

lemma align32_1 [simp]: "align32 al (Suc 0) x = x"
  by (simp add: align32_def aligned_w_def)

lemma write_aligned_pos:
  assumes "base_ok b" and "n \<in> sizes" and "length (write_aligned ctx n v data) < 2 ^ 63"
  shows "rpos b (write_aligned ctx n v data) = align32 (HasAlign ctx) n (rpos b data) + of_nat n"
    and "length data \<le> length (write_aligned ctx n v data)"
proof -
  have "length data < 2 ^ 63"
    using assms(3) length_Align_ge [of data ctx n] by (simp add: write_aligned_def)
  then show "rpos b (write_aligned ctx n v data) = align32 (HasAlign ctx) n (rpos b data) + of_nat n"
    using assms(1,2) by (simp add: write_aligned_def rpos_Align)
  show "length data \<le> length (write_aligned ctx n v data)"
    using length_Align_ge [of data ctx n] by (simp add: write_aligned_def)
qed

lemma op_Write_pos:
  assumes "op_Write ctx op data = Inr d" and "base_ok b" and "length d < 2 ^ 63"
  shows "rpos b d = op_ShiftSize (HasAlign ctx) (rpos b data) \<and> length data \<le> length d"
proof -
  have l: "length data \<le> length d"
    using assms(1) length_Align_ge [of data ctx 2]
    by (auto simp: op_Write_def Let_def split: option.splits if_splits)
  have s: "(2 :: nat) \<in> sizes" by (simp add: sizes_def)
  show ?thesis
    using assms(1) rpos_Align [OF assms(2) s, of data ctx] assms(3) l
    by (auto simp: op_Write_def op_ShiftSize_def align32_def ctx_Align_def Let_def split: option.splits if_splits)
qed

lemma raw_op_Write_pos:
  assumes "base_ok b" and "length (raw_op_Write ctx op data) < 2 ^ 63"
  shows "rpos b (raw_op_Write ctx op data) = op_ShiftSize (HasAlign ctx) (rpos b data)"
proof -
  have l: "length data \<le> length (raw_op_Write ctx op data)"
    using length_Align_ge [of data ctx 2] by (simp add: raw_op_Write_def Let_def)
  have s: "(2 :: nat) \<in> sizes" by (simp add: sizes_def)
  show ?thesis
    using rpos_Align [OF assms(1) s, of data ctx] assms(2) l
    by (auto simp: raw_op_Write_def op_ShiftSize_def align32_def ctx_Align_def Let_def)
qed

section \<open>Each node takes the bytes its size says\<close>

text \<open>
  What the constructors and the parser establish: the sizes and alignments are those of integer
  types, and the flags of a call agree with the VM and with its opcode. Excluded are calls of a
  method of a class pointer, and, when the VM registers variables one by one, parameters with flags.
\<close>

definition fc_ok :: "asm_ctx \<Rightarrow> func_call \<Rightarrow> bool" where
  "fc_ok ctx fc \<longleftrightarrow>
     fc_inlineCall fc = HasAlign ctx \<and>
     fc_flags fc AND FCF_POINTER_CLASS = 0 \<and>
     (fc_flags fc AND FCF_POINTER \<noteq> 0 \<longrightarrow> (\<forall>u d. LoadData fc = Inr (u, d) \<longrightarrow> d = 0))"

definition lv_ok :: "asm_ctx \<Rightarrow> local_vars \<Rightarrow> bool" where
  "lv_ok ctx lv \<longleftrightarrow>
     lv_hashSize lv = (if HasFlag (cx_vmInfo ctx) VMF_HASH64 then 8 else 4) \<and>
     lv_params lv \<le> length (lv_vars lv) \<and>
     (lv_hasRegister lv \<and> lv_hasFlag lv \<longrightarrow> lv_params lv = length (lv_vars lv))"

definition node_ok :: "asm_ctx \<Rightarrow> asm_node \<Rightarrow> bool" where
  "node_ok ctx node \<longleftrightarrow>
     (case node of
        AscmNodeRaw bs align \<Rightarrow> align \<in> sizes
      | AscmNodeData n v op \<Rightarrow> n \<in> sizes
      | NodeFunctionCall fc \<Rightarrow> fc_ok ctx fc
      | NodeLocalVariables lv \<Rightarrow> lv_ok ctx lv
      | _ \<Rightarrow> True)"

lemma in_sizes [simp]: "Suc 0 \<in> sizes" "2 \<in> sizes" "4 \<in> sizes" "8 \<in> sizes"
  by (simp_all add: sizes_def)

lemma write_field_pos:
  assumes "base_ok b" and "length (write_field ctx obf i nm data) < 2 ^ 63"
    and "hs = (if HasFlag (cx_vmInfo ctx) VMF_HASH64 then 8 else 4)"
  shows "rpos b (write_field ctx obf i nm data) = align32 (HasAlign ctx) hs (rpos b data) + of_nat hs"
    and "length data \<le> length (write_field ctx obf i nm data)"
  using assms write_aligned_pos [OF assms(1), where ctx = ctx and data = data and n = 8]
    write_aligned_pos [OF assms(1), where ctx = ctx and data = data and n = 4]
  by (auto simp: write_field_def Let_def split: if_splits)

lemma write_params_pos:
  assumes "base_ok b" and "hs = (if HasFlag (cx_vmInfo ctx) VMF_HASH64 then 8 else 4)"
  shows "length (write_params ctx obf flag vs data) < 2 ^ 63 \<Longrightarrow>
    rpos b (write_params ctx obf flag vs data) = shift_params (HasAlign ctx) hs flag (length vs) (rpos b data) \<and>
    length data \<le> length (write_params ctx obf flag vs data)"
proof (induction vs arbitrary: data)
  case (Cons v vs)
  obtain i var where v: "v = (i, var)" by (cases v)
  let ?f = "write_field ctx obf i (fv_name var) data"
  let ?d = "if flag then ctx_Write 1 (unat (fv_flags var)) ?f else ?f"
  have w: "write_params ctx obf flag (v # vs) data = write_params ctx obf flag vs ?d"
    by (simp add: v Let_def)
  have ih: "rpos b (write_params ctx obf flag vs ?d) = shift_params (HasAlign ctx) hs flag (length vs) (rpos b ?d)"
      "length ?d \<le> length (write_params ctx obf flag vs ?d)"
    using Cons unfolding w by blast+
  then have "length ?f < 2 ^ 63" using Cons.prems unfolding w by (auto split: if_splits)
  then have f: "rpos b ?f = align32 (HasAlign ctx) hs (rpos b data) + of_nat hs" "length data \<le> length ?f"
    using write_field_pos [OF assms(1) _ assms(2)] by blast+
  moreover have "length ?f \<le> length ?d" by simp
  ultimately have "length data \<le> length (write_params ctx obf flag vs ?d)" using ih(2) by linarith
  with f(1) ih(1) show ?case unfolding w by (simp split: if_splits)
qed simp

lemma write_register_pos:
  assumes "base_ok b" and "hs = (if HasFlag (cx_vmInfo ctx) VMF_HASH64 then 8 else 4)"
  shows "write_register ctx obf False vs data = Inr d \<Longrightarrow> length d < 2 ^ 63 \<Longrightarrow>
    rpos b d = shift_register (HasAlign ctx) hs (length vs) (rpos b data) \<and> length data \<le> length d"
proof (induction vs arbitrary: data)
  case (Cons v vs)
  obtain i var where v: "v = (i, var)" by (cases v)
  obtain d1 where d1: "op_Write ctx OPCODE_IW_RegisterVariable data = Inr d1"
      "write_register ctx obf False vs (write_field ctx obf i (fv_name var) d1) = Inr d"
    using Cons.prems(1) by (auto simp: v Let_def ebind_eq_Inr_iff)
  let ?f = "write_field ctx obf i (fv_name var) d1"
  have ih: "rpos b d = shift_register (HasAlign ctx) hs (length vs) (rpos b ?f)" "length ?f \<le> length d"
    using Cons.IH [OF d1(2) Cons.prems(2)] by auto
  then have "length ?f < 2 ^ 63" using Cons.prems(2) by simp
  note f = write_field_pos [OF assms(1) this assms(2)]
  have "length d1 < 2 ^ 63" using f(2) ih(2) Cons.prems(2) by linarith
  with op_Write_pos [OF d1(1) assms(1)] f ih show ?case by simp
qed simp

lemma take_bit_aligned_w: "take_bit k (aligned_w x (2 ^ k) :: 'a::len word) = 0"
proof -
  have m: "(2 ^ k - 1 :: 'a word) = mask k" by (simp add: mask_eq_exp_minus_1)
  show ?thesis unfolding aligned_w_def m by (rule bit_word_eqI) (auto simp: bit_simps)
qed

lemma aligned_w_idem: "aligned_w (aligned_w x (2 ^ k)) (2 ^ k) = (aligned_w x (2 ^ k) :: 'a::len word)"
proof -
  have "aligned_w (aligned_w x (2 ^ k) + 0) (2 ^ k) = aligned_w x (2 ^ k) + aligned_w (of_nat 0) (2 ^ k)"
    using aligned_w_base [OF take_bit_aligned_w, of x k 0] by simp
  also have "aligned_w (of_nat 0 :: 'a word) (2 ^ k) = 0"
    by (subst aligned_w_of_nat) (simp add: align_up_id)
  finally show ?thesis by simp
qed

lemma aligned_w_step: "aligned_w (aligned_w x (2 ^ k) + 2 ^ k) (2 ^ k) = (aligned_w x (2 ^ k) + 2 ^ k :: 'a::len word)"
proof -
  have "aligned_w (aligned_w x (2 ^ k) + 2 ^ k) (2 ^ k) = aligned_w x (2 ^ k) + aligned_w (of_nat (2 ^ k)) (2 ^ k)"
    using aligned_w_base [OF take_bit_aligned_w, of x k "2 ^ k"] by simp
  also have "aligned_w (of_nat (2 ^ k) :: 'a word) (2 ^ k) = 2 ^ k"
    by (subst aligned_w_of_nat) (simp add: align_up_id)
  finally show ?thesis .
qed

lemma shift_params_run:
  assumes "hs \<in> sizes"
  shows "shift_params al hs False (Suc n) e = align32 al hs e + of_nat (hs * Suc n)"
proof (induction n arbitrary: e)
  case (Suc n)
  obtain k where k: "hs = 2 ^ k" using sizes_pow [OF assms] by blast
  have "align32 al hs (align32 al hs e + of_nat hs) = align32 al hs e + of_nat hs"
    using aligned_w_step [of e k] by (simp add: align32_def k)
  then show ?case
    using Suc [of "align32 al hs e + of_nat hs"] by (simp add: algebra_simps)
qed simp

lemma lv_Write_pos:
  assumes "lv_Write ctx lv data = Inr d" and "base_ok b" and "length d < 2 ^ 63" and "lv_ok ctx lv"
  shows "lv_ShiftSize lv (HasAlign ctx) (rpos b data) = rpos b d \<and> length data \<le> length d"
proof -
  let ?al = "HasAlign ctx" and ?hs = "lv_hashSize lv" and ?n = "length (lv_vars lv)" and ?p = "lv_params lv"
  let ?vars = "zip [0..<?n] (lv_vars lv)"
  have hs: "?hs = (if HasFlag (cx_vmInfo ctx) VMF_HASH64 then 8 else 4)" and p: "?p \<le> ?n"
      and reg: "lv_hasRegister lv \<Longrightarrow> lv_hasFlag lv \<Longrightarrow> ?p = ?n"
    using assms(4) by (auto simp: lv_ok_def)
  note par = write_params_pos [OF assms(2) hs]
  have hs1: "?hs \<in> sizes" by (simp add: hs)
  note op = op_Write_pos [OF _ assms(2)]
  show ?thesis
  proof (cases "lv_hasRegister lv \<or> lv_hasRegisters lv")
    case False
    then show ?thesis
    proof (cases "?n = 0")
      case True
      with False assms(1,3) op show ?thesis by (simp add: lv_Write_def lv_ShiftSize_def Let_def)
    next
      case n: False
      then obtain d1 where d1: "op_Write ctx OPCODE_SafeCreateLocalVariables data = Inr d1"
        "d = write_params ctx (lv_obfuscate lv) (lv_hasFlag lv) (map (\<lambda>v. (fv_id v, v)) (lv_vars lv)) (ctx_Write 1 (?n mod 256) d1)"
        using False assms(1) by (auto simp: lv_Write_def Let_def ebind_eq_Inr_iff)
      have 1: "rpos b d = shift_params ?al ?hs (lv_hasFlag lv) ?n (rpos b d1 + 1)" "length d1 + 1 \<le> length d"
        using par assms(3) unfolding d1(2) by force+
      then show ?thesis
        using op [OF d1(1)] assms(3) False n by (simp add: lv_ShiftSize_def Let_def)
    qed
  next
    case True
    obtain d1 where d1: "(if ?p \<noteq> 0 then
                ebind (op_Write ctx OPCODE_SafeCreateLocalVariables data) (\<lambda>data.
                  Inr (write_params ctx (lv_obfuscate lv) (lv_hasFlag lv) (take ?p ?vars) (ctx_Write 1 (?p mod 256) data)))
              else op_Write ctx OPCODE_CheckClearParams data) = Inr d1"
      and d: "(if lv_hasRegister lv then write_register ctx (lv_obfuscate lv) (lv_hasFlag lv) (drop ?p ?vars) d1
             else if ?n - ?p \<noteq> 0 then
               ebind (op_Write ctx OPCODE_IW_RegisterMultipleVariables d1) (\<lambda>data.
                 Inr (write_params ctx (lv_obfuscate lv) False (drop ?p ?vars) (ctx_Write 1 ((?n - ?p) mod 256) data)))
             else Inr d1) = Inr d"
      using True assms(1) by (simp add: lv_Write_def Let_def ebind_eq_Inr_iff del: diff_is_0_eq) blast
    have first: "rpos b d1 = (if ?p \<noteq> 0 then shift_params ?al ?hs (lv_hasFlag lv) ?p (op_ShiftSize ?al (rpos b data) + 1)
                    else op_ShiftSize ?al (rpos b data)) \<and> length data \<le> length d1" if "length d1 < 2 ^ 63"
    proof (cases "?p = 0")
      case True
      with d1 op that show ?thesis by simp
    next
      case False
      then obtain d0 where d0: "op_Write ctx OPCODE_SafeCreateLocalVariables data = Inr d0"
        "d1 = write_params ctx (lv_obfuscate lv) (lv_hasFlag lv) (take ?p ?vars) (ctx_Write 1 (?p mod 256) d0)"
        using d1 by (auto simp: ebind_eq_Inr_iff)
      have "rpos b d1 = shift_params ?al ?hs (lv_hasFlag lv) ?p (rpos b d0 + 1)" "length d0 + 1 \<le> length d1"
        using par that p unfolding d0(2) by (force simp: min.absorb1)+
      with op [OF d0(1)] that False show ?thesis by simp
    qed
    show ?thesis
    proof (cases "lv_hasRegister lv")
      case r: True
      have f: "lv_hasFlag lv \<Longrightarrow> drop ?p ?vars = []" using reg r by simp
      have "write_register ctx (lv_obfuscate lv) False (drop ?p ?vars) d1 = Inr d"
        using d r f by (cases "lv_hasFlag lv") auto
      from write_register_pos [OF assms(2) hs this assms(3)]
      have 2: "rpos b d = shift_register ?al ?hs (?n - ?p) (rpos b d1)" "length d1 \<le> length d" by auto
      with first assms(3) r show ?thesis by (simp add: lv_ShiftSize_def Let_def)
    next
      case r: False
      show ?thesis
      proof (cases "?n - ?p = 0")
        case True
        with d r have "d1 = d" by simp
        with first assms(3) r True \<open>lv_hasRegister lv \<or> lv_hasRegisters lv\<close> show ?thesis by (simp add: lv_ShiftSize_def Let_def)
      next
        case n: False
        then obtain d2 where d2: "op_Write ctx OPCODE_IW_RegisterMultipleVariables d1 = Inr d2"
          "d = write_params ctx (lv_obfuscate lv) False (drop ?p ?vars) (ctx_Write 1 ((?n - ?p) mod 256) d2)"
          using d r by (auto simp: ebind_eq_Inr_iff)
        have "rpos b d = shift_params ?al ?hs False (?n - ?p) (rpos b d2 + 1)" "length d2 + 1 \<le> length d"
          using par assms(3) unfolding d2(2) by force+
        moreover obtain m where m: "?n - ?p = Suc m" using n not0_implies_Suc by blast
        moreover have "\<not> ?n \<le> ?p" using n by simp
        ultimately show ?thesis using op [OF d2(1)] first assms(3) r True
          by (simp add: lv_ShiftSize_def Let_def hs1 shift_params_run del: shift_params.simps)
      qed
    qed
  qed
qed

lemma LoadData_sizes:
  "LoadData fc = Inr (u, n) \<Longrightarrow> n \<in> {0, 2, 4, 8} \<and>
    (fc_inlineCall fc \<longrightarrow> n = (if fc_flags fc AND FCF_POINTER \<noteq> 0 then 0 else 8))"
  by (auto simp: LoadData_def split: if_splits)

lemma fc_Write_pos:
  assumes "fc_Write ctx fc data = Inr d" and "base_ok b" and "length d < 2 ^ 63" and "fc_ok ctx fc"
  shows "fc_ShiftSize fc (HasAlign ctx) (rpos b data) = Inr (rpos b d) \<and> length data \<le> length d"
proof -
  obtain d1 u n where d1: "op_Write ctx (fc_opcode fc) data = Inr d1" and ld: "LoadData fc = Inr (u, n)"
    using assms(1) by (auto simp: fc_Write_def ebind_eq_Inr_iff)
  let ?c = "(fc_inlineCall fc \<and> u) \<or> (u \<and> fc_useIWCalls fc)"
  define d2 where "d2 = (if ?c then ctx_Write 1 (unat (fc_params fc)) d1 else d1)"
  have ok: "fc_inlineCall fc = HasAlign ctx" "fc_flags fc AND FCF_POINTER_CLASS = 0"
    "fc_flags fc AND FCF_POINTER \<noteq> 0 \<Longrightarrow> n = 0"
    using assms(4) ld by (auto simp: fc_ok_def)
  have d: "d = (if fc_flags fc AND FCF_POINTER = 0 then
            (let data = ctx_Align ctx n d2
             in if n = 8
                then ctx_Write 8 (unat (CatLocated (ucast (fc_nameSpace fc)) (ucast (fc_clsName fc)))) data
                else data @ map of_nat [0..<n]) else d2)"
    using assms(1) ok(2) by (auto simp: fc_Write_def d1 ld d2_def Let_def split: if_splits)
  then have l: "length d2 \<le> length d"
    using length_Align_ge [of d2 ctx n] by (auto simp: Let_def)
  have "length d1 \<le> length d2" by (simp add: d2_def)
  with l assms(3) op_Write_pos [OF d1 assms(2)]
  have p1: "rpos b d1 = op_ShiftSize (HasAlign ctx) (rpos b data)" "length data \<le> length d1" by auto
  have p2: "rpos b d2 = (if ?c then rpos b d1 + 1 else rpos b d1)" by (simp add: d2_def)
  have p: "rpos b d = (if fc_flags fc AND FCF_POINTER = 0
      then align32 (HasAlign ctx) 8 (rpos b d2) + of_nat n else rpos b d2)"
  proof (cases "fc_flags fc AND FCF_POINTER = 0")
    case True
    then have len: "length d = length (ctx_Align ctx n d2) + n" by (simp add: d Let_def)
    then have r: "rpos b d = rpos b (ctx_Align ctx n d2) + of_nat n" by (simp add: rpos_def)
    show ?thesis
    proof (cases "HasAlign ctx")
      case al: True
      then have "n = 8" using LoadData_sizes [OF ld] ok True by simp
      with rpos_Align [OF assms(2), of n d2 ctx] l assms(3) r True show ?thesis by simp
    next
      case False
      with r True show ?thesis by (simp add: ctx_Align_def align32_def)
    qed
  qed (simp add: d)
  have "length data \<le> length d" using p1(2) \<open>length d1 \<le> length d2\<close> l by simp
  then show ?thesis
    using p p1(1) p2 ok LoadData_sizes [OF ld]
    by (cases "fc_flags fc AND FCF_POINTER = 0") (auto simp: fc_ShiftSize_def ld Let_def align32_def)
qed

text \<open>A node that is written takes exactly the bytes that were counted for it.\<close>

lemma write_node_pos:
  assumes "write_node ctx rlocs i node data = Inr d" and "base_ok b" and "length d < 2 ^ 63"
    and "node_ok ctx node"
  shows "ShiftSize node (HasAlign ctx) (rpos b data) = Inr (rpos b d) \<and> length data \<le> length d"
proof -
  note op = op_Write_pos [OF _ assms(2)]
  note wa = write_aligned_pos [OF assms(2)]
  show ?thesis
  proof (cases node)
    case AscmNode
    then show ?thesis using assms by (simp add: write_node_def ShiftSize_def)
  next
    case (AscmNodeRaw bs a)
    then have "length (ctx_Align ctx a data) < 2 ^ 63" "length data < 2 ^ 63" "length data \<le> length d"
      using assms(1,3) length_Align_ge [of data ctx a] by (auto simp: write_node_def)
    then show ?thesis using assms AscmNodeRaw rpos_Align [OF assms(2), of a data ctx]
      by (auto simp: write_node_def ShiftSize_def node_ok_def rpos_append)
  next
    case (AscmNodeOpCode op')
    then show ?thesis using assms op by (simp add: write_node_def ShiftSize_def)
  next
    case (AscmNodeRawOpCode op')
    then show ?thesis using assms raw_op_Write_pos [OF assms(2)] length_Align_ge [of data ctx 2]
      by (auto simp: write_node_def ShiftSize_def raw_op_Write_def Let_def)
  next
    case (AscmNodeData n v op')
    then obtain d1 where d1: "op_Write ctx op' data = Inr d1" "d = write_aligned ctx n (unat v) d1"
      using assms(1) by (auto simp: write_node_def ebind_eq_Inr_iff)
    with wa [of n ctx "unat v" d1] op [OF d1(1)] assms(3,4) AscmNodeData show ?thesis
      by (auto simp: ShiftSize_def node_ok_def)
  next
    case (AscmNodeHash v op' hs)
    then obtain d1 where d1: "op_Write ctx op' data = Inr d1"
        "hs = 8 \<and> d = write_aligned ctx 8 (unat v) d1 \<or> hs = 4 \<and> d = write_aligned ctx 4 (unat (ucast v :: u32)) d1"
      using assms(1) by (auto simp: write_node_def ebind_eq_Inr_iff split: if_splits)
    with wa [of 8 ctx "unat v" d1] wa [of 4 ctx "unat (ucast v :: u32)" d1] op [OF d1(1)] assms(3) AscmNodeHash
    show ?thesis by (auto simp: ShiftSize_def)
  next
    case (AscmNodeStringData s op')
    then obtain d1 where d1: "op_Write ctx op' data = Inr d1" "d = d1 @ s @ [0]"
      using assms(1) by (auto simp: write_node_def ebind_eq_Inr_iff)
    with op [OF d1(1)] assms(3) AscmNodeStringData show ?thesis
      by (auto simp: ShiftSize_def rpos_append add.assoc)
  next
    case (NodeFunctionCall fc)
    then show ?thesis using assms fc_Write_pos [OF _ assms(2,3)]
      by (simp add: write_node_def ShiftSize_def node_ok_def)
  next
    case (AscmNodeVariable v op')
    then obtain d1 x where d1: "op_Write ctx op' data = Inr d1" "d = ctx_Write 1 x d1"
      using assms(1) by (auto simp: write_node_def ebind_eq_Inr_iff)
    with op [OF d1(1)] assms(3) AscmNodeVariable show ?thesis by (auto simp: ShiftSize_def)
  next
    case (NodeLocalVariables lv)
    then show ?thesis using assms lv_Write_pos [OF _ assms(2,3)]
      by (simp add: write_node_def ShiftSize_def node_ok_def)
  next
    case (AscmNodeGlobalVariable op')
    then obtain d1 where d1: "op_Write ctx op' data = Inr d1" "d = write_aligned ctx 2 0 d1"
      using assms(1) by (auto simp: write_node_def ebind_eq_Inr_iff)
    with wa [of 2 ctx 0 d1] op [OF d1(1)] assms(3) AscmNodeGlobalVariable show ?thesis
      by (auto simp: ShiftSize_def)
  next
    case (AscmNodeLazyLink path nsp func)
    then obtain d1 where d1: "op_Write ctx OPCODE_T8C_GetLazyFunction data = Inr d1"
        "d = ctx_Write 8 (unat path) (ctx_Write 4 (unat func) (write_aligned ctx 4 (unat nsp) d1))"
      using assms(1) by (auto simp: write_node_def ebind_eq_Inr_iff)
    with wa [of 4 ctx "unat nsp" d1] op [OF d1(1)] assms(3) AscmNodeLazyLink show ?thesis
      by (auto simp: ShiftSize_def)
  next
    case (AscmNodeJump target op')
    then obtain d1 x where d1: "op_Write ctx op' data = Inr d1" "d = write_aligned ctx 2 x d1"
      using assms(1) by (auto simp: write_node_def ebind_eq_Inr_iff Let_def split: if_splits)
    with wa [of 2 ctx x d1] op [OF d1(1)] assms(3) AscmNodeJump show ?thesis
      by (auto simp: ShiftSize_def)
  qed
qed

section \<open>Writing never shrinks the data\<close>

lemma op_Write_mono: "op_Write ctx op data = Inr d \<Longrightarrow> length data \<le> length d"
  using length_Align_ge [of data ctx 2] by (auto simp: op_Write_def Let_def split: option.splits if_splits)

lemma write_aligned_mono: "length data \<le> length (write_aligned ctx n v data)"
  using length_Align_ge [of data ctx n] by (simp add: write_aligned_def)

lemma write_field_mono: "length data \<le> length (write_field ctx obf i nm data)"
  by (simp add: write_field_def Let_def write_aligned_mono)


lemma write_register_mono: "write_register ctx obf flag vs data = Inr d \<Longrightarrow> length data \<le> length d"
proof (induction vs arbitrary: data)
  case (Cons v vs)
  obtain i var where v: "v = (i, var)" by (cases v)
  obtain d1 where d1: "op_Write ctx OPCODE_IW_RegisterVariable data = Inr d1"
      "write_register ctx obf flag vs (let d = write_field ctx obf i (fv_name var) d1 in
        if flag then ctx_Write 1 (unat (fv_flags var)) d else d) = Inr d"
    using Cons.prems by (auto simp: v Let_def ebind_eq_Inr_iff)
  show ?case
    using Cons.IH [OF d1(2)] op_Write_mono [OF d1(1)] write_field_mono [of d1 ctx obf i "fv_name var"]
    by (auto simp: Let_def split: if_splits)
qed simp

definition grows :: "nat \<Rightarrow> asm_fail + u8 list \<Rightarrow> bool" where
  "grows k m \<longleftrightarrow> (\<forall>d. m = Inr d \<longrightarrow> k \<le> length d)"

named_theorems grow_rules







lemma grows_register [grow_rules]: "k \<le> length d \<Longrightarrow> grows k (write_register ctx obf flag vs d)"
  using write_register_mono [of ctx obf flag vs d] by (force simp: grows_def)








section \<open>The layout is the output\<close>



section \<open>Jumps\<close>

lemma scast_ucast_16:
  "(scast (ucast (d :: u32) :: u16) = d) \<longleftrightarrow> - (2 ^ 15) \<le> sint d \<and> sint d < 2 ^ 15"
proof -
  have l: "LENGTH(32) - Suc 0 = 31" "LENGTH(16) - Suc 0 = 15" by simp_all
  have s1: "sint (scast w :: u32) = signed_take_bit 31 (sint w)" for w :: u16
    by (rule trans [OF signed_scast_eq]) simp
  have s2: "sint (ucast d :: u16) = signed_take_bit 15 (uint d)"
    by (rule trans [OF signed_ucast_eq]) simp
  have "sint (scast (ucast d :: u16) :: u32) = signed_take_bit 31 (signed_take_bit 15 (uint d))"
    by (simp only: s1 s2)
  also have "\<dots> = signed_take_bit 15 (signed_take_bit 31 (uint d))"
    by (simp only: signed_take_bit_signed_take_bit min.commute)
  also have "signed_take_bit 31 (uint d) = sint d"
    by (simp only: sint_uint [of d] l)
  finally have s: "sint (scast (ucast d :: u16) :: u32) = signed_take_bit 15 (sint d)" .
  have "scast (ucast d :: u16) = d \<longleftrightarrow> sint (scast (ucast d :: u16) :: u32) = sint d"
    by (metis signed_word_eqI)
  also have "\<dots> \<longleftrightarrow> signed_take_bit 15 (sint d) = sint d" by (simp only: s)
  finally show ?thesis by (simp only: signed_take_bit_int_eq_self_iff)
qed

text \<open>The distance a decoder reads from the last two bytes.\<close>

definition jump_operand :: "u8 list \<Rightarrow> u32" where
  "jump_operand d = scast (of_nat (le_nat (drop (length d - 2) d)) :: u16)"

lemma jump_operand_write: "jump_operand (write_aligned ctx 2 (unat x) data) = scast (x :: u16)"
proof -
  have "drop (length (write_aligned ctx 2 (unat x) data) - 2) (write_aligned ctx 2 (unat x) data) = le_bytes 2 (unat x)"
    by (simp add: write_aligned_def ctx_Write_def)
  moreover have "unat x mod 65536 = unat x" using unat_bound [of x] by simp
  ultimately show ?thesis by (simp add: jump_operand_def le_nat_le_bytes)
qed

text \<open>
  C18. A jump is written when its distance is below 2^16 in absolute value, and what is written leads
  from the end of the jump to the location of the target exactly when the distance fits a
  signed 16-bit word: the check of \<^verbatim>\<open>MAX_JUMP\<close> accepts distances it then truncates.
\<close>
theorem jump_lands_iff:
  assumes "write_node ctx rlocs i (AscmNodeJump target op) data = Inr d" and "take_bit 3 b = 0"
    and "length d < 2 ^ 63" and "rlocs ! i = of_nat (length data) - b"
  shows "\<bar>sint (rlocs ! target - (of_nat (length d) - b))\<bar> < 2 ^ 16 \<and>
    (of_nat (length d) - b + jump_operand d = rlocs ! target \<longleftrightarrow>
       - (2 ^ 15) \<le> sint (rlocs ! target - (of_nat (length d) - b)) \<and>
       sint (rlocs ! target - (of_nat (length d) - b)) < 2 ^ 15)"
proof -
  have b: "base_ok b" using assms(2) by (simp add: base_ok_def)
  have pos: "ShiftSize (AscmNodeJump target op) (HasAlign ctx) (rlocs ! i) = Inr (rpos b d)"
    using write_node_pos [OF assms(1) b assms(3)] assms(4) by (simp add: node_ok_def rpos_def)
  let ?delta = "rlocs ! target - rpos b d"
  obtain d1 where d1: "\<bar>sint ?delta\<bar> < 2 ^ 16" "write_aligned ctx 2 (unat (ucast ?delta :: u16)) d1 = d"
    using assms(1) pos by (auto simp: write_node_def ebind_eq_Inr_iff Let_def MAX_JUMP_def not_le abs_less_iff split: if_splits)
  have j: "jump_operand d = scast (ucast ?delta :: u16)"
    using jump_operand_write [of ctx "ucast ?delta" d1] d1(2) by simp
  have "a + x = t \<longleftrightarrow> x = t - a" for a x t :: u32
    by (metis add_diff_cancel_left' diff_add_cancel add.commute)
  then have "rpos b d + jump_operand d = rlocs ! target \<longleftrightarrow> scast (ucast ?delta :: u16) = ?delta"
    by (simp only: j)
  with d1(1) show ?thesis by (simp only: scast_ucast_16 rpos_def simp_thms)
qed

text \<open>A VM without alignment that knows one opcode, for the examples.\<close>

definition demo_ctx :: "u64 \<Rightarrow> OPCODE \<Rightarrow> asm_ctx" where
  "demo_ctx flags op =
     (let vm = RegisterOpCode (new_vm_info\<lparr>vmMagic := 1, vm_flags := flags\<rparr>) PLATFORM_PC op 5
      in \<lparr>cx_registry = \<lparr>g_opcodeMap = [1 \<mapsto> vm], g_vmMap = Map.empty\<rparr>, cx_vmInfo = vm, cx_plt = PLATFORM_PC,
          cx_lvars = 0, cx_useModToolOpCodes = False, cx_rnd = (\<lambda>_ _. 0)\<rparr>)"

lemma demo_op_Write:
  "op_Write (demo_ctx flags op) op data =
     Inr (if flags AND 1 = 1 then ctx_Write 2 5 (ctx_Align (demo_ctx flags op) 2 data) else data @ [5])"
  by (simp add: op_Write_def demo_ctx_def GetOpCodeId_vm_def IsValidVm_def GetOpCodeId_def new_vm_info_def
      RegisterOpCode_def push2_def inner_def RemapSamePlatform_def Let_def HasAlign_def HasFlag_def VMF_ALIGN_def
      ctx_Align_def ctx_Write_def)

lemma demo_align: "HasAlign (demo_ctx flags op) \<longleftrightarrow> flags AND 1 = 1"
  by (simp add: HasAlign_def demo_ctx_def HasFlag_def VMF_ALIGN_def Let_def RegisterOpCode_def new_vm_info_def)


text \<open>A backward jump over itself: label, jump.\<close>

lemma le_bytes_2: "le_bytes 2 v = [of_nat (v mod 256), of_nat (v div 256 mod 256)]"
  by (simp add: numeral_2_eq_2)

lemma demo_jump:
  "write_node (demo_ctx 0 OPCODE_GetFunction) [0, 0] 1 (AscmNodeJump 0 OPCODE_GetFunction) [] = Inr [5, 0xFD, 0xFF]"
  by (simp add: write_node_def demo_op_Write demo_align ShiftSize_def op_ShiftSize_def align32_def MAX_JUMP_def
    write_aligned_def ctx_Align_def ctx_Write_def Let_def le_bytes_2)

theorem jump_lands_iff_witness:
  "(3 :: u32) + jump_operand [5, 0xFD, 0xFF] = 0"
  using jump_lands_iff [OF demo_jump, of 0] by simp


section \<open>The operands the linker patches\<close>

lemma op_ShiftSize_aligned: "op_ShiftSize al (align32 al 2 x) = op_ShiftSize al x"
  using aligned_w_idem [of x 1] by (simp add: op_ShiftSize_def align32_def)

lemma le_bytes_mod: "le_bytes n (v mod 256 ^ n) = le_bytes n v"
proof -
  have "le_bytes (length (le_bytes n v)) (le_nat (le_bytes n v)) = le_bytes n v" by (rule le_bytes_le_nat)
  then show ?thesis by (simp add: le_nat_le_bytes)
qed

text \<open>
  The location the linker is given for the operand of a data, hash or global-variable node is
  the location of that operand in the file, and the bytes there are the value of the node.
\<close>
theorem data_location:
  assumes "write_node ctx rlocs i node data = Inr d" and "length d < 2 ^ 63" and "node_ok ctx node"
    and "node = AscmNodeData n v op \<or> node = AscmNodeHash v op n \<or> node = AscmNodeGlobalVariable op \<and> n = 2 \<and> v = 0"
  shows "GetDataFLoc node (align32 (HasAlign ctx) 2 (of_nat (length data))) (HasAlign ctx)
      = Inr (of_nat (length d - n))
    \<and> drop (length d - n) d = le_bytes n (unat v)"
proof -
  have b: "base_ok 0" by (simp add: base_ok_def)
  have r: "rpos 0 x = of_nat (length x)" for x by (simp add: rpos_def)
  note pos = write_node_pos [OF assms(1) b assms(2,3), unfolded r]
  have m: "le_bytes 4 (unat (ucast w :: u32)) = le_bytes 4 (unat w)" for w :: u64
    using le_bytes_mod [of 4 "unat w"] by (simp add: unsigned_ucast_eq take_bit_eq_mod)
  obtain d1 x where "d = write_aligned ctx n x d1" and x: "le_bytes n x = le_bytes n (unat v)"
    using assms(1,4) m by (auto simp: write_node_def ebind_eq_Inr_iff split: if_splits)
  then have n: "n \<le> length d" and dr: "drop (length d - n) d = le_bytes n (unat v)"
    using x by (simp_all add: write_aligned_def ctx_Write_def)
  have "GetDataFLoc node (align32 (HasAlign ctx) 2 (of_nat (length data))) (HasAlign ctx)
      = Inr (of_nat (length d) - of_nat n)"
    using assms(4) pos by (auto simp: GetDataFLoc_def ShiftSize_def op_ShiftSize_aligned)
  with n dr show ?thesis by (simp add: of_nat_diff)
qed

section \<open>Variables\<close>

text \<open>The variables of a function are numbered by position and named apart.\<close>

definition vars_ok :: "function_object \<Rightarrow> bool" where
  "vars_ok f \<longleftrightarrow> length (m_vars f) \<le> 256 \<and> distinct (map fv_name (m_vars f)) \<and>
     (\<forall>i < length (m_vars f). fv_id (m_vars f ! i) = i)"

lemma FindVar_le: "FindVar vs nm \<le> length vs"
  by (induction vs) auto

lemma FindVar_spec:
  "FindVar vs nm = length vs \<longleftrightarrow> nm \<notin> fv_name ` set vs"
  "FindVar vs nm < length vs \<Longrightarrow> fv_name (vs ! FindVar vs nm) = nm"
  using FindVar_le by (induction vs) auto

text \<open>
  C26. Registering a variable keeps the table well formed, on every branch, and on success the index it
  returns carries the name, the existing variable only when that is allowed; a function never
  has more than the 256 variables a byte can number.
\<close>
theorem RegisterVar_invariant:
  assumes "vars_ok f" and "RegisterVar f nm allowExisting flags = (res, f')"
  shows "vars_ok f' \<and>
    (case res of
       Inl VarExists \<Rightarrow> f' = f \<and> nm \<in> fv_name ` set (m_vars f) \<and> \<not> allowExisting
     | Inl TooManyVars \<Rightarrow> f' = f \<and> nm \<notin> fv_name ` set (m_vars f) \<and> length (m_vars f) = 256
     | Inr i \<Rightarrow> i < length (m_vars f') \<and> fv_name (m_vars f' ! i) = nm \<and>
         (nm \<in> fv_name ` set (m_vars f) \<longrightarrow> allowExisting \<and> f' = f))"
proof -
  have le: "length (m_vars f) \<le> 256" using assms(1) by (simp add: vars_ok_def)
  show ?thesis
  proof (cases "FindVar (m_vars f) nm = length (m_vars f)")
    case True
    with FindVar_spec(1) have "nm \<notin> fv_name ` set (m_vars f)" by blast
    with True assms le show ?thesis
      by (auto simp: RegisterVar_def Let_def vars_ok_def nth_append less_Suc_eq split: if_splits)
  next
    case False
    then have lt: "FindVar (m_vars f) nm < length (m_vars f)" using FindVar_le [of "m_vars f" nm] by simp
    with FindVar_spec [of "m_vars f" nm] False have "nm \<in> fv_name ` set (m_vars f)" by simp
    with False lt assms FindVar_spec(2) [OF lt] show ?thesis
      by (auto simp: RegisterVar_def Let_def split: if_splits)
  qed
qed

theorem RegisterVar_invariant_witness:
  "vars_ok (snd (RegisterVar new_function [97] False 0))"
  using RegisterVar_invariant [of new_function "[97]" False 0 "fst (RegisterVar new_function [97] False 0)"
      "snd (RegisterVar new_function [97] False 0)"]
  by (simp add: vars_ok_def new_function_def)

section \<open>Class pointers\<close>

text \<open>
  A call of a class pointer in an aligned VM with 64-bit hashes takes more bytes than its size
  says: the hash is aligned to 8 when it is written and to 4 when it is counted.
\<close>
theorem class_pointer_size:
  assumes "fc_Write ctx fc data = Inr d" and "HasAlign ctx" and "fc_inlineCall fc" and "fc_hashSize fc = 8"
    and "fc_flags fc AND FCF_POINTER_CLASS \<noteq> 0" and "\<not> inline_getter (fc_opcode fc)"
    and "8 dvd length data" and "length d < 2 ^ 32" and "length data < 2 ^ 31"
  shows "length d = length data + 16 \<and> fc_ShiftSize fc True (of_nat (length data)) = Inr (of_nat (length data + 12))"
proof -
  have b: "base_ok 0" by (simp add: base_ok_def)
  have r: "rpos 0 x = of_nat (length x)" for x by (simp add: rpos_def)
  obtain d1 u n where d1: "op_Write ctx (fc_opcode fc) data = Inr d1" and ld: "LoadData fc = Inr (u, n)"
    using assms(1) by (auto simp: fc_Write_def ebind_eq_Inr_iff)
  have u: u using ld assms(3,6) by (auto simp: LoadData_def)
  define d2 where "d2 = ctx_Write 1 (unat (fc_params fc)) d1"
  have d: "d = write_aligned ctx 8 (unat (fc_clsName fc)) d2"
    using assms(1,3-5) u by (simp add: fc_Write_def d1 ld d2_def Let_def)
  have l: "length d2 < 2 ^ 63" "length d1 < 2 ^ 63" "length d1 \<le> length d2" "length d2 \<le> length d"
  proof -
    show a: "length d2 \<le> length d" unfolding d by (rule write_aligned_mono)
    show c: "length d1 \<le> length d2" by (simp add: d2_def)
    show "length d2 < 2 ^ 63" "length d1 < 2 ^ 63" using a c assms(8) by simp_all
  qed
  let ?L = "length data"
  have up: "align_up ?L 2 = ?L" "align_up (?L + 3) 8 = ?L + 8" "align_up (?L + 3) 4 = ?L + 4"
  proof -
    obtain k where k: "?L = 8 * k" using assms(7) by (elim dvdE)
    show "align_up ?L 2 = ?L" "align_up (?L + 3) 8 = ?L + 8" "align_up (?L + 3) 4 = ?L + 4"
      unfolding align_up_def k by presburger+
  qed
  have al: "aligned_w (of_nat m) 2 = (of_nat (align_up m 2) :: u32)" "aligned_w (of_nat m) 4 = (of_nat (align_up m 4) :: u32)"
    "aligned_w (of_nat m) 8 = (of_nat (align_up m 8) :: u32)" for m
    using aligned_w_of_nat [of m 1] aligned_w_of_nat [of m 2] aligned_w_of_nat [of m 3] by simp_all
  have p1: "of_nat (length d1) = (of_nat (?L + 2) :: u32)"
    using op_Write_pos [OF d1 b l(2)] assms(2) by (simp add: r op_ShiftSize_def al up)
  then have p2: "of_nat (length d2) = (of_nat (?L + 3) :: u32)" by (simp add: d2_def)
  have "of_nat (length d) = align32 True 8 (of_nat (length d2)) + (8 :: u32)"
    using write_aligned_pos(1) [OF b, of 8 ctx "unat (fc_clsName fc)" d2] assms(2,8) by (simp add: r flip: d)
  also have "\<dots> = of_nat (?L + 16)"
    unfolding p2 align32_def if_True of_nat_numeral al up by simp
  finally have "of_nat (length d) = (of_nat (?L + 16) :: u32)" .
  then have "length d mod 2 ^ 32 = (?L + 16) mod 2 ^ 32"
    using unat_of_nat_mod [of "length d", where ?'a = 32] unat_of_nat_mod [of "?L + 16", where ?'a = 32] by simp
  moreover have "fc_ShiftSize fc True (of_nat ?L) = Inr (of_nat (?L + 12))"
  proof -
    have "op_ShiftSize True (of_nat ?L) + 1 = (of_nat (?L + 3) :: u32)"
      by (simp add: op_ShiftSize_def al up)
    moreover have "align32 True 4 (of_nat (?L + 3)) = (of_nat (?L + 4) :: u32)"
      by (simp only: align32_def if_True of_nat_numeral al up)
    ultimately have "align32 True 4 (op_ShiftSize True (of_nat ?L) + 1) + 8 = (of_nat (?L + 12) :: u32)"
      by (simp only:) simp
    then show ?thesis using assms(4,5) u by (simp add: fc_ShiftSize_def ld Let_def)
  qed
  moreover have "length d mod 2 ^ 32 = length d" "(?L + 16) mod 2 ^ 32 = ?L + 16"
    using assms(8,9) by simp_all
  ultimately show ?thesis by simp
qed

theorem class_pointer_size_witness:
  "length (projr (fc_Write (demo_ctx 1 OPCODE_ScriptMethodThreadCallPointer)
     \<lparr>fc_opcode = OPCODE_ScriptMethodThreadCallPointer, fc_flags = 0x18, fc_params = 0, fc_clsName = 7,
      fc_nameSpace = 0, fc_inlineCall = True, fc_useIWCalls = False, fc_hashSize = 8\<rparr> [])) = 16"
proof -
  let ?ctx = "demo_ctx 1 OPCODE_ScriptMethodThreadCallPointer"
  let ?fc = "\<lparr>fc_opcode = OPCODE_ScriptMethodThreadCallPointer, fc_flags = 0x18, fc_params = 0, fc_clsName = 7,
      fc_nameSpace = 0, fc_inlineCall = True, fc_useIWCalls = False, fc_hashSize = 8\<rparr>"
  have r: "replicate 5 (0 :: u8) = [0, 0, 0, 0, 0]" by (simp add: numeral_eq_Suc)
  have w: "fc_Write ?ctx ?fc [] = Inr [5, 0, 0, 0, 0, 0, 0, 0, 7, 0, 0, 0, 0, 0, 0, 0]"
    using r by (simp add: le_bytes_numeral fc_Write_def demo_op_Write demo_align LoadData_def inline_getter_def FCF_POINTER_CLASS_def
        FCF_POINTER_def Let_def write_aligned_def ctx_Align_def ctx_Write_def aligned_w_def)
  show ?thesis
    using class_pointer_size [OF w] by (simp add: w demo_align FCF_POINTER_CLASS_def inline_getter_def)
qed

theorem data_location_witness:
  "drop 1 [5 :: u8, 44, 1] = le_bytes 2 300"
proof -
  have w: "write_node (demo_ctx 0 OPCODE_GetFunction) [] 0 (AscmNodeData 2 300 OPCODE_GetFunction) [] = Inr [5, 44, 1]"
    by (simp add: write_node_def demo_op_Write write_aligned_def ctx_Align_def demo_align ctx_Write_def le_bytes_2)
  show ?thesis using data_location [OF w, of 2 300 OPCODE_GetFunction] by (simp add: node_ok_def)
qed

end
