(* ===== verification/Linker_Memory.thy ===== *)
theory Linker_Memory
  imports C_Library
begin

text \<open>
  The memory linker of the fast files, \<^verbatim>\<open>src/core/acts/tools/fastfile/linkers/linker_memory.hpp\<close>
  and \<^verbatim>\<open>linker_memory.cpp\<close>: the assets of a fast file are cut into chunks, each chunk belongs to one
  of the blocks the game loads them into, and \<^verbatim>\<open>Link\<close> computes the size of every block and the
  pointers into them.

  Chunks are shared objects: they live in a table and are named by their index. The chains of a
  block and of a zone, which the code threads through the chunks, are lists of indices.
\<close>

section \<open>The state of a linker\<close>

datatype block_type = BLOCKTYPE_UNKNOWN | BLOCKTYPE_TEMP | BLOCKTYPE_RUNTIME | BLOCKTYPE_VIRTUAL

datatype chunk_type = CHUNKTYPE_DATA | CHUNKTYPE_ALIGN | CHUNKTYPE_POP | CHUNKTYPE_PUSH

datatype linker_mode = LM_HEADER | LM_DATA

definition LINKER_MAX_BLOCKS :: nat where "LINKER_MAX_BLOCKS = 20"
definition LINKER_STACK_SIZE :: nat where "LINKER_STACK_SIZE = 64"
definition POINTER_NEXT :: u64 where "POINTER_NEXT = 0xFFFFFFFFFFFFFFFF"

text \<open>\<^verbatim>\<open>refs\<close>: the pointer cells that hold the address of the chunk once it is linked.\<close>

record chunk =
  ck_type :: chunk_type
  ck_align :: u64
  ck_data :: "u8 list option"
  ck_size :: u64
  ck_refs :: "nat list"

record block =
  bk_data :: "linker_mode \<Rightarrow> nat list"
  bk_type :: block_type
  bk_finalSize :: u64

record asset_data =
  ad_type :: nat
  ad_header :: u64
  ad_align :: "nat option"

record xblock_linker =
  xl_chunks :: "chunk list"
  xl_blocks :: "block list"
  xl_zone :: "linker_mode \<Rightarrow> nat list"
  xl_mode :: linker_mode
  xl_stack :: "nat list"
  xl_assets :: "asset_data list"
  xl_scrStrings :: "cstr list"
  xl_numblocks :: nat
  xl_cells :: "nat \<rightharpoonup> u64"

text \<open>The exceptions; \<open>TempUnderflow\<close> is \<^verbatim>\<open>top\<close> of an empty \<^verbatim>\<open>std::stack\<close>, which is undefined.\<close>

datatype xl_error =
    TooManyBlocks | InvalidBlock | ModeNotEmpty | StreamOverflow | StreamUnderflow | NoBlockSet
  | RuntimeAlloc | LinkStackNotEmpty | UnknownBlockUsed | TempUnderflow

section \<open>Operations\<close>

definition AssertBlock :: "xblock_linker \<Rightarrow> nat \<Rightarrow> xl_error + unit" where
  "AssertBlock x b = guard_or InvalidBlock (b < xl_numblocks x)"

definition SetBlockType :: "xblock_linker \<Rightarrow> nat \<Rightarrow> block_type \<Rightarrow> xl_error + xblock_linker" where
  "SetBlockType x b t =
     ebind (AssertBlock x b) (\<lambda>_. Inr (x\<lparr>xl_blocks := (xl_blocks x)[b := (xl_blocks x ! b)\<lparr>bk_type := t\<rparr>]\<rparr>))"

definition XBlockLinker :: "nat \<Rightarrow> nat \<Rightarrow> xl_error + xblock_linker" where
  "XBlockLinker numblocks virtualBlock =
     (if LINKER_MAX_BLOCKS < numblocks then Inl TooManyBlocks
      else SetBlockType
        \<lparr>xl_chunks = [],
         xl_blocks = replicate LINKER_MAX_BLOCKS
           \<lparr>bk_data = (\<lambda>_. []), bk_type = BLOCKTYPE_UNKNOWN, bk_finalSize = 0\<rparr>,
         xl_zone = (\<lambda>_. []), xl_mode = LM_HEADER, xl_stack = [], xl_assets = [], xl_scrStrings = [],
         xl_numblocks = numblocks, xl_cells = Map.empty\<rparr> virtualBlock BLOCKTYPE_VIRTUAL)"

definition SetMode :: "xblock_linker \<Rightarrow> linker_mode \<Rightarrow> xl_error + xblock_linker" where
  "SetMode x m =
     (if m = xl_mode x then Inr x
      else if xl_stack x \<noteq> [] then Inl ModeNotEmpty
      else Inr (x\<lparr>xl_mode := m\<rparr>))"

text \<open>The current block: the last one pushed.\<close>

definition GetBlock :: "xblock_linker \<Rightarrow> xl_error + nat" where
  "GetBlock x = (case xl_stack x of [] \<Rightarrow> Inl NoBlockSet | b # _ \<Rightarrow> Inr b)"

definition CreateChunk ::
  "xblock_linker \<Rightarrow> chunk_type \<Rightarrow> u64 \<Rightarrow> u8 list option \<Rightarrow> u64 \<Rightarrow> nat \<times> xblock_linker" where
  "CreateChunk x t a d n =
     (length (xl_chunks x),
      x\<lparr>xl_chunks := xl_chunks x @ [\<lparr>ck_type = t, ck_align = a, ck_data = d, ck_size = n, ck_refs = []\<rparr>]\<rparr>)"

definition AddChunk ::
  "xblock_linker \<Rightarrow> chunk_type \<Rightarrow> u64 \<Rightarrow> u8 list option \<Rightarrow> u64 \<Rightarrow> xl_error + (nat \<times> xblock_linker)" where
  "AddChunk x t a d n =
     (let (c, x1) = CreateChunk x t a d n
      in ebind (GetBlock x1) (\<lambda>b.
           let blk = xl_blocks x1 ! b
           in Inr (c, x1\<lparr>xl_blocks := (xl_blocks x1)[b :=
                blk\<lparr>bk_data := (bk_data blk)(xl_mode x1 := bk_data blk (xl_mode x1) @ [c])\<rparr>]\<rparr>)))"

definition PushStream :: "xblock_linker \<Rightarrow> nat \<Rightarrow> xl_error + xblock_linker" where
  "PushStream x b =
     ebind (AssertBlock x b) (\<lambda>_.
       if length (xl_stack x) + 1 = LINKER_STACK_SIZE then Inl StreamOverflow
       else ebind (AddChunk (x\<lparr>xl_stack := b # xl_stack x\<rparr>) CHUNKTYPE_PUSH 0 None 0) (\<lambda>(_, x). Inr x))"

definition PopStream :: "xblock_linker \<Rightarrow> xl_error + xblock_linker" where
  "PopStream x =
     (if xl_stack x = [] then Inl StreamUnderflow
      else ebind (AddChunk x CHUNKTYPE_POP 0 None 0) (\<lambda>(_, x). Inr (x\<lparr>xl_stack := tl (xl_stack x)\<rparr>)))"

definition xl_Align :: "xblock_linker \<Rightarrow> u64 \<Rightarrow> xl_error + (nat \<times> xblock_linker)" where
  "xl_Align x a = AddChunk x CHUNKTYPE_ALIGN a None 0"

definition AllocRuntime :: "xblock_linker \<Rightarrow> u64 \<Rightarrow> xl_error + (nat \<times> xblock_linker)" where
  "AllocRuntime x n = AddChunk x CHUNKTYPE_DATA 0 None n"

definition AllocStream :: "xblock_linker \<Rightarrow> u64 \<Rightarrow> xl_error + (nat \<times> xblock_linker)" where
  "AllocStream x n =
     ebind (GetBlock x) (\<lambda>b.
       if bk_type (xl_blocks x ! b) = BLOCKTYPE_RUNTIME then Inl RuntimeAlloc
       else ebind (AllocRuntime x n) (\<lambda>(c, x).
         Inr (c, x\<lparr>xl_zone := (xl_zone x)(xl_mode x := xl_zone x (xl_mode x) @ [c]),
                   xl_chunks := (xl_chunks x)[c := (xl_chunks x ! c)\<lparr>ck_data := Some (replicate (unat n) 0)\<rparr>]\<rparr>)))"

definition WriteStream :: "xblock_linker \<Rightarrow> u8 list \<Rightarrow> xl_error + (nat \<times> xblock_linker)" where
  "WriteStream x bs =
     ebind (AllocStream x (of_nat (length bs))) (\<lambda>(c, x).
       Inr (c, x\<lparr>xl_chunks := (xl_chunks x)[c := (xl_chunks x ! c)\<lparr>ck_data := Some bs\<rparr>]\<rparr>))"

text \<open>A client registers a pointer cell for a chunk.\<close>

definition add_ref :: "xblock_linker \<Rightarrow> nat \<Rightarrow> nat \<Rightarrow> xblock_linker" where
  "add_ref x c cell =
     x\<lparr>xl_chunks := (xl_chunks x)[c := (xl_chunks x ! c)\<lparr>ck_refs := ck_refs (xl_chunks x ! c) @ [cell]\<rparr>]\<rparr>"

fun index_of :: "cstr \<Rightarrow> cstr list \<Rightarrow> nat option" where
  "index_of v [] = None"
| "index_of v (s # ss) = (if v = s then Some 0 else map_option Suc (index_of v ss))"

definition AddScrString :: "xblock_linker \<Rightarrow> cstr option \<Rightarrow> u32 \<times> xblock_linker" where
  "AddScrString x v =
     (case v of
        None \<Rightarrow> (0, x)
      | Some s \<Rightarrow>
          if c_chars s = [] then (0, x)
          else case index_of (c_chars s) (xl_scrStrings x) of
            Some i \<Rightarrow> (of_nat i + 1, x)
          | None \<Rightarrow> (of_nat (length (xl_scrStrings x) + 1),
                    x\<lparr>xl_scrStrings := xl_scrStrings x @ [c_chars s]\<rparr>))"

definition AddAsset :: "xblock_linker \<Rightarrow> nat \<Rightarrow> nat option \<Rightarrow> xblock_linker" where
  "AddAsset x t a = x\<lparr>xl_assets := xl_assets x @ [\<lparr>ad_type = t, ad_header = POINTER_NEXT, ad_align = a\<rparr>]\<rparr>"

text \<open>\<^verbatim>\<open>AddXString\<close>: the new value of the pointer, and the string behind it.\<close>

definition AddXString :: "xblock_linker \<Rightarrow> cstr \<Rightarrow> xl_error + (u64 \<times> xblock_linker)" where
  "AddXString x s = ebind (WriteStream x (c_chars s @ [0])) (\<lambda>(_, x). Inr (POINTER_NEXT, x))"

section \<open>Linking\<close>

definition chunk_loc :: "nat \<Rightarrow> u64 \<Rightarrow> u64" where
  "chunk_loc blockIndex sz = (sz OR push_bit 60 (of_nat blockIndex)) + 1"

definition ApplyRefs :: "chunk \<Rightarrow> nat \<Rightarrow> u64 \<Rightarrow> (nat \<rightharpoonup> u64) \<Rightarrow> (nat \<rightharpoonup> u64)" where
  "ApplyRefs c blockIndex sz cells = fold (\<lambda>r m. m(r \<mapsto> chunk_loc blockIndex sz)) (ck_refs c) cells"

fun LoadChunkSize :: "nat \<Rightarrow> chunk list \<Rightarrow> u64 \<Rightarrow> (nat \<rightharpoonup> u64) \<Rightarrow> u64 \<times> (nat \<rightharpoonup> u64)" where
  "LoadChunkSize bi [] sz cells = (sz, cells)"
| "LoadChunkSize bi (c # cs) sz cells =
     LoadChunkSize bi cs
       (case ck_type c of
          CHUNKTYPE_DATA \<Rightarrow> sz + ck_size c
        | CHUNKTYPE_ALIGN \<Rightarrow> aligned_w sz (ck_align c)
        | CHUNKTYPE_POP \<Rightarrow> sz
        | CHUNKTYPE_PUSH \<Rightarrow> sz)
       (ApplyRefs c bi sz cells)"

fun LoadChunkSizeTemp ::
  "nat \<Rightarrow> chunk list \<Rightarrow> u64 \<Rightarrow> u64 \<Rightarrow> u64 list \<Rightarrow> (nat \<rightharpoonup> u64) \<Rightarrow> xl_error + (u64 \<times> (nat \<rightharpoonup> u64))" where
  "LoadChunkSizeTemp bi [] maxSize sz lens cells = Inr (if maxSize < sz then sz else maxSize, cells)"
| "LoadChunkSizeTemp bi (c # cs) maxSize sz lens cells =
     (let cells = ApplyRefs c bi sz cells
      in case ck_type c of
           CHUNKTYPE_DATA \<Rightarrow> LoadChunkSizeTemp bi cs maxSize (sz + ck_size c) lens cells
         | CHUNKTYPE_ALIGN \<Rightarrow> LoadChunkSizeTemp bi cs maxSize (aligned_w sz (ck_align c)) lens cells
         | CHUNKTYPE_POP \<Rightarrow>
             (case lens of
                [] \<Rightarrow> Inl TempUnderflow
              | l # ls \<Rightarrow> LoadChunkSizeTemp bi cs (if maxSize < sz then sz else maxSize) l ls cells)
         | CHUNKTYPE_PUSH \<Rightarrow> LoadChunkSizeTemp bi cs maxSize sz (sz # lens) cells)"

definition chunks_of :: "xblock_linker \<Rightarrow> block \<Rightarrow> linker_mode \<Rightarrow> chunk list" where
  "chunks_of x b m = map (\<lambda>c. xl_chunks x ! c) (bk_data b m)"

definition link_block :: "xblock_linker \<Rightarrow> nat \<Rightarrow> xl_error + xblock_linker" where
  "link_block x i =
     (let b = xl_blocks x ! i;
          done = (\<lambda>(sz, cells). Inr (x\<lparr>xl_blocks := (xl_blocks x)[i := b\<lparr>bk_finalSize := sz\<rparr>], xl_cells := cells\<rparr>))
      in case bk_type b of
           BLOCKTYPE_TEMP \<Rightarrow>
             ebind (LoadChunkSizeTemp i (chunks_of x b LM_HEADER) 0 0 [] (xl_cells x)) (\<lambda>(m, cells).
             ebind (LoadChunkSizeTemp i (chunks_of x b LM_DATA) m 0 [] cells) done)
         | BLOCKTYPE_UNKNOWN \<Rightarrow>
             (if bk_data b LM_HEADER \<noteq> [] \<or> bk_data b LM_DATA \<noteq> [] then Inl UnknownBlockUsed else Inr x)
         | _ \<Rightarrow>
             (let (m, cells) = LoadChunkSize i (chunks_of x b LM_HEADER) 0 (xl_cells x)
              in done (LoadChunkSize i (chunks_of x b LM_DATA) m cells)))"

fun link_blocks :: "xblock_linker \<Rightarrow> nat list \<Rightarrow> xl_error + xblock_linker" where
  "link_blocks x [] = Inr x"
| "link_blocks x (i # is) = ebind (link_block x i) (\<lambda>x. link_blocks x is)"

text \<open>\<^verbatim>\<open>Link\<close>: the sizes stored in the array of the caller are the final sizes of the blocks.\<close>

definition Link :: "xblock_linker \<Rightarrow> xl_error + (u64 list \<times> xblock_linker)" where
  "Link x =
     (if xl_stack x \<noteq> [] then Inl LinkStackNotEmpty
      else ebind (link_blocks x [0..<xl_numblocks x]) (\<lambda>x.
        Inr (map bk_finalSize (take (xl_numblocks x) (xl_blocks x)), x)))"

definition chunk_bytes :: "chunk \<Rightarrow> u8 list" where
  "chunk_bytes c = (case ck_data c of None \<Rightarrow> [] | Some d \<Rightarrow> if ck_size c \<noteq> 0 then d else [])"

definition WriteLinkedData :: "xblock_linker \<Rightarrow> u8 list \<Rightarrow> u8 list" where
  "WriteLinkedData x data =
     data @ concat (map (\<lambda>m. concat (map (\<lambda>c. chunk_bytes (xl_chunks x ! c)) (xl_zone x m))) [LM_HEADER, LM_DATA])"

end
