(* ===== verification/Linker_Properties.thy ===== *)
theory Linker_Properties
  imports Linker_Memory
begin

text \<open>
  Properties of the memory linker: the states a client can reach, with the invariant that the streams
  of every block are nested, so that linking cannot fail on them; the layout of a block and the
  locations stored in the pointers; the data of the file; the interned script strings.
\<close>

section \<open>The states of a linker\<close>

text \<open>
  The client drives the linker by its public operations; a failed operation throws and ends the
  run. \<^verbatim>\<open>AddChunk\<close> is public too: the client uses it for data and alignment only, as every caller
  of the repository does.
\<close>

inductive xl_step :: "xblock_linker \<Rightarrow> xblock_linker \<Rightarrow> bool" where
  step_type: "SetBlockType x b t = Inr x' \<Longrightarrow> xl_step x x'"
| step_mode: "SetMode x m = Inr x' \<Longrightarrow> xl_step x x'"
| step_push: "PushStream x b = Inr x' \<Longrightarrow> xl_step x x'"
| step_pop: "PopStream x = Inr x' \<Longrightarrow> xl_step x x'"
| step_chunk: "t \<in> {CHUNKTYPE_DATA, CHUNKTYPE_ALIGN} \<Longrightarrow> AddChunk x t a d n = Inr (c, x') \<Longrightarrow> xl_step x x'"
| step_alloc: "AllocStream x n = Inr (c, x') \<Longrightarrow> xl_step x x'"
| step_write: "WriteStream x bs = Inr (c, x') \<Longrightarrow> xl_step x x'"
| step_ref: "c < length (xl_chunks x) \<Longrightarrow> xl_step x (add_ref x c r)"
| step_str: "AddScrString x s = (i, x') \<Longrightarrow> xl_step x x'"
| step_asset: "xl_step x (AddAsset x t al)"
| step_xstring: "AddXString x s = Inr (p, x') \<Longrightarrow> xl_step x x'"

inductive xl_reach :: "nat \<Rightarrow> nat \<Rightarrow> xblock_linker \<Rightarrow> bool" for nb vb where
  reach_init: "XBlockLinker nb vb = Inr x \<Longrightarrow> xl_reach nb vb x"
| reach_step: "xl_reach nb vb x \<Longrightarrow> xl_step x x' \<Longrightarrow> xl_reach nb vb x'"

inductive_cases xl_stepE: "xl_step x x'"

text \<open>The nesting of a block: \<open>None\<close> when a pop has no push before it in the same block.\<close>

fun temp_depth :: "chunk_type list \<Rightarrow> nat \<Rightarrow> nat option" where
  "temp_depth [] d = Some d"
| "temp_depth (CHUNKTYPE_PUSH # ts) d = temp_depth ts (Suc d)"
| "temp_depth (CHUNKTYPE_POP # ts) d = (case d of 0 \<Rightarrow> None | Suc d \<Rightarrow> temp_depth ts d)"
| "temp_depth (_ # ts) d = temp_depth ts d"

lemma temp_depth_append: "temp_depth (ts @ us) d = Option.bind (temp_depth ts d) (temp_depth us)"
  by (induction ts d rule: temp_depth.induct) (auto split: nat.splits)

lemma temp_depth_link:
  "temp_depth (map ck_type cs) (length lens) \<noteq> None \<Longrightarrow>
   \<exists>r. LoadChunkSizeTemp bi cs maxSize sz lens cells = Inr r"
proof (induction cs arbitrary: maxSize sz lens cells)
  case (Cons c cs)
  show ?case
  proof (cases "ck_type c")
    case CHUNKTYPE_POP
    then show ?thesis using Cons by (cases lens) (auto simp: Let_def)
  next
    case CHUNKTYPE_PUSH
    then show ?thesis using Cons.prems Cons.IH [of "sz # lens"] by (auto simp: Let_def)
  qed (use Cons in \<open>auto simp: Let_def\<close>)
qed simp

definition chunk_types :: "xblock_linker \<Rightarrow> nat \<Rightarrow> linker_mode \<Rightarrow> chunk_type list" where
  "chunk_types x b m = map (\<lambda>c. ck_type (xl_chunks x ! c)) (bk_data (xl_blocks x ! b) m)"

definition xl_wf :: "xblock_linker \<Rightarrow> bool" where
  "xl_wf x \<longleftrightarrow>
     length (xl_blocks x) = LINKER_MAX_BLOCKS \<and> xl_numblocks x \<le> LINKER_MAX_BLOCKS \<and>
     set (xl_stack x) \<subseteq> {..<xl_numblocks x} \<and> length (xl_stack x) < LINKER_STACK_SIZE \<and>
     (\<forall>b m c. b < LINKER_MAX_BLOCKS \<longrightarrow> c \<in> set (bk_data (xl_blocks x ! b) m) \<longrightarrow> c < length (xl_chunks x)) \<and>
     (\<forall>m c. c \<in> set (xl_zone x m) \<longrightarrow> c < length (xl_chunks x)) \<and>
     distinct (xl_scrStrings x) \<and> [] \<notin> set (xl_scrStrings x)"

definition xl_balanced :: "xblock_linker \<Rightarrow> (nat \<Rightarrow> linker_mode \<Rightarrow> nat) \<Rightarrow> bool" where
  "xl_balanced x D \<longleftrightarrow> (\<forall>b m. b < LINKER_MAX_BLOCKS \<longrightarrow> temp_depth (chunk_types x b m) 0 = Some (D b m))"

definition open_depth :: "xblock_linker \<Rightarrow> nat \<Rightarrow> linker_mode \<Rightarrow> nat" where
  "open_depth x b m = (if m = xl_mode x then count_list (xl_stack x) b else 0)"

definition xl_inv :: "xblock_linker \<Rightarrow> bool" where
  "xl_inv x \<longleftrightarrow> xl_wf x \<and> xl_balanced x (open_depth x)"

lemma xl_wf_stack: "xl_wf x \<Longrightarrow> xl_stack x = b # bs \<Longrightarrow> b < LINKER_MAX_BLOCKS \<and> b < length (xl_blocks x)"
  by (auto simp: xl_wf_def)

lemma AddChunk_eq:
  "AddChunk x t a d n = Inr (c, x') \<longleftrightarrow>
     (\<exists>b bs. xl_stack x = b # bs \<and> c = length (xl_chunks x) \<and>
       x' = x\<lparr>xl_chunks := xl_chunks x @ [\<lparr>ck_type = t, ck_align = a, ck_data = d, ck_size = n, ck_refs = []\<rparr>],
              xl_blocks := (xl_blocks x)[b := (xl_blocks x ! b)\<lparr>bk_data :=
                (bk_data (xl_blocks x ! b))(xl_mode x := bk_data (xl_blocks x ! b) (xl_mode x) @ [length (xl_chunks x)])\<rparr>]\<rparr>)"
  by (auto simp: AddChunk_def CreateChunk_def GetBlock_def Let_def split: list.splits)

lemma AddChunk_wf:
  assumes "xl_wf x" and "AddChunk x t a d n = Inr (c, x')"
  shows "xl_wf x'"
proof -
  obtain b bs where s: "xl_stack x = b # bs"
    and x': "x' = x\<lparr>xl_chunks := xl_chunks x @ [\<lparr>ck_type = t, ck_align = a, ck_data = d, ck_size = n, ck_refs = []\<rparr>],
              xl_blocks := (xl_blocks x)[b := (xl_blocks x ! b)\<lparr>bk_data :=
                (bk_data (xl_blocks x ! b))(xl_mode x := bk_data (xl_blocks x ! b) (xl_mode x) @ [length (xl_chunks x)])\<rparr>]\<rparr>"
    using assms(2) by (auto simp: AddChunk_eq)
  show ?thesis
    using assms(1) xl_wf_stack [OF assms(1) s]
    unfolding x' xl_wf_def
    by (auto simp: nth_list_update less_Suc_eq split: if_splits)
qed

lemma AddChunk_types:
  assumes "xl_wf x" and "AddChunk x t a d n = Inr (c, x')" and "b < LINKER_MAX_BLOCKS"
  shows "chunk_types x' b m = chunk_types x b m @ (if b = hd (xl_stack x) \<and> m = xl_mode x then [t] else [])"
proof -
  obtain b0 bs where s: "xl_stack x = b0 # bs"
    and x': "x' = x\<lparr>xl_chunks := xl_chunks x @ [\<lparr>ck_type = t, ck_align = a, ck_data = d, ck_size = n, ck_refs = []\<rparr>],
              xl_blocks := (xl_blocks x)[b0 := (xl_blocks x ! b0)\<lparr>bk_data :=
                (bk_data (xl_blocks x ! b0))(xl_mode x := bk_data (xl_blocks x ! b0) (xl_mode x) @ [length (xl_chunks x)])\<rparr>]\<rparr>"
    using assms(2) by (auto simp: AddChunk_eq)
  have "c < length (xl_chunks x)" if "c \<in> set (bk_data (xl_blocks x ! b) m)" for c
    using assms(1,3) that by (auto simp: xl_wf_def)
  then show ?thesis
    using xl_wf_stack [OF assms(1) s] s by (auto simp: x' chunk_types_def nth_list_update nth_append)
qed

lemma AddChunk_neutral:
  assumes "xl_inv x" "AddChunk x t a d n = Inr (c, x')" "t \<in> {CHUNKTYPE_DATA, CHUNKTYPE_ALIGN}"
  shows "xl_inv x'"
proof -
  have st: "xl_stack x' = xl_stack x" "xl_mode x' = xl_mode x"
    using assms(2) by (auto simp: AddChunk_eq)
  have "temp_depth (chunk_types x' b m) 0 = temp_depth (chunk_types x b m) 0" if "b < LINKER_MAX_BLOCKS" for b m
    using assms AddChunk_types [OF _ assms(2) that, of m] that
    by (auto simp: temp_depth_append xl_inv_def xl_balanced_def)
  then show ?thesis
    using assms AddChunk_wf [OF _ assms(2)] by (auto simp: xl_inv_def xl_balanced_def open_depth_def st)
qed

lemma PushStream_inv:
  assumes i: "xl_inv x" and p: "PushStream x b = Inr x'"
  shows "xl_inv x'"
proof -
  let ?y = "x\<lparr>xl_stack := b # xl_stack x\<rparr>"
  obtain c where a: "AddChunk ?y CHUNKTYPE_PUSH 0 None 0 = Inr (c, x')" and b: "b < xl_numblocks x"
    and l: "length (xl_stack x) + 1 \<noteq> LINKER_STACK_SIZE"
    using p by (auto simp: PushStream_def AssertBlock_def ebind_eq_Inr_iff split: if_splits)
  have w: "xl_wf ?y" using i b l by (auto simp: xl_inv_def xl_wf_def)
  have st: "xl_stack x' = b # xl_stack x" "xl_mode x' = xl_mode x"
    using a by (auto simp: AddChunk_eq)
  have "temp_depth (chunk_types x' b' m) 0 = Some (open_depth x' b' m)" if "b' < LINKER_MAX_BLOCKS" for b' m
    using i AddChunk_types [OF w a that, of m] that
    by (auto simp: temp_depth_append xl_inv_def xl_balanced_def open_depth_def st chunk_types_def)
  then show ?thesis using AddChunk_wf [OF w a] by (auto simp: xl_inv_def xl_balanced_def)
qed

lemma PopStream_inv:
  assumes i: "xl_inv x" and p: "PopStream x = Inr x'"
  shows "xl_inv x'"
proof -
  obtain c y where a: "AddChunk x CHUNKTYPE_POP 0 None 0 = Inr (c, y)" and x': "x' = y\<lparr>xl_stack := tl (xl_stack y)\<rparr>"
    using p by (auto simp: PopStream_def ebind_eq_Inr_iff split: if_splits)
  have w: "xl_wf x" using i by (simp add: xl_inv_def)
  obtain b bs where s: "xl_stack x = b # bs" using a by (auto simp: AddChunk_eq)
  have st: "xl_stack y = b # bs" "xl_mode y = xl_mode x"
    using a s by (auto simp: AddChunk_eq)
  have t: "chunk_types x' b' m = chunk_types y b' m" for b' m by (simp add: x' chunk_types_def)
  have "temp_depth (chunk_types x' b' m) 0 = Some (open_depth x' b' m)" if "b' < LINKER_MAX_BLOCKS" for b' m
    using i AddChunk_types [OF w a that, of m] that
    by (auto simp: temp_depth_append xl_inv_def xl_balanced_def open_depth_def st s t) (auto simp: x' st)
  moreover have "xl_wf x'" using AddChunk_wf [OF w a] st by (auto simp: x' xl_wf_def)
  ultimately show ?thesis by (auto simp: xl_inv_def xl_balanced_def)
qed

text \<open>Operations that keep the types of the chunks, the stack and the mode keep the nesting.\<close>

lemma xl_inv_frame:
  assumes "xl_inv x" "xl_wf x'" "xl_stack x' = xl_stack x" "xl_mode x' = xl_mode x"
    and "\<And>b m. b < LINKER_MAX_BLOCKS \<Longrightarrow> chunk_types x' b m = chunk_types x b m"
  shows "xl_inv x'"
  using assms by (auto simp: xl_inv_def xl_balanced_def open_depth_def)

lemma xl_inv_chunk:
  assumes "xl_inv x" "c < length (xl_chunks x)" "ck_type k = ck_type (xl_chunks x ! c)"
  shows "xl_inv (x\<lparr>xl_chunks := (xl_chunks x)[c := k]\<rparr>)"
proof (rule xl_inv_frame [OF assms(1)])
  show "xl_wf (x\<lparr>xl_chunks := (xl_chunks x)[c := k]\<rparr>)"
    using assms by (auto simp: xl_inv_def xl_wf_def)
  show "chunk_types (x\<lparr>xl_chunks := (xl_chunks x)[c := k]\<rparr>) b m = chunk_types x b m" for b m
    using assms(2,3) by (auto simp: chunk_types_def nth_list_update)
qed simp_all

lemma AllocStream_eq:
  "AllocStream x n = Inr (c, x') \<longleftrightarrow>
     (\<exists>b bs y. xl_stack x = b # bs \<and> bk_type (xl_blocks x ! b) \<noteq> BLOCKTYPE_RUNTIME \<and>
        AddChunk x CHUNKTYPE_DATA 0 None n = Inr (c, y) \<and>
        x' = y\<lparr>xl_zone := (xl_zone y)(xl_mode y := xl_zone y (xl_mode y) @ [c]),
               xl_chunks := (xl_chunks y)[c := (xl_chunks y ! c)\<lparr>ck_data := Some (replicate (unat n) 0)\<rparr>]\<rparr>)"
  by (auto simp: AllocStream_def AllocRuntime_def GetBlock_def ebind_eq_Inr_iff split: list.splits)

lemma AddChunk_index: "AddChunk x t a d n = Inr (c, x') \<Longrightarrow> c < length (xl_chunks x')"
  by (auto simp: AddChunk_eq)

lemma AllocStream_inv:
  assumes i: "xl_inv x" and a: "AllocStream x n = Inr (c, x')"
  shows "xl_inv x' \<and> c < length (xl_chunks x')"
proof -
  obtain y where y: "AddChunk x CHUNKTYPE_DATA 0 None n = Inr (c, y)"
    and x': "x' = y\<lparr>xl_zone := (xl_zone y)(xl_mode y := xl_zone y (xl_mode y) @ [c]),
               xl_chunks := (xl_chunks y)[c := (xl_chunks y ! c)\<lparr>ck_data := Some (replicate (unat n) 0)\<rparr>]\<rparr>"
    using a by (auto simp: AllocStream_eq)
  note c = AddChunk_index [OF y]
  have "xl_inv y" using AddChunk_neutral [OF i y] by simp
  then have "xl_inv (y\<lparr>xl_zone := (xl_zone y)(xl_mode y := xl_zone y (xl_mode y) @ [c])\<rparr>)"
    using c by (rule_tac xl_inv_frame) (auto simp: xl_inv_def xl_wf_def chunk_types_def)
  from xl_inv_chunk [OF this, of c "(xl_chunks y ! c)\<lparr>ck_data := Some (replicate (unat n) 0)\<rparr>"]
  show ?thesis using c by (simp add: x')
qed

lemma WriteStream_inv:
  assumes i: "xl_inv x" and a: "WriteStream x bs = Inr (c, x')"
  shows "xl_inv x'"
proof -
  obtain y where y: "AllocStream x (of_nat (length bs)) = Inr (c, y)"
    and x': "x' = y\<lparr>xl_chunks := (xl_chunks y)[c := (xl_chunks y ! c)\<lparr>ck_data := Some bs\<rparr>]\<rparr>"
    using a by (auto simp: WriteStream_def ebind_eq_Inr_iff)
  show ?thesis using AllocStream_inv [OF i y] xl_inv_chunk [of y c] by (simp add: x')
qed

lemma index_of_None: "index_of v ss = None \<longleftrightarrow> v \<notin> set ss"
  by (induction ss) auto

lemma index_of_Some: "index_of v ss = Some i \<Longrightarrow> i < length ss \<and> ss ! i = v"
  by (induction ss arbitrary: i) (auto split: if_splits)

lemma AddScrString_inv:
  assumes i: "xl_inv x" and a: "AddScrString x s = (k, x')" shows "xl_inv x'"
proof (cases "x' = x")
  case False
  then obtain v where v: "s = Some v" "c_chars v \<noteq> []" "c_chars v \<notin> set (xl_scrStrings x)"
    and x': "x' = x\<lparr>xl_scrStrings := xl_scrStrings x @ [c_chars v]\<rparr>"
    using a by (auto simp: AddScrString_def index_of_None split: option.splits if_splits)
  show ?thesis
    by (rule xl_inv_frame [OF i]) (use i v in \<open>auto simp: x' xl_inv_def xl_wf_def chunk_types_def\<close>)
qed (use i in simp)

lemma xl_step_inv: "xl_step x x' \<Longrightarrow> xl_inv x \<Longrightarrow> xl_inv x'"
proof (induction rule: xl_step.induct)
  case (step_type x b t x')
  then have b: "b < xl_numblocks x" and x': "x' = x\<lparr>xl_blocks := (xl_blocks x)[b := (xl_blocks x ! b)\<lparr>bk_type := t\<rparr>]\<rparr>"
    by (auto simp: SetBlockType_def AssertBlock_def ebind_eq_Inr_iff)
  have "bk_data (xl_blocks x' ! b') m = bk_data (xl_blocks x ! b') m" for b' m
    using step_type.prems b by (auto simp: x' nth_list_update xl_inv_def xl_wf_def)
  then show ?case
    by (intro xl_inv_frame [OF step_type.prems])
       (use step_type.prems in \<open>auto simp: xl_inv_def xl_wf_def chunk_types_def x'\<close>)
next
  case (step_mode x m x')
  then consider "x' = x" | "xl_stack x = []" "x' = x\<lparr>xl_mode := m\<rparr>"
    by (auto simp: SetMode_def split: if_splits)
  then show ?case using step_mode.prems
    by cases (auto simp: xl_inv_def xl_wf_def xl_balanced_def open_depth_def chunk_types_def)
next
  case (step_push x b x') then show ?case by (blast intro: PushStream_inv)
next
  case (step_pop x x') then show ?case by (blast intro: PopStream_inv)
next
  case (step_chunk t x a d n c x') then show ?case by (blast intro: AddChunk_neutral)
next
  case (step_alloc x n c x') then show ?case by (blast dest: AllocStream_inv)
next
  case (step_write x bs c x') then show ?case by (blast intro: WriteStream_inv)
next
  case (step_ref c x r) then show ?case by (auto simp: add_ref_def intro: xl_inv_chunk)
next
  case (step_str x s i x') then show ?case by (blast intro: AddScrString_inv)
next
  case (step_asset x t al)
  show ?case by (rule xl_inv_frame [OF step_asset.prems])
    (use step_asset.prems in \<open>auto simp: AddAsset_def xl_inv_def xl_wf_def chunk_types_def\<close>)
next
  case (step_xstring x s p x') then show ?case by (auto simp: AddXString_def ebind_eq_Inr_iff intro: WriteStream_inv)
qed

lemma xl_init_inv: "XBlockLinker nb vb = Inr x \<Longrightarrow> xl_inv x"
  by (auto simp: XBlockLinker_def SetBlockType_def AssertBlock_def ebind_eq_Inr_iff xl_inv_def xl_wf_def
      xl_balanced_def open_depth_def chunk_types_def nth_list_update LINKER_STACK_SIZE_def nth_append split: if_splits)

lemma xl_reach_inv: "xl_reach nb vb x \<Longrightarrow> xl_inv x"
  by (induction rule: xl_reach.induct) (auto intro: xl_init_inv xl_step_inv)

section \<open>Linking a reachable state\<close>

definition unknown_used :: "xblock_linker \<Rightarrow> nat \<Rightarrow> bool" where
  "unknown_used x i \<longleftrightarrow> bk_type (xl_blocks x ! i) = BLOCKTYPE_UNKNOWN \<and>
     (bk_data (xl_blocks x ! i) LM_HEADER \<noteq> [] \<or> bk_data (xl_blocks x ! i) LM_DATA \<noteq> [])"

lemma xl_reach_numblocks: "xl_reach nb vb x \<Longrightarrow> xl_numblocks x = nb"
proof (induction rule: xl_reach.induct)
  case (reach_init x)
  then show ?case
    by (auto simp: XBlockLinker_def SetBlockType_def ebind_eq_Inr_iff split: if_splits)
next
  case (reach_step x x')
  from reach_step(2) have "xl_numblocks x' = xl_numblocks x"
    by cases (auto simp: SetBlockType_def SetMode_def PushStream_def PopStream_def AddChunk_eq AllocStream_eq
        WriteStream_def AddXString_def AddScrString_def AddAsset_def add_ref_def ebind_eq_Inr_iff
        split: if_splits option.splits)
  with reach_step.IH show ?case by simp
qed

lemma link_block_ok:
  assumes "xl_inv x" "xl_stack x = []" "i < LINKER_MAX_BLOCKS"
  shows "if unknown_used x i then link_block x i = Inl UnknownBlockUsed
         else \<exists>x'. link_block x i = Inr x' \<and> xl_inv x' \<and> xl_stack x' = [] \<and> xl_numblocks x' = xl_numblocks x \<and>
           (\<forall>j. unknown_used x' j = unknown_used x j)"
proof -
  let ?b = "xl_blocks x ! i"
  have l: "i < length (xl_blocks x)" using assms(1,3) by (simp add: xl_inv_def xl_wf_def)
  have d: "temp_depth (map ck_type (chunks_of x ?b m)) (length ([] :: u64 list)) \<noteq> None" for m
    using assms by (simp add: chunks_of_def chunk_types_def xl_inv_def xl_balanced_def comp_def)
  have upd: "xl_inv y \<and> xl_stack y = [] \<and> xl_numblocks y = xl_numblocks x \<and> (\<forall>j. unknown_used y j = unknown_used x j)"
    if y: "y = x\<lparr>xl_blocks := (xl_blocks x)[i := ?b\<lparr>bk_finalSize := sz\<rparr>], xl_cells := cl\<rparr>" for y sz cl
  proof -
    have bd: "bk_data (xl_blocks y ! j) = bk_data (xl_blocks x ! j)" "bk_type (xl_blocks y ! j) = bk_type (xl_blocks x ! j)" for j
      using l by (auto simp: y nth_list_update)
    have "xl_inv y"
      by (rule xl_inv_frame [OF assms(1)]) (use assms(1) bd in \<open>auto simp: y xl_inv_def xl_wf_def chunk_types_def\<close>)
    then show ?thesis using assms(2) bd by (auto simp: unknown_used_def y)
  qed
  show ?thesis
  proof (cases "bk_type ?b")
    case BLOCKTYPE_UNKNOWN
    then show ?thesis using assms by (auto simp: link_block_def unknown_used_def Let_def)
  next
    case BLOCKTYPE_TEMP
    obtain m1 c1 where 1: "LoadChunkSizeTemp i (chunks_of x ?b LM_HEADER) 0 0 [] (xl_cells x) = Inr (m1, c1)"
      using temp_depth_link [OF d] by fastforce
    obtain m2 c2 where 2: "LoadChunkSizeTemp i (chunks_of x ?b LM_DATA) m1 0 [] c1 = Inr (m2, c2)"
      using temp_depth_link [OF d] by fastforce
    show ?thesis using BLOCKTYPE_TEMP 1 2 upd by (simp add: link_block_def unknown_used_def Let_def)
  next
    case BLOCKTYPE_RUNTIME
    then show ?thesis using upd by (simp add: link_block_def unknown_used_def Let_def split: prod.split)
  next
    case BLOCKTYPE_VIRTUAL
    then show ?thesis using upd by (simp add: link_block_def unknown_used_def Let_def split: prod.split)
  qed
qed

lemma link_blocks_ok:
  "xl_inv x \<Longrightarrow> xl_stack x = [] \<Longrightarrow> set is \<subseteq> {..<LINKER_MAX_BLOCKS} \<Longrightarrow>
   if \<exists>i\<in>set is. unknown_used x i then link_blocks x is = Inl UnknownBlockUsed
   else \<exists>x'. link_blocks x is = Inr x' \<and> xl_inv x' \<and> xl_numblocks x' = xl_numblocks x"
proof (induction "is" arbitrary: x)
  case (Cons i "is")
  show ?case
  proof (cases "unknown_used x i")
    case True
    then show ?thesis using link_block_ok [OF Cons.prems(1,2), of i] Cons.prems(3) by simp
  next
    case False
    then obtain x' where x': "link_block x i = Inr x'" "xl_inv x'" "xl_stack x' = []"
      "xl_numblocks x' = xl_numblocks x" "\<forall>j. unknown_used x' j = unknown_used x j"
      using link_block_ok [OF Cons.prems(1,2), of i] Cons.prems(3) by auto
    then show ?thesis using Cons.IH [OF x'(2,3)] Cons.prems(3) False by (auto split: if_splits)
  qed
qed simp

text \<open>
  C8. Linking succeeds from every state the client can reach, with one size per block, exactly when
  every stream pushed was popped and no block of unknown type holds data; the stack of lengths of a
  temporary block never underflows (\<^verbatim>\<open>lens.top()\<close> of an empty stack would be undefined behaviour).
\<close>

theorem Link_total:
  assumes "xl_reach nb vb x"
  shows "((\<exists>sizes x'. Link x = Inr (sizes, x') \<and> length sizes = nb) \<longleftrightarrow>
           xl_stack x = [] \<and> (\<forall>i<nb. \<not> unknown_used x i)) \<and>
         Link x \<noteq> Inl TempUnderflow"
proof (cases "xl_stack x = []")
  case True
  note i = xl_reach_inv [OF assms] and n = xl_reach_numblocks [OF assms]
  have sub: "set [0..<nb] \<subseteq> {..<LINKER_MAX_BLOCKS}" using i n by (auto simp: xl_inv_def xl_wf_def)
  show ?thesis
  proof (cases "\<exists>i<nb. unknown_used x i")
    case u: True
    then have "link_blocks x [0..<nb] = Inl UnknownBlockUsed"
      using link_blocks_ok [OF i True sub] by (auto split: if_splits)
    then show ?thesis using True n u by (auto simp: Link_def)
  next
    case u: False
    then obtain x' where x': "link_blocks x [0..<nb] = Inr x'" "xl_inv x'" "xl_numblocks x' = nb"
      using link_blocks_ok [OF i True sub] n by (auto split: if_splits)
    moreover have "length (take nb (xl_blocks x')) = nb" using x' by (simp add: xl_inv_def xl_wf_def)
    ultimately show ?thesis using True n u by (simp add: Link_def)
  qed
qed (simp add: Link_def)

definition demo_linker :: "xl_error + xblock_linker" where
  "demo_linker =
     ebind (XBlockLinker 2 1) (\<lambda>x. ebind (SetBlockType x 0 BLOCKTYPE_TEMP) (\<lambda>x.
     ebind (PushStream x 0) (\<lambda>x. ebind (WriteStream x [1, 2, 3]) (\<lambda>(_, x).
     ebind (PushStream x 1) (\<lambda>x. ebind (WriteStream x [4, 5]) (\<lambda>(_, x).
     ebind (PopStream x) PopStream))))))"

lemma ebind_reach:
  "(\<And>x. m = Inr x \<Longrightarrow> xl_reach nb vb x) \<Longrightarrow> (\<And>x. xl_reach nb vb x \<Longrightarrow> f x = Inr y \<Longrightarrow> xl_reach nb vb y) \<Longrightarrow>
   ebind m f = Inr y \<Longrightarrow> xl_reach nb vb y"
  by (auto simp: ebind_eq_Inr_iff)

lemma demo_linker_reach: "demo_linker = Inr x \<Longrightarrow> xl_reach 2 1 x"
  unfolding demo_linker_def
  by (auto simp: ebind_eq_Inr_iff)
     (metis reach_init reach_step step_pop step_push step_write step_type)

lemma Link_total_witness:
  "\<exists>x sizes x'. demo_linker = Inr x \<and> Link x = Inr (sizes, x') \<and> length sizes = 2"
proof -
  obtain x where x: "demo_linker = Inr x" "xl_stack x = []" "\<forall>i<2. \<not> unknown_used x i"
    by (simp add: demo_linker_def XBlockLinker_def LINKER_MAX_BLOCKS_def SetBlockType_def AssertBlock_def PushStream_def
        PopStream_def WriteStream_def AllocStream_def AllocRuntime_def AddChunk_def CreateChunk_def GetBlock_def
        LINKER_STACK_SIZE_def unknown_used_def Let_def numeral_eq_Suc All_less_Suc)
  then show ?thesis using Link_total [OF demo_linker_reach [OF x(1)]] by blast
qed

section \<open>The layout of a block\<close>

text \<open>The offsets of the chunks of a block as natural numbers, the end of the block last.\<close>

definition chunk_end :: "chunk \<Rightarrow> nat \<Rightarrow> nat" where
  "chunk_end c n = (case ck_type c of
     CHUNKTYPE_DATA \<Rightarrow> n + unat (ck_size c) | CHUNKTYPE_ALIGN \<Rightarrow> align_up n (unat (ck_align c)) | _ \<Rightarrow> n)"

fun chunk_offsets :: "chunk list \<Rightarrow> nat \<Rightarrow> nat list" where
  "chunk_offsets [] n = [n]"
| "chunk_offsets (c # cs) n = n # chunk_offsets cs (chunk_end c n)"

definition align_ok :: "chunk \<Rightarrow> bool" where
  "align_ok c \<longleftrightarrow> ck_type c = CHUNKTYPE_ALIGN \<longrightarrow> (\<exists>k<64. ck_align c = 2 ^ k)"

lemma length_chunk_offsets [simp]: "length (chunk_offsets cs n) = Suc (length cs)"
  by (induction cs arbitrary: n) auto

lemma unat_pow2_u64: "k < 64 \<Longrightarrow> unat (2 ^ k :: u64) = 2 ^ k"
  using unat_of_nat_u64 [of "2 ^ k"] power_strict_increasing [of k 64 "2 :: nat"] by simp

lemma chunk_end_ge: "align_ok c \<Longrightarrow> n \<le> chunk_end c n"
  by (auto simp: chunk_end_def align_ok_def align_up_ge unat_pow2_u64 split: chunk_type.splits)

lemma chunk_offsets_not_Nil [simp]: "chunk_offsets cs n \<noteq> []"
  by (cases cs) auto

lemma chunk_offsets_ge: "\<forall>c\<in>set cs. align_ok c \<Longrightarrow> n \<le> last (chunk_offsets cs n)"
proof (induction cs arbitrary: n)
  case (Cons c cs)
  then show ?case using le_trans [OF chunk_end_ge [of c n] Cons.IH [of "chunk_end c n"]] by simp
qed simp

lemma chunk_loc_of_nat:
  assumes "n < 2 ^ 60" "bi < 16"
  shows "chunk_loc bi (of_nat n) = of_nat (bi * 2 ^ 60 + n) + 1"
proof -
  have "(of_nat n :: u64) = take_bit 60 (of_nat n)"
    using assms by (simp only: take_bit_of_nat take_bit_nat_eq_self)
  then have "\<not> bit (of_nat n :: u64) k \<or> \<not> bit (push_bit 60 (of_nat bi) :: u64) k" for k
    by (metis bit_take_bit_iff bit_push_bit_iff not_le)
  then have "(of_nat n :: u64) OR push_bit 60 (of_nat bi) = of_nat n + push_bit 60 (of_nat bi)"
    by (intro disjunctive_add [symmetric])
  then show ?thesis by (simp add: chunk_loc_def push_bit_eq_mult algebra_simps)
qed

lemma LoadChunkSize_frame:
  "\<forall>c\<in>set cs. r \<notin> set (ck_refs c) \<Longrightarrow> snd (LoadChunkSize bi cs sz cells) r = cells r"
proof (induction cs arbitrary: sz cells)
  case (Cons c cs)
  have "fold (\<lambda>r m. m(r \<mapsto> v)) rs m r = m r" if "r \<notin> set rs" for rs m and v :: u64
    using that by (induction rs arbitrary: m) auto
  then show ?case using Cons by (simp add: ApplyRefs_def)
qed simp

lemma ApplyRefs_hit: "r \<in> set (ck_refs c) \<Longrightarrow> ApplyRefs c bi sz cells r = Some (chunk_loc bi sz)"
proof -
  have "r \<in> set rs \<or> m r = Some v \<Longrightarrow> fold (\<lambda>r m. m(r \<mapsto> v)) rs m r = Some v" for rs m and v :: u64
    by (induction rs arbitrary: m) auto
  then show "r \<in> set (ck_refs c) \<Longrightarrow> ?thesis" by (simp add: ApplyRefs_def)
qed

lemma LoadChunkSize_size:
  "\<forall>c\<in>set cs. align_ok c \<Longrightarrow> fst (LoadChunkSize bi cs (of_nat n) cells) = of_nat (last (chunk_offsets cs n))"
proof (induction cs arbitrary: n cells)
  case (Cons c cs)
  have "(case ck_type c of CHUNKTYPE_DATA \<Rightarrow> of_nat n + ck_size c | CHUNKTYPE_ALIGN \<Rightarrow> aligned_w (of_nat n) (ck_align c)
        | _ \<Rightarrow> of_nat n) = (of_nat (chunk_end c n) :: u64)"
    using Cons.prems by (auto simp: chunk_end_def align_ok_def aligned_w_of_nat unat_pow2_u64 split: chunk_type.splits)
  then show ?case using Cons by (cases cs) (auto simp: )
qed simp

lemma LoadChunkSize_ref:
  assumes "\<forall>c\<in>set cs. align_ok c" "i < length cs" "r \<in> set (ck_refs (cs ! i))"
    and "\<forall>j<length cs. j \<noteq> i \<longrightarrow> r \<notin> set (ck_refs (cs ! j))"
  shows "snd (LoadChunkSize bi cs (of_nat n) cells) r = Some (chunk_loc bi (of_nat (chunk_offsets cs n ! i)))"
  using assms
proof (induction cs arbitrary: i n cells)
  case (Cons c cs)
  have e: "(case ck_type c of CHUNKTYPE_DATA \<Rightarrow> of_nat n + ck_size c | CHUNKTYPE_ALIGN \<Rightarrow> aligned_w (of_nat n) (ck_align c)
        | CHUNKTYPE_POP \<Rightarrow> of_nat n | CHUNKTYPE_PUSH \<Rightarrow> of_nat n) = (of_nat (chunk_end c n) :: u64)"
    using Cons.prems by (auto simp: chunk_end_def align_ok_def aligned_w_of_nat unat_pow2_u64 split: chunk_type.splits)
  show ?case
  proof (cases i)
    case 0
    have "r \<notin> set (ck_refs (cs ! j))" if "j < length cs" for j
      using Cons.prems(4) [rule_format, of "Suc j"] 0 that by simp
    then have "\<forall>k\<in>set cs. r \<notin> set (ck_refs k)" by (metis in_set_conv_nth)
    then show ?thesis using 0 Cons.prems(3) by (simp add: LoadChunkSize_frame ApplyRefs_hit)
  next
    case (Suc k)
    have "\<forall>j<length cs. j \<noteq> k \<longrightarrow> r \<notin> set (ck_refs (cs ! j))"
      using Cons.prems(4) Suc by auto
    then show ?thesis using Suc Cons.prems Cons.IH [of k "chunk_end c n"] by (simp add: e)
  qed
qed simp

lemma chunk_offsets_step:
  "i < length cs \<Longrightarrow> chunk_offsets cs n ! Suc i = chunk_end (cs ! i) (chunk_offsets cs n ! i)"
proof (induction cs arbitrary: i n)
  case (Cons c cs)
  then show ?case by (cases i) (auto, (cases cs; simp))
qed simp

lemma chunk_offsets_le_last:
  "\<forall>c\<in>set cs. align_ok c \<Longrightarrow> i \<le> length cs \<Longrightarrow> chunk_offsets cs n ! i \<le> last (chunk_offsets cs n)"
proof (induction cs arbitrary: i n)
  case (Cons c cs)
  then show ?case using chunk_offsets_ge [of "c # cs" n] by (cases i) auto
qed simp

text \<open>
  C11. The layout of a block that is loaded in place: every chunk starts where the one before it ends,
  data takes its size and an alignment pads to the next multiple; the final size is the end of the last
  chunk, and a pointer cell registered for one chunk holds a location from which the loader reads back
  the index of the block (four high bits, after the bias of one) and the offset of the chunk. The loader
  can name 16 blocks and offsets below \<open>2 ^ 60\<close>.
\<close>

theorem LoadChunkSize_layout:
  assumes "\<forall>c\<in>set cs. align_ok c" and "last (chunk_offsets cs n) < 2 ^ 60" and "bi < 16"
    and "i < length cs" and "r \<in> set (ck_refs (cs ! i))"
    and "\<forall>j<length cs. j \<noteq> i \<longrightarrow> r \<notin> set (ck_refs (cs ! j))"
  shows "unat (fst (LoadChunkSize bi cs (of_nat n) cells)) = last (chunk_offsets cs n) \<and>
         chunk_offsets cs n ! Suc i = chunk_end (cs ! i) (chunk_offsets cs n ! i) \<and>
         (\<exists>loc. snd (LoadChunkSize bi cs (of_nat n) cells) r = Some loc \<and>
            unat (loc - 1) div 2 ^ 60 = bi \<and> unat (loc - 1) mod 2 ^ 60 = chunk_offsets cs n ! i)"
proof -
  let ?o = "chunk_offsets cs n ! i"
  have o: "?o < 2 ^ 60" using chunk_offsets_le_last [OF assms(1), of i n] assms(2,4) by linarith
  have "bi * 2 ^ 60 + ?o < 2 ^ 64" using o assms(3) by simp
  then have "unat (chunk_loc bi (of_nat ?o) - 1) = bi * 2 ^ 60 + ?o"
    unfolding chunk_loc_of_nat [OF o assms(3)] add_diff_cancel_right' by (rule unat_of_nat_u64)
  moreover have "(bi * 2 ^ 60 + ?o) div 2 ^ 60 = bi" "(bi * 2 ^ 60 + ?o) mod 2 ^ 60 = ?o"
    using o by simp_all
  moreover have "unat (of_nat (last (chunk_offsets cs n)) :: u64) = last (chunk_offsets cs n)"
    using assms(2) by (intro unat_of_nat_u64) simp
  ultimately show ?thesis
    using LoadChunkSize_size [OF assms(1)] LoadChunkSize_ref [OF assms(1,4,5,6)] chunk_offsets_step [OF assms(4)]
    by (metis (no_types, lifting))
qed

definition demo_block :: "chunk list" where
  "demo_block =
     [\<lparr>ck_type = CHUNKTYPE_DATA, ck_align = 0, ck_data = None, ck_size = 5, ck_refs = []\<rparr>,
      \<lparr>ck_type = CHUNKTYPE_ALIGN, ck_align = 8, ck_data = None, ck_size = 0, ck_refs = []\<rparr>,
      \<lparr>ck_type = CHUNKTYPE_DATA, ck_align = 0, ck_data = None, ck_size = 6, ck_refs = [7]\<rparr>]"

lemma LoadChunkSize_layout_witness:
  "\<exists>loc. snd (LoadChunkSize 3 demo_block (of_nat 0) Map.empty) 7 = Some loc \<and>
     unat (loc - 1) div 2 ^ 60 = 3 \<and> unat (loc - 1) mod 2 ^ 60 = 8"
proof -
  have o: "chunk_offsets demo_block 0 = [0, 5, 8, 14]"
    by (simp add: demo_block_def chunk_end_def align_up_def)
  have "\<forall>c\<in>set demo_block. align_ok c"
    by (auto simp: demo_block_def align_ok_def intro: exI [of _ 3])
  moreover have "\<forall>j<length demo_block. j \<noteq> 2 \<longrightarrow> 7 \<notin> set (ck_refs (demo_block ! j))"
    by (auto simp: demo_block_def less_Suc_eq)
  moreover have "2 < length demo_block" "7 \<in> set (ck_refs (demo_block ! 2))" by (simp_all add: demo_block_def)
  ultimately show ?thesis
    using LoadChunkSize_layout [of demo_block 0 3 2 7 Map.empty] by (simp add: o)
qed

text \<open>The loader reads the block from four bits, so the last blocks of the array alias the first.\<close>

lemma chunk_loc_aliases: "chunk_loc 16 0 = chunk_loc 0 0"
  by (simp add: chunk_loc_def push_bit_eq_mult)

section \<open>The data of a fast file\<close>

definition zone_bytes :: "xblock_linker \<Rightarrow> linker_mode \<Rightarrow> u8 list" where
  "zone_bytes x m = concat (map (\<lambda>c. chunk_bytes (xl_chunks x ! c)) (xl_zone x m))"

text \<open>
  C27. What a client writes to the current stream is what the file holds: the bytes are appended to the
  zone of the current mode, whatever the block, and the file is the zone of the headers followed by the
  zone of the data.
\<close>

theorem WriteStream_data:
  assumes "xl_reach nb vb x" and "WriteStream x bs = Inr (c, x')" and "length bs < 2 ^ 64"
  shows "WriteLinkedData x' data =
     data @ zone_bytes x LM_HEADER @ (if xl_mode x = LM_HEADER then bs else []) @
            zone_bytes x LM_DATA @ (if xl_mode x = LM_DATA then bs else [])"
proof -
  have zc: "k < length (xl_chunks x)" if "k \<in> set (xl_zone x m)" for k m
    using xl_reach_inv [OF assms(1)] that by (auto simp: xl_inv_def xl_wf_def)
  have b: "chunk_bytes (xl_chunks x' ! length (xl_chunks x)) = bs"
    and z: "xl_zone x' = (xl_zone x)(xl_mode x := xl_zone x (xl_mode x) @ [length (xl_chunks x)])"
    and k: "\<And>k. k < length (xl_chunks x) \<Longrightarrow> xl_chunks x' ! k = xl_chunks x ! k"
    using assms(2,3) unat_of_nat_u64 [OF assms(3)]
    by (auto simp: WriteStream_def AllocStream_eq AddChunk_eq ebind_eq_Inr_iff chunk_bytes_def nth_append)
  have o: "concat (map (\<lambda>c. chunk_bytes (xl_chunks x' ! c)) (xl_zone x m)) = zone_bytes x m" for m
    unfolding zone_bytes_def by (rule arg_cong [of _ _ concat], rule map_cong) (auto simp: k zc)
  show ?thesis by (cases "xl_mode x") (simp_all add: WriteLinkedData_def z b o)
qed

lemma WriteStream_data_witness:
  "\<exists>x c x'. ebind (XBlockLinker 1 0) (\<lambda>x. PushStream x 0) = Inr x \<and> WriteStream x [1, 2] = Inr (c, x') \<and>
     WriteLinkedData x' [9] = [9, 1, 2]"
proof -
  let ?m = "ebind (XBlockLinker 1 0) (\<lambda>x. PushStream x 0)"
  note defs = XBlockLinker_def LINKER_MAX_BLOCKS_def SetBlockType_def AssertBlock_def PushStream_def
        WriteStream_def AllocStream_def AllocRuntime_def AddChunk_def CreateChunk_def GetBlock_def
        LINKER_STACK_SIZE_def
  obtain x c x' where x: "?m = Inr x" and w: "WriteStream x [1, 2] = Inr (c, x')"
    and z: "xl_mode x = LM_HEADER" "xl_zone x LM_HEADER = []" "xl_zone x LM_DATA = []"
    by (simp add: defs Let_def)
  have "xl_reach 1 0 x" using x by (auto simp: ebind_eq_Inr_iff intro: reach_step step_push reach_init)
  from WriteStream_data [OF this w, of "[9]"] show ?thesis using x w z by (auto simp: zone_bytes_def)
qed

text \<open>
  Script strings are interned: the index returned for a string is its position plus one (zero is
  the null string), a second request returns the same index and adds nothing, and no string already
  in the table moves.
\<close>

theorem AddScrString_interns:
  assumes "xl_reach nb vb x" and "c_chars s \<noteq> []" and "length (xl_scrStrings x) + 1 < 2 ^ 32"
    and "AddScrString x (Some s) = (i, x')"
  shows "0 < unat i \<and> unat i \<le> length (xl_scrStrings x') \<and> xl_scrStrings x' ! (unat i - 1) = c_chars s \<and>
         AddScrString x' (Some s) = (i, x') \<and> distinct (xl_scrStrings x') \<and>
         take (length (xl_scrStrings x)) (xl_scrStrings x') = xl_scrStrings x"
proof (cases "index_of (c_chars s) (xl_scrStrings x)")
  case None
  have i: "i = of_nat (length (xl_scrStrings x) + 1)" and x': "x' = x\<lparr>xl_scrStrings := xl_scrStrings x @ [c_chars s]\<rparr>"
    using assms(2,4) None by (auto simp: AddScrString_def)
  have "unat i = length (xl_scrStrings x) + 1"
    using assms(3) unfolding i by (simp only: unat_of_nat_mod) simp
  moreover have "index_of v (ss @ [v]) = Some (length ss)" if "v \<notin> set ss" for v ss
    using that by (induction ss) auto
  ultimately show ?thesis
    using None assms(2) xl_reach_inv [OF assms(1)]
    by (simp add: x' i AddScrString_def index_of_None nth_append xl_inv_def xl_wf_def)
next
  case (Some k)
  then have i: "i = of_nat (k + 1)" and x': "x' = x" using assms(2,4) by (auto simp: AddScrString_def)
  note k = index_of_Some [OF Some]
  have "unat i = k + 1" using assms(3) k unfolding i by (simp only: unat_of_nat_mod) simp
  then show ?thesis using k assms(2,4) x' xl_reach_inv [OF assms(1)] by (simp add: xl_inv_def xl_wf_def)
qed

lemma AddScrString_interns_witness:
  "\<exists>x i x'. XBlockLinker 1 0 = Inr x \<and> AddScrString x (Some [65]) = (i, x') \<and> AddScrString x' (Some [65]) = (i, x')"
proof -
  obtain x where x: "XBlockLinker 1 0 = Inr x" "xl_scrStrings x = []"
    by (simp add: XBlockLinker_def LINKER_MAX_BLOCKS_def SetBlockType_def AssertBlock_def)
  obtain i x' where a: "AddScrString x (Some [65]) = (i, x')" by fastforce
  have c: "c_chars [65] \<noteq> []" by (simp add: c_chars_def)
  show ?thesis using AddScrString_interns [OF reach_init [OF x(1)] c _ a] x a by auto
qed
end
