(* ===== verification/Ff_Stream.thy ===== *)
theory Ff_Stream
  imports Acts_Prelude
begin

text \<open>
  The native streams of the Replay fast files, \<^verbatim>\<open>src/core/acts/tools/mw19/mw19_ff_stream.hpp\<close>: eight
  reserved regions of memory the loaders of the game write into through a shared cursor, and the
  serialised input they consume.

  A region is its address and its bytes. The cursor belongs to the game, which moves it between two
  calls, so every operation reads it first (\<^verbatim>\<open>Sync\<close>) and writes it last (\<^verbatim>\<open>Publish\<close>). The stacks are
  lists with the last pushed element first.
\<close>

section \<open>State\<close>

datatype st_op = OpAlign | OpPush | OpPop | OpLoad | OpString | OpBeginAsset | OpEndAsset | OpAlias | OpResolve | OpTemporary

record trace_event =
  te_operation :: st_op
  te_before :: "nat \<times> nat \<times> nat"
  te_after :: "nat \<times> nat \<times> nat"
  te_value :: u64
  te_size :: u64

record stream_frame =
  fr_block :: nat
  fr_start :: nat

record streams =
  st_base :: "u64 list"
  st_mem :: "u8 list list"
  st_offsets :: "nat list"
  st_stack :: "stream_frame list"
  st_assets :: "nat list list"
  st_input :: "u8 list"
  st_cursor :: u64
  st_block :: nat
  st_consumed :: nat
  st_shared :: nat
  st_trace :: "trace_event list option"

datatype st_error =
    CursorEscaped | TruncatedHeader | ReservationExhausted | InvalidAlignment | InvalidPush | StackUnderflow
  | DestinationDiffers | TruncatedStream | StringInRuntime | UnterminatedString | AssetNesting | AssetUnderflow
  | SharedNesting | SharedUnderflow | InvalidPackedBits | InvalidPackedIndex | RelativeOutsideAsset
  | PackedOutside | ZeroAlignment | Unbalanced | UnreadBytes

abbreviation st_pos :: "streams \<Rightarrow> nat \<times> nat \<times> nat" where
  "st_pos s \<equiv> (st_block s, st_offsets s ! st_block s, st_consumed s)"

definition Emit :: "st_op \<Rightarrow> nat \<times> nat \<times> nat \<Rightarrow> u64 \<Rightarrow> u64 \<Rightarrow> streams \<Rightarrow> streams" where
  "Emit op old v n s = s\<lparr>st_trace := map_option (\<lambda>l. l @ [\<lparr>te_operation = op, te_before = old,
     te_after = st_pos s, te_value = v, te_size = n\<rparr>]) (st_trace s)\<rparr>"

definition Sync :: "streams \<Rightarrow> st_error + streams" where
  "Sync s =
     (let b = st_base s ! st_block s; p = st_cursor s
      in if p < b \<or> length (st_mem s ! st_block s) < unat (p - b) then Inl CursorEscaped
         else Inr (s\<lparr>st_offsets := (st_offsets s)[st_block s := unat (p - b)]\<rparr>))"

definition Publish :: "streams \<Rightarrow> streams" where
  "Publish s = s\<lparr>st_cursor := st_base s ! st_block s + of_nat (st_offsets s ! st_block s)\<rparr>"

definition Streams :: "u64 list \<Rightarrow> u8 list list \<Rightarrow> u8 list \<Rightarrow> streams" where
  "Streams base mem input =
     Publish \<lparr>st_base = base, st_mem = mem, st_offsets = replicate 8 0, st_stack = [], st_assets = [],
       st_input = input, st_cursor = 0, st_block = 0, st_consumed = 0, st_shared = 0, st_trace = None\<rparr>"

definition st_Remaining :: "streams \<Rightarrow> nat" where
  "st_Remaining s = length (st_input s) - st_consumed s"

definition st_SetTrace :: "bool \<Rightarrow> streams \<Rightarrow> streams" where
  "st_SetTrace on s = s\<lparr>st_trace := (if on then Some [] else None)\<rparr>"

definition st_write :: "nat \<Rightarrow> nat \<Rightarrow> u8 list \<Rightarrow> streams \<Rightarrow> streams" where
  "st_write b at bs s = s\<lparr>st_mem := (st_mem s)[b :=
     take at (st_mem s ! b) @ bs @ drop (at + length bs) (st_mem s ! b)]\<rparr>"

section \<open>Operations\<close>

definition st_Take :: "nat \<Rightarrow> streams \<Rightarrow> st_error + (u8 list \<times> streams)" where
  "st_Take n s =
     (if st_Remaining s < n then Inl TruncatedHeader
      else Inr (take n (drop (st_consumed s) (st_input s)), s\<lparr>st_consumed := st_consumed s + n\<rparr>))"

definition st_Check :: "nat \<Rightarrow> streams \<Rightarrow> st_error + streams" where
  "st_Check n s = ebind (Sync s) (\<lambda>s.
     if length (st_mem s ! st_block s) - st_offsets s ! st_block s < n then Inl ReservationExhausted else Inr s)"

definition st_Advance :: "nat \<Rightarrow> streams \<Rightarrow> st_error + streams" where
  "st_Advance n s = ebind (st_Check n s) (\<lambda>s.
     Inr (Publish (s\<lparr>st_offsets := (st_offsets s)[st_block s := st_offsets s ! st_block s + n]\<rparr>)))"

definition st_Align :: "u64 \<Rightarrow> streams \<Rightarrow> st_error + streams" where
  "st_Align m s =
     (if 0xfffff < m \<or> m AND (m + 1) \<noteq> 0 then Inl InvalidAlignment
      else ebind (Sync s) (\<lambda>s.
        let old = st_pos s; padding = (0 - st_cursor s) AND m
        in ebind (st_Advance (unat padding) s) (\<lambda>s. Inr (Emit OpAlign old m padding s))))"

definition st_Push :: "nat \<Rightarrow> streams \<Rightarrow> st_error + streams" where
  "st_Push nxt s =
     (if 8 \<le> nxt \<or> 64 \<le> length (st_stack s) then Inl InvalidPush
      else ebind (Sync s) (\<lambda>s.
        let old = st_pos s
        in Inr (Emit OpPush old (of_nat nxt) 0 (Publish
             (s\<lparr>st_stack := \<lparr>fr_block = st_block s, fr_start = st_offsets s ! nxt\<rparr> # st_stack s, st_block := nxt\<rparr>)))))"

definition st_Pop :: "streams \<Rightarrow> st_error + streams" where
  "st_Pop s =
     (case st_stack s of
        [] \<Rightarrow> Inl StackUnderflow
      | previous # frames \<Rightarrow>
          ebind (Sync s) (\<lambda>s.
            let old = st_pos s
            in ebind (if st_block s = 1 then Inr (s\<lparr>st_offsets := (st_offsets s)[st_block s := fr_start previous]\<rparr>)
                      else if st_block s = 2 then st_Align 31 s
                      else Inr s) (\<lambda>s.
                 Inr (Emit OpPop old 0 0 (Publish (s\<lparr>st_stack := frames, st_block := fr_block previous\<rparr>))))))"

definition st_Contains :: "u64 \<Rightarrow> nat \<Rightarrow> streams \<Rightarrow> bool" where
  "st_Contains a n s \<longleftrightarrow> (\<exists>i<length (st_mem s).
     let start = st_base s ! i; sz = length (st_mem s ! i)
     in start \<le> a \<and> unat (a - start) \<le> sz \<and> n \<le> sz - unat (a - start))"

definition st_Load :: "bool \<Rightarrow> u64 \<Rightarrow> nat \<Rightarrow> streams \<Rightarrow> st_error + streams" where
  "st_Load atStart dest n s =
     (if \<not> atStart \<or> n = 0 then Inr s
      else ebind (st_Check n s) (\<lambda>s.
        let old = st_pos s; b = st_block s; at = st_offsets s ! b
        in if dest \<noteq> st_cursor s then Inl DestinationDiffers
           else ebind
             (if b = 4 then Inr (st_write b at (replicate n 0) s)
              else if st_Remaining s < n then Inl TruncatedStream
              else Inr ((st_write b at (take n (drop (st_consumed s) (st_input s))) s)
                     \<lparr>st_consumed := st_consumed s + n\<rparr>)) (\<lambda>s.
             ebind (st_Advance n s) (\<lambda>s. Inr (Emit OpLoad old 1 (of_nat n) s)))))"

text \<open>\<^verbatim>\<open>memchr\<close> over the available bytes, at most 65536 of them.\<close>

fun memchr0 :: "u8 list \<Rightarrow> nat option" where
  "memchr0 [] = None"
| "memchr0 (c # cs) = (if c = 0 then Some 0 else map_option Suc (memchr0 cs))"

definition st_String :: "u64 \<Rightarrow> streams \<Rightarrow> st_error + streams" where
  "st_String value s =
     (if st_block s = 4 then Inl StringInRuntime
      else case memchr0 (take 65536 (drop (st_consumed s) (st_input s))) of
        None \<Rightarrow> Inl UnterminatedString
      | Some e \<Rightarrow> ebind (Sync s) (\<lambda>s.
          st_Load True value (e + 1) (Emit OpString (st_pos s) 0 (of_nat (e + 1)) s)))"

definition st_BeginAsset :: "streams \<Rightarrow> st_error + streams" where
  "st_BeginAsset s =
     (if 64 \<le> length (st_assets s) then Inl AssetNesting
      else ebind (Sync s) (\<lambda>s. let s' = s\<lparr>st_assets := st_offsets s # st_assets s\<rparr>
        in Inr (Emit OpBeginAsset (st_pos s) (of_nat (length (st_assets s'))) 0 s')))"

definition st_EndAsset :: "streams \<Rightarrow> st_error + streams" where
  "st_EndAsset s =
     (if st_assets s = [] then Inl AssetUnderflow
      else ebind (Sync s) (\<lambda>s. let s' = s\<lparr>st_assets := tl (st_assets s)\<rparr>
        in Inr (Emit OpEndAsset (st_pos s) (of_nat (length (st_assets s'))) 0 s')))"

definition st_SharedPush :: "streams \<Rightarrow> st_error + streams" where
  "st_SharedPush s =
     (if 256 < st_shared s + 1 then Inl SharedNesting else Inr (s\<lparr>st_shared := st_shared s + 1\<rparr>))"

definition st_SharedPop :: "streams \<Rightarrow> st_error + streams" where
  "st_SharedPop s = (if st_shared s = 0 then Inl SharedUnderflow else Inr (s\<lparr>st_shared := st_shared s - 1\<rparr>))"

text \<open>\<^verbatim>\<open>assets.front()\<close> is the outermost asset, the last of the list.\<close>

definition st_Resolve :: "u64 \<Rightarrow> bool \<Rightarrow> streams \<Rightarrow> st_error + (u64 \<times> streams)" where
  "st_Resolve packed alias s = ebind (Sync s) (\<lambda>s.
     let old = st_pos s;
         i = unat (drop_bit 32 packed AND 15);
         off = unat (ucast (packed - 1) :: u32);
         rel = packed AND 0x1000000000 \<noteq> 0
     in if packed AND NOT 0x1fffffffff \<noteq> 0 then Inl InvalidPackedBits
        else if 8 \<le> i then Inl InvalidPackedIndex
        else if rel \<and> st_assets s = [] then Inl RelativeOutsideAsset
        else let off = (if rel then off + last (st_assets s) ! i else off);
                 sz = length (st_mem s ! i)
          in if sz \<le> off \<or> (alias \<and> sz - off < 8) then Inl PackedOutside
             else let value = (if alias then of_nat (le_nat (take 8 (drop off (st_mem s ! i))))
                               else st_base s ! i + of_nat off)
               in Inr (value, Emit (if alias then OpAlias else OpResolve) old packed (of_nat off) s))"

definition st_Insert :: "streams \<Rightarrow> st_error + (u64 \<times> streams)" where
  "st_Insert s =
     ebind (st_Push 5 s) (\<lambda>s. ebind (st_Align 7 s) (\<lambda>s. ebind (st_Check 8 s) (\<lambda>s.
       let result = st_cursor s
       in ebind (st_Advance 8 (st_write (st_block s) (st_offsets s ! st_block s) (replicate 8 0) s)) (\<lambda>s.
            ebind (st_Pop s) (\<lambda>s. Inr (result, s))))))"

definition st_Temporary :: "nat \<Rightarrow> u64 \<Rightarrow> streams \<Rightarrow> st_error + (u64 \<times> streams)" where
  "st_Temporary n alignment s =
     (if alignment = 0 then Inl ZeroAlignment
      else ebind (Sync s) (\<lambda>s.
        ebind (st_Push 1 (Emit OpTemporary (st_pos s) alignment (of_nat n) s)) (\<lambda>s.
        ebind (st_Align (alignment - 1) s) (\<lambda>s.
          let result = st_cursor s
          in ebind (st_Load True result n s) (\<lambda>s. ebind (st_Pop s) (\<lambda>s. Inr (result, s)))))))"

definition st_Finish :: "streams \<Rightarrow> st_error + unit" where
  "st_Finish s = ebind (Sync s) (\<lambda>s.
     if st_stack s \<noteq> [] \<or> st_assets s \<noteq> [] \<or> st_shared s \<noteq> 0 then Inl Unbalanced
     else if st_Remaining s \<noteq> 0 then Inl UnreadBytes
     else Inr ())"

end
