(* ===== verification/Ff_Stream_Properties.thy ===== *)
theory Ff_Stream_Properties
  imports Ff_Stream
begin

text \<open>
  Properties of the native streams: the runs of a loader as a step relation in which the game moves the
  cursor and writes its memory between two operations, the invariant of every reachable state, the
  effect of the operations, temporaries and packed pointers.
\<close>

section \<open>The states of the streams\<close>

definition regions_ok :: "u64 list \<Rightarrow> nat list \<Rightarrow> bool" where
  "regions_ok B L \<longleftrightarrow> length B = 8 \<and> length L = 8 \<and> (\<forall>i<8. unat (B ! i) + L ! i < 2 ^ 64)"

fun frames_ok :: "nat list \<Rightarrow> nat \<Rightarrow> stream_frame list \<Rightarrow> bool" where
  "frames_ok L b [] \<longleftrightarrow> True"
| "frames_ok L b (f # fs) \<longleftrightarrow> fr_start f \<le> L ! b \<and> fr_block f < 8 \<and> frames_ok L (fr_block f) fs"

text \<open>The regions \<open>B\<close>, their sizes \<open>L\<close> and the input \<open>I\<close> never change.\<close>

definition st_inv :: "u64 list \<Rightarrow> nat list \<Rightarrow> u8 list \<Rightarrow> streams \<Rightarrow> bool" where
  "st_inv B L I s \<longleftrightarrow>
     regions_ok B L \<and> st_base s = B \<and> map length (st_mem s) = L \<and> st_input s = I \<and>
     list_all2 (\<le>) (st_offsets s) L \<and> st_block s < 8 \<and> st_consumed s \<le> length I \<and>
     frames_ok L (st_block s) (st_stack s) \<and> length (st_stack s) \<le> 64 \<and>
     (\<forall>a\<in>set (st_assets s). list_all2 (\<le>) a L) \<and> length (st_assets s) \<le> 64 \<and> st_shared s \<le> 256"

lemma st_invD:
  assumes "st_inv B L I s"
  shows "length (st_mem s) = 8" "length (st_base s) = 8" "length (st_offsets s) = 8" "st_block s < 8"
    "i < 8 \<Longrightarrow> length (st_mem s ! i) = L ! i" "i < 8 \<Longrightarrow> st_offsets s ! i \<le> L ! i"
    "i < 8 \<Longrightarrow> unat (B ! i) + L ! i < 2 ^ 64" "st_base s = B" "st_input s = I" "st_consumed s \<le> length I"
proof -
  have l: "length L = 8" "length B = 8" using assms by (simp_all add: st_inv_def regions_ok_def)
  show "length (st_mem s) = 8" using assms l(1) by (auto simp: st_inv_def)
  then show "i < 8 \<Longrightarrow> length (st_mem s ! i) = L ! i" using assms by (auto simp: st_inv_def)
  show "length (st_offsets s) = 8" using assms l(1) by (auto simp: st_inv_def dest: list_all2_lengthD)
  then show "i < 8 \<Longrightarrow> st_offsets s ! i \<le> L ! i" using assms by (auto simp: st_inv_def dest: list_all2_nthD)
qed (use assms in \<open>auto simp: st_inv_def regions_ok_def\<close>)

lemma st_inv_Emit [simp]: "st_inv B L I (Emit op old v n s) = st_inv B L I s"
  by (simp add: st_inv_def Emit_def)

lemma st_inv_Publish [simp]: "st_inv B L I (Publish s) = st_inv B L I s"
  by (simp add: st_inv_def Publish_def)

lemma st_inv_cursor [simp]: "st_inv B L I (s\<lparr>st_cursor := c\<rparr>) = st_inv B L I s"
  by (simp add: st_inv_def)

lemma list_all2_le_update: "list_all2 (\<le>) xs ys \<Longrightarrow> n \<le> ys ! b \<Longrightarrow> list_all2 (\<le>) (xs[b := n]) (ys :: nat list)"
proof (induction arbitrary: b rule: list_all2_induct)
  case (Cons x xs y ys) then show ?case by (cases b) auto
qed simp

lemma st_inv_offsets:
  assumes "st_inv B L I s" "n \<le> L ! b"
  shows "st_inv B L I (s\<lparr>st_offsets := (st_offsets s)[b := n]\<rparr>)"
  using assms by (simp add: st_inv_def list_all2_le_update)

lemma st_inv_write:
  assumes "st_inv B L I s" "at + length bs \<le> L ! b" "b < 8"
  shows "st_inv B L I (st_write b at bs s)"
proof -
  have "map length ((st_mem s)[b := take at (st_mem s ! b) @ bs @ drop (at + length bs) (st_mem s ! b)]) = map length (st_mem s)"
    using assms(2) st_invD(1) [OF assms(1)] st_invD(5) [OF assms(1,3)] assms(3)
    by (auto intro!: nth_equalityI simp: nth_list_update)
  then show ?thesis using assms(1) by (simp add: st_inv_def st_write_def)
qed

text \<open>Reading the cursor: the offset of the current block becomes what the game left there.\<close>

lemma Sync_InrD:
  assumes "Sync s = Inr s'" "st_inv B L I s"
  shows "st_inv B L I s'" "\<exists>k. s' = s\<lparr>st_offsets := (st_offsets s)[st_block s := k]\<rparr> \<and> k \<le> L ! st_block s \<and>
           st_cursor s = B ! st_block s + of_nat k"
proof -
  note i = st_invD [OF assms(2)]
  let ?k = "unat (st_cursor s - st_base s ! st_block s)"
  have s': "s' = s\<lparr>st_offsets := (st_offsets s)[st_block s := ?k]\<rparr>" and k: "?k \<le> L ! st_block s"
    using assms(1) i(4) i(5) by (auto simp: Sync_def Let_def split: if_splits)
  show "st_inv B L I s'" unfolding s' by (rule st_inv_offsets [OF assms(2) k])
  show "\<exists>k. s' = s\<lparr>st_offsets := (st_offsets s)[st_block s := k]\<rparr> \<and> k \<le> L ! st_block s \<and>
           st_cursor s = B ! st_block s + of_nat k"
    using s' k i(8) by (intro exI [of _ ?k]) simp
qed

lemma Sync_Publish:
  assumes "st_inv B L I s" "st_cursor s = B ! st_block s + of_nat (st_offsets s ! st_block s)"
  shows "Sync s = Inr s"
proof -
  note i = st_invD [OF assms(1)]
  let ?o = "st_offsets s ! st_block s"
  have o: "?o \<le> L ! st_block s" "unat (B ! st_block s) + L ! st_block s < 2 ^ 64" using i(4) i(6) i(7) by auto
  then have u: "unat (of_nat ?o :: u64) = ?o" by (intro unat_of_nat_u64) linarith
  have "\<not> B ! st_block s + of_nat ?o < B ! st_block s"
    using o u by (simp add: word_less_nat_alt unat_word_ariths)
  moreover have "(B ! st_block s + of_nat ?o) - B ! st_block s = of_nat ?o" by simp
  ultimately show ?thesis
    using o u i(4) i(5) i(8) assms(2) by (simp add: Sync_def Let_def)
qed

lemma Check_InrD:
  assumes "st_Check n s = Inr s'" "st_inv B L I s"
  shows "Sync s = Inr s'" "st_inv B L I s'" "st_block s' = st_block s" "st_offsets s' ! st_block s + n \<le> L ! st_block s"
proof -
  have y: "Sync s = Inr s'" "\<not> length (st_mem s' ! st_block s') - st_offsets s' ! st_block s' < n"
    using assms(1) by (auto simp: st_Check_def ebind_eq_Inr_iff split: if_splits)
  show "Sync s = Inr s'" by (rule y)
  note d = Sync_InrD [OF y(1) assms(2)]
  show "st_inv B L I s'" by (rule d)
  show b: "st_block s' = st_block s" using d(2) by auto
  note i = st_invD [OF d(1)]
  show "st_offsets s' ! st_block s + n \<le> L ! st_block s"
    using y(2) i(5) [of "st_block s'"] i(6) [of "st_block s'"] i(4) b by simp
qed

lemma Advance_InrD:
  assumes "st_Advance n s = Inr s'" "st_inv B L I s"
  shows "st_inv B L I s'" "\<exists>y. Sync s = Inr y \<and> st_offsets y ! st_block s + n \<le> L ! st_block s \<and>
     s' = Publish (y\<lparr>st_offsets := (st_offsets y)[st_block s := st_offsets y ! st_block s + n]\<rparr>)"
proof -
  obtain y where y: "st_Check n s = Inr y"
    "s' = Publish (y\<lparr>st_offsets := (st_offsets y)[st_block y := st_offsets y ! st_block y + n]\<rparr>)"
    using assms(1) by (auto simp: st_Advance_def ebind_eq_Inr_iff)
  note c = Check_InrD [OF y(1) assms(2)]
  show "st_inv B L I s'" unfolding y(2) st_inv_Publish by (rule st_inv_offsets [OF c(2)]) (use c in simp)
  show "\<exists>y. Sync s = Inr y \<and> st_offsets y ! st_block s + n \<le> L ! st_block s \<and>
     s' = Publish (y\<lparr>st_offsets := (st_offsets y)[st_block s := st_offsets y ! st_block s + n]\<rparr>)"
    using c y(2) by auto
qed

lemma Align_inv: "st_Align m s = Inr s' \<Longrightarrow> st_inv B L I s \<Longrightarrow> st_inv B L I s'"
  by (auto simp: st_Align_def Let_def ebind_eq_Inr_iff split: if_splits dest!: Sync_InrD(1) Advance_InrD(1))

lemma Push_inv: "st_Push b s = Inr s' \<Longrightarrow> st_inv B L I s \<Longrightarrow> st_inv B L I s'"
proof -
  assume p: "st_Push b s = Inr s'" and i: "st_inv B L I s"
  obtain y where y: "Sync s = Inr y" and b: "b < 8" "length (st_stack s) < 64"
    and s': "s' = Emit OpPush (st_pos y) (of_nat b) 0 (Publish
       (y\<lparr>st_stack := \<lparr>fr_block = st_block y, fr_start = st_offsets y ! b\<rparr> # st_stack y, st_block := b\<rparr>))"
    using p by (auto simp: st_Push_def Let_def ebind_eq_Inr_iff split: if_splits)
  note d = Sync_InrD [OF y i]
  have "st_stack y = st_stack s" using d(2) by auto
  then show ?thesis using st_invD(6) [OF d(1) b(1)] d(1) b unfolding s' st_inv_Emit st_inv_Publish by (auto simp: st_inv_def)
qed

lemma Align_frame:
  assumes "st_Align m s = Inr s'"
  shows "st_stack s' = st_stack s" "st_block s' = st_block s" "st_consumed s' = st_consumed s" "st_mem s' = st_mem s"
    "st_assets s' = st_assets s" "st_shared s' = st_shared s"
  using assms by (auto simp: st_Align_def st_Advance_def st_Check_def Sync_def Emit_def Publish_def Let_def
      ebind_eq_Inr_iff split: if_splits)

lemma Pop_inv: "st_Pop s = Inr s' \<Longrightarrow> st_inv B L I s \<Longrightarrow> st_inv B L I s'"
proof -
  assume p: "st_Pop s = Inr s'" and i: "st_inv B L I s"
  obtain f fs y z where f: "st_stack s = f # fs" and y: "Sync s = Inr y"
    and z: "(if st_block y = 1 then Inr (y\<lparr>st_offsets := (st_offsets y)[st_block y := fr_start f]\<rparr>)
             else if st_block y = 2 then st_Align 31 y else Inr y) = Inr z"
    and s': "s' = Emit OpPop (st_pos y) 0 0 (Publish (z\<lparr>st_stack := fs, st_block := fr_block f\<rparr>))"
    using p by (auto simp: st_Pop_def Let_def ebind_eq_Inr_iff split: list.splits)
  note d = Sync_InrD [OF y i]
  have y': "st_stack y = f # fs" "st_block y = st_block s" using d(2) f by auto
  have f': "fr_start f \<le> L ! st_block y" "fr_block f < 8" "frames_ok L (fr_block f) fs" "length fs \<le> 64"
    using i f y' by (auto simp: st_inv_def)
  have "st_inv B L I z"
    using z d(1) f' by (auto split: if_splits intro: st_inv_offsets dest: Align_inv)
  then show ?thesis using f' unfolding s' st_inv_Emit st_inv_Publish by (auto simp: st_inv_def)
qed

lemma Load_inv: "st_Load a d n s = Inr s' \<Longrightarrow> st_inv B L I s \<Longrightarrow> st_inv B L I s'"
proof (cases "\<not> a \<or> n = 0")
  case False
  assume l: "st_Load a d n s = Inr s'" and i: "st_inv B L I s"
  let ?at = "\<lambda>y. st_offsets y ! st_block y"
  obtain y z w where y: "st_Check n s = Inr y"
    and z: "(if st_block y = 4 then Inr (st_write (st_block y) (?at y) (replicate n 0) y)
              else if st_Remaining y < n then Inl TruncatedStream
              else Inr ((st_write (st_block y) (?at y) (take n (drop (st_consumed y) (st_input y))) y)
                     \<lparr>st_consumed := st_consumed y + n\<rparr>)) = Inr z"
    and w: "st_Advance n z = Inr w" and s': "s' = Emit OpLoad (st_pos y) 1 (of_nat n) w"
    using l False by (auto simp: st_Load_def Let_def ebind_eq_Inr_iff split: if_splits)
  note c = Check_InrD [OF y i]
  note ci = st_invD [OF c(2)]
  have "st_inv B L I z"
  proof (cases "st_block y = 4")
    case True
    then have "z = st_write (st_block y) (?at y) (replicate n 0) y" using z by simp
    then show ?thesis using c ci(4) by (auto intro!: st_inv_write)
  next
    case nb: False
    then have z': "z = (st_write (st_block y) (?at y) (take n (drop (st_consumed y) (st_input y))) y)
                     \<lparr>st_consumed := st_consumed y + n\<rparr>" and r: "\<not> st_Remaining y < n"
      using z by (auto split: if_splits)
    have "st_inv B L I (st_write (st_block y) (?at y) (take n (drop (st_consumed y) (st_input y))) y)"
      by (rule st_inv_write [OF c(2)]) (use c ci(4) in auto)
    then show ?thesis using r ci(9,10) by (auto simp: z' st_inv_def st_Remaining_def st_write_def)
  qed
  then show ?thesis using Advance_InrD(1) [OF w] by (simp add: s')
qed (simp add: st_Load_def)

lemma Temporary_inv: "st_Temporary n al s = Inr (p, s') \<Longrightarrow> st_inv B L I s \<Longrightarrow> st_inv B L I s'"
  by (auto simp: st_Temporary_def Let_def ebind_eq_Inr_iff split: if_splits
      dest!: Sync_InrD(1) Push_inv Align_inv Load_inv Pop_inv)

lemma Insert_inv: "st_Insert s = Inr (p, s') \<Longrightarrow> st_inv B L I s \<Longrightarrow> st_inv B L I s'"
proof -
  assume p: "st_Insert s = Inr (p, s')" and i: "st_inv B L I s"
  obtain x y z w where x: "st_Push 5 s = Inr x" "st_Align 7 x = Inr y" and z: "st_Check 8 y = Inr z"
    and w: "st_Advance 8 (st_write (st_block z) (st_offsets z ! st_block z) (replicate 8 0) z) = Inr w" "st_Pop w = Inr s'"
    using p by (auto simp: st_Insert_def Let_def ebind_eq_Inr_iff)
  have "st_inv B L I y" using x i by (blast dest: Push_inv Align_inv)
  note c = Check_InrD [OF z this]
  have "st_inv B L I (st_write (st_block z) (st_offsets z ! st_block z) (replicate 8 0) z)"
    by (rule st_inv_write [OF c(2)]) (use c st_invD(4) [OF c(2)] in auto)
  then show ?thesis using w by (blast dest: Advance_InrD(1) Pop_inv)
qed

text \<open>
  The runs of a loader: the operations that return, and between them the game, which moves the cursor
  and fills the memory of the regions.
\<close>

inductive st_step :: "streams \<Rightarrow> streams \<Rightarrow> bool" where
  step_game: "map length m = map length (st_mem s) \<Longrightarrow> st_step s (s\<lparr>st_cursor := c, st_mem := m\<rparr>)"
| step_trace: "st_step s (st_SetTrace on s)"
| step_take: "st_Take n s = Inr (bs, s') \<Longrightarrow> st_step s s'"
| step_check: "st_Check n s = Inr s' \<Longrightarrow> st_step s s'"
| step_advance: "st_Advance n s = Inr s' \<Longrightarrow> st_step s s'"
| step_align: "st_Align m s = Inr s' \<Longrightarrow> st_step s s'"
| step_push: "st_Push b s = Inr s' \<Longrightarrow> st_step s s'"
| step_pop: "st_Pop s = Inr s' \<Longrightarrow> st_step s s'"
| step_load: "st_Load a d n s = Inr s' \<Longrightarrow> st_step s s'"
| step_string: "st_String v s = Inr s' \<Longrightarrow> st_step s s'"
| step_begin: "st_BeginAsset s = Inr s' \<Longrightarrow> st_step s s'"
| step_end: "st_EndAsset s = Inr s' \<Longrightarrow> st_step s s'"
| step_shared: "st_SharedPush s = Inr s' \<or> st_SharedPop s = Inr s' \<Longrightarrow> st_step s s'"
| step_resolve: "st_Resolve p al s = Inr (v, s') \<Longrightarrow> st_step s s'"
| step_insert: "st_Insert s = Inr (p, s') \<Longrightarrow> st_step s s'"
| step_temporary: "st_Temporary n al s = Inr (p, s') \<Longrightarrow> st_step s s'"

inductive st_reach :: "streams \<Rightarrow> streams \<Rightarrow> bool" for s0 where
  st_refl: "st_reach s0 s0"
| st_trans: "st_reach s0 s \<Longrightarrow> st_step s s' \<Longrightarrow> st_reach s0 s'"

inductive_cases st_stepE: "st_step s s'"

lemma st_step_inv:
  assumes "st_step s s'" "st_inv B L I s"
  shows "st_inv B L I s'"
  using assms
proof cases
  case (step_game m c) then show ?thesis using assms(2) by (auto simp: st_inv_def)
next
  case (step_trace on) then show ?thesis using assms(2) by (auto simp: st_inv_def st_SetTrace_def)
next
  case (step_take n bs) then show ?thesis using assms(2)
    by (auto simp: st_inv_def st_Take_def st_Remaining_def split: if_splits)
next
  case (step_check n) then show ?thesis using assms(2) by (blast dest: Check_InrD(2))
next
  case (step_advance n) then show ?thesis using assms(2) by (blast dest: Advance_InrD(1))
next
  case (step_align m) then show ?thesis using assms(2) by (blast dest: Align_inv)
next
  case (step_push b) then show ?thesis using assms(2) by (blast dest: Push_inv)
next
  case step_pop then show ?thesis using assms(2) by (blast dest: Pop_inv)
next
  case (step_load a d n) then show ?thesis using assms(2) by (blast dest: Load_inv)
next
  case (step_string v)
  then show ?thesis using assms(2)
    by (auto simp: st_String_def ebind_eq_Inr_iff split: if_splits option.splits dest!: Sync_InrD(1) Load_inv)
next
  case step_begin
  then obtain y where y: "Sync s = Inr y" and l: "length (st_assets s) < 64"
    and s': "s' = Emit OpBeginAsset (st_pos y) (of_nat (Suc (length (st_assets y)))) 0 (y\<lparr>st_assets := st_offsets y # st_assets y\<rparr>)"
    by (auto simp: st_BeginAsset_def Let_def ebind_eq_Inr_iff split: if_splits)
  note d = Sync_InrD [OF y assms(2)]
  have "st_assets y = st_assets s" using d(2) by auto
  then show ?thesis unfolding s' st_inv_Emit using d(1) l by (auto simp: st_inv_def)
next
  case step_end
  then obtain y where y: "Sync s = Inr y"
    and s': "s' = Emit OpEndAsset (st_pos y) (of_nat (length (st_assets y) - 1)) 0 (y\<lparr>st_assets := tl (st_assets y)\<rparr>)"
    by (auto simp: st_EndAsset_def Let_def ebind_eq_Inr_iff split: if_splits)
  show ?thesis unfolding s' st_inv_Emit using Sync_InrD(1) [OF y assms(2)]
    by (cases "st_assets y") (auto simp: st_inv_def)
next
  case step_shared then show ?thesis using assms(2)
    by (auto simp: st_inv_def st_SharedPush_def st_SharedPop_def split: if_splits)
next
  case (step_resolve p al v) then show ?thesis using assms(2)
    by (auto simp: st_Resolve_def Let_def ebind_eq_Inr_iff split: if_splits dest!: Sync_InrD(1))
next
  case (step_insert p) then show ?thesis using assms(2) by (blast dest: Insert_inv)
next
  case (step_temporary n al p) then show ?thesis using assms(2) by (blast dest: Temporary_inv)
qed

lemma st_init_inv: "regions_ok B (map length M) \<Longrightarrow> st_inv B (map length M) I (Streams B M I)"
  unfolding Streams_def st_inv_Publish
  by (auto simp: st_inv_def regions_ok_def list_all2_conv_all_nth)

lemma st_reach_inv: "st_reach s0 s \<Longrightarrow> st_inv B L I s0 \<Longrightarrow> st_inv B L I s"
  by (induction rule: st_reach.induct) (auto intro: st_step_inv)

lemma streams_inv:
  "regions_ok B (map length M) \<Longrightarrow> st_reach (Streams B M I) s \<Longrightarrow> st_inv B (map length M) I s"
  using st_reach_inv st_init_inv by blast

text \<open>
  C5. In every run of a loader, whatever the game does with the cursor and the memory between two calls,
  no operation writes outside its region (the regions keep their sizes), every offset stays within its
  reservation, no more input is consumed than there is, and the blocks on the stack and the stacks
  themselves stay within their limits.
\<close>

theorem streams_safe:
  assumes "regions_ok B (map length M)" and "st_reach (Streams B M I) s"
  shows "st_inv B (map length M) I s"
  by (rule streams_inv [OF assms])

section \<open>Alignment\<close>

lemma and_Suc_mask: "(m :: nat) AND (m + 1) = 0 \<Longrightarrow> \<exists>j. m = mask j"
proof (induction m rule: less_induct)
  case (less m)
  show ?case
  proof (cases "even m")
    case True
    then have "m AND (m + 1) = m" by (auto elim!: evenE simp: and_nat_rec) 
    then have "m = mask 0" using less.prems by simp
    then show ?thesis by blast
  next
    case False
    then obtain k where k: "m = 2 * k + 1" by (elim oddE)
    have "m AND (m + 1) = 2 * (k AND (k + 1))" by (simp add: k and_nat_rec [of "Suc _"])
    then have "k AND (k + 1) = 0" using less.prems by simp
    then obtain j where "k = mask j" using less.IH [of k] k by auto
    moreover have "(1 :: nat) \<le> 2 ^ j" by simp
    ultimately have "m = mask (Suc j)" unfolding k mask_eq_exp_minus_1 power_Suc by linarith
    then show ?thesis by blast
  qed
qed

lemma align_mask:
  assumes "m \<le> 0xfffff" "m AND (m + 1) = (0 :: u64)"
  obtains j where "j \<le> 20" "m = mask j"
proof -
  have m: "unat m \<le> 0xfffff" using assms(1) by (simp add: word_le_nat_alt)
  then have s: "unat (m + 1) = unat m + 1" by (simp add: unat_word_ariths)
  have "unat m AND unat (m + 1) = unat (m AND (m + 1))" by (simp add: unsigned_and_eq)
  then have "unat m AND (unat m + 1) = 0" using assms(2) s by simp
  then obtain j where j: "unat m = mask j" using and_Suc_mask by blast
  have "j \<le> 20"
  proof (rule ccontr)
    assume "\<not> j \<le> 20"
    then have "(2 :: nat) ^ 21 \<le> 2 ^ j" by (intro power_increasing) auto
    then show False using j m by (simp add: mask_eq_exp_minus_1)
  qed
  moreover have "m = mask j"
  proof -
    have "unat (mask j :: u64) = mask j" using \<open>j \<le> 20\<close> unat_mask_le [of j, where ?'a = 64] mask_eq_exp_minus_1 [of j, where ?'a = nat] by simp
    then show ?thesis using j by (simp add: word_unat_eq_iff)
  qed
  ultimately show thesis by (rule that)
qed

lemma take_bit_pad: "take_bit j (c + ((0 - c) AND mask j)) = (0 :: 'a::len word)"
proof -
  have "c + ((0 - c) AND mask j) = - ((0 - c) - take_bit j (0 - c))" by (simp add: take_bit_eq_mask)
  also have "(0 - c) - take_bit j (0 - c) = (0 - c) AND NOT (mask j)" by (rule and_not_mask_eq [symmetric])
  finally have e: "c + ((0 - c) AND mask j) = - ((0 - c) AND NOT (mask j))" .
  have "take_bit j x = 0 \<Longrightarrow> take_bit j (- x) = 0" for x :: "'a word"
    using take_bit_add_dvd [of j x "- x"] by simp
  moreover have "take_bit j ((0 - c) AND NOT (mask j)) = 0"
    by (rule bit_word_eqI) (auto simp: bit_simps)
  ultimately show ?thesis unfolding e by blast
qed

section \<open>The effect of the operations\<close>

definition synced :: "streams \<Rightarrow> bool" where
  "synced s \<longleftrightarrow> st_cursor s = st_base s ! st_block s + of_nat (st_offsets s ! st_block s)"

lemma Sync_synced: "st_inv B L I s \<Longrightarrow> synced s \<Longrightarrow> Sync s = Inr s"
  using Sync_Publish st_invD(8) by (simp add: synced_def)

lemma Sync_gives_synced: "Sync s = Inr s' \<Longrightarrow> st_inv B L I s \<Longrightarrow> synced s'"
  using Sync_InrD(2) [of s s' B L I] st_invD(3,4,8) [of B L I s] by (auto simp: synced_def)

lemma synced_Emit [simp]: "synced (Emit op old v n s) = synced s"
  by (simp add: synced_def Emit_def)

lemma synced_Publish [simp]: "synced (Publish s)"
  by (simp add: synced_def Publish_def)

lemma Emit_sel [simp]:
  "st_base (Emit op old v n s) = st_base s" "st_mem (Emit op old v n s) = st_mem s"
  "st_offsets (Emit op old v n s) = st_offsets s" "st_stack (Emit op old v n s) = st_stack s"
  "st_assets (Emit op old v n s) = st_assets s" "st_input (Emit op old v n s) = st_input s"
  "st_cursor (Emit op old v n s) = st_cursor s" "st_block (Emit op old v n s) = st_block s"
  "st_consumed (Emit op old v n s) = st_consumed s" "st_shared (Emit op old v n s) = st_shared s"
  by (simp_all add: Emit_def)

text \<open>The part of the state the operations are described by: all but the trace.\<close>

definition untraced :: "streams \<Rightarrow> streams" where
  "untraced s = s\<lparr>st_trace := None\<rparr>"

lemma untraced_Emit [simp]: "untraced (Emit op old v n s) = untraced s"
  by (simp add: untraced_def Emit_def)

lemma untraced_sel [simp]:
  "st_base (untraced s) = st_base s" "st_mem (untraced s) = st_mem s" "st_offsets (untraced s) = st_offsets s"
  "st_stack (untraced s) = st_stack s" "st_assets (untraced s) = st_assets s" "st_input (untraced s) = st_input s"
  "st_cursor (untraced s) = st_cursor s" "st_block (untraced s) = st_block s" "st_consumed (untraced s) = st_consumed s"
  "st_shared (untraced s) = st_shared s"
  by (simp_all add: untraced_def)

lemma untracedD:
  assumes "untraced s = t"
  shows "st_base s = st_base t" "st_mem s = st_mem t" "st_offsets s = st_offsets t" "st_stack s = st_stack t"
    "st_cursor s = st_cursor t" "st_block s = st_block t" "st_consumed s = st_consumed t"
  unfolding assms [symmetric] by simp_all

lemma Push_effect:
  assumes "st_Push b s = Inr s'" "st_inv B L I s" "synced s"
  shows "st_inv B L I s' \<and> synced s' \<and> b < 8 \<and>
    untraced s' = (untraced s)\<lparr>st_stack := \<lparr>fr_block = st_block s, fr_start = st_offsets s ! b\<rparr> # st_stack s,
                     st_block := b, st_cursor := B ! b + of_nat (st_offsets s ! b)\<rparr>"
  using assms Push_inv [OF assms(1,2)] Sync_synced [OF assms(2,3)] st_invD(8) [OF assms(2)]
  by (auto simp: st_Push_def Let_def Publish_def synced_def Emit_def untraced_def split: if_splits)

lemma Advance_effect:
  assumes "st_Advance n s = Inr s'" "st_inv B L I s" "synced s"
  shows "st_inv B L I s' \<and> synced s' \<and> st_offsets s ! st_block s + n \<le> L ! st_block s \<and>
    s' = s\<lparr>st_offsets := (st_offsets s)[st_block s := st_offsets s ! st_block s + n],
           st_cursor := B ! st_block s + of_nat (st_offsets s ! st_block s + n)\<rparr>"
proof -
  note a = Advance_InrD [OF assms(1,2)]
  have l: "st_block s < length (st_offsets s)" using st_invD(3,4) [OF assms(2)] by simp
  show ?thesis using a Sync_synced [OF assms(2,3)] l st_invD(8) [OF assms(2)]
    by (auto simp: Publish_def synced_def)
qed

lemma Align_effect:
  assumes "st_Align m s = Inr s'" "st_inv B L I s" "synced s"
  shows "\<exists>k j. st_inv B L I s' \<and> synced s' \<and> j \<le> 20 \<and> m = mask j \<and> take_bit j (st_cursor s') = 0 \<and>
    st_offsets s ! st_block s + k \<le> L ! st_block s \<and>
    untraced s' = (untraced s)\<lparr>st_offsets := (st_offsets s)[st_block s := st_offsets s ! st_block s + k],
                     st_cursor := B ! st_block s + of_nat (st_offsets s ! st_block s + k)\<rparr>"
proof -
  obtain j where j: "j \<le> 20" "m = mask j"
    using assms(1) align_mask [of m] by (auto simp: st_Align_def not_less split: if_splits)
  let ?p = "(0 - st_cursor s) AND m"
  obtain y where y: "st_Advance (unat ?p) s = Inr y" and s': "s' = Emit OpAlign (st_pos s) m ?p y"
    using assms(1) Sync_synced [OF assms(2,3)] by (auto simp: st_Align_def Let_def ebind_eq_Inr_iff split: if_splits)
  note a = Advance_effect [OF y assms(2,3)]
  have "st_cursor s' = st_cursor s + ?p"
    using a assms(3) st_invD(8) [OF assms(2)] by (simp add: s' Emit_def synced_def)
  then have "take_bit j (st_cursor s') = 0" using take_bit_pad [of j "st_cursor s"] by (simp add: j)
  moreover have "st_inv B L I s'" "synced s'" using conjunct1 [OF a] conjunct1 [OF conjunct2 [OF a]] by (simp_all only: s' st_inv_Emit synced_Emit)
  moreover have "untraced s' = untraced y" by (simp add: s')
  moreover have "untraced y = (untraced s)\<lparr>st_offsets := (st_offsets s)[st_block s := st_offsets s ! st_block s + unat ?p],
                     st_cursor := B ! st_block s + of_nat (st_offsets s ! st_block s + unat ?p)\<rparr>"
    using a by (simp add: untraced_def)
  ultimately show ?thesis using a j by (intro exI [of _ "unat ?p"] exI [of _ j]) simp
qed

lemma Load_effect:
  assumes "st_Load True (st_cursor s) n s = Inr s'" "st_inv B L I s" "synced s" "st_block s \<noteq> 4"
  shows "st_inv B L I s' \<and> synced s' \<and> st_consumed s + n \<le> length I \<and> st_offsets s ! st_block s + n \<le> L ! st_block s \<and>
    untraced s' = (untraced (st_write (st_block s) (st_offsets s ! st_block s) (take n (drop (st_consumed s) I)) s))
       \<lparr>st_offsets := (st_offsets s)[st_block s := st_offsets s ! st_block s + n],
        st_cursor := B ! st_block s + of_nat (st_offsets s ! st_block s + n),
        st_consumed := st_consumed s + n\<rparr>"
proof (cases "n = 0")
  case True
  have "(st_mem s)[b := st_mem s ! b] = st_mem s" for b by simp
  then show ?thesis using True assms st_invD [OF assms(2)]
    by (simp add: st_Load_def st_write_def untraced_def synced_def)
next
  case False
  note i = st_invD [OF assms(2)]
  note sy = Sync_synced [OF assms(2,3)]
  let ?b = "st_block s" and ?at = "st_offsets s ! st_block s"
  let ?z = "(st_write ?b ?at (take n (drop (st_consumed s) I)) s)\<lparr>st_consumed := st_consumed s + n\<rparr>"
  have chk: "st_Check n s = Inr s"
    using assms(1) False sy by (auto simp: st_Load_def st_Check_def ebind_eq_Inr_iff split: if_splits)
  then have fits: "?at + n \<le> L ! ?b" using Check_InrD(4) [OF chk assms(2)] by simp
  have r: "\<not> st_Remaining s < n"
    using assms(1,4) False chk by (auto simp: st_Load_def Let_def split: if_splits)
  then have cn: "st_consumed s + n \<le> length I" using i(9,10) by (simp add: st_Remaining_def)
  obtain y where y: "st_Advance n ?z = Inr y" and s': "s' = Emit OpLoad (st_pos s) 1 (of_nat n) y"
    using assms(1,4) False chk r i(9) by (auto simp: st_Load_def Let_def ebind_eq_Inr_iff split: if_splits)
  have "st_inv B L I (st_write ?b ?at (take n (drop (st_consumed s) I)) s)"
    by (rule st_inv_write [OF assms(2)]) (use fits i(4) in auto)
  then have zi: "st_inv B L I ?z" using cn by (simp add: st_inv_def)
  have zs: "synced ?z" using assms(3) by (simp add: synced_def st_write_def)
  note a = Advance_effect [OF y zi zs]
  have "st_inv B L I s'" "synced s'" "untraced s' = untraced y"
    using conjunct1 [OF a] conjunct1 [OF conjunct2 [OF a]] by (simp_all only: s' st_inv_Emit synced_Emit untraced_Emit)
  moreover have "st_block ?z = ?b" "st_offsets ?z = st_offsets s" by (simp_all add: st_write_def)
  ultimately show ?thesis using a cn fits by (simp add: untraced_def st_write_def)
qed

lemma Pop_effect_1:
  assumes "st_Pop s = Inr s'" "st_inv B L I s" "synced s" "st_block s = 1" "st_stack s = f # fs"
  shows "untraced s' = (untraced s)\<lparr>st_offsets := (st_offsets s)[1 := fr_start f], st_stack := fs, st_block := fr_block f,
     st_cursor := B ! fr_block f + of_nat ((st_offsets s)[1 := fr_start f] ! fr_block f)\<rparr>"
  using assms Sync_synced [OF assms(2,3)] st_invD(8) [OF assms(2)]
  by (auto simp: st_Pop_def Let_def Publish_def Emit_def untraced_def)

definition addr_in :: "u64 list \<Rightarrow> nat list \<Rightarrow> nat \<Rightarrow> u64 \<Rightarrow> nat \<Rightarrow> nat \<Rightarrow> bool" where
  "addr_in B L b p n at \<longleftrightarrow> p = B ! b + of_nat at \<and> at + n \<le> L ! b"

text \<open>
  C17. A temporary: the loader gets the address of the next \<open>n\<close> bytes of the input, copied to the
  temporary block at a multiple of the alignment (a power of two), and everything but the memory of that
  block and the amount of input consumed is as before the call, the cursor and the offset of the
  temporary block included.
\<close>

theorem Temporary_spec:
  assumes "regions_ok B (map length M)" and "st_reach (Streams B M I) s"
    and "st_Temporary n al s = Inr (p, s')"
  shows "\<exists>j at y. al = 2 ^ j \<and> j \<le> 20 \<and> take_bit j p = 0 \<and> addr_in B (map length M) 1 p n at \<and>
     st_consumed s + n \<le> length I \<and>
     take n (drop at (st_mem s' ! 1)) = take n (drop (st_consumed s) I) \<and>
     (\<forall>i<8. i \<noteq> 1 \<longrightarrow> st_mem s' ! i = st_mem s ! i) \<and>
     Sync s = Inr y \<and>
     untraced s' = (untraced y)\<lparr>st_mem := st_mem s', st_consumed := st_consumed s + n\<rparr>"
proof -
  let ?L = "map length M"
  note i0 = streams_inv [OF assms(1,2)]
  have "al \<noteq> 0" using assms(3) by (auto simp: st_Temporary_def)
  then obtain y s1 s2 s3 where y: "Sync s = Inr y"
    and s1: "st_Push 1 (Emit OpTemporary (st_pos y) al (of_nat n) y) = Inr s1"
    and s2: "st_Align (al - 1) s1 = Inr s2" and p: "p = st_cursor s2"
    and s3: "st_Load True (st_cursor s2) n s2 = Inr s3" and s': "st_Pop s3 = Inr s'"
    using assms(3) by (auto simp: st_Temporary_def Let_def ebind_eq_Inr_iff split: if_splits)
  note d = Sync_InrD [OF y i0]
  note iy = st_invD [OF d(1)]
  note ys = Sync_gives_synced [OF y i0]
  let ?f = "\<lparr>fr_block = st_block y, fr_start = st_offsets y ! 1\<rparr>"
  have e1: "st_inv B ?L I s1" "synced s1" "untraced s1 = (untraced y)\<lparr>st_stack := ?f # st_stack y,
       st_block := 1, st_cursor := B ! 1 + of_nat (st_offsets y ! 1)\<rparr>"
    using Push_effect [OF s1, of B ?L I] d(1) ys by auto
  have f1: "st_offsets s1 = st_offsets y" "st_stack s1 = ?f # st_stack y" "st_block s1 = 1"
      "st_mem s1 = st_mem y" "st_consumed s1 = st_consumed y"
    using untracedD [OF e1(3)] by simp_all
  obtain k j where e2: "st_inv B ?L I s2" "synced s2" "j \<le> 20" "al - 1 = mask j" "take_bit j (st_cursor s2) = 0"
      "untraced s2 = (untraced s1)\<lparr>st_offsets := (st_offsets y)[1 := st_offsets y ! 1 + k],
         st_cursor := B ! 1 + of_nat (st_offsets y ! 1 + k)\<rparr>"
    using Align_effect [OF s2 e1(1,2)] f1 by auto
  let ?at = "st_offsets y ! 1 + k"
  have ly: "1 < length (st_offsets y)" using iy(3) by simp
  have f2: "st_offsets s2 = (st_offsets y)[1 := ?at]" "st_stack s2 = ?f # st_stack y" "st_block s2 = 1"
      "st_mem s2 = st_mem y" "st_consumed s2 = st_consumed y" "st_cursor s2 = B ! 1 + of_nat ?at"
    using untracedD [OF e2(6)] f1 by simp_all
  have at: "st_offsets s2 ! st_block s2 = ?at" using ly by (simp add: f2)
  let ?w = "st_write 1 ?at (take n (drop (st_consumed y) I)) s2"
  have e3: "st_inv B ?L I s3" "synced s3" "st_consumed y + n \<le> length I" "?at + n \<le> ?L ! 1"
      "untraced s3 = (untraced ?w)\<lparr>st_offsets := (st_offsets y)[1 := ?at + n],
         st_cursor := B ! 1 + of_nat (?at + n), st_consumed := st_consumed y + n\<rparr>"
    using Load_effect [OF s3 e2(1,2)] f2 at by auto
  have f3: "st_offsets s3 = (st_offsets y)[1 := ?at + n]" "st_stack s3 = ?f # st_stack y" "st_block s3 = 1"
    using untracedD [OF e3(5)] f2 by (simp_all add: st_write_def)
  have e4: "untraced s' = (untraced s3)\<lparr>st_offsets := (st_offsets s3)[1 := st_offsets y ! 1], st_stack := st_stack y,
      st_block := st_block y, st_cursor := B ! st_block y + of_nat ((st_offsets s3)[1 := st_offsets y ! 1] ! st_block y)\<rparr>"
    using Pop_effect_1 [OF s' e3(1,2) f3(3) f3(2)] by simp
  have yc: "st_consumed y = st_consumed s" "st_mem y = st_mem s" using d(2) by auto
  have m': "st_mem s' = (st_mem s)[1 := take ?at (st_mem s ! 1) @ take n (drop (st_consumed s) I) @ drop (?at + n) (st_mem s ! 1)]"
    using untracedD [OF e4] untracedD [OF e3(5)] e3(3) f2 yc by (simp add: st_write_def)
  have l1: "1 < length (st_mem s)" "length (st_mem s ! 1) = ?L ! 1" using st_invD(1,5) [OF i0] by auto
  have rd: "take n (drop ?at (st_mem s' ! 1)) = take n (drop (st_consumed s) I)"
    using l1 e3(3,4) yc(1) by (simp add: m')
  have o: "(st_offsets y)[1 := st_offsets y ! 1] = st_offsets y" by simp
  have w: "untraced ?w = (untraced s2)\<lparr>st_mem := st_mem s'\<rparr>"
    unfolding m' using e3(3) by (simp add: st_write_def untraced_def f2 yc)
  have c: "B ! st_block y + of_nat (st_offsets y ! st_block y) = st_cursor y"
    using ys iy(8) by (simp add: synced_def)
  have "untraced s' = (untraced s2)\<lparr>st_mem := st_mem s', st_offsets := st_offsets y, st_stack := st_stack y,
      st_block := st_block y, st_cursor := st_cursor y, st_consumed := st_consumed s + n\<rparr>"
    unfolding e4 f3(1) e3(5) w list_update_overwrite o c by (simp add: yc)
  also have "\<dots> = (untraced y)\<lparr>st_mem := st_mem s', st_consumed := st_consumed s + n\<rparr>"
    unfolding e2(6) e1(3) by (simp add: untraced_def)
  finally have "untraced s' = (untraced y)\<lparr>st_mem := st_mem s', st_consumed := st_consumed s + n\<rparr>" .
  moreover have "al = 2 ^ j" using e2(4) by (simp add: mask_eq_exp_minus_1)
  moreover have "\<forall>i<8. i \<noteq> 1 \<longrightarrow> st_mem s' ! i = st_mem s ! i" by (simp add: m')
  ultimately show ?thesis
    using e2(3,5) e3(3,4) rd y f2(6) p yc(1)
    by (intro exI [of _ j] exI [of _ ?at] exI [of _ y]) (simp add: addr_in_def)
qed

definition demo_base :: "u64 list" where
  "demo_base = [0x1000, 0x2000, 0x3000, 0x4000, 0x5000, 0x6000, 0x7000, 0x8000]"

definition demo_mem :: "u8 list list" where
  "demo_mem = (let r = replicate 64 0 in [r, r, r, r, r, r, r, r])"

lemma regions_okI:
  "length B = 8 \<Longrightarrow> length L = 8 \<Longrightarrow> list_all2 (\<lambda>b l. unat b + l < 2 ^ 64) B L \<Longrightarrow> regions_ok B L"
  by (auto simp: regions_ok_def list_all2_conv_all_nth)

lemma demo_regions: "regions_ok demo_base (map length demo_mem)"
  by (rule regions_okI) (simp_all add: demo_base_def demo_mem_def Let_def)

lemma streams_safe_witness:
  "\<exists>s. st_Push 3 (Streams demo_base demo_mem [1, 2]) = Inr s \<and> st_inv demo_base (map length demo_mem) [1, 2] s"
proof -
  have "\<not> isl (st_Push 3 (Streams demo_base demo_mem [1, 2]))" by code_simp
  then obtain s where s: "st_Push 3 (Streams demo_base demo_mem [1, 2]) = Inr s" by (metis sum.collapse(2))
  show ?thesis using s streams_safe [OF demo_regions st_trans [OF st_refl step_push [OF s]]] by blast
qed

lemma Temporary_spec_witness:
  "\<exists>p s'. st_Temporary 3 16 (Streams demo_base demo_mem [1, 2, 3]) = Inr (p, s') \<and> st_consumed s' = 3"
proof -
  have "\<not> isl (st_Temporary 3 16 (Streams demo_base demo_mem [1, 2, 3]))" by code_simp
  then obtain p s' where t: "st_Temporary 3 16 (Streams demo_base demo_mem [1, 2, 3]) = Inr (p, s')"
    by (metis surj_pair sum.collapse(2))
  obtain y where "untraced s' = (untraced y)\<lparr>st_mem := st_mem s', st_consumed := st_consumed (Streams demo_base demo_mem [1, 2, 3]) + 3\<rparr>"
    using Temporary_spec [OF demo_regions st_refl t] by blast
  from untracedD(7) [OF this] show ?thesis using t by (simp add: Streams_def Publish_def)
qed

section \<open>Packed pointers\<close>





end
