(* ===== verification/Xpak.thy ===== *)
theory Xpak
  imports Acts_Prelude "HOL-Library.Product_Lexorder" "HOL-Library.Multiset"
begin

text \<open>
  The Replay XPak archives, \<^verbatim>\<open>src/core/acts/tools/mw19/mw19_xpak.hpp\<close> and \<^verbatim>\<open>mw19_xpak.cpp\<close>: the sorted
  index of an archive, the metadata records, and payloads cut into blocks that may be stored in any
  order.

  The LZ4 and Oodle decoders are libraries and the file is read by a callback; they are parameters. A
  decoder gets the source bytes and the size of the target and gives the bytes it wrote, or \<open>None\<close> when
  it fails. Offsets and sizes are numbers: every sum and product is guarded by the tests before it, so
  none wraps around at 64 bits.
\<close>

section \<open>Decoding a payload\<close>

datatype xp_error =
    TruncatedRecord | ExceedsBudget | TruncatedCommand | InvalidCommand | CommandBudget | TruncatedBlock
  | ExceedsOutput | DecoderUnavailable | UnsupportedCodec | DecompressionFailed | TruncatedAlignment
  | GapOrOverlap | Incomplete | OutsideFile | CannotRead | NotXpak | SizeMismatch | InvalidSection
  | InvalidIndex | InvalidEntry | TruncatedMetadata | InvalidMetadata | KeyNotFound | RawSizeMismatch

type_synonym decoder = "u8 list \<Rightarrow> nat \<Rightarrow> u8 list option"

definition xp_Number :: "nat \<Rightarrow> u8 list \<Rightarrow> nat \<Rightarrow> xp_error + nat" where
  "xp_Number w bytes at =
     (if length bytes < at \<or> length bytes - at < w then Inl TruncatedRecord
      else Inr (le_nat (take w (drop at bytes))))"

text \<open>What a command does with its source bytes: the bytes it puts at the destination.\<close>

definition decode_block :: "decoder \<Rightarrow> decoder option \<Rightarrow> nat \<Rightarrow> u8 list \<Rightarrow> nat \<Rightarrow> xp_error + u8 list" where
  "decode_block lz4 oodle codec source decoded =
     (let check = (\<lambda>r. case r of Some bs \<Rightarrow> if length bs = decoded then Inr bs else Inl DecompressionFailed
                              | None \<Rightarrow> Inl DecompressionFailed)
      in if codec = 0 then Inr source
         else if codec = 4 \<or> codec = 5 then check (lz4 source decoded)
         else if codec = 6 \<or> codec = 7 then
           (case oodle of None \<Rightarrow> Inl DecoderUnavailable | Some f \<Rightarrow> check (f source decoded))
         else Inl UnsupportedCodec)"

record decode_state =
  ds_at :: nat
  ds_destination :: nat
  ds_commands :: nat
  ds_output :: "u8 list"
  ds_ranges :: "(nat \<times> nat) list"

definition put_bytes :: "nat \<Rightarrow> u8 list \<Rightarrow> u8 list \<Rightarrow> u8 list" where
  "put_bytes at bs out = take at out @ bs @ drop (at + length bs) out"

definition round4 :: "nat \<Rightarrow> nat" where
  "round4 n = align_up n 4"

text \<open>The block of a descriptor, with the codec and the length of the descriptor; codec 207 is skipped.\<close>

definition decode_into ::
  "decoder \<Rightarrow> decoder option \<Rightarrow> u8 list \<Rightarrow> nat \<Rightarrow> nat \<Rightarrow> nat \<Rightarrow> decode_state \<Rightarrow> xp_error + decode_state" where
  "decode_into lz4 oodle input outputSize codec len s =
     (if codec = 207 then Inr s
      else let dest = ds_destination s;
               decoded = (if codec \<noteq> 0 then min (outputSize - dest) 0x3ffe0 else len)
        in if len = 0 \<or> decoded = 0 \<or> outputSize - dest < decoded then Inl ExceedsOutput
           else ebind (decode_block lz4 oodle codec (take len (drop (ds_at s) input)) decoded) (\<lambda>bs.
             Inr (s\<lparr>ds_output := put_bytes dest bs (ds_output s),
                    ds_ranges := ds_ranges s @ [(dest, dest + decoded)],
                    ds_destination := dest + decoded\<rparr>)))"

text \<open>One command of a group of \<open>cnt\<close>, the header of the group being at \<open>header\<close>.\<close>

definition decode_command ::
  "decoder \<Rightarrow> decoder option \<Rightarrow> u8 list \<Rightarrow> nat \<Rightarrow> nat \<Rightarrow> nat \<Rightarrow> nat \<Rightarrow> decode_state \<Rightarrow> xp_error + decode_state" where
  "decode_command lz4 oodle input outputSize header cnt i s =
     (if 65536 < ds_commands s + 1 then Inl CommandBudget
      else ebind (xp_Number 4 input (header + 8 + i * 4)) (\<lambda>descriptor.
        let codec = descriptor div 2 ^ 24; len = descriptor mod 2 ^ 24
        in if length input < ds_at s \<or> length input - ds_at s < len then Inl TruncatedBlock
           else ebind (decode_into lz4 oodle input outputSize codec len (s\<lparr>ds_commands := ds_commands s + 1\<rparr>)) (\<lambda>s.
             let s = s\<lparr>ds_at := ds_at s + round4 len\<rparr>
             in if length input < ds_at s \<and> i + 1 \<noteq> cnt then Inl TruncatedAlignment else Inr s)))"

fun decode_commands ::
  "decoder \<Rightarrow> decoder option \<Rightarrow> u8 list \<Rightarrow> nat \<Rightarrow> nat \<Rightarrow> nat \<Rightarrow> nat list \<Rightarrow> decode_state \<Rightarrow> xp_error + decode_state" where
  "decode_commands lz4 oodle input outputSize header cnt [] s = Inr s"
| "decode_commands lz4 oodle input outputSize header cnt (i # is) s =
     ebind (decode_command lz4 oodle input outputSize header cnt i s)
       (decode_commands lz4 oodle input outputSize header cnt is)"

lemma decode_into_at: "decode_into lz4 oodle input n codec len s = Inr s' \<Longrightarrow> ds_at s' = ds_at s"
  by (auto simp: decode_into_def Let_def ebind_eq_Inr_iff split: if_splits)

lemma decode_command_at: "decode_command lz4 oodle input n h c i s = Inr s' \<Longrightarrow> ds_at s \<le> ds_at s'"
  by (auto simp: decode_command_def Let_def ebind_eq_Inr_iff split: if_splits dest!: decode_into_at)

lemma decode_commands_at: "decode_commands lz4 oodle input n h c is s = Inr s' \<Longrightarrow> ds_at s \<le> ds_at s'"
  by (induction "is" arbitrary: s) (auto simp: ebind_eq_Inr_iff dest: decode_command_at intro: order_trans)

text \<open>One group: its header of 128 bytes, its commands, and the alignment behind them.\<close>

definition decode_group :: "decoder \<Rightarrow> decoder option \<Rightarrow> u8 list \<Rightarrow> nat \<Rightarrow> decode_state \<Rightarrow> xp_error + decode_state" where
  "decode_group lz4 oodle input outputSize s =
     (let header = ds_at s
      in if length input - header < 128 then Inl TruncatedCommand
         else ebind (xp_Number 4 input header) (\<lambda>cnt. ebind (xp_Number 4 input (header + 4)) (\<lambda>destination.
           if cnt = 0 \<or> 30 < cnt \<or> outputSize < destination then Inl InvalidCommand
           else ebind (decode_commands lz4 oodle input outputSize header cnt [0..<cnt]
                  (s\<lparr>ds_at := header + 128, ds_destination := destination\<rparr>)) (\<lambda>s.
                Inr (s\<lparr>ds_at := align_up (ds_at s) 128\<rparr>)))))"

lemma decode_group_at: "decode_group lz4 oodle input n s = Inr s' \<Longrightarrow> ds_at s < ds_at s'"
proof -
  assume g: "decode_group lz4 oodle input n s = Inr s'"
  obtain c d t where t: "decode_commands lz4 oodle input n (ds_at s) c [0..<c]
      (s\<lparr>ds_at := ds_at s + 128, ds_destination := d\<rparr>) = Inr t" and s': "s' = t\<lparr>ds_at := align_up (ds_at t) 128\<rparr>"
    using g by (auto simp: decode_group_def Let_def ebind_eq_Inr_iff split: if_splits)
  have "ds_at s + 128 \<le> ds_at t" using decode_commands_at [OF t] by simp
  moreover have "ds_at t \<le> align_up (ds_at t) 128" by (rule align_up_ge) simp
  ultimately show ?thesis by (simp add: s')
qed

function decode_groups :: "decoder \<Rightarrow> decoder option \<Rightarrow> u8 list \<Rightarrow> nat \<Rightarrow> decode_state \<Rightarrow> xp_error + decode_state" where
  "decode_groups lz4 oodle input outputSize s =
     (if ds_at s < length input
      then ebind (decode_group lz4 oodle input outputSize s) (decode_groups lz4 oodle input outputSize)
      else Inr s)"
  by pat_completeness auto
termination
  by (relation "measure (\<lambda>(_, _, input, _, s). length input - ds_at s)") (auto dest: decode_group_at)

declare decode_groups.simps [simp del]

text \<open>The final check: the sorted ranges tile the output.\<close>

fun check_ranges :: "(nat \<times> nat) list \<Rightarrow> nat \<Rightarrow> xp_error + nat" where
  "check_ranges [] covered = Inr covered"
| "check_ranges ((b, e) # rs) covered = (if b \<noteq> covered then Inl GapOrOverlap else check_ranges rs e)"

definition DecodeBlocks :: "decoder \<Rightarrow> decoder option \<Rightarrow> u8 list \<Rightarrow> nat \<Rightarrow> nat \<Rightarrow> xp_error + u8 list" where
  "DecodeBlocks lz4 oodle input outputSize maxBytes =
     (if maxBytes < length input \<or> maxBytes < outputSize then Inl ExceedsBudget
      else ebind (decode_groups lz4 oodle input outputSize
               \<lparr>ds_at = 0, ds_destination = 0, ds_commands = 0, ds_output = replicate outputSize 0, ds_ranges = []\<rparr>)
        (\<lambda>s. ebind (check_ranges (sort (ds_ranges s)) 0) (\<lambda>covered.
          if covered \<noteq> outputSize then Inl Incomplete else Inr (ds_output s))))"

section \<open>Archives\<close>

type_synonym read_at = "nat \<Rightarrow> nat \<Rightarrow> u8 list option"

record xp_entry =
  xe_key :: u64
  xe_offset :: nat
  xe_size :: nat
  xe_compressed :: bool

record xp_limits =
  lim_index :: nat
  lim_payload :: nat
  lim_metadata :: nat

definition default_limits :: xp_limits where
  "default_limits = \<lparr>lim_index = 64 * 1024 * 1024, lim_payload = 128 * 1024 * 1024, lim_metadata = 65536\<rparr>"

record archive =
  ar_fileSize :: nat
  ar_dataOffset :: nat
  ar_dataSize :: nat
  ar_metaOffset :: nat
  ar_metaSize :: nat
  ar_metaCount :: nat
  ar_limits :: xp_limits
  ar_entries :: "xp_entry list"

definition ar_Read :: "read_at \<Rightarrow> nat \<Rightarrow> nat \<Rightarrow> nat \<Rightarrow> xp_error + u8 list" where
  "ar_Read rd fileSize off len =
     (if fileSize < off \<or> fileSize - off < len then Inl OutsideFile
      else if len = 0 then Inr []
      else case rd off len of None \<Rightarrow> Inl CannotRead | Some bs \<Rightarrow> Inr bs)"

definition section_ok :: "nat \<Rightarrow> nat \<Rightarrow> nat \<Rightarrow> xp_error + unit" where
  "section_ok fileSize off len =
     guard_or InvalidSection (\<not> (fileSize < off \<or> fileSize - off < len \<or> len \<noteq> 0 \<and> off < 800))"

text \<open>The loop that reads the index, from entry \<open>i\<close> with \<open>n\<close> entries to go.\<close>

fun read_entries :: "u8 list \<Rightarrow> nat \<Rightarrow> nat \<Rightarrow> nat \<Rightarrow> nat \<Rightarrow> xp_entry list \<Rightarrow> xp_error + xp_entry list" where
  "read_entries index dOff dSize i 0 es = Inr es"
| "read_entries index dOff dSize i (Suc n) es =
     ebind (xp_Number 8 index (i * 24)) (\<lambda>key. ebind (xp_Number 8 index (i * 24 + 8)) (\<lambda>off.
     ebind (xp_Number 8 index (i * 24 + 16)) (\<lambda>packed.
       let len = packed mod 2 ^ 63; k = of_nat key
       in if dSize < off \<or> dSize - off < len \<or> (es \<noteq> [] \<and> k \<le> xe_key (last es)) then Inl InvalidEntry
          else read_entries index dOff dSize (i + 1) n
                 (es @ [\<lparr>xe_key = k, xe_offset = dOff + off, xe_size = len, xe_compressed = (2 ^ 63 \<le> packed)\<rparr>]))))"

definition Archive :: "read_at \<Rightarrow> nat \<Rightarrow> xp_limits \<Rightarrow> xp_error + archive" where
  "Archive rd fileSize lim =
     ebind (ar_Read rd fileSize 0 800) (\<lambda>header.
     ebind (xp_Number 4 header 0) (\<lambda>magic. ebind (if magic \<noteq> 0x4950414b then Inr 0 else xp_Number 2 header 6) (\<lambda>version.
       if magic \<noteq> 0x4950414b \<or> version \<noteq> 13 then Inl NotXpak
       else
     ebind (xp_Number 8 header 16) (\<lambda>size. if size \<noteq> fileSize then Inl SizeMismatch else
     ebind (xp_Number 8 header 0x140) (\<lambda>dOff. ebind (xp_Number 8 header 0x148) (\<lambda>dSize.
     ebind (xp_Number 8 header 0x150) (\<lambda>cnt. ebind (xp_Number 8 header 0x158) (\<lambda>iOff. ebind (xp_Number 8 header 0x160) (\<lambda>iSize.
     ebind (xp_Number 8 header 0x180) (\<lambda>mCount. ebind (xp_Number 8 header 0x188) (\<lambda>mOff. ebind (xp_Number 8 header 0x190) (\<lambda>mSize.
     ebind (section_ok fileSize dOff dSize) (\<lambda>_. ebind (section_ok fileSize iOff iSize) (\<lambda>_. ebind (section_ok fileSize mOff mSize) (\<lambda>_.
       if lim_index lim < iSize \<or> lim_index lim div 24 < cnt \<or> iSize \<noteq> cnt * 24 \<or> cnt < mCount then Inl InvalidIndex
       else
     ebind (ar_Read rd fileSize iOff iSize) (\<lambda>index.
     ebind (read_entries index dOff dSize 0 cnt []) (\<lambda>es.
       Inr \<lparr>ar_fileSize = fileSize, ar_dataOffset = dOff, ar_dataSize = dSize, ar_metaOffset = mOff,
            ar_metaSize = mSize, ar_metaCount = mCount, ar_limits = lim, ar_entries = es\<rparr>)))))))))))))))))"

text \<open>\<^verbatim>\<open>std::lower_bound\<close>: halving the range \<open>[first, first + len)\<close>.\<close>

fun lower_bound :: "xp_entry list \<Rightarrow> u64 \<Rightarrow> nat \<Rightarrow> nat \<Rightarrow> nat" where
  "lower_bound es k first len =
     (if len = 0 then first
      else let half = len div 2
        in if xe_key (es ! (first + half)) < k then lower_bound es k (first + half + 1) (len - half - 1)
           else lower_bound es k first half)"

declare lower_bound.simps [simp del]

definition ar_Find :: "archive \<Rightarrow> u64 \<Rightarrow> xp_entry option" where
  "ar_Find a k =
     (let at = lower_bound (ar_entries a) k 0 (length (ar_entries a))
      in if at < length (ar_entries a) \<and> xe_key (ar_entries a ! at) = k then Some (ar_entries a ! at) else None)"

fun metadata_loop :: "read_at \<Rightarrow> archive \<Rightarrow> u64 \<Rightarrow> nat \<Rightarrow> nat \<Rightarrow> xp_error + u8 list option" where
  "metadata_loop rd a k at 0 = Inr None"
| "metadata_loop rd a k at (Suc n) =
     (if ar_metaSize a < at \<or> ar_metaSize a - at < 16 then Inl TruncatedMetadata
      else ebind (ar_Read rd (ar_fileSize a) (ar_metaOffset a + at) 16) (\<lambda>header.
           ebind (xp_Number 8 header 0) (\<lambda>recordKey. ebind (xp_Number 8 header 8) (\<lambda>len.
             let at = at + 16
             in if ar_metaSize a - at < len \<or> lim_metadata (ar_limits a) < len then Inl InvalidMetadata
                else if of_nat recordKey = k
                  then ebind (ar_Read rd (ar_fileSize a) (ar_metaOffset a + at) len) (\<lambda>v. Inr (Some v))
                  else metadata_loop rd a k (at + len) n))))"

definition ar_Metadata :: "read_at \<Rightarrow> archive \<Rightarrow> u64 \<Rightarrow> xp_error + u8 list option" where
  "ar_Metadata rd a k = metadata_loop rd a k 0 (ar_metaCount a)"

definition ar_Extract ::
  "decoder \<Rightarrow> decoder option \<Rightarrow> read_at \<Rightarrow> archive \<Rightarrow> u64 \<Rightarrow> nat \<Rightarrow> xp_error + u8 list" where
  "ar_Extract lz4 oodle rd a k outputSize =
     (case ar_Find a k of
        None \<Rightarrow> Inl KeyNotFound
      | Some e \<Rightarrow>
          if lim_payload (ar_limits a) < xe_size e \<or> lim_payload (ar_limits a) < outputSize then Inl ExceedsBudget
          else ebind (ar_Read rd (ar_fileSize a) (xe_offset e) (xe_size e)) (\<lambda>bytes.
            if xe_compressed e then DecodeBlocks lz4 oodle bytes outputSize (lim_payload (ar_limits a))
            else if length bytes \<noteq> outputSize then Inl RawSizeMismatch
            else Inr bytes))"

end
