(* ===== verification/Xpak_Properties.thy ===== *)
theory Xpak_Properties
  imports Xpak
begin

text \<open>
  Properties of the XPak archives: a decoded payload is exactly its blocks laid end to end, and the
  index of an archive is sorted, inside the data section, and searched correctly.
\<close>

section \<open>The blocks of a payload\<close>

definition block_of :: "decoder \<Rightarrow> decoder option \<Rightarrow> u8 list \<Rightarrow> u8 list \<Rightarrow> bool" where
  "block_of lz4 oodle input bs \<longleftrightarrow> (\<exists>codec at len decoded. at + len \<le> length input \<and> bs \<noteq> [] \<and>
     decode_block lz4 oodle codec (take len (drop at input)) decoded = Inr bs)"

definition block_range :: "nat \<times> u8 list \<Rightarrow> nat \<times> nat" where
  "block_range w = (fst w, fst w + length (snd w))"

definition write_all :: "(nat \<times> u8 list) list \<Rightarrow> u8 list \<Rightarrow> u8 list" where
  "write_all ws out = fold (\<lambda>(d, bs). put_bytes d bs) ws out"

text \<open>The state after some commands: the output is the decoded blocks, written in the order of the commands.\<close>

definition decoded_by :: "decoder \<Rightarrow> decoder option \<Rightarrow> u8 list \<Rightarrow> nat \<Rightarrow> (nat \<times> u8 list) list \<Rightarrow> decode_state \<Rightarrow> bool" where
  "decoded_by lz4 oodle input n ws s \<longleftrightarrow>
     ds_ranges s = map block_range ws \<and> ds_output s = write_all ws (replicate n 0) \<and> ds_destination s \<le> n \<and>
     (\<forall>w\<in>set ws. fst w + length (snd w) \<le> n \<and> block_of lz4 oodle input (snd w))"

lemma decode_block_length:
  "decode_block lz4 oodle codec src decoded = Inr bs \<Longrightarrow> codec = 0 \<longrightarrow> length src = decoded \<Longrightarrow> length bs = decoded"
  by (auto simp: decode_block_def Let_def split: if_splits option.splits)

lemma decode_into_decoded:
  assumes "decode_into lz4 oodle input n codec len s = Inr s'" "decoded_by lz4 oodle input n ws s"
    and len: "ds_at s + len \<le> length input"
  shows "\<exists>ws'. decoded_by lz4 oodle input n ws' s'"
proof (cases "codec = 207")
  case True
  then show ?thesis using assms(1,2) by (auto simp: decode_into_def)
next
  case False
  let ?dest = "ds_destination s"
  let ?decoded = "if codec \<noteq> 0 then min (n - ?dest) 0x3ffe0 else len"
  obtain bs where bs: "decode_block lz4 oodle codec (take len (drop (ds_at s) input)) ?decoded = Inr bs"
    and ok: "?decoded \<noteq> 0" "?decoded \<le> n - ?dest"
    and s': "s' = s\<lparr>ds_output := put_bytes ?dest bs (ds_output s),
                   ds_ranges := ds_ranges s @ [(?dest, ?dest + ?decoded)], ds_destination := ?dest + ?decoded\<rparr>"
    using assms(1) False by (auto simp: decode_into_def Let_def ebind_eq_Inr_iff not_less split del: if_split)
       (auto simp: ebind_eq_Inr_iff split: if_splits)
  have l: "length bs = ?decoded" by (rule decode_block_length [OF bs]) (use len in auto)
  have "bs \<noteq> []" using l ok(1) by auto
  then have "block_of lz4 oodle input bs" using bs len unfolding block_of_def by blast
  moreover have "?dest + ?decoded \<le> n" using ok(2) assms(2) unfolding decoded_by_def by linarith
  ultimately have "decoded_by lz4 oodle input n (ws @ [(?dest, bs)]) s'"
    using assms(2) unfolding decoded_by_def s' l [symmetric]
    by (auto simp: block_range_def write_all_def)
  then show ?thesis by blast
qed

lemma decode_command_decoded:
  assumes "decode_command lz4 oodle input n h c i s = Inr s'" "decoded_by lz4 oodle input n ws s"
  shows "\<exists>ws'. decoded_by lz4 oodle input n ws' s'"
proof -
  let ?go = "\<lambda>codec len. decode_into lz4 oodle input n codec len (s\<lparr>ds_commands := ds_commands s + 1\<rparr>)"
  obtain d t where l0: "\<not> length input < ds_at s" "\<not> length input - ds_at s < d mod 2 ^ 24"
    and t: "?go (d div 2 ^ 24) (d mod 2 ^ 24) = Inr t"
    and r: "(if length input < ds_at t + round4 (d mod 2 ^ 24) \<and> i + 1 \<noteq> c then Inl TruncatedAlignment
             else Inr (t\<lparr>ds_at := ds_at t + round4 (d mod 2 ^ 24)\<rparr>)) = Inr s'"
    using assms(1) unfolding decode_command_def Let_def
    by (simp only: returns_iff de_Morgan_disj simp_thms) (elim exE conjE, simp)
  then have l: "ds_at s + d mod 2 ^ 24 \<le> length input" and s': "s' = t\<lparr>ds_at := ds_at t + round4 (d mod 2 ^ 24)\<rparr>"
    by (linarith, auto split: if_splits)
  have "decoded_by lz4 oodle input n ws (s\<lparr>ds_commands := ds_commands s + 1\<rparr>)"
    using assms(2) by (simp add: decoded_by_def)
  from decode_into_decoded [OF t this] l show ?thesis by (auto simp: s' decoded_by_def)
qed

lemma decode_commands_decoded:
  "decode_commands lz4 oodle input n h c is s = Inr s' \<Longrightarrow> decoded_by lz4 oodle input n ws s \<Longrightarrow>
   \<exists>ws'. decoded_by lz4 oodle input n ws' s'"
proof (induction "is" arbitrary: s ws)
  case (Cons i "is")
  then obtain t where t: "decode_command lz4 oodle input n h c i s = Inr t" "decode_commands lz4 oodle input n h c is t = Inr s'"
    by (auto simp: ebind_eq_Inr_iff)
  obtain ws' where "decoded_by lz4 oodle input n ws' t" using decode_command_decoded [OF t(1) Cons.prems(2)] by blast
  from Cons.IH [OF t(2) this] show ?case .
qed auto

lemma decode_group_decoded:
  assumes "decode_group lz4 oodle input n s = Inr s'" "decoded_by lz4 oodle input n ws s"
  shows "\<exists>ws'. decoded_by lz4 oodle input n ws' s'"
proof -
  obtain c d t where t: "decode_commands lz4 oodle input n (ds_at s) c [0..<c]
      (s\<lparr>ds_at := ds_at s + 128, ds_destination := d\<rparr>) = Inr t" and s': "s' = t\<lparr>ds_at := align_up (ds_at t) 128\<rparr>"
    and d: "d \<le> n"
    using assms(1) by (auto simp: decode_group_def Let_def ebind_eq_Inr_iff not_less split: if_splits)
  have "decoded_by lz4 oodle input n ws (s\<lparr>ds_at := ds_at s + 128, ds_destination := d\<rparr>)"
    using assms(2) d by (simp add: decoded_by_def)
  from decode_commands_decoded [OF t this] show ?thesis by (auto simp: s' decoded_by_def)
qed

lemma decode_groups_decoded:
  "decode_groups lz4 oodle input n s = Inr s' \<Longrightarrow> decoded_by lz4 oodle input n ws s \<Longrightarrow>
   \<exists>ws'. decoded_by lz4 oodle input n ws' s'"
proof (induction lz4 oodle input n s arbitrary: ws rule: decode_groups.induct)
  case (1 lz4 oodle input n s)
  show ?case
  proof (cases "ds_at s < length input")
    case True
    then obtain t where t: "decode_group lz4 oodle input n s = Inr t" "decode_groups lz4 oodle input n t = Inr s'"
      using "1.prems"(1) by (auto simp: decode_groups.simps [of _ _ _ _ s] ebind_eq_Inr_iff)
    obtain ws' where "decoded_by lz4 oodle input n ws' t" using decode_group_decoded [OF t(1) "1.prems"(2)] by blast
    with "1.IH" [OF True t(1,2)] show ?thesis by blast
  qed (use 1 in \<open>auto simp: decode_groups.simps [of _ _ _ _ s]\<close>)
qed

section \<open>Tiling\<close>

lemma length_put_bytes: "at + length bs \<le> length out \<Longrightarrow> length (put_bytes at bs out) = length out"
  by (simp add: put_bytes_def)

lemma nth_put_bytes:
  "at + length bs \<le> length out \<Longrightarrow> i < length out \<Longrightarrow>
   put_bytes at bs out ! i = (if at \<le> i \<and> i < at + length bs then bs ! (i - at) else out ! i)"
  by (auto simp: put_bytes_def nth_append)

text \<open>Writes that agree with a text produce it where they write, in any order.\<close>

lemma write_all_agrees:
  assumes "\<forall>(d, bs)\<in>set ws. d + length bs \<le> length T \<and> take (length bs) (drop d T) = bs" "length out = length T"
  shows "length (write_all ws out) = length T \<and>
    (\<forall>i<length T. (out ! i = T ! i \<or> (\<exists>(d, bs)\<in>set ws. d \<le> i \<and> i < d + length bs)) \<longrightarrow> write_all ws out ! i = T ! i)"
  using assms
proof (induction ws arbitrary: out)
  case (Cons w ws)
  obtain d bs where w: "w = (d, bs)" by (cases w)
  have f: "d + length bs \<le> length T" "take (length bs) (drop d T) = bs" using Cons.prems(1) w by auto
  let ?o = "put_bytes d bs out"
  have lo: "length ?o = length T" using f(1) Cons.prems(2) by (simp add: length_put_bytes)
  have b: "bs ! (i - d) = T ! i" if "d \<le> i" "i < d + length bs" for i
  proof -
    have "take (length bs) (drop d T) ! (i - d) = T ! i" using that f(1) by simp
    then show ?thesis by (simp only: f(2))
  qed
  have o: "?o ! i = (if d \<le> i \<and> i < d + length bs then T ! i else out ! i)" if "i < length T" for i
    using that f(1) Cons.prems(2) by (simp add: nth_put_bytes b)
  have "write_all (w # ws) out = write_all ws ?o" by (simp add: write_all_def w)
  then show ?case using Cons.IH [of ?o] Cons.prems(1) lo o by (auto simp: w)
qed (simp add: write_all_def)

lemma check_ranges_tile:
  "check_ranges (map block_range ws) c = Inr n \<Longrightarrow>
   c + length (concat (map snd ws)) = n \<and>
   (\<forall>(d, bs)\<in>set ws. c \<le> d \<and> take (length bs) (drop (d - c) (concat (map snd ws))) = bs) \<and>
   (\<forall>i. c \<le> i \<longrightarrow> i < n \<longrightarrow> (\<exists>(d, bs)\<in>set ws. d \<le> i \<and> i < d + length bs)) \<and>
   (\<forall>j<length ws. fst (ws ! j) = c + length (concat (map snd (take j ws))))"
proof (induction ws arbitrary: c)
  case (Cons w ws)
  obtain d bs where w: "w = (d, bs)" by (cases w)
  have d: "d = c" and r: "check_ranges (map block_range ws) (c + length bs) = Inr n"
    using Cons.prems by (auto simp: w block_range_def [of "(d, bs)"] split: if_splits)
  note IH = Cons.IH [OF r]
  have l: "c + length (concat (map snd (w # ws))) = n" using IH by (simp add: w)
  have t: "\<forall>(d, bs)\<in>set (w # ws). c \<le> d \<and> take (length bs) (drop (d - c) (concat (map snd (w # ws)))) = bs"
  proof -
    have "c \<le> d' \<and> take (length bs') (drop (d' - c) (bs @ concat (map snd ws))) = bs'" if "(d', bs') \<in> set ws" for d' bs'
    proof -
      have h: "c + length bs \<le> d'" "take (length bs') (drop (d' - (c + length bs)) (concat (map snd ws))) = bs'"
        using IH that by auto
      have "d' - c = length bs + (d' - (c + length bs))" using h(1) by linarith
      then have "drop (d' - c) (bs @ concat (map snd ws)) = drop (d' - (c + length bs)) (concat (map snd ws))"
        by simp
      then show ?thesis using h by simp
    qed
    then show ?thesis by (auto simp: w d)
  qed
  have cov: "\<exists>(d, bs)\<in>set (w # ws). d \<le> i \<and> i < d + length bs" if "c \<le> i" "i < n" for i
    using IH that by (cases "i < c + length bs") (auto simp: w d)
  have "fst ((w # ws) ! j) = c + length (concat (map snd (take j (w # ws))))" if "j < length (w # ws)" for j
    using IH that by (cases j) (auto simp: w d)
  with l t cov show ?case by blast
qed simp

text \<open>
  C4. A payload that decodes is exact: its bytes are decoded blocks of the input laid end to end, each
  at the destination its command names, one for each range that was recorded; there is no gap, no
  overlap and no left-over zero, in whatever order the groups are stored.
\<close>

theorem DecodeBlocks_exact:
  assumes "DecodeBlocks lz4 oodle input n maxBytes = Inr out"
  shows "length out = n \<and>
    (\<exists>s ws. decode_groups lz4 oodle input n \<lparr>ds_at = 0, ds_destination = 0, ds_commands = 0,
          ds_output = replicate n 0, ds_ranges = []\<rparr> = Inr s \<and>
       mset (ds_ranges s) = mset (map block_range ws) \<and>
       (\<forall>w\<in>set ws. block_of lz4 oodle input (snd w)) \<and>
       (\<forall>j<length ws. fst (ws ! j) = length (concat (map snd (take j ws)))) \<and>
       out = concat (map snd ws))"
proof -
  let ?s0 = "\<lparr>ds_at = 0, ds_destination = 0, ds_commands = 0, ds_output = replicate n 0, ds_ranges = []\<rparr>"
  obtain s where s: "decode_groups lz4 oodle input n ?s0 = Inr s" and c: "check_ranges (sort (ds_ranges s)) 0 = Inr n"
    and out: "out = ds_output s"
    using assms by (auto simp: DecodeBlocks_def ebind_eq_Inr_iff split: if_splits)
  have "decoded_by lz4 oodle input n [] ?s0" by (simp add: decoded_by_def write_all_def)
  then obtain ws where ws: "decoded_by lz4 oodle input n ws s" using decode_groups_decoded [OF s] by blast
  let ?ws = "sort_key block_range ws" and ?T = "concat (map snd (sort_key block_range ws))"
  have "sort (ds_ranges s) = map block_range ?ws"
    by (rule properties_for_sort) (use ws in \<open>simp_all add: decoded_by_def\<close>)
  then have "check_ranges (map block_range ?ws) 0 = Inr n" using c by simp
  note tile = check_ranges_tile [OF this]
  have lT: "length ?T = n" using tile by simp
  have fit: "d + length bs \<le> n" if "(d, bs) \<in> set ws" for d bs using ws that by (force simp: decoded_by_def)
  have ag: "\<forall>(d, bs)\<in>set ws. d + length bs \<le> length ?T \<and> take (length bs) (drop d ?T) = bs"
    using tile fit lT by auto
  have cov: "\<exists>(d, bs)\<in>set ws. d \<le> i \<and> i < d + length bs" if "i < n" for i
    using tile that by auto
  have "write_all ws (replicate n 0) = ?T"
    using write_all_agrees [OF ag, of "replicate n 0"] lT cov by (intro nth_equalityI) auto
  then have o: "out = ?T" using ws out by (simp add: decoded_by_def)
  have b: "\<forall>w\<in>set ?ws. block_of lz4 oodle input (snd w)" using ws by (simp add: decoded_by_def)
  have f: "\<forall>j<length ?ws. fst (?ws ! j) = length (concat (map snd (take j ?ws)))" using tile by simp
  have m: "mset (ds_ranges s) = mset (map block_range ?ws)" using ws by (simp add: decoded_by_def)
  show ?thesis using s m b f o lT by blast
qed

definition demo_payload :: "u8 list" where
  "demo_payload = le_bytes 4 1 @ le_bytes 4 0 @ le_bytes 4 4 @ replicate 116 0 @ [1, 2, 3, 4]"

lemma xp_Number_append:
  "xp_Number w (xs @ ys) at = (if length xs \<le> at then xp_Number w ys (at - length xs)
     else if at + w \<le> length xs then xp_Number w xs at else xp_Number w (xs @ ys) at)"
  by (auto simp: xp_Number_def)

lemma xp_Number_head: "xp_Number w (le_bytes w v @ ys) 0 = Inr (v mod 256 ^ w)"
  by (simp add: xp_Number_def le_nat_le_bytes)

lemma xp_Number_skip: "length xs \<le> at \<Longrightarrow> xp_Number w (xs @ ys) at = xp_Number w ys (at - length xs)"
  by (auto simp: xp_Number_def)

lemma demo_payload_decodes: "DecodeBlocks (\<lambda>_ _. None) None demo_payload 4 1000 = Inr [1, 2, 3, 4]"
  by (simp add: DecodeBlocks_def decode_groups.simps decode_group_def demo_payload_def xp_Number_skip xp_Number_head
      decode_command_def decode_into_def decode_block_def put_bytes_def round4_def align_up_def Let_def upt_rec del: One_nat_def)

lemma DecodeBlocks_exact_witness: "length ([1, 2, 3, 4] :: u8 list) = 4 \<and>
   DecodeBlocks (\<lambda>_ _. None) None demo_payload 4 1000 = Inr [1, 2, 3, 4]"
  using DecodeBlocks_exact [OF demo_payload_decodes] demo_payload_decodes by blast

section \<open>The index of an archive\<close>

lemma lower_bound_spec:
  "first + len \<le> length es \<Longrightarrow> sorted_wrt (<) (map xe_key es) \<Longrightarrow>
   let r = lower_bound es k first len in first \<le> r \<and> r \<le> first + len \<and>
     (\<forall>i. first \<le> i \<longrightarrow> i < r \<longrightarrow> xe_key (es ! i) < k) \<and>
     (\<forall>i. r \<le> i \<longrightarrow> i < first + len \<longrightarrow> k \<le> xe_key (es ! i))"
proof (induction es k first len rule: lower_bound.induct)
  case (1 es k first len)
  have mono: "xe_key (es ! i) \<le> xe_key (es ! j)" if "i \<le> j" "j < length es" for i j
    using sorted_wrt_nth_less [OF "1.prems"(2), of i j] that by (cases "i = j") auto
  let ?m = "first + len div 2"
  consider "len = 0" | "len \<noteq> 0" "xe_key (es ! ?m) < k" | "len \<noteq> 0" "\<not> xe_key (es ! ?m) < k" by blast
  then show ?case
  proof cases
    case 1 then show ?thesis by (simp add: lower_bound.simps)
  next
    case 2
    have e: "lower_bound es k first len = lower_bound es k (?m + 1) (len - len div 2 - 1)"
      using 2 by (simp add: lower_bound.simps [of es k first len] Let_def)
    have l: "?m + 1 + (len - len div 2 - 1) = first + len" using 2 by linarith
    have IH: "?m + 1 \<le> lower_bound es k first len \<and> lower_bound es k first len \<le> first + len \<and>
       (\<forall>i. ?m + 1 \<le> i \<longrightarrow> i < lower_bound es k first len \<longrightarrow> xe_key (es ! i) < k) \<and>
       (\<forall>i. lower_bound es k first len \<le> i \<longrightarrow> i < first + len \<longrightarrow> k \<le> xe_key (es ! i))"
      using "1.IH"(1) [OF 2(1) refl 2(2)] "1.prems" unfolding Let_def l e by blast
    have ml: "?m < length es" using 2(1) "1.prems"(1) by linarith
    have "xe_key (es ! i) < k" if "i \<le> ?m" for i by (rule le_less_trans [OF mono [OF that ml] 2(2)])
    then have "xe_key (es ! i) < k" if "i < lower_bound es k first len" for i
      using IH that by (cases "i \<le> ?m") auto
    then show ?thesis using IH unfolding Let_def by auto
  next
    case 3
    have e: "lower_bound es k first len = lower_bound es k first (len div 2)"
      using 3 by (simp add: lower_bound.simps [of es k first len] Let_def)
    have IH: "first \<le> lower_bound es k first len \<and> lower_bound es k first len \<le> ?m \<and>
       (\<forall>i. first \<le> i \<longrightarrow> i < lower_bound es k first len \<longrightarrow> xe_key (es ! i) < k) \<and>
       (\<forall>i. lower_bound es k first len \<le> i \<longrightarrow> i < ?m \<longrightarrow> k \<le> xe_key (es ! i))"
      using "1.IH"(2) [OF 3(1) refl 3(2) _ "1.prems"(2)] "1.prems"(1) unfolding Let_def e by fastforce
    have "k \<le> xe_key (es ! i)" if "?m \<le> i" "i < first + len" for i
      using mono [OF that(1)] that(2) "1.prems"(1) 3(2) by fastforce
    then have "k \<le> xe_key (es ! i)" if "lower_bound es k first len \<le> i" "i < first + len" for i
      using IH that by (cases "i < ?m") auto
    moreover have "lower_bound es k first len \<le> first + len" using IH by linarith
    ultimately show ?thesis using IH unfolding Let_def by blast
  qed
qed

lemma ar_Find_map_of:
  assumes "sorted_wrt (<) (map xe_key (ar_entries a))"
  shows "ar_Find a k = map_of (map (\<lambda>e. (xe_key e, e)) (ar_entries a)) k"
proof -
  let ?es = "ar_entries a" and ?r = "lower_bound (ar_entries a) k 0 (length (ar_entries a))"
  have r: "\<forall>i<?r. xe_key (?es ! i) < k" "\<forall>i. ?r \<le> i \<longrightarrow> i < length ?es \<longrightarrow> k \<le> xe_key (?es ! i)"
    using lower_bound_spec [of 0 "length ?es" ?es k] assms by (auto simp: Let_def)
  have dist: "distinct (map xe_key ?es)"
    using assms by (simp add: strict_sorted_iff)
  show ?thesis
  proof (cases "\<exists>i<length ?es. xe_key (?es ! i) = k")
    case True
    then obtain i where i: "i < length ?es" "xe_key (?es ! i) = k" by blast
    have ri: "?r \<le> i" using r(1) i(2) by (meson not_le less_irrefl)
    have "i = ?r"
    proof (rule ccontr)
      assume "i \<noteq> ?r"
      then have "?r < i" using ri by simp
      then have "xe_key (?es ! ?r) < xe_key (?es ! i)" using sorted_wrt_nth_less [OF assms, of ?r i] i(1) by simp
      moreover have "k \<le> xe_key (?es ! ?r)" using r(2) ri i(1) by (meson le_less_trans le_refl)
      ultimately show False using i(2) by simp
    qed
    then have "ar_Find a k = Some (?es ! i)" using i by (simp add: ar_Find_def Let_def)
    moreover have "map_of (map (\<lambda>e. (xe_key e, e)) ?es) k = Some (?es ! i)"
      using dist i by (intro map_of_is_SomeI) (force simp: comp_def in_set_conv_nth)+
    ultimately show ?thesis by simp
  next
    case False
    then have "map_of (map (\<lambda>e. (xe_key e, e)) ?es) k = None"
      by (auto simp: map_of_eq_None_iff in_set_conv_nth)
    then show ?thesis using False by (auto simp: ar_Find_def Let_def)
  qed
qed

lemma read_entries_spec:
  assumes "read_entries index dOff dSize i n es = Inr es'"
    and "sorted_wrt (<) (map xe_key es)" and "\<forall>e\<in>set es. dOff \<le> xe_offset e \<and> xe_offset e + xe_size e \<le> dOff + dSize"
  shows "sorted_wrt (<) (map xe_key es') \<and> (\<forall>e\<in>set es'. dOff \<le> xe_offset e \<and> xe_offset e + xe_size e \<le> dOff + dSize)"
  using assms
proof (induction n arbitrary: i es)
  case (Suc n)
  then obtain k off len c where g: "\<not> dSize < off" "\<not> dSize - off < len" "es = [] \<or> xe_key (last es) < k"
    and r: "read_entries index dOff dSize (i + 1) n (es @ [\<lparr>xe_key = k, xe_offset = dOff + off, xe_size = len, xe_compressed = c\<rparr>]) = Inr es'"
    unfolding read_entries.simps returns_iff Let_def de_Morgan_disj de_Morgan_conj not_le not_not
    by (elim exE conjE) blast
  have "xe_key e < k" if "e \<in> set es" for e
  proof -
    have "es \<noteq> []" using that by auto
    then have "xe_key e \<le> xe_key (last es)"
      using Suc.prems(2) that by (induction es rule: rev_induct) (auto simp: sorted_wrt_append)
    then show ?thesis using g(3) \<open>es \<noteq> []\<close> by simp
  qed
  then show ?case using g Suc.prems(2,3) by (intro Suc.IH [OF r]) (auto simp: sorted_wrt_append)
qed simp

text \<open>
  C24. An archive that opens has an index with strictly increasing keys whose entries lie in the data
  section, inside the file; so the binary search finds an entry exactly when the key is in the index,
  and reading the payload of an entry never falls outside the file.
\<close>

theorem Archive_find:
  assumes "Archive rd fileSize lim = Inr a"
  shows "sorted_wrt (<) (map xe_key (ar_entries a)) \<and>
    ar_Find a k = map_of (map (\<lambda>e. (xe_key e, e)) (ar_entries a)) k \<and>
    (\<forall>e. ar_Find a k = Some e \<longrightarrow> xe_key e = k \<and> ar_dataOffset a \<le> xe_offset e \<and>
       xe_offset e + xe_size e \<le> ar_dataOffset a + ar_dataSize a \<and>
       ar_dataOffset a + ar_dataSize a \<le> fileSize \<and>
       ar_Read rd (ar_fileSize a) (xe_offset e) (xe_size e) \<noteq> Inl OutsideFile)"
proof -
  obtain index cnt where re: "read_entries index (ar_dataOffset a) (ar_dataSize a) 0 cnt [] = Inr (ar_entries a)"
    and so: "section_ok fileSize (ar_dataOffset a) (ar_dataSize a) = Inr ()" and fs: "ar_fileSize a = fileSize"
    using assms unfolding Archive_def returns_iff Let_def by (elim exE conjE) auto
  note r = read_entries_spec [OF re]
  then have sorted: "sorted_wrt (<) (map xe_key (ar_entries a))" by simp
  have "e \<in> set (ar_entries a) \<and> xe_key e = k" if "ar_Find a k = Some e" for e
    using that unfolding ar_Find_map_of [OF sorted] by (auto dest: map_of_SomeD)
  moreover have "ar_dataOffset a + ar_dataSize a \<le> fileSize" using so by (auto simp: section_ok_def)
  ultimately have e: "xe_key e = k \<and> ar_dataOffset a \<le> xe_offset e \<and>
       xe_offset e + xe_size e \<le> ar_dataOffset a + ar_dataSize a \<and> ar_dataOffset a + ar_dataSize a \<le> fileSize"
    if "ar_Find a k = Some e" for e using r that by simp
  moreover have "ar_Read rd (ar_fileSize a) off len \<noteq> Inl OutsideFile" if "off + len \<le> fileSize" for off len
    using that by (auto simp: ar_Read_def fs split: option.splits)
  ultimately show ?thesis using sorted ar_Find_map_of [OF sorted] by (meson le_trans)
qed

definition demo_header :: "u8 list" where
  "demo_header = le_bytes 4 0x4950414b @ le_bytes 2 0 @ le_bytes 2 13 @ replicate 8 0 @ le_bytes 8 824 @ replicate 296 0 @
     le_bytes 8 800 @ le_bytes 8 0 @ le_bytes 8 1 @ le_bytes 8 800 @ le_bytes 8 24 @ replicate 24 0 @
     le_bytes 8 0 @ le_bytes 8 800 @ le_bytes 8 0 @ replicate 392 0"

definition demo_index :: "u8 list" where
  "demo_index = le_bytes 8 7 @ le_bytes 8 0 @ le_bytes 8 0"

definition demo_reader :: read_at where
  "demo_reader off len = (if off = 0 then Some demo_header else Some demo_index)"

lemma xp_Number_all: "xp_Number w (le_bytes w v) 0 = Inr (v mod 256 ^ w)"
  using xp_Number_head [of w v "[]"] by simp

lemma demo_index_entries:
  "read_entries demo_index 800 0 0 1 [] = Inr [\<lparr>xe_key = 7, xe_offset = 800, xe_size = 0, xe_compressed = False\<rparr>]"
  by (simp add: demo_index_def xp_Number_skip xp_Number_head xp_Number_all)

lemma Archive_find_witness:
  "\<exists>a e. Archive demo_reader 824 default_limits = Inr a \<and> ar_Find a 7 = Some e"
proof -
  let ?e = "\<lparr>xe_key = 7, xe_offset = 800, xe_size = 0, xe_compressed = False\<rparr>"
  have "\<exists>a. Archive demo_reader 824 default_limits = Inr a \<and> ar_entries a = [?e]"
    using demo_index_entries
    by (simp add: Archive_def ar_Read_def demo_reader_def demo_header_def xp_Number_skip xp_Number_head
        section_ok_def default_limits_def del: One_nat_def read_entries.simps)
  then obtain a where a: "Archive demo_reader 824 default_limits = Inr a" and es: "ar_entries a = [?e]" by blast
  have "map_of (map (\<lambda>e. (xe_key e, e)) (ar_entries a)) 7 = Some ?e" by (simp add: es)
  moreover have "ar_Find a 7 = map_of (map (\<lambda>e. (xe_key e, e)) (ar_entries a)) 7"
    using Archive_find [OF a, of 7] by (elim conjE)
  ultimately have "ar_Find a 7 = Some ?e" by (rule trans [rotated])
  with a show ?thesis by (intro exI conjI)
qed
end
