(* ===== verification/Crc.thy ===== *)
theory Crc
  imports Acts_Prelude
begin

text \<open>
  The cyclic redundancy checks of \<^verbatim>\<open>src/core/shared/utils/crc.hpp\<close>, \<^verbatim>\<open>crc.cpp\<close> and
  \<^verbatim>\<open>src/core/lib/actslib/crc.hpp\<close>, \<^verbatim>\<open>crc.cpp\<close>, with their tables as the sources have them, and the
  proof that they compute the bit-serial checks of their polynomials: both 32-bit tables that are used
  from the low end are CRC-32C (Castagnoli), the 16-bit one is the reflected polynomial \<open>0xa001\<close>, the
  8-bit one shifts left with \<open>0x07\<close>.
\<close>

section \<open>Tables\<close>

definition CRC32Table :: "u32 list" where
  "CRC32Table = [
    0x00000000, 0xf26b8303, 0xe13b70f7, 0x1350f3f4, 0xc79a971f, 0x35f1141c, 0x26a1e7e8, 0xd4ca64eb,
    0x8ad958cf, 0x78b2dbcc, 0x6be22838, 0x9989ab3b, 0x4d43cfd0, 0xbf284cd3, 0xac78bf27, 0x5e133c24,
    0x105ec76f, 0xe235446c, 0xf165b798, 0x030e349b, 0xd7c45070, 0x25afd373, 0x36ff2087, 0xc494a384,
    0x9a879fa0, 0x68ec1ca3, 0x7bbcef57, 0x89d76c54, 0x5d1d08bf, 0xaf768bbc, 0xbc267848, 0x4e4dfb4b,
    0x20bd8ede, 0xd2d60ddd, 0xc186fe29, 0x33ed7d2a, 0xe72719c1, 0x154c9ac2, 0x061c6936, 0xf477ea35,
    0xaa64d611, 0x580f5512, 0x4b5fa6e6, 0xb93425e5, 0x6dfe410e, 0x9f95c20d, 0x8cc531f9, 0x7eaeb2fa,
    0x30e349b1, 0xc288cab2, 0xd1d83946, 0x23b3ba45, 0xf779deae, 0x05125dad, 0x1642ae59, 0xe4292d5a,
    0xba3a117e, 0x4851927d, 0x5b016189, 0xa96ae28a, 0x7da08661, 0x8fcb0562, 0x9c9bf696, 0x6ef07595,
    0x417b1dbc, 0xb3109ebf, 0xa0406d4b, 0x522bee48, 0x86e18aa3, 0x748a09a0, 0x67dafa54, 0x95b17957,
    0xcba24573, 0x39c9c670, 0x2a993584, 0xd8f2b687, 0x0c38d26c, 0xfe53516f, 0xed03a29b, 0x1f682198,
    0x5125dad3, 0xa34e59d0, 0xb01eaa24, 0x42752927, 0x96bf4dcc, 0x64d4cecf, 0x77843d3b, 0x85efbe38,
    0xdbfc821c, 0x2997011f, 0x3ac7f2eb, 0xc8ac71e8, 0x1c661503, 0xee0d9600, 0xfd5d65f4, 0x0f36e6f7,
    0x61c69362, 0x93ad1061, 0x80fde395, 0x72966096, 0xa65c047d, 0x5437877e, 0x4767748a, 0xb50cf789,
    0xeb1fcbad, 0x197448ae, 0x0a24bb5a, 0xf84f3859, 0x2c855cb2, 0xdeeedfb1, 0xcdbe2c45, 0x3fd5af46,
    0x7198540d, 0x83f3d70e, 0x90a324fa, 0x62c8a7f9, 0xb602c312, 0x44694011, 0x5739b3e5, 0xa55230e6,
    0xfb410cc2, 0x092a8fc1, 0x1a7a7c35, 0xe811ff36, 0x3cdb9bdd, 0xceb018de, 0xdde0eb2a, 0x2f8b6829,
    0x82f63b78, 0x709db87b, 0x63cd4b8f, 0x91a6c88c, 0x456cac67, 0xb7072f64, 0xa457dc90, 0x563c5f93,
    0x082f63b7, 0xfa44e0b4, 0xe9141340, 0x1b7f9043, 0xcfb5f4a8, 0x3dde77ab, 0x2e8e845f, 0xdce5075c,
    0x92a8fc17, 0x60c37f14, 0x73938ce0, 0x81f80fe3, 0x55326b08, 0xa759e80b, 0xb4091bff, 0x466298fc,
    0x1871a4d8, 0xea1a27db, 0xf94ad42f, 0x0b21572c, 0xdfeb33c7, 0x2d80b0c4, 0x3ed04330, 0xccbbc033,
    0xa24bb5a6, 0x502036a5, 0x4370c551, 0xb11b4652, 0x65d122b9, 0x97baa1ba, 0x84ea524e, 0x7681d14d,
    0x2892ed69, 0xdaf96e6a, 0xc9a99d9e, 0x3bc21e9d, 0xef087a76, 0x1d63f975, 0x0e330a81, 0xfc588982,
    0xb21572c9, 0x407ef1ca, 0x532e023e, 0xa145813d, 0x758fe5d6, 0x87e466d5, 0x94b49521, 0x66df1622,
    0x38cc2a06, 0xcaa7a905, 0xd9f75af1, 0x2b9cd9f2, 0xff56bd19, 0x0d3d3e1a, 0x1e6dcdee, 0xec064eed,
    0xc38d26c4, 0x31e6a5c7, 0x22b65633, 0xd0ddd530, 0x0417b1db, 0xf67c32d8, 0xe52cc12c, 0x1747422f,
    0x49547e0b, 0xbb3ffd08, 0xa86f0efc, 0x5a048dff, 0x8ecee914, 0x7ca56a17, 0x6ff599e3, 0x9d9e1ae0,
    0xd3d3e1ab, 0x21b862a8, 0x32e8915c, 0xc083125f, 0x144976b4, 0xe622f5b7, 0xf5720643, 0x07198540,
    0x590ab964, 0xab613a67, 0xb831c993, 0x4a5a4a90, 0x9e902e7b, 0x6cfbad78, 0x7fab5e8c, 0x8dc0dd8f,
    0xe330a81a, 0x115b2b19, 0x020bd8ed, 0xf0605bee, 0x24aa3f05, 0xd6c1bc06, 0xc5914ff2, 0x37faccf1,
    0x69e9f0d5, 0x9b8273d6, 0x88d28022, 0x7ab90321, 0xae7367ca, 0x5c18e4c9, 0x4f48173d, 0xbd23943e,
    0xf36e6f75, 0x0105ec76, 0x12551f82, 0xe03e9c81, 0x34f4f86a, 0xc69f7b69, 0xd5cf889d, 0x27a40b9e,
    0x79b737ba, 0x8bdcb4b9, 0x988c474d, 0x6ae7c44e, 0xbe2da0a5, 0x4c4623a6, 0x5f16d052, 0xad7d5351]"

definition CRC32TableB :: "u32 list" where
  "CRC32TableB = [
    0x0, 0x4c11db7, 0x9823b6e, 0x0d4326d9, 0x130476dc, 0x17c56b6b, 0x1a864db2, 0x1e475005,
    0x2608edb8, 0x22c9f00f, 0x2f8ad6d6, 0x2b4bcb61, 0x350c9b64, 0x31cd86d3, 0x3c8ea00a, 0x384fbdbd,
    0x4c11db70, 0x48d0c6c7, 0x4593e01e, 0x4152fda9, 0x5f15adac, 0x5bd4b01b, 0x569796c2, 0x52568b75,
    0x6a1936c8, 0x6ed82b7f, 0x639b0da6, 0x675a1011, 0x791d4014, 0x7ddc5da3, 0x709f7b7a, 0x745e66cd,
    0x9823b6e0, 0x9ce2ab57, 0x91a18d8e, 0x95609039, 0x8b27c03c, 0x8fe6dd8b, 0x82a5fb52, 0x8664e6e5,
    0x0be2b5b58, 0x0baea46ef, 0x0b7a96036, 0x0b3687d81, 0x0ad2f2d84, 0x0a9ee3033, 0x0a4ad16ea, 0x0a06c0b5d,
    0x0d4326d90, 0x0d0f37027, 0x0ddb056fe, 0x0d9714b49, 0x0c7361b4c, 0x0c3f706fb, 0x0ceb42022, 0x0ca753d95,
    0x0f23a8028, 0x0f6fb9d9f, 0x0fbb8bb46, 0x0ff79a6f1, 0x0e13ef6f4, 0x0e5ffeb43, 0x0e8bccd9a, 0x0ec7dd02d,
    0x34867077, 0x30476dc0, 0x3d044b19, 0x39c556ae, 0x278206ab, 0x23431b1c, 0x2e003dc5, 0x2ac12072,
    0x128e9dcf, 0x164f8078, 0x1b0ca6a1, 0x1fcdbb16, 0x18aeb13, 0x54bf6a4, 0x808d07d, 0x0cc9cdca,
    0x7897ab07, 0x7c56b6b0, 0x71159069, 0x75d48dde, 0x6b93dddb, 0x6f52c06c, 0x6211e6b5, 0x66d0fb02,
    0x5e9f46bf, 0x5a5e5b08, 0x571d7dd1, 0x53dc6066, 0x4d9b3063, 0x495a2dd4, 0x44190b0d, 0x40d816ba,
    0x0aca5c697, 0x0a864db20, 0x0a527fdf9, 0x0a1e6e04e, 0x0bfa1b04b, 0x0bb60adfc, 0x0b6238b25, 0x0b2e29692,
    0x8aad2b2f, 0x8e6c3698, 0x832f1041, 0x87ee0df6, 0x99a95df3, 0x9d684044, 0x902b669d, 0x94ea7b2a,
    0x0e0b41de7, 0x0e4750050, 0x0e9362689, 0x0edf73b3e, 0x0f3b06b3b, 0x0f771768c, 0x0fa325055, 0x0fef34de2,
    0x0c6bcf05f, 0x0c27dede8, 0x0cf3ecb31, 0x0cbffd686, 0x0d5b88683, 0x0d1799b34, 0x0dc3abded, 0x0d8fba05a,
    0x690ce0ee, 0x6dcdfd59, 0x608edb80, 0x644fc637, 0x7a089632, 0x7ec98b85, 0x738aad5c, 0x774bb0eb,
    0x4f040d56, 0x4bc510e1, 0x46863638, 0x42472b8f, 0x5c007b8a, 0x58c1663d, 0x558240e4, 0x51435d53,
    0x251d3b9e, 0x21dc2629, 0x2c9f00f0, 0x285e1d47, 0x36194d42, 0x32d850f5, 0x3f9b762c, 0x3b5a6b9b,
    0x315d626, 0x7d4cb91, 0x0a97ed48, 0x0e56f0ff, 0x1011a0fa, 0x14d0bd4d, 0x19939b94, 0x1d528623,
    0x0f12f560e, 0x0f5ee4bb9, 0x0f8ad6d60, 0x0fc6c70d7, 0x0e22b20d2, 0x0e6ea3d65, 0x0eba91bbc, 0x0ef68060b,
    0x0d727bbb6, 0x0d3e6a601, 0x0dea580d8, 0x0da649d6f, 0x0c423cd6a, 0x0c0e2d0dd, 0x0cda1f604, 0x0c960ebb3,
    0x0bd3e8d7e, 0x0b9ff90c9, 0x0b4bcb610, 0x0b07daba7, 0x0ae3afba2, 0x0aafbe615, 0x0a7b8c0cc, 0x0a379dd7b,
    0x9b3660c6, 0x9ff77d71, 0x92b45ba8, 0x9675461f, 0x8832161a, 0x8cf30bad, 0x81b02d74, 0x857130c3,
    0x5d8a9099, 0x594b8d2e, 0x5408abf7, 0x50c9b640, 0x4e8ee645, 0x4a4ffbf2, 0x470cdd2b, 0x43cdc09c,
    0x7b827d21, 0x7f436096, 0x7200464f, 0x76c15bf8, 0x68860bfd, 0x6c47164a, 0x61043093, 0x65c52d24,
    0x119b4be9, 0x155a565e, 0x18197087, 0x1cd86d30, 0x29f3d35, 0x65e2082, 0x0b1d065b, 0x0fdc1bec,
    0x3793a651, 0x3352bbe6, 0x3e119d3f, 0x3ad08088, 0x2497d08d, 0x2056cd3a, 0x2d15ebe3, 0x29d4f654,
    0x0c5a92679, 0x0c1683bce, 0x0cc2b1d17, 0x0c8ea00a0, 0x0d6ad50a5, 0x0d26c4d12, 0x0df2f6bcb, 0x0dbee767c,
    0x0e3a1cbc1, 0x0e760d676, 0x0ea23f0af, 0x0eee2ed18, 0x0f0a5bd1d, 0x0f464a0aa, 0x0f9278673, 0x0fde69bc4,
    0x89b8fd09, 0x8d79e0be, 0x803ac667, 0x84fbdbd0, 0x9abc8bd5, 0x9e7d9662, 0x933eb0bb, 0x97ffad0c,
    0x0afb010b1, 0x0ab710d06, 0x0a6322bdf, 0x0a2f33668, 0x0bcb4666d, 0x0b8757bda, 0x0b5365d03, 0x0b1f740b4]"

definition lib_crc32Table :: "u32 list" where
  "lib_crc32Table = [
    0x00000000, 0xf26b8303, 0xe13b70f7, 0x1350f3f4, 0xc79a971f, 0x35f1141c, 0x26a1e7e8, 0xd4ca64eb,
    0x8ad958cf, 0x78b2dbcc, 0x6be22838, 0x9989ab3b, 0x4d43cfd0, 0xbf284cd3, 0xac78bf27, 0x5e133c24,
    0x105ec76f, 0xe235446c, 0xf165b798, 0x030e349b, 0xd7c45070, 0x25afd373, 0x36ff2087, 0xc494a384,
    0x9a879fa0, 0x68ec1ca3, 0x7bbcef57, 0x89d76c54, 0x5d1d08bf, 0xaf768bbc, 0xbc267848, 0x4e4dfb4b,
    0x20bd8ede, 0xd2d60ddd, 0xc186fe29, 0x33ed7d2a, 0xe72719c1, 0x154c9ac2, 0x061c6936, 0xf477ea35,
    0xaa64d611, 0x580f5512, 0x4b5fa6e6, 0xb93425e5, 0x6dfe410e, 0x9f95c20d, 0x8cc531f9, 0x7eaeb2fa,
    0x30e349b1, 0xc288cab2, 0xd1d83946, 0x23b3ba45, 0xf779deae, 0x05125dad, 0x1642ae59, 0xe4292d5a,
    0xba3a117e, 0x4851927d, 0x5b016189, 0xa96ae28a, 0x7da08661, 0x8fcb0562, 0x9c9bf696, 0x6ef07595,
    0x417b1dbc, 0xb3109ebf, 0xa0406d4b, 0x522bee48, 0x86e18aa3, 0x748a09a0, 0x67dafa54, 0x95b17957,
    0xcba24573, 0x39c9c670, 0x2a993584, 0xd8f2b687, 0x0c38d26c, 0xfe53516f, 0xed03a29b, 0x1f682198,
    0x5125dad3, 0xa34e59d0, 0xb01eaa24, 0x42752927, 0x96bf4dcc, 0x64d4cecf, 0x77843d3b, 0x85efbe38,
    0xdbfc821c, 0x2997011f, 0x3ac7f2eb, 0xc8ac71e8, 0x1c661503, 0xee0d9600, 0xfd5d65f4, 0x0f36e6f7,
    0x61c69362, 0x93ad1061, 0x80fde395, 0x72966096, 0xa65c047d, 0x5437877e, 0x4767748a, 0xb50cf789,
    0xeb1fcbad, 0x197448ae, 0x0a24bb5a, 0xf84f3859, 0x2c855cb2, 0xdeeedfb1, 0xcdbe2c45, 0x3fd5af46,
    0x7198540d, 0x83f3d70e, 0x90a324fa, 0x62c8a7f9, 0xb602c312, 0x44694011, 0x5739b3e5, 0xa55230e6,
    0xfb410cc2, 0x092a8fc1, 0x1a7a7c35, 0xe811ff36, 0x3cdb9bdd, 0xceb018de, 0xdde0eb2a, 0x2f8b6829,
    0x82f63b78, 0x709db87b, 0x63cd4b8f, 0x91a6c88c, 0x456cac67, 0xb7072f64, 0xa457dc90, 0x563c5f93,
    0x082f63b7, 0xfa44e0b4, 0xe9141340, 0x1b7f9043, 0xcfb5f4a8, 0x3dde77ab, 0x2e8e845f, 0xdce5075c,
    0x92a8fc17, 0x60c37f14, 0x73938ce0, 0x81f80fe3, 0x55326b08, 0xa759e80b, 0xb4091bff, 0x466298fc,
    0x1871a4d8, 0xea1a27db, 0xf94ad42f, 0x0b21572c, 0xdfeb33c7, 0x2d80b0c4, 0x3ed04330, 0xccbbc033,
    0xa24bb5a6, 0x502036a5, 0x4370c551, 0xb11b4652, 0x65d122b9, 0x97baa1ba, 0x84ea524e, 0x7681d14d,
    0x2892ed69, 0xdaf96e6a, 0xc9a99d9e, 0x3bc21e9d, 0xef087a76, 0x1d63f975, 0x0e330a81, 0xfc588982,
    0xb21572c9, 0x407ef1ca, 0x532e023e, 0xa145813d, 0x758fe5d6, 0x87e466d5, 0x94b49521, 0x66df1622,
    0x38cc2a06, 0xcaa7a905, 0xd9f75af1, 0x2b9cd9f2, 0xff56bd19, 0x0d3d3e1a, 0x1e6dcdee, 0xec064eed,
    0xc38d26c4, 0x31e6a5c7, 0x22b65633, 0xd0ddd530, 0x0417b1db, 0xf67c32d8, 0xe52cc12c, 0x1747422f,
    0x49547e0b, 0xbb3ffd08, 0xa86f0efc, 0x5a048dff, 0x8ecee914, 0x7ca56a17, 0x6ff599e3, 0x9d9e1ae0,
    0xd3d3e1ab, 0x21b862a8, 0x32e8915c, 0xc083125f, 0x144976b4, 0xe622f5b7, 0xf5720643, 0x07198540,
    0x590ab964, 0xab613a67, 0xb831c993, 0x4a5a4a90, 0x9e902e7b, 0x6cfbad78, 0x7fab5e8c, 0x8dc0dd8f,
    0xe330a81a, 0x115b2b19, 0x020bd8ed, 0xf0605bee, 0x24aa3f05, 0xd6c1bc06, 0xc5914ff2, 0x37faccf1,
    0x69e9f0d5, 0x9b8273d6, 0x88d28022, 0x7ab90321, 0xae7367ca, 0x5c18e4c9, 0x4f48173d, 0xbd23943e,
    0xf36e6f75, 0x0105ec76, 0x12551f82, 0xe03e9c81, 0x34f4f86a, 0xc69f7b69, 0xd5cf889d, 0x27a40b9e,
    0x79b737ba, 0x8bdcb4b9, 0x988c474d, 0x6ae7c44e, 0xbe2da0a5, 0x4c4623a6, 0x5f16d052, 0xad7d5351]"

definition crc16Table :: "u16 list" where
  "crc16Table = [
    0x0000, 0xc0c1, 0xc181, 0x0140, 0xc301, 0x03c0, 0x0280, 0xc241,
    0xc601, 0x06c0, 0x0780, 0xc741, 0x0500, 0xc5c1, 0xc481, 0x0440,
    0xcc01, 0x0cc0, 0x0d80, 0xcd41, 0x0f00, 0xcfc1, 0xce81, 0x0e40,
    0x0a00, 0xcac1, 0xcb81, 0x0b40, 0xc901, 0x09c0, 0x0880, 0xc841,
    0xd801, 0x18c0, 0x1980, 0xd941, 0x1b00, 0xdbc1, 0xda81, 0x1a40,
    0x1e00, 0xdec1, 0xdf81, 0x1f40, 0xdd01, 0x1dc0, 0x1c80, 0xdc41,
    0x1400, 0xd4c1, 0xd581, 0x1540, 0xd701, 0x17c0, 0x1680, 0xd641,
    0xd201, 0x12c0, 0x1380, 0xd341, 0x1100, 0xd1c1, 0xd081, 0x1040,
    0xf001, 0x30c0, 0x3180, 0xf141, 0x3300, 0xf3c1, 0xf281, 0x3240,
    0x3600, 0xf6c1, 0xf781, 0x3740, 0xf501, 0x35c0, 0x3480, 0xf441,
    0x3c00, 0xfcc1, 0xfd81, 0x3d40, 0xff01, 0x3fc0, 0x3e80, 0xfe41,
    0xfa01, 0x3ac0, 0x3b80, 0xfb41, 0x3900, 0xf9c1, 0xf881, 0x3840,
    0x2800, 0xe8c1, 0xe981, 0x2940, 0xeb01, 0x2bc0, 0x2a80, 0xea41,
    0xee01, 0x2ec0, 0x2f80, 0xef41, 0x2d00, 0xedc1, 0xec81, 0x2c40,
    0xe401, 0x24c0, 0x2580, 0xe541, 0x2700, 0xe7c1, 0xe681, 0x2640,
    0x2200, 0xe2c1, 0xe381, 0x2340, 0xe101, 0x21c0, 0x2080, 0xe041,
    0xa001, 0x60c0, 0x6180, 0xa141, 0x6300, 0xa3c1, 0xa281, 0x6240,
    0x6600, 0xa6c1, 0xa781, 0x6740, 0xa501, 0x65c0, 0x6480, 0xa441,
    0x6c00, 0xacc1, 0xad81, 0x6d40, 0xaf01, 0x6fc0, 0x6e80, 0xae41,
    0xaa01, 0x6ac0, 0x6b80, 0xab41, 0x6900, 0xa9c1, 0xa881, 0x6840,
    0x7800, 0xb8c1, 0xb981, 0x7940, 0xbb01, 0x7bc0, 0x7a80, 0xba41,
    0xbe01, 0x7ec0, 0x7f80, 0xbf41, 0x7d00, 0xbdc1, 0xbc81, 0x7c40,
    0xb401, 0x74c0, 0x7580, 0xb541, 0x7700, 0xb7c1, 0xb681, 0x7640,
    0x7200, 0xb2c1, 0xb381, 0x7340, 0xb101, 0x71c0, 0x7080, 0xb041,
    0x5000, 0x90c1, 0x9181, 0x5140, 0x9301, 0x53c0, 0x5280, 0x9241,
    0x9601, 0x56c0, 0x5780, 0x9741, 0x5500, 0x95c1, 0x9481, 0x5440,
    0x9c01, 0x5cc0, 0x5d80, 0x9d41, 0x5f00, 0x9fc1, 0x9e81, 0x5e40,
    0x5a00, 0x9ac1, 0x9b81, 0x5b40, 0x9901, 0x59c0, 0x5880, 0x9841,
    0x8801, 0x48c0, 0x4980, 0x8941, 0x4b00, 0x8bc1, 0x8a81, 0x4a40,
    0x4e00, 0x8ec1, 0x8f81, 0x4f40, 0x8d01, 0x4dc0, 0x4c80, 0x8c41,
    0x4400, 0x84c1, 0x8581, 0x4540, 0x8701, 0x47c0, 0x4680, 0x8641,
    0x8201, 0x42c0, 0x4380, 0x8341, 0x4100, 0x81c1, 0x8081, 0x4040]"

definition crc8Table :: "u8 list" where
  "crc8Table = [
    0x00, 0x07, 0x0e, 0x09, 0x1c, 0x1b, 0x12, 0x15,
    0x38, 0x3f, 0x36, 0x31, 0x24, 0x23, 0x2a, 0x2d,
    0x70, 0x77, 0x7e, 0x79, 0x6c, 0x6b, 0x62, 0x65,
    0x48, 0x4f, 0x46, 0x41, 0x54, 0x53, 0x5a, 0x5d,
    0xe0, 0xe7, 0xee, 0xe9, 0xfc, 0xfb, 0xf2, 0xf5,
    0xd8, 0xdf, 0xd6, 0xd1, 0xc4, 0xc3, 0xca, 0xcd,
    0x90, 0x97, 0x9e, 0x99, 0x8c, 0x8b, 0x82, 0x85,
    0xa8, 0xaf, 0xa6, 0xa1, 0xb4, 0xb3, 0xba, 0xbd,
    0xc7, 0xc0, 0xc9, 0xce, 0xdb, 0xdc, 0xd5, 0xd2,
    0xff, 0xf8, 0xf1, 0xf6, 0xe3, 0xe4, 0xed, 0xea,
    0xb7, 0xb0, 0xb9, 0xbe, 0xab, 0xac, 0xa5, 0xa2,
    0x8f, 0x88, 0x81, 0x86, 0x93, 0x94, 0x9d, 0x9a,
    0x27, 0x20, 0x29, 0x2e, 0x3b, 0x3c, 0x35, 0x32,
    0x1f, 0x18, 0x11, 0x16, 0x03, 0x04, 0x0d, 0x0a,
    0x57, 0x50, 0x59, 0x5e, 0x4b, 0x4c, 0x45, 0x42,
    0x6f, 0x68, 0x61, 0x66, 0x73, 0x74, 0x7d, 0x7a,
    0x89, 0x8e, 0x87, 0x80, 0x95, 0x92, 0x9b, 0x9c,
    0xb1, 0xb6, 0xbf, 0xb8, 0xad, 0xaa, 0xa3, 0xa4,
    0xf9, 0xfe, 0xf7, 0xf0, 0xe5, 0xe2, 0xeb, 0xec,
    0xc1, 0xc6, 0xcf, 0xc8, 0xdd, 0xda, 0xd3, 0xd4,
    0x69, 0x6e, 0x67, 0x60, 0x75, 0x72, 0x7b, 0x7c,
    0x51, 0x56, 0x5f, 0x58, 0x4d, 0x4a, 0x43, 0x44,
    0x19, 0x1e, 0x17, 0x10, 0x05, 0x02, 0x0b, 0x0c,
    0x21, 0x26, 0x2f, 0x28, 0x3d, 0x3a, 0x33, 0x34,
    0x4e, 0x49, 0x40, 0x47, 0x52, 0x55, 0x5c, 0x5b,
    0x76, 0x71, 0x78, 0x7f, 0x6a, 0x6d, 0x64, 0x63,
    0x3e, 0x39, 0x30, 0x37, 0x22, 0x25, 0x2c, 0x2b,
    0x06, 0x01, 0x08, 0x0f, 0x1a, 0x1d, 0x14, 0x13,
    0xae, 0xa9, 0xa0, 0xa7, 0xb2, 0xb5, 0xbc, 0xbb,
    0x96, 0x91, 0x98, 0x9f, 0x8a, 0x8d, 0x84, 0x83,
    0xde, 0xd9, 0xd0, 0xd7, 0xc2, 0xc5, 0xcc, 0xcb,
    0xe6, 0xe1, 0xe8, 0xef, 0xfa, 0xfd, 0xf4, 0xf3]"

section \<open>The checks\<close>

text \<open>\<^verbatim>\<open>utils::crc::CRC32<right, table>\<close>: one byte, a run of bytes, the result.\<close>

definition crc_byte :: "bool \<Rightarrow> u32 list \<Rightarrow> u32 \<Rightarrow> u8 \<Rightarrow> u32" where
  "crc_byte right tbl crc b =
     (let idx = unat ((crc XOR ucast b) AND 0xFF)
      in if right then tbl ! idx XOR drop_bit 8 crc else tbl ! idx XOR push_bit 8 crc)"

definition crc_Update :: "bool \<Rightarrow> u32 list \<Rightarrow> u32 \<Rightarrow> u8 list \<Rightarrow> u32" where
  "crc_Update right tbl crc bs = foldl (crc_byte right tbl) crc bs"

definition crc_UpdateStr :: "bool \<Rightarrow> u32 list \<Rightarrow> u32 \<Rightarrow> cstr \<Rightarrow> u32" where
  "crc_UpdateStr right tbl crc s = crc_Update right tbl crc (c_chars s @ [0])"

definition crc_init :: u32 where
  "crc_init = 0xFFFFFFFF"

definition crc_result :: "u32 \<Rightarrow> u32" where
  "crc_result crc = NOT crc"

text \<open>\<^verbatim>\<open>actslib::crc\<close>: the value starts at zero and the character is sign-extended before it is masked.\<close>

definition CRC8_Update :: "u8 \<Rightarrow> u8 \<Rightarrow> u8" where
  "CRC8_Update v c = crc8Table ! unat ((ucast v XOR scast c :: u32) AND 0xFF)"

definition CRC16_Update :: "u16 \<Rightarrow> u8 \<Rightarrow> u16" where
  "CRC16_Update v c = ucast (((ucast (crc16Table ! unat ((ucast v XOR scast c :: u32) AND 0xFF)) :: u32) XOR drop_bit 8 (ucast v)) AND 0xFFFF)"

definition CRC32_Update :: "u32 \<Rightarrow> u8 \<Rightarrow> u32" where
  "CRC32_Update v c = lib_crc32Table ! unat ((v XOR scast c) AND 0xFF) XOR drop_bit 8 v"

text \<open>\<^verbatim>\<open>CRC::Update(buffer, offset, length)\<close>; an index outside of the buffer is undefined behaviour.\<close>

definition CRC_Update :: "('a \<Rightarrow> u8 \<Rightarrow> 'a) \<Rightarrow> 'a \<Rightarrow> u8 list \<Rightarrow> nat \<Rightarrow> nat \<Rightarrow> 'a option" where
  "CRC_Update upd v buf off len =
     (if off + len \<le> length buf then Some (foldl upd v (take len (drop off buf))) else None)"

section \<open>Bit-serial reference\<close>

text \<open>One bit of a check whose register shifts right, and of one that shifts left.\<close>

definition crc_bit :: "'a::len word \<Rightarrow> 'a word \<Rightarrow> 'a word" where
  "crc_bit p x = (if odd x then drop_bit 1 x XOR p else drop_bit 1 x)"

definition crc_bit_left :: "'a::len word \<Rightarrow> 'a word \<Rightarrow> 'a word" where
  "crc_bit_left p x = (if bit x (LENGTH('a) - 1) then push_bit 1 x XOR p else push_bit 1 x)"

definition crc_8bits :: "('a \<Rightarrow> 'a) \<Rightarrow> 'a \<Rightarrow> 'a" where
  "crc_8bits f x = (f ^^ 8) x"

text \<open>The check of a message: each byte goes to the end the register shifts out of.\<close>

definition crc_serial :: "'a::len word \<Rightarrow> 'a word \<Rightarrow> u8 list \<Rightarrow> 'a word" where
  "crc_serial p v bs = foldl (\<lambda>v b. crc_8bits (crc_bit p) (v XOR ucast b)) v bs"

definition crc_serial_left :: "'a::len word \<Rightarrow> 'a word \<Rightarrow> u8 list \<Rightarrow> 'a word" where
  "crc_serial_left p v bs =
     foldl (\<lambda>v b. crc_8bits (crc_bit_left p) (v XOR push_bit (LENGTH('a) - 8) (ucast b))) v bs"

section \<open>The tables are tables of the polynomials\<close>

definition xor_linear :: "('a::len word \<Rightarrow> 'b::len word) \<Rightarrow> bool" where
  "xor_linear f \<longleftrightarrow> (\<forall>x y. f (x XOR y) = f x XOR f y)"

lemma xor_linear_0: "xor_linear f \<Longrightarrow> f 0 = 0"
  unfolding xor_linear_def by (metis xor_self_eq)

lemma xor_linear_bit: "xor_linear (crc_bit p)"
  unfolding xor_linear_def crc_bit_def
  by (auto intro!: bit_word_eqI simp: bit_simps even_xor_iff)

lemma xor_linear_bit_left: "xor_linear (crc_bit_left p)"
  unfolding xor_linear_def crc_bit_left_def
  by (auto intro!: bit_word_eqI simp: bit_simps)

lemma xor_linear_8bits: "xor_linear f \<Longrightarrow> xor_linear (crc_8bits f)"
proof -
  assume f: "xor_linear f"
  have "(f ^^ n) (x XOR y) = (f ^^ n) x XOR (f ^^ n) y" for n x y
    by (induction n) (use f in \<open>simp_all add: xor_linear_def\<close>)
  then show ?thesis by (simp add: xor_linear_def crc_8bits_def)
qed

text \<open>A table of a linear function is spanned by its values at the powers of two.\<close>

fun xor_span :: "'a::len word list \<Rightarrow> 'a word list" where
  "xor_span [] = [0]"
| "xor_span (b # bs) = (let t = xor_span bs in t @ map (\<lambda>x. b XOR x) t)"

lemma of_nat_power_xor:
  assumes "i < 2 ^ n" shows "(of_nat (2 ^ n + i) :: 'a::len word) = 2 ^ n XOR of_nat i"
proof -
  have i: "take_bit n i = i" using assms by (simp add: take_bit_nat_eq_self)
  have "\<not> (bit (2 ^ n :: nat) k \<and> bit i k)" for k
    using assms by (metis bit_exp_iff bit_take_bit_iff i less_irrefl)
  then have "2 ^ n AND i = 0" by (intro bit_eqI) (simp add: bit_and_iff)
  then have "2 ^ n + i = 2 ^ n XOR i" by (rule disjunctive_add_eq_xor)
  then show ?thesis by (simp add: of_nat_xor_eq)
qed

lemma xor_span_table:
  assumes "xor_linear f"
  shows "xor_span (map (\<lambda>k. f (2 ^ k)) (rev [0..<n])) = map (\<lambda>i. f (of_nat i)) [0..<2 ^ n]"
proof (induction n)
  case (Suc n)
  have "[0..<2 ^ Suc n] = [0..<2 ^ n] @ map (\<lambda>i. 2 ^ n + i) [0..<(2::nat) ^ n]"
    using map_add_upt [of "2 ^ n" "2 ^ n"] upt_add_eq_append [of 0 "2 ^ n" "2 ^ n"] by (simp add: add.commute mult_2)
  then show ?case using Suc assms
    by (simp add: Let_def xor_linear_def of_nat_power_xor del: of_nat_add)
qed (simp add: xor_linear_0 [OF assms])


lemma upt8: "rev [0..<8] = [7, 6, 5, 4, 3, 2, 1, 0]"
  by (simp add: upt_rec)

lemma crc_8bits_unfold: "crc_8bits f x = f (f (f (f (f (f (f (f x)))))))"
  by (simp add: crc_8bits_def eval_nat_numeral)

lemma table_from_basis:
  assumes "xor_linear f" and "tbl = xor_span [f 128, f 64, f 32, f 16, f 8, f 4, f 2, f 1]"
  shows "tbl = map (\<lambda>i. f (of_nat i)) [0..<256]"
  using xor_span_table [OF assms(1), of 8] assms(2) by (simp add: upt8)

definition poly_32c :: u32 where "poly_32c = 0x82f63b78"

lemma CRC32Table_poly: "CRC32Table = map (\<lambda>i. crc_8bits (crc_bit poly_32c) (of_nat i)) [0..<256]"
  by (rule table_from_basis [OF xor_linear_8bits [OF xor_linear_bit]])
     (simp add: crc_8bits_unfold crc_bit_def poly_32c_def CRC32Table_def Let_def)

lemma lib_crc32Table_eq: "lib_crc32Table = CRC32Table"
  unfolding CRC32Table_def lib_crc32Table_def ..

lemma crc16Table_poly: "crc16Table = map (\<lambda>i. crc_8bits (crc_bit 0xa001) (of_nat i)) [0..<256]"
  by (rule table_from_basis [OF xor_linear_8bits [OF xor_linear_bit]])
     (simp add: crc_8bits_unfold crc_bit_def crc16Table_def Let_def)

lemma crc8Table_poly: "crc8Table = map (\<lambda>i. crc_8bits (crc_bit_left 7) (of_nat i)) [0..<256]"
  by (rule table_from_basis [OF xor_linear_8bits [OF xor_linear_bit_left]])
     (simp add: crc_8bits_unfold crc_bit_left_def crc8Table_def Let_def)

lemma xor_linear_shift: "xor_linear f \<Longrightarrow> xor_linear (\<lambda>x. f (push_bit n x))"
  by (simp add: xor_linear_def push_bit_xor)

lemma CRC32TableB_poly:
  "CRC32TableB = map (\<lambda>i. crc_8bits (crc_bit_left 0x4c11db7) (push_bit 24 (of_nat i))) [0..<256]"
  by (rule table_from_basis [OF xor_linear_shift [OF xor_linear_8bits [OF xor_linear_bit_left]]])
     (simp add: crc_8bits_unfold crc_bit_left_def CRC32TableB_def Let_def)

section \<open>One byte at a time\<close>

lemma crc_bits_shift: "take_bit n x = 0 \<Longrightarrow> (crc_bit p ^^ n) x = drop_bit n (x :: 'a::len word)"
proof (induction n)
  case (Suc n)
  have "take_bit n x = take_bit n (take_bit (Suc n) x)" by (simp add: take_bit_take_bit)
  then have IH: "(crc_bit p ^^ n) x = drop_bit n x" using Suc by simp
  have "bit (take_bit (Suc n) x) n = bit x n" by (simp add: bit_take_bit_iff)
  then have "\<not> bit x n" using Suc.prems by simp
  then have "even (drop_bit n x)" by (simp add: bit_iff_odd_drop_bit)
  then show ?case by (simp only: funpow.simps o_apply IH) (simp add: crc_bit_def drop_bit_drop_bit)
qed simp

lemma table_byte:
  fixes v :: "'a::len word"
  assumes "8 \<le> LENGTH('a)" "tbl = map (\<lambda>i. crc_8bits (crc_bit p) (of_nat i)) [0..<256]"
    and "idx = unat ((v XOR ucast b) AND mask 8)"
  shows "tbl ! idx XOR drop_bit 8 v = crc_8bits (crc_bit p) (v XOR ucast (b :: u8))"
proof -
  let ?x = "v XOR ucast b" and ?F = "crc_8bits (crc_bit p)"
  have i: "idx < 256" using assms(1,3) by (simp only: unat_and_mask) simp
  have "?x = (?x AND mask 8) XOR (?x AND NOT (mask 8))" by (rule bit_word_eqI) (auto simp: bit_simps)
  then have "?F ?x = ?F (?x AND mask 8) XOR ?F (?x AND NOT (mask 8))"
    using xor_linear_8bits [OF xor_linear_bit] unfolding xor_linear_def by metis
  also have "?F (?x AND NOT (mask 8)) = drop_bit 8 (?x AND NOT (mask 8))"
    unfolding crc_8bits_def by (rule crc_bits_shift) (auto intro: bit_word_eqI simp: bit_simps)
  also have "drop_bit 8 (?x AND NOT (mask 8)) = drop_bit 8 v"
    by (rule bit_word_eqI) (auto simp: bit_simps dest: bit_imp_le_length)
  also have "?F (?x AND mask 8) = tbl ! idx"
    using i by (simp add: assms(2,3))
  finally show ?thesis by simp
qed

lemma crc_byte_serial: "crc_byte True CRC32Table v b = crc_8bits (crc_bit poly_32c) (v XOR ucast b)"
proof -
  have "(0xFF :: u32) = mask 8" by (simp add: mask_eq_exp_minus_1)
  then show ?thesis by (simp only: crc_byte_def Let_def if_True) (rule table_byte [OF _ CRC32Table_poly], simp_all)
qed

lemma scast_byte: "(scast (c :: u8) :: 'a::len word) AND mask 8 = ucast c AND mask 8"
  by (rule bit_word_eqI) (auto simp: bit_simps)

lemma xor_scast_byte: "(v XOR scast (c :: u8)) AND mask 8 = (v XOR ucast c :: 'a::len word) AND mask 8"
  using scast_byte [of c] by (metis (no_types) bit.conj_xor_distrib2)

lemma CRC32_Update_serial: "CRC32_Update v c = crc_8bits (crc_bit poly_32c) (v XOR ucast c)"
proof -
  have "(0xFF :: u32) = mask 8" by (simp add: mask_eq_exp_minus_1)
  then show ?thesis unfolding CRC32_Update_def lib_crc32Table_eq
    by (intro table_byte [OF _ CRC32Table_poly]) (simp_all only: xor_scast_byte, simp)
qed


lemma CRC16_Update_serial: "CRC16_Update v c = crc_8bits (crc_bit 0xa001) (v XOR ucast c)"
proof -
  have m: "(0xFF :: u32) = mask 8" "(0xFFFF :: u32) = mask 16" by (simp_all add: mask_eq_exp_minus_1)
  have e: "(ucast v XOR ucast c :: u32) = ucast (v XOR ucast c)"
    by (rule bit_word_eqI) (auto simp: bit_simps dest: bit_imp_le_length)
  have i: "unat ((ucast v XOR scast c :: u32) AND mask 8) = unat ((v XOR ucast c) AND mask 8)"
    by (simp only: xor_scast_byte e unat_and_mask) (simp add: unat_ucast_up)
  have "CRC16_Update v c = (crc16Table ! unat ((v XOR ucast c) AND mask 8)) XOR drop_bit 8 v"
    unfolding CRC16_Update_def m i by (rule bit_word_eqI) (auto simp: bit_simps)
  also have "\<dots> = crc_8bits (crc_bit 0xa001) (v XOR ucast c)"
    by (rule table_byte [OF _ crc16Table_poly]) simp_all
  finally show ?thesis .
qed

lemma CRC8_Update_serial: "CRC8_Update v c = crc_8bits (crc_bit_left 7) (v XOR ucast c)"
proof -
  have m: "(0xFF :: u32) = mask 8" by (simp add: mask_eq_exp_minus_1)
  have e: "(ucast v XOR ucast c :: u32) = ucast (v XOR c)" by (rule bit_word_eqI) (auto simp: bit_simps)
  have "unat ((ucast v XOR scast c :: u32) AND mask 8) = unat (v XOR c)"
    using u8_bound [of "v XOR c"] by (simp only: xor_scast_byte e unat_and_mask) (simp add: unat_ucast_up)
  then show ?thesis using u8_bound [of "v XOR c"] by (simp add: CRC8_Update_def m crc8Table_poly)
qed

text \<open>
  C19. The table-driven checks are the bit-serial ones, byte for byte on every message: \<^verbatim>\<open>utils::crc::CRC32\<close>
  is CRC-32C with an all-ones start and a complemented result, the 32-bit and 16-bit checks of the
  library start from the given value and complement nothing, and the 8-bit one shifts left.
\<close>

theorem crc_tables_serial:
  "crc_result (crc_Update True CRC32Table crc_init bs) = NOT (crc_serial 0x82f63b78 0xFFFFFFFF bs) \<and>
   foldl CRC32_Update v32 bs = crc_serial 0x82f63b78 v32 bs \<and>
   foldl CRC16_Update v16 bs = crc_serial 0xa001 v16 bs \<and>
   foldl CRC8_Update v8 bs = crc_serial_left 7 v8 bs"
  by (simp add: crc_result_def crc_Update_def crc_init_def crc_serial_def crc_serial_left_def
      crc_byte_serial [abs_def] CRC32_Update_serial [abs_def] CRC16_Update_serial [abs_def] CRC8_Update_serial [abs_def] poly_32c_def)

text \<open>
  The left-shifting variant of the template takes its index from the low byte of the register instead of
  the high one, so with the table of the left-shifting polynomial it is not the check of that polynomial.
\<close>

lemma crc_left_not_serial:
  "crc_Update False CRC32TableB 1 [0] \<noteq> crc_serial_left 0x4c11db7 1 [0]"
  by (simp add: crc_Update_def crc_byte_def crc_serial_left_def CRC32TableB_def crc_8bits_unfold crc_bit_left_def Let_def)

end
