(* ===== verification/Preprocessor.thy ===== *)
theory Preprocessor
  imports C_Library
begin

text \<open>
  The text preprocessor, \<^verbatim>\<open>src/core/shared/core/preprocessor.hpp\<close> and \<^verbatim>\<open>preprocessor.cpp\<close>: the container
  of source files with its line table, the defines and their configuration strings, and the rewriting of
  a text in place (comments and development blocks, conditionals, defines and inserts).

  A text is the list of its bytes; reading one past the end gives the terminator. The error handler is a
  list of messages, the last one last; files are read by a parameter, from the name given to \<^verbatim>\<open>#insert\<close>.
\<close>

abbreviation ch :: "char \<Rightarrow> u8" where
  "ch c \<equiv> of_char c"

definition char_at :: "u8 list \<Rightarrow> nat \<Rightarrow> u8" where
  "char_at s i = (if i < length s then s ! i else 0)"

section \<open>The files of a text\<close>

record string_data =
  sd_filename :: cstr
  sd_start :: nat
  sd_startLine :: nat
  sd_sizeLine :: nat

record string_container =
  sc_blocks :: "string_data list"
  sc_buffers :: "cstr list"
  sc_data :: "u8 list"
  sc_currentLines :: nat

definition in_block :: "nat \<Rightarrow> string_data \<Rightarrow> bool" where
  "in_block line b \<longleftrightarrow> sd_startLine b \<le> line \<and> line < sd_startLine b + sd_sizeLine b"

text \<open>\<^verbatim>\<open>AddLineAt\<close> only looks for the line so far: \<open>Inl\<close> is its exception.\<close>

fun AddLineAt :: "string_data list \<Rightarrow> nat \<Rightarrow> unit + unit" where
  "AddLineAt [] line = Inl ()"
| "AddLineAt (b # bs) line = (if in_block line b then Inr () else AddLineAt bs line)"

text \<open>Without any block, reading the last one is undefined behaviour: \<open>None\<close>.\<close>

definition FindFile :: "string_container \<Rightarrow> nat \<Rightarrow> string_data option" where
  "FindFile sc line =
     (case find (in_block line) (sc_blocks sc) of
        Some b \<Rightarrow> Some b
      | None \<Rightarrow> if sc_blocks sc = [] then None else Some (last (sc_blocks sc)))"

text \<open>The file and the line of a message.\<close>

definition PrintLineMessage :: "string_container \<Rightarrow> nat \<Rightarrow> (cstr \<times> nat) option" where
  "PrintLineMessage sc line =
     map_option (\<lambda>f. (sd_filename f, if sd_startLine f < line then line - sd_startLine f else sd_sizeLine f))
       (FindFile sc line)"

definition line_count :: "u8 list \<Rightarrow> nat" where
  "line_count s = 1 + length (filter (\<lambda>c. c = 10) (c_chars s))"

definition AppendFile :: "(cstr \<Rightarrow> u8 list option) \<Rightarrow> cstr \<Rightarrow> string_container \<Rightarrow> bool \<times> string_container" where
  "AppendFile fs filename sc =
     (let dt = \<lparr>sd_filename = filename, sd_start = length (sc_data sc), sd_startLine = sc_currentLines sc, sd_sizeLine = 0\<rparr>
      in case fs filename of
           None \<Rightarrow> (False, sc\<lparr>sc_blocks := sc_blocks sc @ [dt], sc_buffers := sc_buffers sc @ [[]]\<rparr>)
         | Some buff \<Rightarrow>
             (True, sc\<lparr>sc_blocks := sc_blocks sc @ [dt\<lparr>sd_sizeLine := line_count buff\<rparr>],
                       sc_buffers := sc_buffers sc @ [buff],
                       sc_currentLines := sc_currentLines sc + line_count buff,
                       sc_data := sc_data sc @ buff @ [10]\<rparr>))"

section \<open>Helpers\<close>

definition trim_left :: "u8 list \<Rightarrow> u8 list" where
  "trim_left s = dropWhile c_isspace s"

definition trim_right :: "u8 list \<Rightarrow> u8 list" where
  "trim_right s = rev (dropWhile c_isspace (rev s))"

text \<open>The result and the new value of the string: it is only replaced when something is left.\<close>

definition TrimDefineVal :: "u8 list \<Rightarrow> bool \<Rightarrow> bool \<times> u8 list" where
  "TrimDefineVal val allowInSpace =
     (let t = trim_right (trim_left val)
      in if t = [] then (False, val)
         else (allowInSpace \<or> \<not> list_ex c_isspace t, t))"

definition HasOnlySpaceAfter :: "u8 list \<Rightarrow> nat \<Rightarrow> bool" where
  "HasOnlySpaceAfter val i = list_all c_isspace (drop i val)"

definition SetBlankChar :: "u8 \<Rightarrow> u8" where
  "SetBlankChar c = (if \<not> c_isspace c then 32 else c)"

fun find_char :: "u8 \<Rightarrow> u8 list \<Rightarrow> nat option" where
  "find_char c [] = None"
| "find_char c (x # xs) = (if x = c then Some 0 else map_option Suc (find_char c xs))"

definition IsIdentifierChar :: "u8 \<Rightarrow> bool" where
  "IsIdentifierChar c \<longleftrightarrow> c = ch CHR ''_'' \<or> c_isalnum c"

definition IdfSize :: "u8 list \<Rightarrow> nat" where
  "IdfSize s = length (takeWhile IsIdentifierChar s)"

section \<open>Options\<close>

record pp_option =
  po_defines :: "u8 list \<rightharpoonup> u8 list"
  po_devBlockAsComment :: bool
  po_noDefineExpr :: bool
  po_currentDepth :: nat

definition AddDefine :: "u8 list \<Rightarrow> u8 list \<Rightarrow> pp_option \<Rightarrow> pp_option" where
  "AddDefine name value po = po\<lparr>po_defines := (po_defines po)(name \<mapsto> value)\<rparr>"

definition RemoveDefine :: "u8 list \<Rightarrow> pp_option \<Rightarrow> pp_option" where
  "RemoveDefine name po = po\<lparr>po_defines := (po_defines po)(c_chars name := None)\<rparr>"

definition AddDefineConfig :: "u8 list \<Rightarrow> pp_option \<Rightarrow> bool \<times> pp_option" where
  "AddDefineConfig config po =
     (if config = [] \<or> hd config = ch CHR ''='' then (False, po)
      else case find_char (ch CHR ''='') config of
        None \<Rightarrow> (True, AddDefine config [] po)
      | Some split \<Rightarrow> (True, AddDefine (take split config) (c_chars (drop (split + 1) config)) po))"

text \<open>The last comma at or before \<open>i\<close>: \<^verbatim>\<open>find_last_of(',', i)\<close>.\<close>

fun find_last_comma :: "u8 list \<Rightarrow> nat \<Rightarrow> nat option" where
  "find_last_comma s i =
     (if char_at s i = ch CHR '','' then Some i else if i = 0 then None else find_last_comma s (i - 1))"

declare find_last_comma.simps [simp del]

lemma find_last_comma_le: "find_last_comma s i = Some j \<Longrightarrow> j \<le> i"
  by (induction s i rule: find_last_comma.induct)
     (subst (asm) (2) find_last_comma.simps, auto split: if_splits)

text \<open>The loop of \<^verbatim>\<open>AddDefineListConfig\<close>, from the end; \<open>cpy\<close> is cut at each separator.\<close>

function define_list_loop :: "u8 list \<Rightarrow> nat \<Rightarrow> pp_option \<Rightarrow> pp_option" where
  "define_list_loop cpy idx po =
     (if idx = 0 then po
      else let start = (case find_last_comma cpy (idx - 1) of None \<Rightarrow> 0 | Some j \<Rightarrow> j);
               po = snd (AddDefineConfig (c_chars (drop start cpy)) po)
        in define_list_loop (cpy[start := 0]) start po)"
  by pat_completeness auto
termination
  by (relation "measure (\<lambda>(_, idx, _). idx)") (auto split: option.splits dest: find_last_comma_le)

declare define_list_loop.simps [simp del]

definition AddDefineListConfig :: "cstr option \<Rightarrow> pp_option \<Rightarrow> pp_option" where
  "AddDefineListConfig cfg po =
     (case cfg of
        None \<Rightarrow> po
      | Some s \<Rightarrow> if c_chars s = [] then po else define_list_loop (c_chars s) (length (c_chars s)) po)"

section \<open>Defines\<close>

text \<open>
  \<^verbatim>\<open>ReplaceDefines\<close>: the text and the end of the line. An identifier is overwritten in place, padded
  with blanks, when its value is not longer; otherwise the text grows. The end is never past the text, so
  the second test of the loop is always true where the first one is.
\<close>

definition replace_padded :: "u8 list \<Rightarrow> nat \<Rightarrow> nat \<Rightarrow> u8 list \<Rightarrow> u8 list" where
  "replace_padded s i len r = take i s @ r @ map SetBlankChar (take (len - length r) (drop (i + length r) s)) @ drop (i + len) s"

definition replace_longer :: "u8 list \<Rightarrow> nat \<Rightarrow> nat \<Rightarrow> u8 list \<Rightarrow> u8 list" where
  "replace_longer s i len r = take i s @ take len r @ c_chars (drop len r) @ drop (i + len) s"

function replace_loop :: "(u8 list \<rightharpoonup> u8 list) \<Rightarrow> u8 list \<Rightarrow> nat \<Rightarrow> nat \<Rightarrow> u8 list \<times> nat" where
  "replace_loop defs s i e =
     (if \<not> (i < e \<and> i < length s) then (s, e)
      else if \<not> IsIdentifierChar (s ! i) then replace_loop defs s (i + 1) e
      else let len = IdfSize (drop i s)
        in case defs (take len (drop i s)) of
             None \<Rightarrow> replace_loop defs s (i + len + 1) e
           | Some r \<Rightarrow>
               if length r \<le> len then replace_loop defs (replace_padded s i len r) (i + len + 1) e
               else let s' = replace_longer s i len r in replace_loop defs s' (i + length r + 1) (length s'))"
  by pat_completeness auto
termination
proof (relation "measure (\<lambda>(_, s, i, _). length s - i)", goal_cases)
  case (4 defs s i e len r)
  then have "len \<le> length s - i" by (auto simp: IdfSize_def intro: order_trans [OF length_takeWhile_le])
  then have "length (replace_padded s i len r) = length s"
    using 4 unfolding replace_padded_def length_append length_map length_take length_drop by linarith
  then show ?case using 4 by (auto intro!: diff_less_mono2)
next
  case (5 defs s i e len r s')
  then have l: "len \<le> length s - i" by (auto simp: IdfSize_def intro: order_trans [OF length_takeWhile_le])
  have "length (c_chars (drop len r)) \<le> length r - len"
    by (simp add: c_chars_def order_trans [OF length_takeWhile_le])
  moreover have "length s' = i + (len + (length (c_chars (drop len r)) + (length s - (i + len))))"
    using 5 l by (simp add: replace_longer_def)
  ultimately have "length s' \<le> length s + (length r - len)" using 5 l by linarith
  then have "length s' - (i + length r + 1) < length s - i" using 5 l by linarith
  then show ?case by simp
qed (auto intro!: diff_less_mono2)

declare replace_loop.simps [simp del]

definition ReplaceDefines :: "pp_option \<Rightarrow> u8 list \<Rightarrow> nat \<Rightarrow> nat \<Rightarrow> u8 list \<times> nat" where
  "ReplaceDefines po s start e = replace_loop (po_defines po) s start e"


section \<open>Comments\<close>

datatype pp_level = LVL_WARNING | LVL_ERROR

datatype pp_text =
    NoEndComment | NoEndDevBlock | DepthTooHigh | IfdefParameter | IfdefInvalid | IfndefParameter | IfndefInvalid
  | ElseParameters | ElseWithoutIf | EndifParameters | EndifWithoutIf | DefineParameter | UserMessage "u8 list"
  | InsertParameter | InsertInvalid | CantReadInsert "u8 list" | CantParseInsert "u8 list" | MissingEndif
  | InInsert "u8 list" nat pp_text

type_synonym pp_message = "pp_level \<times> nat \<times> pp_text"

text \<open>
  The scanner walks over the text once; each helper gives the bytes it passed, rewritten, and the rest.
  A string literal is passed unchanged, backslashes hide the next byte.
\<close>

fun skip_string :: "u8 list \<Rightarrow> u8 list \<times> u8 list" where
  "skip_string [] = ([], [])"
| "skip_string [c] = ([c], [])"
| "skip_string (c # d # r) =
     (if c = ch CHR 0x5C then (let (a, b) = skip_string r in (c # d # a, b))
      else if c = ch CHR 0x22 then ([c], d # r)
      else (let (a, b) = skip_string (d # r) in (c # a, b)))"

fun blank_line :: "u8 list \<Rightarrow> u8 list \<times> u8 list" where
  "blank_line [] = ([], [])"
| "blank_line (c # r) = (if c = 10 then ([], c # r) else (let (a, b) = blank_line r in (SetBlankChar c # a, b)))"

text \<open>Up to the two closing bytes, which are blanked too; \<open>None\<close> when the text ends before them.\<close>

fun blank_until :: "u8 \<Rightarrow> u8 \<Rightarrow> u8 list \<Rightarrow> (u8 list \<times> u8 list) option" where
  "blank_until x y (c # d # r) =
     (if c = x \<and> d = y then Some ([SetBlankChar c, SetBlankChar d], r)
      else map_option (\<lambda>(a, b). (SetBlankChar c # a, b)) (blank_until x y (d # r)))"
| "blank_until x y _ = None"

lemma skip_string_length: "skip_string s = (a, b) \<Longrightarrow> length a + length b = length s"
  by (induction s arbitrary: a rule: skip_string.induct) (auto split: if_splits prod.splits)

lemma blank_line_length: "blank_line s = (a, b) \<Longrightarrow> length a + length b = length s"
  by (induction s arbitrary: a) (auto split: if_splits prod.splits)

lemma blank_until_length: "blank_until x y s = Some (a, b) \<Longrightarrow> length a + length b = length s"
  by (induction x y s arbitrary: a rule: blank_until.induct) (auto split: if_splits)

text \<open>
  \<^verbatim>\<open>ApplyPreProcessorComments\<close> stops at a terminator inside the text. The second byte of an opening is
  blanked before the closing is looked for.
\<close>

function comments :: "bool \<Rightarrow> u8 list \<Rightarrow> pp_text + u8 list" where
  "comments dev [] = Inr []"
| "comments dev [c] = Inr [c]"
| "comments dev (c # d # r) =
     (if c = 0 then Inr (c # d # r)
      else if c = ch CHR 0x22 then
        (let (a, b) = skip_string (d # r) in ebind (comments dev b) (\<lambda>t. Inr (c # a @ t)))
      else if c = ch CHR ''/'' \<and> d = ch CHR ''/'' then
        (let (a, b) = blank_line r in ebind (comments dev b) (\<lambda>t. Inr (SetBlankChar c # SetBlankChar d # a @ t)))
      else if c = ch CHR ''/'' \<and> d = ch CHR ''*'' then
        (case blank_until (ch CHR ''*'') (ch CHR ''/'') r of
           None \<Rightarrow> Inl NoEndComment
         | Some (a, b) \<Rightarrow> ebind (comments dev b) (\<lambda>t. Inr (SetBlankChar c # SetBlankChar d # a @ t)))
      else if dev \<and> c = ch CHR ''/'' \<and> d = ch CHR ''#'' then
        (case blank_until (ch CHR ''#'') (ch CHR ''/'') r of
           None \<Rightarrow> Inl NoEndDevBlock
         | Some (a, b) \<Rightarrow> ebind (comments dev b) (\<lambda>t. Inr (SetBlankChar c # SetBlankChar d # a @ t)))
      else ebind (comments dev (d # r)) (\<lambda>t. Inr (c # t)))"
  by pat_completeness auto
termination
  by (relation "measure (\<lambda>(_, s). length s)", simp_all)
     (metis add_leD2 le_imp_less_Suc le_SucI length_Cons order_refl skip_string_length blank_line_length blank_until_length)+

definition ApplyPreProcessorComments :: "pp_option \<Rightarrow> u8 list \<Rightarrow> pp_text + u8 list" where
  "ApplyPreProcessorComments po s = comments (po_devBlockAsComment po) s"


section \<open>Directives\<close>

record pp_state =
  ps_str :: "u8 list"
  ps_lineStart :: nat
  ps_lineIdx :: nat
  ps_err :: bool
  ps_erase :: "bool list"
  ps_opt :: pp_option
  ps_log :: "pp_message list"

type_synonym pp_insert = "u8 list \<Rightarrow> pp_option \<Rightarrow> bool \<times> u8 list \<times> pp_option \<times> pp_message list"

definition pp_report :: "pp_level \<Rightarrow> pp_text \<Rightarrow> pp_state \<Rightarrow> pp_state" where
  "pp_report lvl t st = st\<lparr>ps_log := ps_log st @ [(lvl, ps_lineIdx st, t)]\<rparr>"

definition pp_fail :: "pp_text \<Rightarrow> pp_state \<Rightarrow> pp_state" where
  "pp_fail t st = (pp_report LVL_ERROR t st)\<lparr>ps_err := True\<rparr>"

definition starts_with :: "string \<Rightarrow> u8 list \<Rightarrow> bool" where
  "starts_with p line \<longleftrightarrow> take (length p) line = cstr_of p"

definition pp_ifdef :: "u8 list \<Rightarrow> pp_state \<Rightarrow> pp_state" where
  "pp_ifdef line st =
     (let def = drop 6 line
      in if def = [] \<or> \<not> c_isspace (hd def) then pp_fail IfdefParameter st
         else case TrimDefineVal def False of
           (False, _) \<Rightarrow> pp_fail IfdefInvalid st
         | (True, d) \<Rightarrow>
             let forceDel = (ps_erase st \<noteq> [] \<and> hd (ps_erase st))
             in st\<lparr>ps_erase := (forceDel \<or> po_defines (ps_opt st) d = None) # ps_erase st\<rparr>)"

definition pp_ifndef :: "u8 list \<Rightarrow> pp_state \<Rightarrow> pp_state" where
  "pp_ifndef line st =
     (let def = drop 7 line
      in if def = [] \<or> \<not> c_isspace (hd def) then pp_fail IfndefParameter st
         else case TrimDefineVal def False of
           (False, _) \<Rightarrow> pp_fail IfndefInvalid st
         | (True, d) \<Rightarrow>
             let del = (ps_erase st \<noteq> [] \<and> hd (ps_erase st))
             in st\<lparr>ps_erase := (del \<or> po_defines (ps_opt st) d \<noteq> None) # ps_erase st\<rparr>)"

definition pp_else :: "u8 list \<Rightarrow> pp_state \<Rightarrow> pp_state" where
  "pp_else line st =
     (if \<not> HasOnlySpaceAfter line 5 then pp_fail ElseParameters st
      else case ps_erase st of
        [] \<Rightarrow> pp_fail ElseWithoutIf st
      | cur # outer \<Rightarrow>
          st\<lparr>ps_erase := (if outer \<noteq> [] then (if \<not> hd outer then False else \<not> cur) else \<not> cur) # outer\<rparr>)"

definition pp_endif :: "u8 list \<Rightarrow> pp_state \<Rightarrow> pp_state" where
  "pp_endif line st =
     (if \<not> HasOnlySpaceAfter line 6 then pp_fail EndifParameters st
      else case ps_erase st of [] \<Rightarrow> pp_fail EndifWithoutIf st | _ # outer \<Rightarrow> st\<lparr>ps_erase := outer\<rparr>)"

definition pp_define :: "u8 list \<Rightarrow> pp_state \<Rightarrow> pp_state" where
  "pp_define line st =
     (let spaces = length (takeWhile c_isspace (drop 7 line)); defStartIdx = 7 + spaces
      in if defStartIdx = length line \<or> defStartIdx = 7 then pp_fail DefineParameter st
         else let def = drop defStartIdx line; len = IdfSize def
           in st\<lparr>ps_opt := AddDefine (take len def) (c_chars (drop len def)) (ps_opt st)\<rparr>)"

definition insert_name :: "u8 list \<Rightarrow> u8 list" where
  "insert_name f = rev (dropWhile (\<lambda>c. c = ch CHR '';'' \<or> c_isspace c) (rev f))"

text \<open>\<^verbatim>\<open>#insert\<close> of the line at \<open>[ls, nxt)\<close>: the state and the new end of the line.\<close>

definition pp_insert ::
  "(u8 list \<Rightarrow> u8 list option) \<Rightarrow> pp_insert \<Rightarrow> u8 list \<Rightarrow> nat \<Rightarrow> nat \<Rightarrow> pp_state \<Rightarrow> pp_state \<times> nat" where
  "pp_insert fs ins line ls nxt st =
     (let name = drop 7 line
      in if name = [] \<or> \<not> c_isspace (hd name) then (pp_fail InsertParameter st, nxt)
         else case TrimDefineVal name True of
           (False, _) \<Rightarrow> (pp_fail InsertInvalid st, nxt)
         | (True, t) \<Rightarrow>
             let f = insert_name t
             in case fs f of
                  None \<Rightarrow> (pp_fail (CantReadInsert f) st, nxt)
                | Some d \<Rightarrow>
                    (case ins d (ps_opt st) of (ok, d', po, msgs) \<Rightarrow>
                       let st = st\<lparr>ps_opt := po,
                                   ps_log := ps_log st @ map (\<lambda>(lvl, l, m). (lvl, ps_lineIdx st, InInsert f l m)) msgs\<rparr>
                       in if \<not> ok then (pp_fail (CantParseInsert f) st, nxt)
                          else let flat = map (\<lambda>c. if c = 13 \<or> c = 10 then 32 else c) (c_chars d') @ drop (length (c_chars d')) d'
                            in (st\<lparr>ps_str := take ls (ps_str st) @ flat @ drop nxt (ps_str st)\<rparr>, ls + length flat)))"

definition line_end :: "u8 list \<Rightarrow> nat \<Rightarrow> nat" where
  "line_end s i = (case find_char 10 (drop i s) of None \<Rightarrow> length s | Some k \<Rightarrow> i + k)"

definition skip_spaces :: "u8 list \<Rightarrow> nat \<Rightarrow> nat \<Rightarrow> nat" where
  "skip_spaces s i nxt = i + length (takeWhile c_isspace (take (nxt - i) (drop i s)))"

definition blank_range :: "u8 list \<Rightarrow> nat \<Rightarrow> nat \<Rightarrow> u8 list" where
  "blank_range s i nxt = take i s @ map SetBlankChar (take (nxt - i) (drop i s)) @ drop nxt s"

text \<open>
  What a line does: the state, the end of the line and whether the line is then blanked. Only the text of a
  line that is no directive is kept.
\<close>

definition pp_directive ::
  "(u8 list \<Rightarrow> u8 list option) \<Rightarrow> pp_insert \<Rightarrow> u8 list \<Rightarrow> nat \<Rightarrow> nat \<Rightarrow> pp_state \<Rightarrow> (pp_state \<times> nat) \<times> bool" where
  "pp_directive fs ins line ls nxt st =
     (if starts_with ''#ifdef'' line then ((pp_ifdef line st, nxt), True)
      else if starts_with ''#ifndef'' line then ((pp_ifndef line st, nxt), True)
      else if starts_with ''#else'' line then ((pp_else line st, nxt), True)
      else if starts_with ''#endif'' line then ((pp_endif line st, nxt), True)
      else if ps_erase st = [] \<or> \<not> hd (ps_erase st) then
        (if \<not> po_noDefineExpr (ps_opt st) \<and> starts_with ''#define'' line then ((pp_define line st, nxt), True)
         else if starts_with ''#error'' line then
           ((pp_fail (UserMessage (drop (if 6 < length line then 7 else 6) line)) st, nxt), True)
         else if starts_with ''#warning'' line then
           ((pp_report LVL_WARNING (UserMessage (drop (if 8 < length line then 9 else 8) line)) st, nxt), True)
         else if starts_with ''#insert'' line then (pp_insert fs ins line ls nxt st, True)
         else if \<not> starts_with ''#region'' line \<and> \<not> starts_with ''#endregion'' line then
           (case ReplaceDefines (ps_opt st) (ps_str st) ls nxt of (s', nxt') \<Rightarrow> ((st\<lparr>ps_str := s'\<rparr>, nxt'), False))
         else ((st, nxt), True))
      else ((st, nxt), True))"

text \<open>One turn of the loop over the lines.\<close>

definition pp_line :: "(u8 list \<Rightarrow> u8 list option) \<Rightarrow> pp_insert \<Rightarrow> pp_state \<Rightarrow> pp_state" where
  "pp_line fs ins st =
     (let s = ps_str st;
          nxt = line_end s (ps_lineStart st);
          ls = skip_spaces s (ps_lineStart st) nxt;
          removed = (if ls < nxt \<and> s ! (nxt - 1) = 13 then 1 else 0);
          line = take (nxt - removed - ls) (drop ls s)
      in case pp_directive fs ins line ls nxt (st\<lparr>ps_lineIdx := ps_lineIdx st + 1\<rparr>) of
           ((st, nxt), blank) \<Rightarrow>
             st\<lparr>ps_str := (if blank then blank_range (ps_str st) ls nxt else ps_str st), ps_lineStart := nxt + 1\<rparr>)"

text \<open>What is left of the text behind a line only shrinks, so the loop ends.\<close>

lemma replace_loop_suffix:
  "e \<le> length s \<Longrightarrow> replace_loop defs s i e = (s', e') \<Longrightarrow> e' \<le> length s' \<and> length s' - e' \<le> length s - e"
proof (induction defs s i e rule: replace_loop.induct)
  case (1 defs s i e)
  show ?case
  proof (cases "i < e \<and> i < length s")
    case False
    then show ?thesis using "1.prems" by (subst (asm) replace_loop.simps) auto
  next
    case True
    note step = "1.prems"(2) [unfolded replace_loop.simps [of defs s i e]]
    show ?thesis
    proof (cases "IsIdentifierChar (s ! i)")
      case False
      then show ?thesis using "1.IH"(1) True step "1.prems"(1) by auto
    next
      case idf: True
      let ?len = "IdfSize (drop i s)"
      show ?thesis
      proof (cases "defs (take ?len (drop i s))")
        case None
        then show ?thesis using "1.IH"(2) True idf step "1.prems"(1) by (auto simp: Let_def)
      next
        case (Some r)
        have l: "?len \<le> length s - i" by (auto simp: IdfSize_def intro: order_trans [OF length_takeWhile_le])
        show ?thesis
        proof (cases "length r \<le> ?len")
          case r: True
          then have "length (replace_padded s i ?len r) = length s"
            using l True unfolding replace_padded_def length_append length_map length_take length_drop by linarith
          then show ?thesis using "1.IH"(3) [OF _ _ refl Some r] True idf step "1.prems"(1) Some r by (auto simp: Let_def)
        next
          case False
          then show ?thesis using "1.IH"(4) [OF _ _ refl Some False refl] True idf step "1.prems"(1) Some by (auto simp: Let_def)
        qed
      qed
    qed
  qed
qed

lemma line_end_bounds: "i \<le> length s \<Longrightarrow> i \<le> line_end s i \<and> line_end s i \<le> length s"
proof -
  assume i: "i \<le> length s"
  have "find_char c xs = Some k \<Longrightarrow> k < length xs" for c xs k
    by (induction xs arbitrary: k) (auto split: if_splits)
  from this [of 10 "drop i s"] i show ?thesis by (force simp: line_end_def split: option.splits)
qed

lemma skip_spaces_bounds: "i \<le> n \<Longrightarrow> i \<le> skip_spaces s i n \<and> skip_spaces s i n \<le> n"
  using length_takeWhile_le [of c_isspace "take (n - i) (drop i s)"] by (auto simp: skip_spaces_def)

lemma pp_report_sel [simp]:
  "ps_str (pp_report l t st) = ps_str st" "ps_erase (pp_report l t st) = ps_erase st" "ps_opt (pp_report l t st) = ps_opt st"
  "ps_lineStart (pp_report l t st) = ps_lineStart st" "ps_lineIdx (pp_report l t st) = ps_lineIdx st"
  by (simp_all add: pp_report_def)

lemma pp_fail_sel [simp]:
  "ps_str (pp_fail t st) = ps_str st" "ps_erase (pp_fail t st) = ps_erase st" "ps_opt (pp_fail t st) = ps_opt st"
  "ps_lineStart (pp_fail t st) = ps_lineStart st" "ps_lineIdx (pp_fail t st) = ps_lineIdx st"
  by (simp_all add: pp_fail_def)

lemma directive_str [simp]:
  "ps_str (pp_ifdef line st) = ps_str st" "ps_str (pp_ifndef line st) = ps_str st" "ps_str (pp_else line st) = ps_str st"
  "ps_str (pp_endif line st) = ps_str st" "ps_str (pp_define line st) = ps_str st"
  by (auto simp: pp_ifdef_def pp_ifndef_def pp_else_def pp_endif_def pp_define_def Let_def split: prod.splits list.splits bool.splits)

lemma pp_insert_suffix:
  "pp_insert fs ins line ls nxt st = (st', nxt') \<Longrightarrow> ls \<le> nxt \<Longrightarrow> nxt \<le> length (ps_str st) \<Longrightarrow>
   nxt' \<le> length (ps_str st') \<and> length (ps_str st') - nxt' = length (ps_str st) - nxt"
  by (auto simp: pp_insert_def Let_def split: if_splits prod.splits option.splits bool.splits)

lemma length_blank_range: "i \<le> n \<Longrightarrow> n \<le> length s \<Longrightarrow> length (blank_range s i n) = length s"
  by (simp add: blank_range_def)


lemma pp_insert_end: "pp_insert fs ins line ls nxt st = (st', nxt') \<Longrightarrow> ls \<le> nxt \<Longrightarrow> ls \<le> nxt'"
  by (auto simp: pp_insert_def Let_def split: if_splits prod.splits option.splits bool.splits)

lemma pp_directive_suffix:
  assumes "pp_directive fs ins line ls nxt st = ((st', nxt'), blank)" "ls \<le> nxt" "nxt \<le> length (ps_str st)"
  shows "nxt' \<le> length (ps_str st') \<and> length (ps_str st') - nxt' \<le> length (ps_str st) - nxt \<and> (blank \<longrightarrow> ls \<le> nxt')"
proof -
  note simps = assms(1) [unfolded pp_directive_def]
  consider (stay) "ps_str st' = ps_str st" "nxt' = nxt"
    | (insert) "pp_insert fs ins line ls nxt st = (st', nxt')"
    | (replace) s' where "ReplaceDefines (ps_opt st) (ps_str st) ls nxt = (s', nxt')" "ps_str st' = s'" "\<not> blank"
    using simps by (simp split: if_splits prod.splits) (auto dest: sym)
  then show ?thesis
  proof cases
    case insert
    then show ?thesis using pp_insert_suffix [OF insert assms(2,3)] pp_insert_end [OF insert assms(2)] by simp
  next
    case (replace s')
    then show ?thesis using replace_loop_suffix [OF assms(3)] by (auto simp: ReplaceDefines_def)
  qed (use assms(2,3) in auto)
qed

lemma pp_line_progress:
  assumes "ps_lineStart st < length (ps_str st)"
  shows "length (ps_str (pp_line fs ins st)) - ps_lineStart (pp_line fs ins st) < length (ps_str st) - ps_lineStart st"
proof -
  let ?n = "line_end (ps_str st) (ps_lineStart st)"
  let ?ls = "skip_spaces (ps_str st) (ps_lineStart st) ?n"
  have b: "ps_lineStart st \<le> ?n" "?n \<le> length (ps_str st)" "?ls \<le> ?n"
    using line_end_bounds [of "ps_lineStart st" "ps_str st"] skip_spaces_bounds [of "ps_lineStart st" ?n] assms by auto
  define L where "L = take (?n - (if ?ls < ?n \<and> ps_str st ! (?n - 1) = 13 then 1 else 0) - ?ls) (drop ?ls (ps_str st))"
  obtain u n blank where d: "pp_directive fs ins L ?ls ?n (st\<lparr>ps_lineIdx := ps_lineIdx st + 1\<rparr>) = ((u, n), blank)"
    by (metis surj_pair)
  have l: "pp_line fs ins st = u\<lparr>ps_str := (if blank then blank_range (ps_str u) ?ls n else ps_str u), ps_lineStart := n + 1\<rparr>"
    unfolding pp_line_def Let_def L_def [symmetric] d by simp
  note p = pp_directive_suffix [OF d b(3)]
  have "length (ps_str (pp_line fs ins st)) = length (ps_str u)" using p b by (simp add: l length_blank_range)
  moreover have "length (ps_str u) - n \<le> length (ps_str st) - ?n" using p b by simp
  ultimately show ?thesis using b assms by (simp add: l)
qed

function pp_loop :: "(u8 list \<Rightarrow> u8 list option) \<Rightarrow> pp_insert \<Rightarrow> pp_state \<Rightarrow> pp_state" where
  "pp_loop fs ins st =
     (if ps_lineStart st < length (ps_str st) then pp_loop fs ins (pp_line fs ins st) else st)"
  by pat_completeness auto
termination
  by (relation "measure (\<lambda>(_, _, st). length (ps_str st) - ps_lineStart st)") (auto intro: pp_line_progress)

declare pp_loop.simps [simp del]

text \<open>
  \<^verbatim>\<open>ApplyPreProcessor\<close>: the result, the text, the options and the messages. \<^verbatim>\<open>currentDepth\<close> is raised
  during the call and restored at its end; the first argument is what is left of it up to 10, and only a
  depth of 10 is refused, so an insert is one nearer to the refusal. The text of a failed run is of no use.
\<close>

primrec pp_apply :: "(u8 list \<Rightarrow> u8 list option) \<Rightarrow> nat \<Rightarrow> pp_insert" where
  "pp_apply fs 0 = (\<lambda>s po. (False, s, po, []))"
| "pp_apply fs (Suc k) = (\<lambda>s po.
     case ApplyPreProcessorComments po s of
       Inl e \<Rightarrow> (False, s, po, [(LVL_ERROR, 0, e)])
     | Inr t \<Rightarrow>
         if k = 0 then (False, t, po, [(LVL_ERROR, 0, DepthTooHigh)])
         else let st = pp_loop fs (pp_apply fs k)
                    \<lparr>ps_str = t, ps_lineStart = 0, ps_lineIdx = 0, ps_err = False, ps_erase = [], ps_opt = po, ps_log = []\<rparr>
              in if ps_erase st \<noteq> []
                 then (False, ps_str st, ps_opt st, ps_log st @ [(LVL_ERROR, ps_lineIdx st, MissingEndif)])
                 else (\<not> ps_err st, ps_str st, ps_opt st, ps_log st))"

definition ApplyPreProcessor :: "(u8 list \<Rightarrow> u8 list option) \<Rightarrow> pp_insert" where
  "ApplyPreProcessor fs s po = pp_apply fs (10 - po_currentDepth po) s po"

end
