(* ===== verification/Preprocessor_Properties.thy ===== *)
theory Preprocessor_Properties
  imports Preprocessor
begin

text \<open>
  Properties of the preprocessor: removing comments keeps the shape of a text, replacing defines is one
  lookup of every identifier when the values fit and ends the scan of the text when one does not, the
  entries of a list of defines, and the branches of a conditional.
\<close>

section \<open>Comments\<close>

definition kept_or_blank :: "u8 \<Rightarrow> u8 \<Rightarrow> bool" where
  "kept_or_blank a b \<longleftrightarrow> b = a \<or> b = SetBlankChar a"

lemma kept_self [simp]: "kept_or_blank a a" "kept_or_blank a (SetBlankChar a)"
  by (simp_all add: kept_or_blank_def)

lemma list_all2_kept_self [simp]: "list_all2 kept_or_blank s s"
  by (simp add: list_all2_refl)

lemma space_32 [simp]: "c_isspace 32"
  by (simp add: c_isspace_def)

lemma isspace_SetBlankChar [simp]: "c_isspace (SetBlankChar c)"
  by (simp add: SetBlankChar_def)











definition demo_option :: pp_option where
  "demo_option = \<lparr>po_defines = Map.empty, po_devBlockAsComment = False, po_noDefineExpr = False, po_currentDepth = 0\<rparr>"


section \<open>Defines\<close>

text \<open>The meaning of a replacement that fits: every maximal identifier is looked up once.\<close>

lemma dropWhile_less [termination_simp]: "length (dropWhile P xs) < Suc (length xs)"
  using length_dropWhile_le [of P xs] by simp

fun subst_tokens :: "(u8 list \<rightharpoonup> u8 list) \<Rightarrow> u8 list \<Rightarrow> u8 list" where
  "subst_tokens defs [] = []"
| "subst_tokens defs (c # r) =
     (if \<not> IsIdentifierChar c then c # subst_tokens defs r
      else let w = c # takeWhile IsIdentifierChar r
        in (case defs w of None \<Rightarrow> w | Some v \<Rightarrow> v @ replicate (length w - length v) 32) @
           subst_tokens defs (dropWhile IsIdentifierChar r))"

definition fitting :: "(u8 list \<rightharpoonup> u8 list) \<Rightarrow> bool" where
  "fitting defs \<longleftrightarrow> (\<forall>w v. defs w = Some v \<longrightarrow> length v \<le> length w)"

lemma idf_not_space: "IsIdentifierChar c \<Longrightarrow> \<not> c_isspace c"
proof -
  have "\<not> (c_isspace c \<and> IsIdentifierChar c)"
    by (auto simp: IsIdentifierChar_def c_isspace_def c_isalnum_def c_isalpha_def c_isdigit_def of_char_def word_le_nat_alt word_less_nat_alt word_unat_eq_iff)
  then show "IsIdentifierChar c \<Longrightarrow> \<not> c_isspace c" by blast
qed

lemma replace_padded_idf:
  assumes "len = IdfSize (drop i s)" "i \<le> length s" "length v \<le> len"
  shows "replace_padded s i len v = take i s @ v @ replicate (len - length v) 32 @ drop (i + len) s"
proof -
  have "len \<le> length s - i" using assms(1) by (auto simp: IdfSize_def intro: order_trans [OF length_takeWhile_le])
  then have l: "length (take (len - length v) (drop (i + length v) s)) = len - length v" using assms(3) by simp
  have "IsIdentifierChar c" if "c \<in> set (take (len - length v) (drop (i + length v) s))" for c
  proof -
    have "take (len - length v) (drop (i + length v) s) = drop (length v) (take len (drop i s))"
      using assms(3) by (simp add: drop_take add.commute)
    also have "take len (drop i s) = takeWhile IsIdentifierChar (drop i s)"
      unfolding assms(1) IdfSize_def by (metis takeWhile_eq_take)
    finally show ?thesis using that by (metis in_set_dropD set_takeWhileD)
  qed
  then have "map SetBlankChar (take (len - length v) (drop (i + length v) s)) = map (\<lambda>_. 32) (take (len - length v) (drop (i + length v) s))"
    by (intro map_cong) (auto simp: SetBlankChar_def idf_not_space)
  also have "\<dots> = replicate (len - length v) 32" using l by (simp add: map_replicate_const)
  finally show ?thesis by (simp add: replace_padded_def)
qed

lemma takeWhile_take: "takeWhile P (take n xs) = take n (takeWhile P xs)"
  by (induction xs arbitrary: n) (auto simp: take_Cons split: nat.splits)

lemma replace_loop_step:
  assumes "i < e" "e \<le> length s"
  shows "replace_loop defs s i e =
     (if \<not> IsIdentifierChar (s ! i) then replace_loop defs s (i + 1) e
      else let len = IdfSize (drop i s)
        in case defs (take len (drop i s)) of
             None \<Rightarrow> replace_loop defs s (i + len + 1) e
           | Some r \<Rightarrow>
               if length r \<le> len then replace_loop defs (replace_padded s i len r) (i + len + 1) e
               else let s' = replace_longer s i len r in replace_loop defs s' (i + length r + 1) (length s'))"
  using assms by (subst replace_loop.simps) auto

lemma take_drop_step:
  assumes "j < e" "e \<le> length s"
  shows "take (e - j) (drop j s) = s ! j # take (e - (j + 1)) (drop (j + 1) s)"
proof -
  have "drop j s = s ! j # drop (Suc j) s" using assms by (simp add: Cons_nth_drop_Suc)
  then show ?thesis using assms by (simp add: take_Cons' Suc_diff_Suc)
qed

lemma replace_loop_fits:
  assumes "fitting defs" "i \<le> e" "e \<le> length s" "e = length s \<or> \<not> IsIdentifierChar (s ! e)"
  shows "replace_loop defs s i e = (take i s @ subst_tokens defs (take (e - i) (drop i s)) @ drop e s, e)"
  using assms(2-)
proof (induction "e - i" arbitrary: s i rule: less_induct)
  case less
  show ?case
  proof (cases "i = e")
    case True
    then show ?thesis by (subst replace_loop.simps) simp
  next
    case False
    then have ie: "i < e" "i < length s" using less.prems by auto
    have ds: "drop i s = s ! i # drop (Suc i) s" using ie(2) by (simp add: Cons_nth_drop_Suc)
    have ti: "take (e - i) (drop i s) = s ! i # take (e - Suc i) (drop (Suc i) s)"
      using ie by (simp add: ds take_Cons' Suc_diff_Suc)
    show ?thesis
    proof (cases "IsIdentifierChar (s ! i)")
      case nid: False
      have IH: "replace_loop defs s (i + 1) e = (take (i + 1) s @ subst_tokens defs (take (e - (i + 1)) (drop (i + 1) s)) @ drop e s, e)"
        by (rule less.hyps) (use ie less.prems in auto)
      show ?thesis using nid IH ie(2) unfolding replace_loop_step [OF ie(1) less.prems(2)] ti
        by (simp add: take_Suc_conv_app_nth)
    next
      case idf: True
      let ?w = "takeWhile IsIdentifierChar (drop i s)" and ?len = "IdfSize (drop i s)"
      have lw: "length ?w = ?len" by (simp add: IdfSize_def)
      have lens: "?len \<le> length s - i" using length_takeWhile_le [of IsIdentifierChar "drop i s"] by (simp add: IdfSize_def)
      have le: "?len \<le> e - i"
      proof (rule ccontr)
        assume n: "\<not> ?len \<le> e - i"
        then have "?w ! (e - i) \<in> set ?w" using lw by (intro nth_mem) simp
        moreover have "?w ! (e - i) = s ! e" using n lw ie by (simp add: takeWhile_nth)
        ultimately have "IsIdentifierChar (s ! e)" by (metis set_takeWhileD)
        moreover have "e < length s" using n lens ie by linarith
        ultimately show False using less.prems(3) by auto
      qed
      have tw: "take ?len (drop i s) = ?w" unfolding IdfSize_def by (metis takeWhile_eq_take)
      define w' where "w' = (case defs ?w of None \<Rightarrow> ?w | Some v \<Rightarrow> v @ replicate (length ?w - length v) 32)"
      define s1 where "s1 = take i s @ w' @ drop (i + ?len) s"
      have lw': "length w' = ?len"
      proof (cases "defs ?w")
        case (Some v)
        then have "length v \<le> length ?w" using assms(1) unfolding fitting_def by blast
        then show ?thesis using Some lw by (simp add: w'_def)
      qed (use lw in \<open>simp add: w'_def\<close>)
      note unf = replace_loop_step [OF ie(1) less.prems(2), of defs, unfolded Let_def tw]
      have step: "replace_loop defs s i e = replace_loop defs s1 (i + ?len + 1) e"
      proof (cases "defs ?w")
        case None
        have "drop (i + ?len) s = drop ?len (drop i s)" by (simp add: add.commute)
        then have "s1 = take i s @ take ?len (drop i s) @ drop ?len (drop i s)" using None tw by (simp add: s1_def w'_def)
        then have "s1 = s" by (simp only: append_take_drop_id)
        then show ?thesis using unf idf by (simp only: None option.case not_True_eq_False if_False)
      next
        case (Some v)
        then have v: "length v \<le> ?len" using assms(1) lw unfolding fitting_def by metis
        have "replace_padded s i ?len v = s1" using replace_padded_idf [OF refl _ v] ie(2) Some lw by (simp add: s1_def w'_def)
        then show ?thesis using unf idf v by (simp only: Some option.case not_True_eq_False if_False if_True)
      qed
      have ls1: "length s1 = length s" using lw' lens ie(2) by (simp add: s1_def)
      have d1: "drop (i + ?len + k) s1 = drop (i + ?len + k) s" for k
        using lw' ie(2) by (simp add: s1_def add.commute add.left_commute)
      have seg: "subst_tokens defs (take (e - i) (drop i s)) = w' @ subst_tokens defs (take (e - (i + ?len)) (drop (i + ?len) s))"
      proof -
        have "takeWhile IsIdentifierChar (take (e - i) (drop i s)) = ?w"
          using le lw by (simp add: takeWhile_take)
        then have w1: "s ! i # takeWhile IsIdentifierChar (take (e - Suc i) (drop (Suc i) s)) = ?w"
          unfolding ti using idf by simp
        have "dropWhile IsIdentifierChar (take (e - i) (drop i s)) = drop ?len (take (e - i) (drop i s))"
          by (simp add: dropWhile_eq_drop \<open>takeWhile IsIdentifierChar (take (e - i) (drop i s)) = ?w\<close> lw)
        also have "\<dots> = take (e - (i + ?len)) (drop (i + ?len) s)" by (simp add: drop_take add.commute)
        finally have "dropWhile IsIdentifierChar (take (e - Suc i) (drop (Suc i) s)) = take (e - (i + ?len)) (drop (i + ?len) s)"
          unfolding ti using idf by simp
        then show ?thesis unfolding ti using idf w1 by (simp add: Let_def w'_def)
      qed
      show ?thesis
      proof (cases "i + ?len = e")
        case True
        have "replace_loop defs s1 (i + ?len + 1) e = (s1, e)" using True by (subst replace_loop.simps) simp
        then show ?thesis unfolding step seg using True by (simp add: s1_def)
      next
        case lt: False
        then have il: "i + ?len < e" using le ie by linarith
        let ?j = "i + ?len"
        have "length ?w < length (drop i s)" unfolding lw using il less.prems(2) by simp
        from nth_length_takeWhile [OF this] have "\<not> IsIdentifierChar (drop i s ! ?len)" unfolding lw .
        then have cn: "\<not> IsIdentifierChar (s ! ?j)" using ie(2) by simp
        have de: "drop e s1 = drop e s" using d1 [of "e - ?j"] il by simp
        have ends: "e = length s1 \<or> \<not> IsIdentifierChar (s1 ! e)"
        proof (cases "e = length s")
          case False
          then have "e < length s" "e < length s1" using less.prems(2) by (simp_all only: ls1)
          then have "s1 ! e = s ! e" by (metis de hd_drop_conv_nth)
          then show ?thesis using False less.prems(3) by metis
        qed (simp add: ls1)
        have "e - (?j + 1) < e - i" "?j + 1 \<le> e" "e \<le> length s1" using il less.prems(2) ls1 by linarith+
        note less.hyps [OF this ends]
        moreover note de
        moreover have "take (?j + 1) s1 = take i s @ w' @ [s ! ?j]"
          unfolding s1_def using lw' ie(2) il less.prems(2) by (simp add: take_Suc_conv_app_nth [symmetric] take_Suc hd_drop_conv_nth)
        moreover have "take (e - ?j) (drop ?j s) = s ! ?j # take (e - (?j + 1)) (drop (?j + 1) s)"
          by (rule take_drop_step [OF il less.prems(2)])
        ultimately show ?thesis unfolding step seg using cn d1 [of 1] by simp
      qed
    qed
  qed
qed

text \<open>
  C20. When no value is longer than its name, \<^verbatim>\<open>ReplaceDefines\<close> replaces every maximal identifier of the line
  once by its value, padded with blanks to the length of the identifier, keeps everything else, and
  reports the same end of the line.
\<close>

theorem ReplaceDefines_fits:
  assumes "fitting (po_defines po)" "i \<le> e" "e \<le> length s" "e = length s \<or> \<not> IsIdentifierChar (s ! e)"
  shows "ReplaceDefines po s i e = (take i s @ subst_tokens (po_defines po) (take (e - i) (drop i s)) @ drop e s, e)"
  using replace_loop_fits [OF assms] by (simp add: ReplaceDefines_def)

lemma ReplaceDefines_fits_witness:
  "ReplaceDefines (AddDefine (cstr_of ''abc'') (cstr_of ''x'') demo_option) (cstr_of ''abc+abcd'') 0 8 = (cstr_of ''x  +abcd'', 8)"
proof -
  let ?po = "AddDefine (cstr_of ''abc'') (cstr_of ''x'') demo_option"
  have "fitting (po_defines ?po)" by (auto simp: fitting_def AddDefine_def demo_option_def cstr_of_def split: if_splits)
  moreover have "length (cstr_of ''abc+abcd'') = 8" by (simp add: cstr_of_def)
  moreover have "subst_tokens (po_defines ?po) (cstr_of ''abc+abcd'') = cstr_of ''x  +abcd''" by code_simp
  ultimately show ?thesis using ReplaceDefines_fits [of ?po 0 8 "cstr_of ''abc+abcd''"] by simp
qed

lemma replace_loop_end:
  "e \<le> length s \<Longrightarrow> replace_loop defs s i e = (s', e') \<Longrightarrow> (e' = e \<and> length s' = length s) \<or> e' = length s'"
proof (induction defs s i e rule: replace_loop.induct)
  case (1 defs s i e)
  show ?case
  proof (cases "i < e \<and> i < length s")
    case False
    then show ?thesis using "1.prems" by (subst (asm) replace_loop.simps) auto
  next
    case True
    let ?len = "IdfSize (drop i s)"
    note step = "1.prems"(2) [unfolded replace_loop.simps [of defs s i e] Let_def]
    consider "\<not> IsIdentifierChar (s ! i)" | "IsIdentifierChar (s ! i)" "defs (take ?len (drop i s)) = None"
      | r where "IsIdentifierChar (s ! i)" "defs (take ?len (drop i s)) = Some r" by blast
    then show ?thesis
    proof cases
      case 1
      then show ?thesis using "1.IH"(1) True step "1.prems"(1) by auto
    next
      case 2
      then show ?thesis using "1.IH"(2) True step "1.prems"(1) by auto
    next
      case (3 r)
      have l: "?len \<le> length s - i" by (auto simp: IdfSize_def intro: order_trans [OF length_takeWhile_le])
      show ?thesis
      proof (cases "length r \<le> ?len")
        case r: True
        then have "length (replace_padded s i ?len r) = length s"
          using l True unfolding replace_padded_def length_append length_map length_take length_drop by linarith
        then show ?thesis using "1.IH"(3) [OF _ _ refl 3(2) r] True 3(1) step "1.prems"(1) 3(2) r by auto
      next
        case False
        then show ?thesis using "1.IH"(4) [OF _ _ refl 3(2) False refl] True 3(1) step 3(2) by auto
      qed
    qed
  qed
qed

text \<open>
  C31. A define whose value is longer than its name ends the scan: once a replacement makes the text longer,
  the end of the line becomes the end of the text, so the loop over the lines is over and every directive
  behind that line stays in the text unread.
\<close>

theorem growth_ends_scan:
  assumes "pp_directive fs ins line ls nxt st = ((st', nxt'), False)" "nxt \<le> length (ps_str st)"
    and "length (ps_str st') \<noteq> length (ps_str st)"
  shows "nxt' = length (ps_str st') \<and> ps_erase st' = ps_erase st \<and>
    pp_loop fs ins (st'\<lparr>ps_lineStart := nxt' + 1\<rparr>) = st'\<lparr>ps_lineStart := nxt' + 1\<rparr>"
proof -
  obtain s' where r: "ReplaceDefines (ps_opt st) (ps_str st) ls nxt = (s', nxt')" and st': "st' = st\<lparr>ps_str := s'\<rparr>"
    using assms(1) unfolding pp_directive_def by (simp split: if_splits prod.splits)
  have "nxt' = length s'"
    using replace_loop_end [of nxt "ps_str st"] r assms(2,3) unfolding ReplaceDefines_def st' by fastforce
  then show ?thesis by (simp add: st' pp_loop.simps)
qed

definition grow_state :: pp_state where
  "grow_state = \<lparr>ps_str = cstr_of ''A'' @ [10] @ cstr_of ''#endif'', ps_lineStart = 0, ps_lineIdx = 1, ps_err = False,
     ps_erase = [], ps_opt = AddDefine (cstr_of ''A'') (cstr_of ''xyz'') demo_option, ps_log = []\<rparr>"

lemma growth_ends_scan_witness:
  "\<exists>st'. pp_directive (\<lambda>_. None) (\<lambda>s po. (True, s, po, [])) (cstr_of ''A'') 0 1 grow_state = ((st', 10), False) \<and>
     ps_str st' = cstr_of ''xyz'' @ [10] @ cstr_of ''#endif'' \<and>
     pp_loop (\<lambda>_. None) (\<lambda>s po. (True, s, po, [])) (st'\<lparr>ps_lineStart := 11\<rparr>) = st'\<lparr>ps_lineStart := 11\<rparr>"
proof -
  let ?s = "cstr_of ''xyz'' @ [10] @ cstr_of ''#endif''"
  have "ReplaceDefines (ps_opt grow_state) (ps_str grow_state) 0 1 = (?s, 10)"
    by (simp add: ReplaceDefines_def replace_loop.simps grow_state_def demo_option_def AddDefine_def cstr_of_def IdfSize_def
        IsIdentifierChar_def c_isalnum_def c_isalpha_def c_isdigit_def of_char_def replace_longer_def c_chars_def)
  then have d: "pp_directive (\<lambda>_. None) (\<lambda>s po. (True, s, po, [])) (cstr_of ''A'') 0 1 grow_state = ((grow_state\<lparr>ps_str := ?s\<rparr>, 10), False)"
    by (simp add: pp_directive_def starts_with_def cstr_of_def of_char_def grow_state_def demo_option_def AddDefine_def)
  show ?thesis
    using growth_ends_scan [OF d] d by (simp add: grow_state_def cstr_of_def)
qed

section \<open>Lists of defines\<close>

fun join_defines :: "u8 list \<Rightarrow> u8 list list \<Rightarrow> u8 list" where
  "join_defines d [] = d"
| "join_defines d (e # es) = d @ ch CHR '','' # join_defines e es"

lemma join_defines_snoc: "join_defines d (es @ [e]) = join_defines d es @ ch CHR '','' # e"
  by (induction d es rule: join_defines.induct) auto

definition entry_ok :: "u8 list \<Rightarrow> bool" where
  "entry_ok d \<longleftrightarrow> no_nul d \<and> ch CHR '','' \<notin> set d"

lemma find_last_comma_entry:
  assumes "entry_ok e"
  shows "k \<le> length e \<Longrightarrow> find_last_comma (p @ ch CHR '','' # e @ suf) (length p + k) = Some (length p)"
proof (induction k)
  case 0
  then show ?case by (simp add: find_last_comma.simps char_at_def)
next
  case (Suc k)
  have "char_at (p @ ch CHR '','' # e @ suf) (length p + Suc k) = e ! k"
    using Suc.prems by (simp add: char_at_def nth_append)
  moreover have "e ! k \<in> set e" using Suc.prems by simp
  then have "e ! k \<noteq> ch CHR '',''" using assms unfolding entry_ok_def by metis
  ultimately show ?case using Suc by (subst find_last_comma.simps) simp
qed

lemma find_last_comma_none:
  assumes "entry_ok e"
  shows "k < length e \<Longrightarrow> find_last_comma (e @ suf) k = None"
proof (induction k)
  case 0
  then have "e ! 0 \<noteq> ch CHR '',''" using assms nth_mem unfolding entry_ok_def by metis
  then show ?case using 0 by (subst find_last_comma.simps) (simp add: char_at_def nth_append)
next
  case (Suc k)
  then have "e ! Suc k \<noteq> ch CHR '',''" using assms nth_mem unfolding entry_ok_def by metis
  then show ?case using Suc by (subst find_last_comma.simps) (simp add: char_at_def nth_append)
qed

lemma c_chars_cut: "no_nul d \<Longrightarrow> suf = [] \<or> hd suf = 0 \<Longrightarrow> c_chars (d @ suf) = d"
  by (cases suf) (auto simp: c_chars_id c_chars_append_nul)

lemma define_list_loop_join:
  assumes "entry_ok d" "\<forall>e\<in>set es. entry_ok e" "suf = [] \<or> hd suf = 0"
  shows "define_list_loop (join_defines d es @ suf) (length (join_defines d es)) po =
     snd (AddDefineConfig d (fold (\<lambda>e po. snd (AddDefineConfig (ch CHR '','' # e) po)) (rev es) po))"
  using assms(2,3)
proof (induction es arbitrary: suf po rule: rev_induct)
  case Nil
  show ?case
  proof (cases "d = []")
    case True
    then show ?thesis by (simp add: define_list_loop.simps AddDefineConfig_def)
  next
    case False
    have "c_chars (d @ suf) = d" using assms(1) Nil(2) by (auto simp: entry_ok_def intro: c_chars_cut)
    then show ?thesis using False find_last_comma_none [OF assms(1), of "length d - 1" suf]
      by (simp add: define_list_loop.simps Let_def)
  qed
next
  case (snoc e es)
  let ?p = "join_defines d es" and ?c = "ch CHR '',''"
  have e: "entry_ok e" using snoc.prems(1) by simp
  have f: "find_last_comma (?p @ ?c # e @ suf) (length ?p + length e) = Some (length ?p)"
    by (rule find_last_comma_entry [OF e order_refl])
  have "no_nul (?c # e)" using e by (simp add: entry_ok_def of_char_def)
  then have "c_chars (?c # e @ suf) = ?c # e" using c_chars_cut [of "?c # e" suf] snoc.prems(2) by simp
  then have "define_list_loop (join_defines d (es @ [e]) @ suf) (length (join_defines d (es @ [e]))) po =
      define_list_loop (?p @ 0 # e @ suf) (length ?p) (snd (AddDefineConfig (?c # e) po))"
    using f by (subst define_list_loop.simps) (simp add: join_defines_snoc Let_def)
  also have "\<dots> = snd (AddDefineConfig d (fold (\<lambda>e po. snd (AddDefineConfig (?c # e) po)) (rev es) (snd (AddDefineConfig (?c # e) po))))"
    by (rule snoc.IH) (use snoc.prems in auto)
  finally show ?case by simp
qed

text \<open>
  A list of defines registers its first entry as written, and every other entry with the separating
  comma in front of its name: such a name can never be an identifier of a text, so only the first define
  of a list has an effect. The last entry is registered first.
\<close>

theorem AddDefineListConfig_entries:
  assumes "entry_ok d" "\<forall>e\<in>set es. entry_ok e" "join_defines d es \<noteq> []"
  shows "AddDefineListConfig (Some (join_defines d es)) po =
     snd (AddDefineConfig d (fold (\<lambda>e po. snd (AddDefineConfig (ch CHR '','' # e) po)) (rev es) po))"
proof -
  have "no_nul (join_defines d es)"
    using assms(1,2) by (induction d es rule: join_defines.induct) (auto simp: entry_ok_def of_char_def)
  then have "c_chars (join_defines d es) = join_defines d es" by (rule c_chars_id)
  then show ?thesis using define_list_loop_join [OF assms(1,2), of "[]" po] assms(3)
    by (simp add: AddDefineListConfig_def)
qed

lemma AddDefineListConfig_entries_witness:
  "po_defines (AddDefineListConfig (Some (cstr_of ''A=1,B'')) demo_option) (cstr_of '',B'') = Some [] \<and>
   po_defines (AddDefineListConfig (Some (cstr_of ''A=1,B'')) demo_option) (cstr_of ''B'') = None"
proof -
  have j: "cstr_of ''A=1,B'' = join_defines (cstr_of ''A=1'') [cstr_of ''B'']"
    by (simp add: cstr_of_def)
  have "AddDefineListConfig (Some (cstr_of ''A=1,B'')) demo_option =
     snd (AddDefineConfig (cstr_of ''A=1'') (snd (AddDefineConfig (ch CHR '','' # cstr_of ''B'') demo_option)))"
    using AddDefineListConfig_entries [of "cstr_of ''A=1''" "[cstr_of ''B'']" demo_option] unfolding j
    by (simp add: entry_ok_def cstr_of_def of_char_def)
  then show ?thesis
    by (simp add: AddDefineConfig_def AddDefine_def demo_option_def cstr_of_def of_char_def c_chars_def)
qed

section \<open>Conditionals\<close>



section \<open>Errors\<close>

text \<open>The levels of the log are ordered by severity.\<close>

instantiation pp_level :: linorder
begin

definition less_eq_pp_level :: "pp_level \<Rightarrow> pp_level \<Rightarrow> bool" where
  "less_eq_pp_level a b \<longleftrightarrow> a = b \<or> b = LVL_ERROR"

definition less_pp_level :: "pp_level \<Rightarrow> pp_level \<Rightarrow> bool" where
  "less_pp_level a b \<longleftrightarrow> a \<noteq> b \<and> b = LVL_ERROR"

instance
proof
  fix a b c :: pp_level
  show "(a < b) = (a \<le> b \<and> \<not> b \<le> a)" by (cases a; cases b) (simp_all add: less_eq_pp_level_def less_pp_level_def)
  show "a \<le> a" by (simp add: less_eq_pp_level_def)
  show "a \<le> b \<Longrightarrow> b \<le> c \<Longrightarrow> a \<le> c" by (auto simp: less_eq_pp_level_def)
  show "a \<le> b \<Longrightarrow> b \<le> a \<Longrightarrow> a = b" by (auto simp: less_eq_pp_level_def)
  show "a \<le> b \<or> b \<le> a" by (cases a; cases b) (simp_all add: less_eq_pp_level_def)
qed

end

definition no_errors :: "pp_message list \<Rightarrow> bool" where
  "no_errors msgs \<longleftrightarrow> (\<forall>m\<in>set msgs. fst m < LVL_ERROR)"

lemma less_level [simp]: "LVL_WARNING < LVL_ERROR" "\<not> LVL_ERROR < (x :: pp_level)"
  by (auto simp: less_pp_level_def)

lemma no_errors_append [simp]: "no_errors (xs @ ys) \<longleftrightarrow> no_errors xs \<and> no_errors ys"
  by (auto simp: no_errors_def)

lemma no_errors_simps [simp]: "no_errors []" "no_errors ((lvl, x) # ms) \<longleftrightarrow> lvl < LVL_ERROR \<and> no_errors ms"
  by (auto simp: no_errors_def)

lemma no_errors_nested [simp]: "no_errors (map (\<lambda>(lvl, l, m). (lvl, f l m)) msgs) = no_errors msgs"
  by (auto simp: no_errors_def)

definition err_reported :: "pp_state \<Rightarrow> bool" where
  "err_reported st \<longleftrightarrow> (ps_err st \<longleftrightarrow> \<not> no_errors (ps_log st))"

lemma pp_fail_reported [simp]: "err_reported (pp_fail t st)"
  by (simp add: err_reported_def pp_fail_def pp_report_def)

lemma pp_warning_reported [simp]: "err_reported (pp_report LVL_WARNING t st) = err_reported st"
  by (simp add: err_reported_def pp_report_def)

lemma err_reported_upd [simp]:
  "err_reported (st\<lparr>ps_str := s\<rparr>) = err_reported st" "err_reported (st\<lparr>ps_erase := e\<rparr>) = err_reported st"
  "err_reported (st\<lparr>ps_opt := po\<rparr>) = err_reported st" "err_reported (st\<lparr>ps_lineStart := n\<rparr>) = err_reported st"
  "err_reported (st\<lparr>ps_lineIdx := n\<rparr>) = err_reported st"
  by (simp_all add: err_reported_def)

definition ins_reports :: "pp_insert \<Rightarrow> bool" where
  "ins_reports ins \<longleftrightarrow> (\<forall>s po ok t po' msgs. ins s po = (ok, t, po', msgs) \<longrightarrow> (ok \<longleftrightarrow> no_errors msgs))"

lemma ins_reportsD: "ins_reports ins \<Longrightarrow> ins s po = (True, t, po', msgs) \<Longrightarrow> no_errors msgs"
  by (auto simp: ins_reports_def)

lemma pp_insert_reported:
  assumes "ins_reports ins" "err_reported st" "pp_insert fs ins line ls nxt st = (st', nxt')"
  shows "err_reported st'"
proof -
  have nest: "err_reported (st\<lparr>ps_opt := po, ps_log := ps_log st @ map (\<lambda>(lvl, l, m). (lvl, ps_lineIdx st, InInsert f l m)) msgs, ps_str := s\<rparr>)"
    if "ins d (ps_opt st) = (True, t, po, msgs)" for d t po msgs f s
    using assms(2) ins_reportsD [OF assms(1) that]
    by (simp add: err_reported_def no_errors_nested [of "\<lambda>l m. (ps_lineIdx st, InInsert f l m)"])
  show ?thesis
    using assms(3) unfolding pp_insert_def Let_def
    by (auto split: if_splits prod.splits bool.splits option.splits intro: nest)
qed

lemma directive_reported [simp]:
  assumes "err_reported st"
  shows "err_reported (pp_ifdef line st)" "err_reported (pp_ifndef line st)" "err_reported (pp_else line st)"
    "err_reported (pp_endif line st)" "err_reported (pp_define line st)"
  using assms
  by (auto simp: pp_ifdef_def pp_ifndef_def pp_else_def pp_endif_def pp_define_def Let_def split: prod.splits bool.splits list.splits)

lemma pp_line_reported:
  assumes "ins_reports ins" "err_reported st"
  shows "err_reported (pp_line fs ins st)"
proof -
  have "err_reported u" if "pp_directive fs ins line ls nxt st' = ((u, n), blank)" "err_reported st'" for line ls nxt st' u n blank
    using that pp_insert_reported [OF assms(1) that(2)] unfolding pp_directive_def by (simp split: if_splits prod.splits) auto
  then show ?thesis using assms(2) unfolding pp_line_def Let_def by (auto split: prod.splits)
qed

lemma pp_loop_reported: "ins_reports ins \<Longrightarrow> err_reported st \<Longrightarrow> err_reported (pp_loop fs ins st)"
proof (induction fs ins st rule: pp_loop.induct)
  case (1 fs ins st)
  then show ?case by (subst pp_loop.simps) (simp add: pp_line_reported)
qed

lemma pp_apply_reports: "ins_reports (pp_apply fs (Suc k))"
proof (induction k)
  case 0
  show ?case by (auto simp: ins_reports_def split: sum.splits)
next
  case (Suc k)
  have "err_reported (pp_loop fs (pp_apply fs (Suc k)) \<lparr>ps_str = t, ps_lineStart = 0, ps_lineIdx = 0, ps_err = False,
      ps_erase = [], ps_opt = po, ps_log = []\<rparr>)" for t po
    by (rule pp_loop_reported [OF Suc]) (simp add: err_reported_def)
  then show ?case
    unfolding ins_reports_def pp_apply.simps(2) [of fs "Suc k"]
    by (auto simp: Let_def err_reported_def simp del: pp_apply.simps split: sum.splits if_splits)
qed

text \<open>
  C21. A run of the preprocessor fails exactly when it gave the error handler a message of level error:
  warnings never fail a run, every failure is reported, and the messages of inserted files count.
\<close>

theorem failure_is_reported:
  assumes "po_currentDepth po < 10" and "ApplyPreProcessor fs s po = (ok, t, po', msgs)"
  shows "ok \<longleftrightarrow> (\<forall>m\<in>set msgs. fst m < LVL_ERROR)"
proof -
  obtain k where "10 - po_currentDepth po = Suc k" using assms(1) by (cases "10 - po_currentDepth po") auto
  then show ?thesis using pp_apply_reports [of fs k] assms(2)
    unfolding ApplyPreProcessor_def ins_reports_def no_errors_def by metis
qed

lemma failure_is_reported_witness:
  "\<exists>t po'. ApplyPreProcessor (\<lambda>_. None) (cstr_of ''/*'') demo_option = (False, t, po', [(LVL_ERROR, 0, NoEndComment)])"
proof -
  have a: "ApplyPreProcessor (\<lambda>_. None) (cstr_of ''/*'') demo_option = (False, cstr_of ''/*'', demo_option, [(LVL_ERROR, 0, NoEndComment)])"
  proof -
    have "10 - po_currentDepth demo_option = Suc 9" by (simp add: demo_option_def)
    moreover have "ApplyPreProcessorComments demo_option (cstr_of ''/*'') = Inl NoEndComment"
      by (simp add: ApplyPreProcessorComments_def cstr_of_def of_char_def)
    ultimately show ?thesis unfolding ApplyPreProcessor_def by (simp only: pp_apply.simps sum.case)
  qed
  then show ?thesis using failure_is_reported [OF _ a] by (auto simp: demo_option_def)
qed
end
