(* ===== verification/Lib_Io.thy ===== *)
theory Lib_Io
  imports Acts_Prelude
begin

text \<open>
  The input and output helpers of \<^verbatim>\<open>src/core/lib/actslib/io.cpp\<close>: fixed-width integers, and
  variable-length integers of groups of seven bits, the least significant first and all but the last marked.

  An output stream is the bytes written. An input stream is what is left to read with its end and
  failure bits; as in the C++ library an operation on a stream that is not good fails at once, and
  \<^verbatim>\<open>!is\<close> reads the failure bit.
\<close>

section \<open>Streams\<close>

datatype lib_error =
    Bad_stream | Too_many_bits | Empty_iterator | Invalid_when_checking_end | No_end_of_stream
  | Value_above_limit | Outside_words | Empty_data | Numbits_above_word | Past_the_end | Bad_shift
  | No_workers | Units_below_2 | Worker_failed | More_than_one_chunk

record istream =
  is_rest :: "u8 list"
  is_eof :: bool
  is_fail :: bool

definition open_stream :: "u8 list \<Rightarrow> istream" where
  "open_stream bs = \<lparr>is_rest = bs, is_eof = False, is_fail = False\<rparr>"

definition is_good :: "istream \<Rightarrow> bool" where
  "is_good s \<longleftrightarrow> \<not> is_eof s \<and> \<not> is_fail s"

text \<open>\<^verbatim>\<open>is.get()\<close>: the byte as an \<^verbatim>\<open>int\<close>, or \<^verbatim>\<open>EOF\<close>, which is -1.\<close>

definition is_get :: "istream \<Rightarrow> u32 \<times> istream" where
  "is_get s =
     (if is_good s then (case is_rest s of
         [] \<Rightarrow> (- 1, s\<lparr>is_eof := True, is_fail := True\<rparr>)
       | b # bs \<Rightarrow> (ucast b, s\<lparr>is_rest := bs\<rparr>))
      else (- 1, s\<lparr>is_fail := True\<rparr>))"

text \<open>\<^verbatim>\<open>is.read(p, n)\<close>: the bytes that were stored.\<close>

definition is_read :: "nat \<Rightarrow> istream \<Rightarrow> u8 list \<times> istream" where
  "is_read n s =
     (if is_good s then
        (if length (is_rest s) < n
         then (is_rest s, s\<lparr>is_rest := [], is_eof := True, is_fail := True\<rparr>)
         else (take n (is_rest s), s\<lparr>is_rest := drop n (is_rest s)\<rparr>))
      else ([], s\<lparr>is_fail := True\<rparr>))"

text \<open>
  \<^verbatim>\<open>std::getline(is, str, d)\<close>: the new string, or \<open>None\<close> where the string is left as it was. It fails
  when nothing at all could be extracted.
\<close>

definition is_getline :: "u8 \<Rightarrow> istream \<Rightarrow> cstr option \<times> istream" where
  "is_getline d s =
     (if is_good s then
        (let l = takeWhile (\<lambda>c. c \<noteq> d) (is_rest s)
         in (Some l,
             if length l = length (is_rest s)
             then s\<lparr>is_rest := [], is_eof := True, is_fail := l = []\<rparr>
             else s\<lparr>is_rest := drop (length l + 1) (is_rest s)\<rparr>))
      else (None, s\<lparr>is_fail := True\<rparr>))"

lemma is_good_open [simp]: "is_good (open_stream bs)" "is_rest (open_stream bs) = bs"
  by (simp_all add: is_good_def open_stream_def)

lemma is_good_rest [simp]: "is_good (s\<lparr>is_rest := bs\<rparr>) = is_good s"
  by (simp add: is_good_def)

lemma is_goodD: "is_good s \<Longrightarrow> \<not> is_fail s"
  by (simp add: is_good_def)

lemma is_get_Cons [simp]: "is_good s \<Longrightarrow> is_rest s = b # bs \<Longrightarrow> is_get s = (ucast b, s\<lparr>is_rest := bs\<rparr>)"
  by (simp add: is_get_def)

lemma is_getline_found:
  "is_good s \<Longrightarrow> is_rest s = l @ d # bs \<Longrightarrow> d \<notin> set l \<Longrightarrow> is_getline d s = (Some l, s\<lparr>is_rest := bs\<rparr>)"
proof -
  assume g: "is_good s" and r: "is_rest s = l @ d # bs" and d: "d \<notin> set l"
  have "takeWhile (\<lambda>c. c \<noteq> d) (l @ d # bs) = l"
    using d by (induction l) auto
  then show ?thesis using g r by (simp add: is_getline_def)
qed

section \<open>Variable-length integers\<close>

function EncodeVByte :: "u64 \<Rightarrow> u8 list" where
  "EncodeVByte value =
     (if 0x7F < value
      then (ucast (value AND 0x7F) OR 0x80) # EncodeVByte (drop_bit 7 value)
      else [ucast (value AND 0x7F)])"
  by pat_completeness auto
termination
proof (relation "measure unat")
  fix v :: u64
  assume "0x7F < v"
  then have "127 < unat v" by (simp add: word_less_nat_alt)
  then show "(drop_bit 7 v, v) \<in> measure unat"
    unfolding in_measure unat_drop_bit_eq unfolding drop_bit_eq_div by (intro div_less_dividend) simp_all
qed simp

declare EncodeVByte.simps [simp del]

definition EncodeVByteSigned :: "u64 \<Rightarrow> u8 list" where
  "EncodeVByteSigned value =
     (if value <s 0 then EncodeVByte (NOT (push_bit 1 value)) else EncodeVByte (push_bit 1 value))"

function DecodeVByte_loop :: "u64 \<Rightarrow> nat \<Rightarrow> u32 \<Rightarrow> istream \<Rightarrow> lib_error + u64 \<times> istream" where
  "DecodeVByte_loop res shift c s =
     (let res' = res OR push_bit shift (scast c AND 0x7F)
      in if c AND 0x80 \<noteq> 0 then
           (if 50 < shift then Inl (if is_fail s then Bad_stream else Too_many_bits)
            else (case is_get s of (c', s') \<Rightarrow> DecodeVByte_loop res' (shift + 7) c' s'))
         else Inr (res', s))"
  by pat_completeness auto
termination by (relation "measure (\<lambda>(res, shift, c, s). 57 - shift)") auto

declare DecodeVByte_loop.simps [simp del]

definition DecodeVByte :: "istream \<Rightarrow> lib_error + u64 \<times> istream" where
  "DecodeVByte s = (case is_get s of (c, s1) \<Rightarrow> DecodeVByte_loop 0 0 c s1)"

definition DecodeVByteSigned :: "istream \<Rightarrow> lib_error + u64 \<times> istream" where
  "DecodeVByteSigned s = ebind (DecodeVByte s) (\<lambda>(d, s1).
     Inr (if d AND 1 \<noteq> 0 then NOT (drop_bit 1 d) else drop_bit 1 d, s1))"

section \<open>Fixed-width integers\<close>

text \<open>
  A short read leaves the rest of an uninitialised buffer as it was: the value read is then
  indeterminate, \<open>None\<close>. The buffer of \<^verbatim>\<open>ReadUInt64\<close> alone starts as zeros.
\<close>

definition read_exact :: "nat \<Rightarrow> (u8 list \<Rightarrow> 'a) \<Rightarrow> istream \<Rightarrow> 'a option \<times> istream" where
  "read_exact n f s = (case is_read n s of (bs, s') \<Rightarrow> (if length bs = n then Some (f bs) else None, s'))"

definition ReadUInt8 :: "istream \<Rightarrow> u8 option \<times> istream" where
  "ReadUInt8 = read_exact 1 (\<lambda>b. b ! 0)"

definition ReadUInt16 :: "istream \<Rightarrow> u16 option \<times> istream" where
  "ReadUInt16 = read_exact 2 (\<lambda>b. ucast (b ! 0) OR push_bit 8 (ucast (b ! 1)))"

definition ReadUInt32 :: "istream \<Rightarrow> u32 option \<times> istream" where
  "ReadUInt32 = read_exact 4 (\<lambda>b. ucast (b ! 0) OR push_bit 8 (ucast (b ! 1)) OR
     push_bit 16 (ucast (b ! 2)) OR push_bit 24 (ucast (b ! 3)))"

definition ReadUInt64 :: "istream \<Rightarrow> u64 \<times> istream" where
  "ReadUInt64 s = (case is_read 8 s of (bs, s') \<Rightarrow> (let b = bs @ replicate (8 - length bs) 0
     in (ucast (b ! 0) OR push_bit 8 (ucast (b ! 1)) OR push_bit 16 (ucast (b ! 2)) OR
         push_bit 24 (ucast (b ! 3)) OR push_bit 32 (ucast (b ! 4)) OR push_bit 40 (ucast (b ! 5)) OR
         push_bit 48 (ucast (b ! 6)) OR push_bit 56 (ucast (b ! 7)), s')))"

definition WriteUInt8 :: "u8 \<Rightarrow> u8 list" where
  "WriteUInt8 value = [value]"

definition WriteUInt16 :: "u16 \<Rightarrow> u8 list" where
  "WriteUInt16 value = [ucast (value AND 0xFF), ucast (drop_bit 8 value AND 0xFF)]"

definition WriteUInt32 :: "u32 \<Rightarrow> u8 list" where
  "WriteUInt32 value = map (\<lambda>k. ucast (drop_bit k value AND 0xFF)) [0, 8, 16, 24]"

definition WriteUInt64 :: "u64 \<Rightarrow> u8 list" where
  "WriteUInt64 value = map (\<lambda>k. ucast (drop_bit k value AND 0xFF)) [0, 8, 16, 24, 32, 40, 48, 56]"

lemma is_read_exact:
  "is_good s \<Longrightarrow> is_rest s = bs @ t \<Longrightarrow> length bs = n \<Longrightarrow> is_read n s = (bs, s\<lparr>is_rest := t\<rparr>)"
  by (auto simp: is_read_def)

lemma ff_eq_mask: "(0xFF :: 'a::len word) = mask 8"
  by (simp add: mask_eq_exp_minus_1)

lemma byte_of_word: "8 \<le> LENGTH('a) \<Longrightarrow>
  (ucast (ucast (drop_bit k v AND 0xFF) :: u8) :: 'a::len word) = take_bit 8 (drop_bit k v)"
  unfolding ff_eq_mask by (rule bit_word_eqI) (auto simp: bit_simps)

lemma join_step: "push_bit k (take_bit 8 (drop_bit k v)) OR push_bit (k + 8) (drop_bit (k + 8) v) =
  push_bit k (drop_bit k (v :: 'a::len word))"
proof (rule bit_word_eqI)
  fix n
  show "bit (push_bit k (take_bit 8 (drop_bit k v)) OR push_bit (k + 8) (drop_bit (k + 8) v)) n =
    bit (push_bit k (drop_bit k v)) n"
  proof (cases "k + 8 \<le> n")
    case True
    then have "k + (n - k) = n" "k + 8 + (n - (k + 8)) = n" "k \<le> n" by simp_all
    with True show ?thesis by (auto simp: bit_simps)
  next
    case False
    then show ?thesis by (auto simp: bit_simps)
  qed
qed

lemma join_last: "LENGTH('a) \<le> k + 8 \<Longrightarrow> take_bit 8 (drop_bit k v) = drop_bit k (v :: 'a::len word)"
  by (rule bit_word_eqI) (auto simp: bit_simps dest: bit_imp_le_length)

lemmas join = join_step [of 0, simplified] join_step [of 8, simplified] join_step [of 16, simplified]
  join_step [of 24, simplified] join_step [of 32, simplified] join_step [of 40, simplified]
  join_step [of 48, simplified] join_last

text \<open>What is written is read back.\<close>

lemma ReadUInt8_Write: "is_good s \<Longrightarrow> is_rest s = WriteUInt8 v @ t \<Longrightarrow> ReadUInt8 s = (Some v, s\<lparr>is_rest := t\<rparr>)"
  by (simp add: ReadUInt8_def read_exact_def WriteUInt8_def is_read_exact [of _ "[v]"])

lemma ReadUInt16_Write: "is_good s \<Longrightarrow> is_rest s = WriteUInt16 v @ t \<Longrightarrow> ReadUInt16 s = (Some v, s\<lparr>is_rest := t\<rparr>)"
  using is_read_exact [of s "WriteUInt16 v" t 2]
  by (simp add: ReadUInt16_def read_exact_def WriteUInt16_def byte_of_word byte_of_word [of 0, simplified] join)

lemma ReadUInt32_Write: "is_good s \<Longrightarrow> is_rest s = WriteUInt32 v @ t \<Longrightarrow> ReadUInt32 s = (Some v, s\<lparr>is_rest := t\<rparr>)"
  using is_read_exact [of s "WriteUInt32 v" t 4]
  by (simp add: ReadUInt32_def read_exact_def WriteUInt32_def byte_of_word byte_of_word [of 0, simplified] join)

lemma ReadUInt64_Write: "is_good s \<Longrightarrow> is_rest s = WriteUInt64 v @ t \<Longrightarrow> ReadUInt64 s = (v, s\<lparr>is_rest := t\<rparr>)"
  using is_read_exact [of s "WriteUInt64 v" t 8]
  by (simp add: ReadUInt64_def WriteUInt64_def byte_of_word byte_of_word [of 0, simplified] join)

text \<open>
  A variable-length integer is read back when it has at most 63 bits; for a longer one the reader stops
  at the ninth continuation byte.
\<close>

lemma gt_7F: "0x7F < (v :: u64) \<longleftrightarrow> 128 \<le> unat v"
  by (auto simp: word_less_nat_alt)

lemma seven_eq: "(0x7F :: 'a::len word) = mask 7" "(0x80 :: 'a::len word) = 2 ^ 7"
  by (simp_all add: mask_eq_exp_minus_1)

lemma bit_80: "bit (0x80 :: 'a::len word) n \<longleftrightarrow> n = 7 \<and> 7 < LENGTH('a)"
  unfolding seven_eq(2) bit_exp_iff by (auto simp: possible_bit_word)

lemma EncodeVByte_not_Nil: "EncodeVByte v \<noteq> []"
  by (subst EncodeVByte.simps) simp

lemma high_group:
  "(ucast (ucast (v AND 0x7F :: u64) OR (0x80 :: u8)) :: u32) AND 0x80 \<noteq> 0"
  "scast (ucast (ucast (v AND 0x7F :: u64) OR (0x80 :: u8)) :: u32) AND 0x7F = take_bit 7 (v :: u64)"
proof -
  show "(ucast (ucast (v AND 0x7F :: u64) OR (0x80 :: u8)) :: u32) AND 0x80 \<noteq> 0"
    unfolding seven_eq(2) [where ?'a = 32] and_exp_eq_0_iff_not_bit by (simp add: bit_simps bit_80)
  show "scast (ucast (ucast (v AND 0x7F :: u64) OR (0x80 :: u8)) :: u32) AND 0x7F = take_bit 7 (v :: u64)"
    unfolding seven_eq(1) by (rule bit_word_eqI, simp only: bit_simps bit_80 possible_bit_word) auto
qed

lemma last_group:
  "(ucast (ucast (v AND 0x7F :: u64) :: u8) :: u32) AND 0x80 = 0"
  "scast (ucast (ucast (v AND 0x7F :: u64) :: u8) :: u32) AND 0x7F = take_bit 7 (v :: u64)"
proof -
  show "(ucast (ucast (v AND 0x7F :: u64) :: u8) :: u32) AND 0x80 = 0"
    unfolding seven_eq and_exp_eq_0_iff_not_bit by (simp add: bit_simps)
  show "scast (ucast (ucast (v AND 0x7F :: u64) :: u8) :: u32) AND 0x7F = take_bit 7 (v :: u64)"
    unfolding seven_eq(1) by (rule bit_word_eqI, simp only: bit_simps bit_80 possible_bit_word) auto
qed

lemma take_drop_7: "(res OR push_bit sh (take_bit 7 v)) OR push_bit (sh + 7) (drop_bit 7 v) =
  res OR push_bit sh (v :: 'a::len word)"
proof (rule bit_word_eqI)
  fix n
  show "bit ((res OR push_bit sh (take_bit 7 v)) OR push_bit (sh + 7) (drop_bit 7 v)) n =
    bit (res OR push_bit sh v) n"
  proof (cases "sh + 7 \<le> n")
    case True
    then have "7 + (n - (sh + 7)) = n - sh" by simp
    with True show ?thesis by (auto simp: bit_simps)
  qed (auto simp: bit_simps)
qed

lemma DecodeVByte_loop_Encode:
  assumes "is_good s" "c # is_rest s = EncodeVByte v @ t" "7 dvd sh" "sh \<le> 56"
  shows "DecodeVByte_loop res sh (ucast c) s =
    (if unat v < 2 ^ (63 - sh) then Inr (res OR push_bit sh v, s\<lparr>is_rest := t\<rparr>) else Inl Too_many_bits)"
  using assms
proof (induction v arbitrary: res sh c s rule: EncodeVByte.induct)
  case (1 v)
  show ?case
  proof (cases "0x7F < v")
    case True
    then have c: "c = ucast (v AND 0x7F) OR 0x80" and r: "is_rest s = EncodeVByte (drop_bit 7 v) @ t"
      using "1.prems"(2) by (simp_all add: EncodeVByte.simps [of v])
    have big: "128 \<le> unat v" using True by (simp add: gt_7F)
    show ?thesis
    proof (cases "sh = 56")
      case True
      then show ?thesis
        using big is_goodD [OF "1.prems"(1)] by (simp add: DecodeVByte_loop.simps [of res] c high_group)
    next
      case False
      then have sh: "7 dvd sh + 7" "sh + 7 \<le> 56" "sh \<le> 49" using "1.prems"(3,4) by presburger+
      obtain d rs where d: "EncodeVByte (drop_bit 7 v) @ t = d # rs"
        using EncodeVByte_not_Nil by (metis append_is_Nil_conv neq_Nil_conv)
      have get: "is_get s = (ucast d, s\<lparr>is_rest := rs\<rparr>)" using "1.prems"(1) r d by simp
      have ih: "DecodeVByte_loop (res OR push_bit sh (take_bit 7 v)) (sh + 7) (ucast d) (s\<lparr>is_rest := rs\<rparr>) =
        (if unat (drop_bit 7 v) < 2 ^ (63 - (sh + 7))
         then Inr (res OR push_bit sh v, s\<lparr>is_rest := t\<rparr>) else Inl Too_many_bits)"
        using "1.IH" [OF True, of "s\<lparr>is_rest := rs\<rparr>" d "sh + 7"] "1.prems"(1) d sh by (simp add: take_drop_7)
      have "(2 :: nat) ^ (63 - sh) = 2 ^ (63 - (sh + 7)) * 2 ^ 7"
        unfolding power_add [symmetric] using sh(3) by (intro arg_cong [where f = "power 2"]) simp
      then have "unat (drop_bit 7 v) < 2 ^ (63 - (sh + 7)) \<longleftrightarrow> unat v < 2 ^ (63 - sh)"
        unfolding unat_drop_bit_eq unfolding drop_bit_eq_div by (simp add: div_less_iff_less_mult)
      with ih sh(3) show ?thesis
        unfolding DecodeVByte_loop.simps [of res] by (simp add: c high_group get)
    qed
  next
    case False
    then have c: "c = ucast (v AND 0x7F)" and r: "is_rest s = t"
      using "1.prems"(2) by (simp_all add: EncodeVByte.simps [of v])
    have small: "unat v < 128" using False by (simp add: gt_7F)
    have "(2 :: nat) ^ 7 \<le> 2 ^ (63 - sh)" using "1.prems"(4) by (intro power_increasing) auto
    moreover have "unat (take_bit 7 v) = unat v"
      by (simp only: unsigned_take_bit_eq) (use small in \<open>simp add: take_bit_eq_mod\<close>)
    then have "take_bit 7 v = v" by (simp add: word_unat_eq_iff)
    ultimately show ?thesis
      using small r by (simp add: DecodeVByte_loop.simps [of res] c last_group)
  qed
qed

lemma DecodeVByte_Encode:
  assumes "is_good s" "is_rest s = EncodeVByte v @ t"
  shows "DecodeVByte s = (if unat v < 2 ^ 63 then Inr (v, s\<lparr>is_rest := t\<rparr>) else Inl Too_many_bits)"
proof -
  obtain c rs where c: "EncodeVByte v @ t = c # rs"
    using EncodeVByte_not_Nil by (metis append_is_Nil_conv neq_Nil_conv)
  then have "is_get s = (ucast c, s\<lparr>is_rest := rs\<rparr>)" using assms by simp
  then show ?thesis
    using DecodeVByte_loop_Encode [of "s\<lparr>is_rest := rs\<rparr>" c v t 0 0] assms c by (simp add: DecodeVByte_def)
qed

text \<open>An end of the stream inside a variable-length integer is reported.\<close>

lemma DecodeVByte_loop_fail:
  "is_fail s \<Longrightarrow> c AND 0x80 \<noteq> 0 \<Longrightarrow> DecodeVByte_loop res sh c s = Inl Bad_stream"
proof (induction res sh c s rule: DecodeVByte_loop.induct)
  case (1 res sh c s)
  have "is_get s = (- 1, s\<lparr>is_fail := True\<rparr>)" using "1.prems"(1) by (simp add: is_get_def is_good_def)
  then show ?case
    using "1.IH" [OF refl "1.prems"(2)] "1.prems" by (simp add: DecodeVByte_loop.simps [of res sh])
qed

lemma DecodeVByte_end: "is_rest s = [] \<Longrightarrow> DecodeVByte s = Inl Bad_stream"
  by (simp add: DecodeVByte_def is_get_def DecodeVByte_loop_fail)

text \<open>
  A signed integer is read back when it fits 63 bits with its sign: its two highest bits are equal.
\<close>

lemma top_bit_u64: "unat (w :: u64) < 2 ^ 63 \<longleftrightarrow> \<not> bit w 63"
proof -
  have "bit w 63 \<longleftrightarrow> odd (unat w div 2 ^ 63)"
    using bit_unsigned_iff [of w 63, where ?'a = nat] by (simp add: bit_iff_odd)
  moreover have "unat w div 2 ^ 63 = (if unat w < 2 ^ 63 then 0 else 1)"
    using u64_bound [of w] by (auto intro: div_nat_eqI)
  ultimately show ?thesis by simp
qed

lemma sless_0_iff_bit: "(v :: u64) <s 0 \<longleftrightarrow> bit v 63"
  by (simp add: word_sless_alt not_le bit_last_iff [of v, simplified] flip: not_less)

lemma DecodeVByteSigned_Encode:
  assumes "is_good s" "is_rest s = EncodeVByteSigned v @ t"
  shows "DecodeVByteSigned s = (if bit v 62 = bit v 63 then Inr (v, s\<lparr>is_rest := t\<rparr>) else Inl Too_many_bits)"
proof (cases "bit v 63")
  case True
  let ?d = "NOT (push_bit 1 v)"
  have "bit ?d 0" by (simp only: bit_simps possible_bit_word) simp
  then have "?d AND 1 \<noteq> 0" using and_exp_eq_0_iff_not_bit [of ?d 0] by (simp only: power_0) simp
  moreover have "unat ?d < 2 ^ 63 \<longleftrightarrow> bit v 62"
    unfolding top_bit_u64 by (simp only: bit_simps possible_bit_word) simp
  ultimately have d: "unat ?d < 2 ^ 63 \<longleftrightarrow> bit v 62" "?d AND 1 \<noteq> 0" by simp_all
  have "NOT (drop_bit 1 ?d) = v"
  proof (rule bit_word_eqI)
    fix n
    assume "n < LENGTH(64)"
    then have "n = 63 \<or> n < 63" by auto
    then show "bit (NOT (drop_bit 1 ?d)) n = bit v n"
      using True by (simp only: bit_simps comp_def possible_bit_word) auto
  qed
  with d True show ?thesis
    using DecodeVByte_Encode [OF assms(1), of ?d t] assms(2)
    by (simp add: EncodeVByteSigned_def sless_0_iff_bit DecodeVByteSigned_def)
next
  case False
  let ?d = "push_bit 1 v"
  have "\<not> bit ?d 0" by (simp only: bit_simps possible_bit_word) simp
  then have "?d AND 1 = 0" using and_exp_eq_0_iff_not_bit [of ?d 0] by (simp only: power_0) simp
  moreover have "unat ?d < 2 ^ 63 \<longleftrightarrow> \<not> bit v 62"
    unfolding top_bit_u64 by (simp only: bit_simps possible_bit_word) simp
  ultimately have d: "unat ?d < 2 ^ 63 \<longleftrightarrow> \<not> bit v 62" "?d AND 1 = 0" by simp_all
  have "drop_bit 1 ?d = v"
  proof (rule bit_word_eqI)
    fix n
    assume "n < LENGTH(64)"
    then have "n = 63 \<or> n < 63" by auto
    then show "bit (drop_bit 1 ?d) n = bit v n"
      using False by (simp only: bit_simps comp_def possible_bit_word) auto
  qed
  with d False show ?thesis
    using DecodeVByte_Encode [OF assms(1), of ?d t] assms(2)
    by (simp add: EncodeVByteSigned_def sless_0_iff_bit DecodeVByteSigned_def)
qed

end
