(* ===== verification/Kmerger.thy ===== *)
theory Kmerger
  imports Lib_Io
begin

text \<open>
  The concurrent merge sort of \<^verbatim>\<open>src/core/lib/actslib/data/kmerger.hpp\<close>: worker threads that take tasks
  from a shared stack, create chunks until the configuration has no more, and merge them, \<^verbatim>\<open>units\<close> at a
  time, into one.

  The state is that of a \<^verbatim>\<open>KMerger\<close>, the state of its configuration, the files, and the point each worker is
  at. A step is what one worker does between two points where others can intervene: the body of a lock,
  one call of the configuration, or the taking of an identifier. \<^verbatim>\<open>taskCondMutex\<close> is held over several
  steps by a worker that completes the run, so its holder is part of the state; \<^verbatim>\<open>chunksMutex\<close>,
  \<^verbatim>\<open>idMutex\<close> and \<^verbatim>\<open>exceptionMutex\<close> are never held across such a point. A step that waits is one that is not
  enabled. The flag \<^verbatim>\<open>completed\<close> is read and written as if accesses were sequentially consistent.

  The file \<^verbatim>\<open>c_<id>\<close> of the working directory is its identifier; identifiers do not wrap around.
\<close>

section \<open>State\<close>

text \<open>
  The virtual methods of \<^verbatim>\<open>KMergerConfig\<close>, over the state \<open>'g\<close> of the configuration and the contents \<open>'c\<close> of
  a chunk. \<open>cfg_create\<close> is \<open>None\<close> where \<^verbatim>\<open>CreateChunk\<close> returns false, \<open>cfg_merge\<close> is \<open>None\<close> where
  \<^verbatim>\<open>MergeChunks\<close> throws.
\<close>

record ('g, 'c) kconfig =
  cfg_create :: "'g \<Rightarrow> ('c \<times> 'g) option"
  cfg_merge :: "'c list \<Rightarrow> 'c option"
  cfg_default :: "'c"

record kchunk =
  kc_layer :: nat
  kc_file :: nat

datatype ktask = TCreate | TMerge "kchunk list"

text \<open>Where a worker is: in \<^verbatim>\<open>PopTask\<close>, in the function of a task, in the handler of an exception, or ended.\<close>

datatype kpoint =
    At_pop
  | Create_id | Create_call nat | Create_add nat | Create_next
  | Complete_set | Complete_find | Complete_push "kchunk list option"
  | Merge_check | Merge_push "kchunk list"
  | Merge_id "kchunk list" | Merge_call "kchunk list" nat | Merge_add nat nat
  | Throw_set string | Throw_clear
  | At_end

record ('g, 'c) kmerger =
  km_units :: nat
  km_workersCount :: nat
  km_completed :: bool
  km_workers :: "kpoint list"
  km_chunks :: "kchunk list"
  km_maxLayer :: nat
  km_tasks :: "ktask list"
  km_taskHolder :: "nat option"
  km_idGen :: nat
  km_exception :: "string option"
  km_cfg :: 'g
  km_disk :: "nat \<rightharpoonup> 'c"

definition new_KMerger :: "nat \<Rightarrow> nat \<Rightarrow> 'g \<Rightarrow> lib_error + ('g, 'c) kmerger" where
  "new_KMerger units workersCount cfg =
     (if workersCount = 0 then Inl No_workers
      else if units < 2 then Inl Units_below_2
      else Inr \<lparr>km_units = units, km_workersCount = workersCount, km_completed = False, km_workers = [],
        km_chunks = [], km_maxLayer = 0, km_tasks = [], km_taskHolder = None, km_idGen = 0,
        km_exception = None, km_cfg = cfg, km_disk = (\<lambda>_. None)\<rparr>)"

section \<open>Operations\<close>

definition GetNewIdSync :: "('g, 'c) kmerger \<Rightarrow> nat \<times> ('g, 'c) kmerger" where
  "GetNewIdSync s = (km_idGen s + 1, s\<lparr>km_idGen := km_idGen s + 1\<rparr>)"

definition PushTask :: "ktask \<Rightarrow> ('g, 'c) kmerger \<Rightarrow> ('g, 'c) kmerger" where
  "PushTask task s = s\<lparr>km_tasks := km_tasks s @ [task]\<rparr>"

datatype find_result = No_merge | Merge_found "kchunk list" "kchunk list" | Past_end

text \<open>The loop that moves the first \<^verbatim>\<open>units\<close> chunks of a layer out of the vector.\<close>

fun take_layer :: "nat \<Rightarrow> nat \<Rightarrow> kchunk list \<Rightarrow> (kchunk list \<times> kchunk list) option" where
  "take_layer 0 i cs = Some ([], cs)"
| "take_layer (Suc n) i [] = None"
| "take_layer (Suc n) i (c # cs) =
     (if kc_layer c = i then map_option (apfst (Cons c)) (take_layer n i cs)
      else map_option (apsnd (Cons c)) (take_layer (Suc n) i cs))"

definition FindChunksToMerge :: "('g, 'c) kmerger \<Rightarrow> find_result" where
  "FindChunksToMerge s =
     (let chunks = km_chunks s; units = km_units s
      in if km_completed s then
           (if 1 < length chunks then
              (if length chunks < units then Merge_found chunks []
               else Merge_found (drop (length chunks - units) chunks) (take (length chunks - units) chunks))
            else No_merge)
         else (case find (\<lambda>i. units \<le> length (filter (\<lambda>c. kc_layer c = i) chunks)) [0..<km_maxLayer s + 1] of
             None \<Rightarrow> No_merge
           | Some i \<Rightarrow> (case take_layer units i chunks of
               None \<Rightarrow> Past_end | Some (ch, rest) \<Rightarrow> Merge_found ch rest)))"

definition goto_point :: "nat \<Rightarrow> kpoint \<Rightarrow> ('g, 'c) kmerger \<Rightarrow> ('g, 'c) kmerger" where
  "goto_point i p s = s\<lparr>km_workers := (km_workers s)[i := p]\<rparr>"

definition task_start :: "ktask \<Rightarrow> kpoint" where
  "task_start task = (case task of TCreate \<Rightarrow> Create_id | TMerge ch \<Rightarrow> Merge_id ch)"

definition PopTask :: "nat \<Rightarrow> ('g, 'c) kmerger \<Rightarrow> ('g, 'c) kmerger option" where
  "PopTask i s =
     (if km_taskHolder s \<noteq> None \<or> km_tasks s = [] \<and> \<not> km_completed s then None
      else if km_tasks s = [] \<or> km_exception s \<noteq> None then Some (goto_point i At_end s)
      else Some (goto_point i (task_start (last (km_tasks s))) (s\<lparr>km_tasks := butlast (km_tasks s)\<rparr>)))"

text \<open>\<^verbatim>\<open>PushMergeTaskIfRequired\<close> up to the end of its lock: the next point when there is a merge and when not.\<close>

definition merge_required :: "nat \<Rightarrow> (kchunk list \<Rightarrow> kpoint) \<Rightarrow> kpoint \<Rightarrow> ('g, 'c) kmerger \<Rightarrow> ('g, 'c) kmerger option" where
  "merge_required i found none s =
     (case FindChunksToMerge s of
        No_merge \<Rightarrow> Some (goto_point i none s)
      | Merge_found ch rest \<Rightarrow> Some (goto_point i (found ch) (s\<lparr>km_chunks := rest\<rparr>))
      | Past_end \<Rightarrow> None)"

definition chunk_layer :: "kchunk list \<Rightarrow> nat" where
  "chunk_layer ch = foldl (\<lambda>layer c. if layer < kc_layer c then kc_layer c else layer) 0 ch"

text \<open>The calls of the configuration; either may throw.\<close>

definition create_call :: "('g, 'c) kconfig \<Rightarrow> nat \<Rightarrow> bool \<Rightarrow> nat \<Rightarrow> ('g, 'c) kmerger \<Rightarrow> ('g, 'c) kmerger" where
  "create_call C i throws f s =
     (if throws then goto_point i (Throw_set ''create'') s
      else (case cfg_create C (km_cfg s) of
          None \<Rightarrow> goto_point i Complete_set s
        | Some (c, g) \<Rightarrow> goto_point i (Create_add f) (s\<lparr>km_cfg := g, km_disk := (km_disk s)(f \<mapsto> c)\<rparr>)))"

text \<open>\<^verbatim>\<open>MergeChunks\<close> reads the files of the chunks, removes them and writes the new one.\<close>

definition merge_call :: "('g, 'c) kconfig \<Rightarrow> nat \<Rightarrow> bool \<Rightarrow> kchunk list \<Rightarrow> nat \<Rightarrow> ('g, 'c) kmerger \<Rightarrow> ('g, 'c) kmerger" where
  "merge_call C i throws ch f s =
     (case (if throws then None else Option.bind (those (map (\<lambda>c. km_disk s (kc_file c)) ch)) (cfg_merge C)) of
        None \<Rightarrow> goto_point i (Throw_set ''merge'') s
      | Some c \<Rightarrow> goto_point i (Merge_add (chunk_layer ch) f)
          (s\<lparr>km_disk := (km_disk s |` (- set (map kc_file ch)))(f \<mapsto> c)\<rparr>))"

section \<open>Steps\<close>

definition worker_step :: "('g, 'c) kconfig \<Rightarrow> nat \<Rightarrow> bool \<Rightarrow> ('g, 'c) kmerger \<Rightarrow> ('g, 'c) kmerger option" where
  "worker_step C i throws s =
     (case km_workers s ! i of
        At_pop \<Rightarrow> PopTask i s
      | Create_id \<Rightarrow> (case GetNewIdSync s of (f, s1) \<Rightarrow> Some (goto_point i (Create_call f) s1))
      | Create_call f \<Rightarrow> Some (create_call C i throws f s)
      | Create_add f \<Rightarrow>
          Some (goto_point i Create_next (s\<lparr>km_chunks := km_chunks s @ [\<lparr>kc_layer = 0, kc_file = f\<rparr>]\<rparr>))
      | Create_next \<Rightarrow>
          if km_taskHolder s \<noteq> None then None else Some (goto_point i Merge_check (PushTask TCreate s))
      | Complete_set \<Rightarrow>
          if km_taskHolder s \<noteq> None then None
          else Some (goto_point i Complete_find (s\<lparr>km_taskHolder := Some i, km_completed := True\<rparr>))
      | Complete_find \<Rightarrow> merge_required i (\<lambda>ch. Complete_push (Some ch)) (Complete_push None) s
      | Complete_push m \<Rightarrow>
          Some (goto_point i At_pop
            ((case m of None \<Rightarrow> s | Some ch \<Rightarrow> PushTask (TMerge ch) s)\<lparr>km_taskHolder := None\<rparr>))
      | Merge_check \<Rightarrow> merge_required i Merge_push At_pop s
      | Merge_push ch \<Rightarrow>
          if km_taskHolder s \<noteq> None then None else Some (goto_point i At_pop (PushTask (TMerge ch) s))
      | Merge_id ch \<Rightarrow> (case GetNewIdSync s of (f, s1) \<Rightarrow> Some (goto_point i (Merge_call ch f) s1))
      | Merge_call ch f \<Rightarrow> Some (merge_call C i throws ch f s)
      | Merge_add layer f \<Rightarrow>
          Some (goto_point i Merge_check
            (s\<lparr>km_chunks := km_chunks s @ [\<lparr>kc_layer = layer + 1, kc_file = f\<rparr>],
               km_maxLayer := (if km_maxLayer s < layer + 1 then layer + 1 else km_maxLayer s)\<rparr>))
      | Throw_set type \<Rightarrow> Some (goto_point i Throw_clear (s\<lparr>km_exception := Some type\<rparr>))
      | Throw_clear \<Rightarrow>
          if km_taskHolder s \<noteq> None then None
          else Some (goto_point i At_end (s\<lparr>km_completed := True, km_tasks := []\<rparr>))
      | At_end \<Rightarrow> None)"

inductive km_step :: "('g, 'c) kconfig \<Rightarrow> ('g, 'c) kmerger \<Rightarrow> ('g, 'c) kmerger \<Rightarrow> bool" for C where
  step: "i < length (km_workers s) \<Longrightarrow> worker_step C i throws s = Some s' \<Longrightarrow> km_step C s s'"

inductive_simps km_step_iff: "km_step C s s'"

inductive km_reach :: "('g, 'c) kconfig \<Rightarrow> ('g, 'c) kmerger \<Rightarrow> ('g, 'c) kmerger \<Rightarrow> bool" for C where
  reach_refl: "km_reach C s s"
| reach_step: "km_reach C s t \<Longrightarrow> km_step C t u \<Longrightarrow> km_reach C s u"

text \<open>A run under a schedule: the worker of every step and whether the call it makes throws.\<close>

fun km_run :: "('g, 'c) kconfig \<Rightarrow> (nat \<times> bool) list \<Rightarrow> ('g, 'c) kmerger \<Rightarrow> ('g, 'c) kmerger option" where
  "km_run C [] s = Some s"
| "km_run C ((i, throws) # rest) s =
     (if i < length (km_workers s) then Option.bind (worker_step C i throws s) (km_run C rest) else None)"

section \<open>PushAndJoin\<close>

definition Init :: "('g, 'c) kmerger \<Rightarrow> ('g, 'c) kmerger" where
  "Init s = (if km_workers s \<noteq> [] then s else s\<lparr>km_workers := replicate (km_workersCount s) At_pop\<rparr>)"

text \<open>
  Up to the join. The workers started by \<^verbatim>\<open>Init\<close> can only wait before the first task is pushed.
\<close>

definition PushAndJoin_start :: "('g, 'c) kmerger \<Rightarrow> ('g, 'c) kmerger" where
  "PushAndJoin_start s = PushTask TCreate (Init s)"

definition joined :: "('g, 'c) kmerger \<Rightarrow> bool" where
  "joined s \<longleftrightarrow> (\<forall>p \<in> set (km_workers s). p = At_end)"

text \<open>After the join: the file of the result.\<close>

definition PushAndJoin_end :: "('g, 'c) kconfig \<Rightarrow> ('g, 'c) kmerger \<Rightarrow> lib_error + nat \<times> ('g, 'c) kmerger" where
  "PushAndJoin_end C s =
     (if km_exception s \<noteq> None then Inl Worker_failed
      else if 1 < length (km_chunks s) then Inl More_than_one_chunk
      else if km_chunks s = [] then
        (case GetNewIdSync s of (dp, s1) \<Rightarrow> Inr (dp, s1\<lparr>km_disk := (km_disk s1)(dp \<mapsto> cfg_default C)\<rparr>))
      else Inr (kc_file (km_chunks s ! 0), s))"

end
