(* ===== verification/Iterators.thy ===== *)
theory Iterators
  imports Lib_Io "HOL-Library.Multiset"
begin

text \<open>
  The iterators of \<^verbatim>\<open>src/core/lib/actslib/data/iterator.hpp\<close>. The three virtual methods of \<^verbatim>\<open>AIterator\<close> are a
  record of functions over the state of the iterator; \<^verbatim>\<open>MergeIterator\<close> builds its methods from those of
  its two inputs, and \<^verbatim>\<open>AllocatedMergeAIterator\<close> merges any number of inputs by a tree of them.

  A \<^verbatim>\<open>Type*\<close> into an input is the value it points to: an input is not advanced again before the value
  is consumed, so the object does not change in between. Every iterator of the vector \<^verbatim>\<open>its\<close> is
  referenced by one parent only, so the tree holds the inputs by value.

  The locale \<open>aiterator\<close> is what a client may rely on: after a test that was true (\<open>ready\<close>) an advance
  drops the first element. An advance of a \<^verbatim>\<open>MergeIterator\<close> that was not tested drops nothing.
\<close>

section \<open>The interface\<close>

record ('s, 'a) aiter =
  it_bool :: "'s \<Rightarrow> lib_error + bool \<times> 's"
  it_deref :: "'s \<Rightarrow> lib_error + 'a \<times> 's"
  it_incr :: "'s \<Rightarrow> lib_error + 's"

locale aiterator =
  fixes vt :: "('s, 'a) aiter" and inv :: "'s \<Rightarrow> bool" and contents :: "'s \<Rightarrow> 'a list"
    and ready :: "'s \<Rightarrow> bool"
  assumes bool: "inv s \<Longrightarrow> \<exists>s'. it_bool vt s = Inr (contents s \<noteq> [], s') \<and> inv s' \<and>
      contents s' = contents s \<and> (contents s \<noteq> [] \<longrightarrow> ready s')"
    and deref: "inv s \<Longrightarrow> contents s \<noteq> [] \<Longrightarrow> \<exists>s'. it_deref vt s = Inr (hd (contents s), s') \<and> inv s' \<and>
      contents s' = contents s \<and> ready s'"
    and incr: "inv s \<Longrightarrow> ready s \<Longrightarrow> contents s \<noteq> [] \<Longrightarrow> \<exists>s'. it_incr vt s = Inr s' \<and> inv s' \<and>
      contents s' = tl (contents s)"

section \<open>Empty and handle iterators\<close>

definition empty_vt :: "(unit, 'a) aiter" where
  "empty_vt = \<lparr>it_bool = (\<lambda>s. Inr (False, s)), it_deref = (\<lambda>s. Inl Empty_iterator), it_incr = Inr\<rparr>"

text \<open>A pair of iterators of a container is the run of elements between them.\<close>

definition handle_vt :: "('a list, 'a) aiter" where
  "handle_vt = \<lparr>it_bool = (\<lambda>s. Inr (s \<noteq> [], s)),
     it_deref = (\<lambda>s. case s of [] \<Rightarrow> Inl Past_the_end | x # xs \<Rightarrow> Inr (x, s)),
     it_incr = (\<lambda>s. case s of [] \<Rightarrow> Inl Past_the_end | x # xs \<Rightarrow> Inr xs)\<rparr>"

interpretation empty_it: aiterator empty_vt "\<lambda>_. True" "\<lambda>_. []" "\<lambda>_. False"
  by unfold_locales (auto simp: empty_vt_def)

interpretation handle_it: aiterator handle_vt "\<lambda>_. True" "\<lambda>s. s" "\<lambda>_. True"
  by unfold_locales (auto simp: handle_vt_def split: list.splits)

section \<open>MergeIterator\<close>

definition merge_bool :: "('a \<Rightarrow> 'a \<Rightarrow> bool) \<Rightarrow> ('l, 'a) aiter \<Rightarrow> ('r, 'a) aiter \<Rightarrow>
    'l \<times> 'r \<times> 'a option \<Rightarrow> lib_error + bool \<times> ('l \<times> 'r \<times> 'a option)" where
  "merge_bool cmp L R = (\<lambda>(l, r, next).
     if next \<noteq> None then Inr (True, l, r, next)
     else ebind (it_bool L l) (\<lambda>(hl, l).
       if \<not> hl then
         ebind (it_bool R r) (\<lambda>(hr, r).
           if \<not> hr then Inr (False, l, r, None)
           else ebind (it_deref R r) (\<lambda>(x, r). ebind (it_incr R r) (\<lambda>r. Inr (True, l, r, Some x))))
       else
         ebind (it_bool R r) (\<lambda>(hr, r).
           if \<not> hr then ebind (it_deref L l) (\<lambda>(x, l). ebind (it_incr L l) (\<lambda>l. Inr (True, l, r, Some x)))
           else ebind (it_deref L l) (\<lambda>(a, l). ebind (it_deref R r) (\<lambda>(b, r).
             if cmp a b
             then ebind (it_deref L l) (\<lambda>(x, l). ebind (it_incr L l) (\<lambda>l. Inr (True, l, r, Some x)))
             else ebind (it_deref R r) (\<lambda>(x, r). ebind (it_incr R r) (\<lambda>r. Inr (True, l, r, Some x))))))))"

definition merge_vt :: "('a \<Rightarrow> 'a \<Rightarrow> bool) \<Rightarrow> ('l, 'a) aiter \<Rightarrow> ('r, 'a) aiter \<Rightarrow>
    ('l \<times> 'r \<times> 'a option, 'a) aiter" where
  "merge_vt cmp L R =
     \<lparr>it_bool = merge_bool cmp L R,
      it_deref = (\<lambda>s. ebind (merge_bool cmp L R s) (\<lambda>(b, s').
        if b then (case snd (snd s') of Some x \<Rightarrow> Inr (x, s') | None \<Rightarrow> Inl Past_the_end)
        else Inl Empty_iterator)),
      it_incr = (\<lambda>(l, r, next). Inr (l, r, None))\<rparr>"

text \<open>What a merge visits: the right one first when neither is smaller.\<close>

fun merge_by :: "('a \<Rightarrow> 'a \<Rightarrow> bool) \<Rightarrow> 'a list \<Rightarrow> 'a list \<Rightarrow> 'a list" where
  "merge_by cmp [] ys = ys"
| "merge_by cmp (x # xs) [] = x # xs"
| "merge_by cmp (x # xs) (y # ys) =
     (if cmp x y then x # merge_by cmp xs (y # ys) else y # merge_by cmp (x # xs) ys)"

lemma merge_by_Nil2 [simp]: "merge_by cmp xs [] = xs"
  by (cases xs) auto

lemma merge_by_eq_Nil_iff [simp]: "merge_by cmp xs ys = [] \<longleftrightarrow> xs = [] \<and> ys = []"
  by (cases xs; cases ys) auto

lemma mset_merge_by [simp]: "mset (merge_by cmp xs ys) = mset xs + mset ys"
  by (induction cmp xs ys rule: merge_by.induct) auto

lemma set_merge_by [simp]: "set (merge_by cmp xs ys) = set xs \<union> set ys"
  by (metis mset_merge_by set_mset_mset set_mset_union)

lemma hd_merge_by: "xs \<noteq> [] \<Longrightarrow> ys \<noteq> [] \<Longrightarrow>
  merge_by cmp xs ys = (if cmp (hd xs) (hd ys) then hd xs # merge_by cmp (tl xs) ys else hd ys # merge_by cmp xs (tl ys))"
  by (cases xs; cases ys) auto

text \<open>A comparison that is a strict order on keys: merging keeps runs sorted.\<close>

definition not_after :: "('a \<Rightarrow> 'a \<Rightarrow> bool) \<Rightarrow> 'a \<Rightarrow> 'a \<Rightarrow> bool" where
  "not_after cmp a b \<longleftrightarrow> \<not> cmp b a"

definition strict_weak :: "('a \<Rightarrow> 'a \<Rightarrow> bool) \<Rightarrow> bool" where
  "strict_weak cmp \<longleftrightarrow> (\<forall>a b. cmp a b \<longrightarrow> not_after cmp a b) \<and> transp (not_after cmp)"

lemma strict_weak_key: "strict_weak (\<lambda>a b. f a < (f b :: 'k::linorder))"
  by (auto simp: strict_weak_def not_after_def intro!: transpI)

lemma sorted_merge_by:
  assumes "strict_weak cmp" "sorted_wrt (not_after cmp) xs" "sorted_wrt (not_after cmp) ys"
  shows "sorted_wrt (not_after cmp) (merge_by cmp xs ys)"
  using assms
proof (induction cmp xs ys rule: merge_by.induct)
  case (3 cmp x xs y ys)
  have tr: "not_after cmp a c" if "not_after cmp a b" "not_after cmp b c" for a b c
    using "3.prems"(1) that by (auto simp: strict_weak_def elim: transpE)
  have asy: "cmp a b \<Longrightarrow> not_after cmp a b" for a b
    using "3.prems"(1) by (simp add: strict_weak_def)
  show ?case
  proof (cases "cmp x y")
    case True
    then have "\<forall>z \<in> set xs \<union> set (y # ys). not_after cmp x z"
      using "3.prems"(2,3) asy tr [of x y] by auto
    with True 3 show ?thesis by auto
  next
    case False
    then have "not_after cmp y x" by (simp add: not_after_def)
    then have "\<forall>z \<in> set (x # xs) \<union> set ys. not_after cmp y z"
      using "3.prems"(2,3) tr [of y x] by auto
    with False 3 show ?thesis by auto
  qed
qed auto

locale merged_pair = left: aiterator L invl cl rl + right: aiterator R invr cr rr
  for L :: "('l, 'a) aiter" and invl cl rl and R :: "('r, 'a) aiter" and invr cr rr +
  fixes cmp :: "'a \<Rightarrow> 'a \<Rightarrow> bool"
begin

definition pair_inv :: "'l \<times> 'r \<times> 'a option \<Rightarrow> bool" where
  "pair_inv s \<longleftrightarrow> invl (fst s) \<and> invr (fst (snd s))"

definition pair_contents :: "'l \<times> 'r \<times> 'a option \<Rightarrow> 'a list" where
  "pair_contents s = (case snd (snd s) of None \<Rightarrow> [] | Some x \<Rightarrow> [x]) @
     merge_by cmp (cl (fst s)) (cr (fst (snd s)))"

definition pair_ready :: "'l \<times> 'r \<times> 'a option \<Rightarrow> bool" where
  "pair_ready s \<longleftrightarrow> snd (snd s) \<noteq> None"

lemmas pair_defs = pair_inv_def pair_contents_def pair_ready_def

lemma take_left:
  assumes "invl l" "cl l \<noteq> []"
  obtains l' where "ebind (it_deref L l) (\<lambda>(x, l). ebind (it_incr L l) (\<lambda>l. Inr (True, l, r, Some x))) =
      Inr (True, l', r, Some (hd (cl l)))" "invl l'" "cl l' = tl (cl l)"
proof -
  obtain l1 where 1: "it_deref L l = Inr (hd (cl l), l1)" "invl l1" "cl l1 = cl l" "rl l1"
    using left.deref [OF assms] by blast
  then obtain l2 where "it_incr L l1 = Inr l2" "invl l2" "cl l2 = tl (cl l)"
    using left.incr [of l1] assms(2) by auto
  with 1 that show thesis by simp
qed

lemma take_right:
  assumes "invr r" "cr r \<noteq> []"
  obtains r' where "ebind (it_deref R r) (\<lambda>(x, r). ebind (it_incr R r) (\<lambda>r. Inr (True, l, r, Some x))) =
      Inr (True, l, r', Some (hd (cr r)))" "invr r'" "cr r' = tl (cr r)"
proof -
  obtain r1 where 1: "it_deref R r = Inr (hd (cr r), r1)" "invr r1" "cr r1 = cr r" "rr r1"
    using right.deref [OF assms] by blast
  then obtain r2 where "it_incr R r1 = Inr r2" "invr r2" "cr r2 = tl (cr r)"
    using right.incr [of r1] assms(2) by auto
  with 1 that show thesis by simp
qed

lemma pair_bool:
  assumes "pair_inv s"
  shows "\<exists>s'. merge_bool cmp L R s = Inr (pair_contents s \<noteq> [], s') \<and> pair_inv s' \<and>
    pair_contents s' = pair_contents s \<and> (pair_contents s \<noteq> [] \<longrightarrow> pair_ready s')"
proof -
  obtain l r nx where s: "s = (l, r, nx)" by (cases s)
  show ?thesis
  proof (cases nx)
    case (Some x)
    then show ?thesis using assms by (auto simp: s merge_bool_def pair_defs)
  next
    case None
    obtain l1 where l: "it_bool L l = Inr (cl l \<noteq> [], l1)" "invl l1" "cl l1 = cl l"
      using left.bool [of l] assms by (auto simp: s pair_defs)
    obtain r1 where r: "it_bool R r = Inr (cr r \<noteq> [], r1)" "invr r1" "cr r1 = cr r"
      using right.bool [of r] assms by (auto simp: s pair_defs)
    note start = s None l r merge_bool_def pair_defs
    show ?thesis
    proof (cases "cl l = []"; cases "cr r = []")
      assume e: "cl l = []" "cr r = []"
      then show ?thesis by (simp add: start)
    next
      assume e: "cl l = []" "cr r \<noteq> []"
      from e(2) obtain r2 where "ebind (it_deref R r1) (\<lambda>(x, r). ebind (it_incr R r) (\<lambda>r. Inr (True, l1, r, Some x))) =
          Inr (True, l1, r2, Some (hd (cr r)))" "invr r2" "cr r2 = tl (cr r)"
        using take_right [of r1 l1] r by metis
      with e show ?thesis by (simp add: start)
    next
      assume e: "cl l \<noteq> []" "cr r = []"
      from e(1) obtain l2 where "ebind (it_deref L l1) (\<lambda>(x, l). ebind (it_incr L l) (\<lambda>l. Inr (True, l, r1, Some x))) =
          Inr (True, l2, r1, Some (hd (cl l)))" "invl l2" "cl l2 = tl (cl l)"
        using take_left [of l1 r1] l by metis
      with e show ?thesis by (simp add: start)
    next
      assume e: "cl l \<noteq> []" "cr r \<noteq> []"
      obtain l2 where l2: "it_deref L l1 = Inr (hd (cl l), l2)" "invl l2" "cl l2 = cl l"
        using left.deref [of l1] l e by auto
      obtain r2 where r2: "it_deref R r1 = Inr (hd (cr r), r2)" "invr r2" "cr r2 = cr r"
        using right.deref [of r1] r e by auto
      obtain l3 where l3: "ebind (it_deref L l2) (\<lambda>(x, l). ebind (it_incr L l) (\<lambda>l. Inr (True, l, r2, Some x))) =
          Inr (True, l3, r2, Some (hd (cl l)))" "invl l3" "cl l3 = tl (cl l)"
        using take_left [of l2 r2] l2 e by metis
      obtain r3 where r3: "ebind (it_deref R r2) (\<lambda>(x, r). ebind (it_incr R r) (\<lambda>r. Inr (True, l2, r, Some x))) =
          Inr (True, l2, r3, Some (hd (cr r)))" "invr r3" "cr r3 = tl (cr r)"
        using take_right [of r2 l2] r2 e by metis
      show ?thesis
        using e l2 r2 l3 r3 by (simp add: start hd_merge_by)
    qed
  qed
qed

lemma pair_deref:
  assumes "pair_inv s" "pair_contents s \<noteq> []"
  shows "\<exists>s'. it_deref (merge_vt cmp L R) s = Inr (hd (pair_contents s), s') \<and> pair_inv s' \<and>
    pair_contents s' = pair_contents s \<and> pair_ready s'"
proof -
  obtain s' where s': "merge_bool cmp L R s = Inr (True, s')" "pair_inv s'"
    "pair_contents s' = pair_contents s" "pair_ready s'"
    using pair_bool [OF assms(1)] assms(2) by auto
  then obtain x where "snd (snd s') = Some x" by (auto simp: pair_ready_def)
  moreover from this have "x = hd (pair_contents s)" using s'(3) by (metis append_Cons list.sel(1) option.case(2) pair_contents_def)
  ultimately show ?thesis using s' by (simp add: merge_vt_def)
qed

lemma pair_incr:
  assumes "pair_inv s" "pair_ready s"
  shows "\<exists>s'. it_incr (merge_vt cmp L R) s = Inr s' \<and> pair_inv s' \<and> pair_contents s' = tl (pair_contents s)"
  using assms by (cases s) (auto simp: merge_vt_def pair_defs)

end

sublocale merged_pair \<subseteq> pair: aiterator "merge_vt cmp L R" pair_inv pair_contents pair_ready
  using pair_bool pair_deref pair_incr by unfold_locales (simp_all add: merge_vt_def)

section \<open>Trees of merge iterators\<close>

datatype ('s, 'a) iter = EmptyIt | InputIt 's | MergeIt "('s, 'a) iter" "('s, 'a) iter" "'a option"

primrec iter_height :: "('s, 'a) iter \<Rightarrow> nat" where
  "iter_height EmptyIt = 0"
| "iter_height (InputIt s) = 0"
| "iter_height (MergeIt l r x) = Suc (max (iter_height l) (iter_height r))"

text \<open>
  The virtual call on an iterator under at most \<open>n\<close> merge iterators: each class runs its own method.
  At depth 0 there is no merge iterator left.
\<close>

primrec iter_vt :: "('a \<Rightarrow> 'a \<Rightarrow> bool) \<Rightarrow> ('s, 'a) aiter \<Rightarrow> nat \<Rightarrow> (('s, 'a) iter, 'a) aiter" where
  "iter_vt cmp vt 0 =
     \<lparr>it_bool = (\<lambda>t. case t of
          EmptyIt \<Rightarrow> map_sum id (apsnd (\<lambda>_. EmptyIt)) (it_bool (empty_vt :: (unit, 'a) aiter) ())
        | InputIt s \<Rightarrow> map_sum id (apsnd InputIt) (it_bool vt s)
        | MergeIt l r x \<Rightarrow> Inl Past_the_end),
      it_deref = (\<lambda>t. case t of
          EmptyIt \<Rightarrow> map_sum id (apsnd (\<lambda>_. EmptyIt)) (it_deref (empty_vt :: (unit, 'a) aiter) ())
        | InputIt s \<Rightarrow> map_sum id (apsnd InputIt) (it_deref vt s)
        | MergeIt l r x \<Rightarrow> Inl Past_the_end),
      it_incr = (\<lambda>t. case t of
          EmptyIt \<Rightarrow> map_sum id (\<lambda>_. EmptyIt) (it_incr (empty_vt :: (unit, 'a) aiter) ())
        | InputIt s \<Rightarrow> map_sum id InputIt (it_incr vt s)
        | MergeIt l r x \<Rightarrow> Inl Past_the_end)\<rparr>"
| "iter_vt cmp vt (Suc n) = (let m = merge_vt cmp (iter_vt cmp vt n) (iter_vt cmp vt n);
       up = (\<lambda>(l, r, x). MergeIt l r x) in
     \<lparr>it_bool = (\<lambda>t. case t of MergeIt l r x \<Rightarrow> map_sum id (apsnd up) (it_bool m (l, r, x))
         | _ \<Rightarrow> it_bool (iter_vt cmp vt n) t),
      it_deref = (\<lambda>t. case t of MergeIt l r x \<Rightarrow> map_sum id (apsnd up) (it_deref m (l, r, x))
         | _ \<Rightarrow> it_deref (iter_vt cmp vt n) t),
      it_incr = (\<lambda>t. case t of MergeIt l r x \<Rightarrow> map_sum id up (it_incr m (l, r, x))
         | _ \<Rightarrow> it_incr (iter_vt cmp vt n) t)\<rparr>)"

context aiterator
begin

primrec tree_inv :: "nat \<Rightarrow> ('s, 'a) iter \<Rightarrow> bool" where
  "tree_inv n EmptyIt = True"
| "tree_inv n (InputIt s) = inv s"
| "tree_inv n (MergeIt l r x) = (0 < n \<and> tree_inv (n - 1) l \<and> tree_inv (n - 1) r)"

primrec tree_contents :: "('a \<Rightarrow> 'a \<Rightarrow> bool) \<Rightarrow> ('s, 'a) iter \<Rightarrow> 'a list" where
  "tree_contents cmp EmptyIt = []"
| "tree_contents cmp (InputIt s) = contents s"
| "tree_contents cmp (MergeIt l r x) = (case x of None \<Rightarrow> [] | Some a \<Rightarrow> [a]) @
     merge_by cmp (tree_contents cmp l) (tree_contents cmp r)"

primrec tree_ready :: "('s, 'a) iter \<Rightarrow> bool" where
  "tree_ready EmptyIt = False"
| "tree_ready (InputIt s) = ready s"
| "tree_ready (MergeIt l r x) = (x \<noteq> None)"

lemma tree_inv_mono: "tree_inv n t \<Longrightarrow> tree_inv (Suc n) t"
proof (induction t arbitrary: n)
  case (MergeIt l r x)
  then show ?case using MergeIt.IH [of "n - 1"] by (cases n) auto
qed auto

lemma tree: "aiterator (iter_vt cmp vt n) (tree_inv n) (tree_contents cmp) tree_ready"
proof (induction n)
  case 0
  show ?case
  proof
    fix t :: "('s, 'a) iter"
    assume "tree_inv 0 t"
    then show "\<exists>s'. it_bool (iter_vt cmp vt 0) t = Inr (tree_contents cmp t \<noteq> [], s') \<and> tree_inv 0 s' \<and>
        tree_contents cmp s' = tree_contents cmp t \<and> (tree_contents cmp t \<noteq> [] \<longrightarrow> tree_ready s')"
      using bool by (cases t) (fastforce simp: empty_vt_def)+
  next
    fix t :: "('s, 'a) iter"
    assume "tree_inv 0 t" "tree_contents cmp t \<noteq> []"
    then show "\<exists>s'. it_deref (iter_vt cmp vt 0) t = Inr (hd (tree_contents cmp t), s') \<and> tree_inv 0 s' \<and>
        tree_contents cmp s' = tree_contents cmp t \<and> tree_ready s'"
      using deref by (cases t) fastforce+
  next
    fix t :: "('s, 'a) iter"
    assume "tree_inv 0 t" "tree_ready t" "tree_contents cmp t \<noteq> []"
    then show "\<exists>s'. it_incr (iter_vt cmp vt 0) t = Inr s' \<and> tree_inv 0 s' \<and>
        tree_contents cmp s' = tl (tree_contents cmp t)"
      using incr by (cases t) fastforce+
  qed
next
  case (Suc n)
  note m = merged_pair.intro [OF Suc.IH Suc.IH]
  note defs = merged_pair.pair_defs [OF m]
  show ?case
  proof
    fix t :: "('s, 'a) iter"
    assume i: "tree_inv (Suc n) t"
    show "\<exists>s'. it_bool (iter_vt cmp vt (Suc n)) t = Inr (tree_contents cmp t \<noteq> [], s') \<and> tree_inv (Suc n) s' \<and>
        tree_contents cmp s' = tree_contents cmp t \<and> (tree_contents cmp t \<noteq> [] \<longrightarrow> tree_ready s')"
    proof (cases t)
      case (MergeIt l r x)
      then show ?thesis
        using i merged_pair.pair_bool [OF m, of "(l, r, x)" cmp] by (auto simp: Let_def merge_vt_def defs)
    qed (use i aiterator.bool [OF Suc.IH, of t] tree_inv_mono in \<open>auto simp: Let_def\<close>)
  next
    fix t :: "('s, 'a) iter"
    assume i: "tree_inv (Suc n) t" "tree_contents cmp t \<noteq> []"
    show "\<exists>s'. it_deref (iter_vt cmp vt (Suc n)) t = Inr (hd (tree_contents cmp t), s') \<and> tree_inv (Suc n) s' \<and>
        tree_contents cmp s' = tree_contents cmp t \<and> tree_ready s'"
    proof (cases t)
      case (MergeIt l r x)
      then show ?thesis
        using i merged_pair.pair_deref [OF m, of "(l, r, x)" cmp] by (fastforce simp: Let_def defs)
    qed (use i aiterator.deref [OF Suc.IH, of t] tree_inv_mono in \<open>auto simp: Let_def\<close>)
  next
    fix t :: "('s, 'a) iter"
    assume i: "tree_inv (Suc n) t" "tree_ready t" "tree_contents cmp t \<noteq> []"
    show "\<exists>s'. it_incr (iter_vt cmp vt (Suc n)) t = Inr s' \<and> tree_inv (Suc n) s' \<and>
        tree_contents cmp s' = tl (tree_contents cmp t)"
    proof (cases t)
      case (MergeIt l r x)
      then show ?thesis
        using i merged_pair.pair_incr [OF m, of "(l, r, x)" cmp] by (fastforce simp: Let_def defs)
    qed (use i aiterator.incr [OF Suc.IH, of t] tree_inv_mono in \<open>auto simp: Let_def\<close>)
  qed
qed

end

section \<open>AllocatedMergeAIterator\<close>

text \<open>
  The vector \<^verbatim>\<open>its\<close>: the inputs, then the pairs of every level with the odd one moved up, from \<^verbatim>\<open>start\<close>
  the \<^verbatim>\<open>len\<close> iterators of the current level.
\<close>

definition merge_level :: "('s, 'a) iter list \<Rightarrow> nat \<Rightarrow> nat \<Rightarrow> ('s, 'a) iter list" where
  "merge_level its start len =
     map (\<lambda>i. MergeIt (its ! (start + 2 * i)) (its ! (start + 2 * i + 1)) None) [0..<len div 2] @
     (if odd len then [its ! (start + len - 1)] else [])"

lemma length_merge_level [simp]: "length (merge_level its start len) = (len + 1) div 2"
  by (auto simp: merge_level_def elim!: oddE)

function alloc_levels :: "('s, 'a) iter list \<Rightarrow> nat \<Rightarrow> ('s, 'a) iter list" where
  "alloc_levels its start =
     (let len = length its - start; its' = its @ merge_level its start len; start' = start + len
      in if 1 < length its' - start' then alloc_levels its' start' else its')"
  by pat_completeness auto
termination
  by (relation "measure (\<lambda>(its, start). length its - start)") auto

declare alloc_levels.simps [simp del]

definition AllocatedMerge :: "'s list \<Rightarrow> ('s, 'a) iter" where
  "AllocatedMerge input = (let its = map InputIt input in
     if its = [] then last (its @ [EmptyIt])
     else if 1 < length its then last (alloc_levels its 0)
     else last its)"

text \<open>The loop of a client: \<^verbatim>\<open>while (it) { f(*it); ++it; }\<close>.\<close>

partial_function (option) for_each :: "('s, 'a) aiter \<Rightarrow> ('w \<Rightarrow> 'a \<Rightarrow> 'w) \<Rightarrow> 's \<Rightarrow> 'w \<Rightarrow> (lib_error + 'w) option" where
  "for_each vt f s w =
     (case it_bool vt s of
        Inl e \<Rightarrow> Some (Inl e)
      | Inr (b, s1) \<Rightarrow>
          if \<not> b then Some (Inr w)
          else (case it_deref vt s1 of
              Inl e \<Rightarrow> Some (Inl e)
            | Inr (x, s2) \<Rightarrow> (case it_incr vt s2 of
                Inl e \<Rightarrow> Some (Inl e)
              | Inr s3 \<Rightarrow> for_each vt f s3 (f w x))))"

context aiterator
begin

lemma for_each: "inv s \<Longrightarrow> for_each vt f s w = Some (Inr (foldl f w (contents s)))"
proof (induction "contents s" arbitrary: s w)
  case Nil
  then show ?case using bool [of s] by (subst for_each.simps) auto
next
  case (Cons x xs)
  obtain s1 where 1: "it_bool vt s = Inr (True, s1)" "inv s1" "contents s1 = x # xs"
    using bool [OF Cons.prems] by (metis Cons.hyps(2) list.distinct(1))
  obtain s2 where 2: "it_deref vt s1 = Inr (x, s2)" "inv s2" "contents s2 = x # xs" "ready s2"
    using deref [OF 1(2)] 1(3) by (metis list.distinct(1) list.sel(1))
  obtain s3 where 3: "it_incr vt s2 = Inr s3" "inv s3" "contents s3 = xs"
    using incr [OF 2(2,4)] 2(3) by (metis list.distinct(1) list.sel(3))
  show ?case
    using Cons.hyps(1) [of s3 "f w x"] 1 2 3 by (subst for_each.simps) (simp flip: Cons.hyps(2))
qed

end

text \<open>A level of the vector, as a list.\<close>

fun merge_pairs :: "('s, 'a) iter list \<Rightarrow> ('s, 'a) iter list" where
  "merge_pairs (x # y # xs) = MergeIt x y None # merge_pairs xs"
| "merge_pairs xs = xs"

lemma length_merge_pairs: "length (merge_pairs xs) = (length xs + 1) div 2"
  by (induction xs rule: merge_pairs.induct) auto

lemma merge_level_pairs:
  fixes its :: "('s, 'a) iter list"
  shows "start \<le> length its \<Longrightarrow> merge_level its start (length its - start) = merge_pairs (drop start its)"
proof -
  have pairs: "map (\<lambda>i. MergeIt (xs ! (2 * i)) (xs ! (2 * i + 1)) None) [0..<length xs div 2] @
      (if odd (length xs) then [xs ! (length xs - 1)] else []) = merge_pairs xs" for xs :: "('s, 'a) iter list"
  proof (induction xs rule: merge_pairs.induct)
    case (1 x y xs)
    have "[0..<length (x # y # xs) div 2] = 0 # map Suc [0..<length xs div 2]"
      by (simp add: map_Suc_upt upt_conv_Cons del: upt_Suc)
    with 1 show ?case by (cases "xs = []") (auto simp: comp_def)
  qed auto
  assume "start \<le> length its"
  moreover from this have "its ! (start + length its - start - 1) = drop start its ! (length its - start - 1)"
    if "odd (length its - start)" using that by (cases "length its = start") auto
  ultimately show ?thesis
    using pairs [of "drop start its"] by (auto simp: merge_level_def)
qed

lemma alloc_levels_pairs: "start \<le> length its \<Longrightarrow> alloc_levels its start =
    (if 1 < length (merge_pairs (drop start its))
     then alloc_levels (its @ merge_pairs (drop start its)) (length its) else its @ merge_pairs (drop start its))"
  by (subst alloc_levels.simps) (simp add: merge_level_pairs length_merge_pairs Let_def)

text \<open>Whatever holds of the inputs and is kept by merging two iterators holds of the main iterator.\<close>

lemma sum_merge_pairs:
  assumes "\<And>l r. f (MergeIt l r None) = f l + (f r :: 'b::comm_monoid_add)"
  shows "sum_list (map f (merge_pairs xs)) = sum_list (map f xs)"
  by (induction xs rule: merge_pairs.induct) (auto simp: assms add.assoc)

lemma all_merge_pairs:
  assumes "\<And>l r. P l \<Longrightarrow> P r \<Longrightarrow> P (MergeIt l r None)"
  shows "\<forall>t \<in> set xs. P t \<Longrightarrow> \<forall>t \<in> set (merge_pairs xs). P t"
  by (induction xs rule: merge_pairs.induct) (auto simp: assms)

lemma alloc_levels_last:
  fixes f :: "('s, 'a) iter \<Rightarrow> 'b::comm_monoid_add" and P :: "('s, 'a) iter \<Rightarrow> bool"
  assumes P: "\<And>l r. P l \<Longrightarrow> P r \<Longrightarrow> P (MergeIt l r None)"
    and f: "\<And>l r. f (MergeIt l r None) = f l + f r"
  shows "start < length its \<Longrightarrow> \<forall>t \<in> set (drop start its). P t \<Longrightarrow>
    P (last (alloc_levels its start)) \<and> f (last (alloc_levels its start)) = sum_list (map f (drop start its))"
proof (induction its start rule: alloc_levels.induct)
  case (1 its start)
  let ?new = "merge_pairs (drop start its)"
  have len: "length ?new = (length its - start + 1) div 2" by (simp add: length_merge_pairs)
  have new: "\<forall>t \<in> set ?new. P t" using all_merge_pairs [of P, OF P] 1(3) by blast
  show ?case
  proof (cases "1 < length ?new")
    case True
    have "P (last (alloc_levels (its @ ?new) (length its))) \<and>
        f (last (alloc_levels (its @ ?new) (length its))) = sum_list (map f (drop (length its) (its @ ?new)))"
      using "1.IH" [OF refl refl refl] True new 1(2) by (fastforce simp: merge_level_pairs)
    then show ?thesis
      using True 1(2) by (simp add: alloc_levels_pairs [of start its] sum_merge_pairs [of f, OF f])
  next
    case False
    then have "length ?new = 1" using len 1(2) by linarith
    then obtain t where t: "?new = [t]" by (auto simp: length_Suc_conv)
    then have "f t = sum_list (map f (drop start its))"
      using sum_merge_pairs [OF f, of "drop start its"] by simp
    then show ?thesis
      using False 1(2) new t by (simp add: alloc_levels_pairs [of start its])
  qed
qed

lemma AllocatedMerge_cases:
  fixes f :: "('s, 'a) iter \<Rightarrow> 'b::comm_monoid_add" and P :: "('s, 'a) iter \<Rightarrow> bool"
  assumes P: "\<And>l r. P l \<Longrightarrow> P r \<Longrightarrow> P (MergeIt l r None)" "P EmptyIt" "\<forall>s \<in> set input. P (InputIt s)"
    and f: "\<And>l r. f (MergeIt l r None) = f l + f r" "f EmptyIt = 0"
  shows "P (AllocatedMerge input) \<and> f (AllocatedMerge input) = (\<Sum>s\<leftarrow>input. f (InputIt s))"
proof -
  consider "input = []" | s where "input = [s]" | "1 < length input"
    by (cases input; cases "tl input") auto
  then show ?thesis
  proof cases
    case 3
    then show ?thesis
      using alloc_levels_last [of P f 0 "map InputIt input", OF P(1) f(1)] P(3)
      by (auto simp: AllocatedMerge_def Let_def comp_def)
  qed (use P f in \<open>auto simp: AllocatedMerge_def Let_def\<close>)
qed

context aiterator
begin

lemma tree_inv_le: "tree_inv n t \<Longrightarrow> n \<le> m \<Longrightarrow> tree_inv m t"
  by (induction m) (auto simp: le_Suc_eq intro: tree_inv_mono)

text \<open>The merged iteration visits every element of the inputs once, and in order when the inputs are.\<close>

lemma AllocatedMerge_contents:
  assumes "\<forall>s \<in> set input. inv s"
  defines "t \<equiv> AllocatedMerge input"
  shows "tree_inv (iter_height t) t"
    and "mset (tree_contents cmp t) = (\<Sum>s\<leftarrow>input. mset (contents s))"
    and "strict_weak cmp \<Longrightarrow> \<forall>s \<in> set input. sorted_wrt (not_after cmp) (contents s) \<Longrightarrow>
      sorted_wrt (not_after cmp) (tree_contents cmp t)"
proof -
  have "tree_inv (iter_height (MergeIt l r None)) (MergeIt l r None)"
    if "tree_inv (iter_height l) l" "tree_inv (iter_height r) r" for l r :: "('s, 'a) iter"
    using that tree_inv_le [of "iter_height l" l] tree_inv_le [of "iter_height r" r] by simp
  then show "tree_inv (iter_height t) t"
    using AllocatedMerge_cases [of "\<lambda>t. tree_inv (iter_height t) t" input "\<lambda>_. 0 :: nat"] assms(1)
    by (simp add: t_def)
  show "mset (tree_contents cmp t) = (\<Sum>s\<leftarrow>input. mset (contents s))"
    using AllocatedMerge_cases [of "\<lambda>_. True" input "\<lambda>t. mset (tree_contents cmp t)"] by (simp add: t_def)
  assume "strict_weak cmp" "\<forall>s \<in> set input. sorted_wrt (not_after cmp) (contents s)"
  then show "sorted_wrt (not_after cmp) (tree_contents cmp t)"
    using AllocatedMerge_cases [of "\<lambda>t. sorted_wrt (not_after cmp) (tree_contents cmp t)" input "\<lambda>_. 0 :: nat"]
    by (simp add: t_def sorted_merge_by)
qed

text \<open>A client loop over the merge of the inputs runs over \<open>tree_contents\<close>.\<close>

lemma for_each_merge:
  assumes "\<forall>s \<in> set input. inv s" and t: "t = AllocatedMerge input"
  shows "for_each (iter_vt cmp vt (iter_height t)) f t w = Some (Inr (foldl f w (tree_contents cmp t)))"
  unfolding t by (rule aiterator.for_each [OF tree AllocatedMerge_contents(1) [OF assms(1)]])

end

end
