(* ===== verification/Raio.thy ===== *)
theory Raio
  imports Iterators C_Library "HOL-Library.List_Lexorder"
begin

text \<open>
  The sorted component files of \<^verbatim>\<open>src/core/lib/actslib/rdf/raio.hpp\<close> with the components of \<^verbatim>\<open>rdf.hpp\<close>:
  their writer and reader, the comparison of components, the creation of a chunk from the triples of a
  parser, and the merge of chunks.

  A component is its bytes (\<^verbatim>\<open>buffer[offset]\<close> to \<^verbatim>\<open>buffer[offset + length]\<close>). A chunk is a directory with
  one file per type of component; files that were opened for reading or writing are their bytes.
\<close>

section \<open>Components\<close>

datatype rdf_type = RDF_SUBJECT | RDF_PREDICATE | RDF_OBJECT

definition rdf_types :: "rdf_type list" where
  "rdf_types = [RDF_SUBJECT, RDF_PREDICATE, RDF_OBJECT]"

fun GetDeltaLen :: "cstr \<Rightarrow> cstr \<Rightarrow> nat" where
  "GetDeltaLen (a # as) (b # bs) = (if b = a then Suc (GetDeltaLen as bs) else 0)"
| "GetDeltaLen _ _ = 0"

definition component_less :: "cstr \<Rightarrow> cstr \<Rightarrow> bool" where
  "component_less c1 c2 =
     (if length c2 = length c1 then c_memcmp c1 c2 (length c1) < 0
      else if length c1 < length c2 then
        (let r = c_memcmp c1 c2 (length c1) in if r \<noteq> 0 then r < 0 else True)
      else
        (let r = c_memcmp c1 c2 (length c2) in if r \<noteq> 0 then r < 0 else False))"

text \<open>\<^verbatim>\<open>StreamAppendStringComponent::Append\<close>: the new component and the stream.\<close>

definition ResizeString :: "cstr \<Rightarrow> nat \<Rightarrow> cstr" where
  "ResizeString s len = take len s @ replicate (len - length s) 0"

definition comp_Append :: "cstr \<Rightarrow> istream \<Rightarrow> nat \<Rightarrow> cstr \<times> istream" where
  "comp_Append cp is offset =
     (if offset \<noteq> 0 then
        (if is_fail is then (cp, is)
         else (case is_getline 0 is of (line, is') \<Rightarrow>
           (case line of
              None \<Rightarrow> (cp, is')
            | Some l \<Rightarrow>
                if is_fail is' then (cp, is')
                else (take offset (ResizeString cp (offset + length l)) @ l, is'))))
      else (case is_getline 0 is of (line, is') \<Rightarrow> (case line of None \<Rightarrow> (cp, is') | Some l \<Rightarrow> (l, is'))))"

section \<open>Writer\<close>

type_synonym id_component = "u64 \<times> cstr"

record comp_writer =
  cw_os :: "u8 list"
  cw_last :: cstr

definition new_writer :: comp_writer where
  "new_writer = \<lparr>cw_os = [], cw_last = []\<rparr>"

definition WriteNode :: "comp_writer \<Rightarrow> u64 \<Rightarrow> cstr \<Rightarrow> comp_writer" where
  "WriteNode w nid component =
     (let delta = GetDeltaLen (cw_last w) component
      in \<lparr>cw_os = cw_os w @ EncodeVByte nid @ EncodeVByte (of_nat delta) @
            (if length component \<noteq> delta then drop delta component else []) @ [0],
          cw_last = component\<rparr>)"

definition WriteEnd :: "comp_writer \<Rightarrow> u8 list" where
  "WriteEnd w = cw_os w @ EncodeVByte 0 @ EncodeVByte 4 @ EncodeVByte 5 @ EncodeVByte 6"

section \<open>Reader\<close>

record comp_reader =
  cr_is :: istream
  cr_next :: id_component
  cr_nextWait :: bool
  cr_remaining :: bool

definition open_reader :: "u8 list \<Rightarrow> comp_reader" where
  "open_reader bytes = \<lparr>cr_is = open_stream bytes, cr_next = (0, []), cr_nextWait = False, cr_remaining = True\<rparr>"

definition CheckEnd :: "istream \<Rightarrow> lib_error + bool \<times> istream" where
  "CheckEnd is = ebind (DecodeVByte is) (\<lambda>(a, is). if a \<noteq> 4 then Inr (False, is)
     else ebind (DecodeVByte is) (\<lambda>(b, is). if b \<noteq> 5 then Inr (False, is)
     else ebind (DecodeVByte is) (\<lambda>(c, is). Inr (c = 6, is))))"

definition reader_bool :: "comp_reader \<Rightarrow> lib_error + bool \<times> comp_reader" where
  "reader_bool r =
     (if cr_nextWait r then Inr (True, r)
      else if \<not> cr_remaining r then Inr (False, r)
      else ebind (DecodeVByte (cr_is r)) (\<lambda>(nid, is).
        if nid = 0 then
          ebind (CheckEnd is) (\<lambda>(ok, is).
            if \<not> ok then Inl (if is_fail is then Invalid_when_checking_end else No_end_of_stream)
            else Inr (False, r\<lparr>cr_is := is, cr_next := (0, snd (cr_next r)), cr_remaining := False\<rparr>))
        else
          ebind (DecodeVByte is) (\<lambda>(delta, is).
            case comp_Append (snd (cr_next r)) is (unat delta) of (cp, is) \<Rightarrow>
              Inr (True, r\<lparr>cr_is := is, cr_next := (nid, cp), cr_nextWait := True\<rparr>))))"

definition reader_vt :: "(comp_reader, id_component) aiter" where
  "reader_vt =
     \<lparr>it_bool = reader_bool,
      it_deref = (\<lambda>r. ebind (reader_bool r) (\<lambda>(b, r). if \<not> b then Inl Empty_iterator else Inr (cr_next r, r))),
      it_incr = (\<lambda>r. Inr (r\<lparr>cr_nextWait := False\<rparr>))\<rparr>"

section \<open>Merging chunks\<close>

definition IdCompCompare :: "id_component \<Rightarrow> id_component \<Rightarrow> bool" where
  "IdCompCompare a b = component_less (snd a) (snd b)"

text \<open>One file of the new chunk from the files of the chunks.\<close>

definition MergeFiles :: "u8 list list \<Rightarrow> (lib_error + u8 list) option" where
  "MergeFiles files =
     (let merger = AllocatedMerge (map open_reader files)
      in map_option (map_sum id WriteEnd)
           (for_each (iter_vt IdCompCompare reader_vt (iter_height merger))
             (\<lambda>w c. WriteNode w (fst c) (snd c)) merger new_writer))"

type_synonym chunk_dir = "rdf_type \<Rightarrow> u8 list"

definition MergeChunks :: "chunk_dir list \<Rightarrow> (lib_error + chunk_dir) option" where
  "MergeChunks chunks =
     (case (MergeFiles (map (\<lambda>c. c RDF_SUBJECT) chunks), MergeFiles (map (\<lambda>c. c RDF_PREDICATE) chunks),
            MergeFiles (map (\<lambda>c. c RDF_OBJECT) chunks)) of
        (Some s, Some p, Some ob) \<Rightarrow> Some (ebind s (\<lambda>s. ebind p (\<lambda>p. ebind ob (\<lambda>ob.
          Inr (\<lambda>t. case t of RDF_SUBJECT \<Rightarrow> s | RDF_PREDICATE \<Rightarrow> p | RDF_OBJECT \<Rightarrow> ob)))))
      | _ \<Rightarrow> None)"

text \<open>The chunk of no triple at all.\<close>

definition CreateDefaultChunk :: chunk_dir where
  "CreateDefaultChunk = (\<lambda>type. WriteEnd new_writer)"

section \<open>Creating chunks\<close>

type_synonym triple = "rdf_type \<Rightarrow> cstr"

text \<open>
  The configuration: the triples the parser still gives, the next identifier, and for every type the size
  of the buffer, the offset of its free part and the strings in it in the order of their offsets. The
  string at an offset is its identifier and its bytes up to the zero byte after them.
\<close>

record ckm =
  ck_parser :: "triple list"
  ck_tripleId :: u64
  ck_buffers :: "rdf_type \<Rightarrow> nat"
  ck_bufferOffsets :: "rdf_type \<Rightarrow> nat"
  ck_strings :: "rdf_type \<Rightarrow> id_component list"

definition new_ckm :: "triple list \<Rightarrow> nat \<Rightarrow> ckm" where
  "new_ckm parser bufferSize =
     \<lparr>ck_parser = parser, ck_tripleId = 1, ck_buffers = (\<lambda>_. bufferSize), ck_bufferOffsets = (\<lambda>_. 0),
      ck_strings = (\<lambda>_. [])\<rparr>"

text \<open>Space for a component: the size of an identifier, the bytes and the zero byte.\<close>

fun make_room :: "rdf_type list \<Rightarrow> triple \<Rightarrow> bool \<Rightarrow> ckm \<Rightarrow> ckm option" where
  "make_room [] triple force k = Some k"
| "make_room (t # ts) triple force k =
     (let need = length (triple t) + 8 + 1
      in if ck_buffers k t < ck_bufferOffsets k t + need then
           (if \<not> force then None
            else make_room ts triple force
              (k\<lparr>ck_buffers := (ck_buffers k)(t := ck_bufferOffsets k t + need * 3 div 2)\<rparr>))
         else make_room ts triple force k)"

definition WriteChunkData :: "triple \<Rightarrow> bool \<Rightarrow> u64 \<Rightarrow> ckm \<Rightarrow> ckm option" where
  "WriteChunkData triple force index k =
     (case make_room rdf_types triple force k of
        None \<Rightarrow> None
      | Some k1 \<Rightarrow> Some (k1\<lparr>
          ck_bufferOffsets := (\<lambda>t. ck_bufferOffsets k1 t + length (triple t) + 8 + 1),
          ck_strings := (\<lambda>t. ck_strings k1 t @ [(index, triple t)])\<rparr>))"

text \<open>The triples that fit into the buffers.\<close>

fun fill_chunk :: "triple list \<Rightarrow> ckm \<Rightarrow> ckm" where
  "fill_chunk [] k = k\<lparr>ck_parser := []\<rparr>"
| "fill_chunk (triple # ts) k =
     (case WriteChunkData triple False (ck_tripleId k) k of
        None \<Rightarrow> k\<lparr>ck_parser := triple # ts\<rparr>
      | Some k1 \<Rightarrow> fill_chunk ts (k1\<lparr>ck_tripleId := ck_tripleId k + 1\<rparr>))"

text \<open>
  \<^verbatim>\<open>std::sort\<close> is a parameter: it may leave equal strings in any order. \<^verbatim>\<open>WriteChunkFile\<close> writes the
  strings up to their first zero byte.
\<close>

type_synonym std_sort = "(id_component \<Rightarrow> id_component \<Rightarrow> bool) \<Rightarrow> id_component list \<Rightarrow> id_component list"

definition SortBuffer :: "std_sort \<Rightarrow> id_component list \<Rightarrow> id_component list" where
  "SortBuffer srt str = srt (\<lambda>s1 s2. c_strcmp (snd s1) (snd s2) < 0) str"

definition WriteChunkFile :: "id_component list \<Rightarrow> u8 list" where
  "WriteChunkFile str = WriteEnd (foldl (\<lambda>w c. WriteNode w (fst c) (c_chars (snd c))) new_writer str)"

text \<open>\<^verbatim>\<open>CreateChunk\<close>: \<open>None\<close> when the parser is at its end.\<close>

definition ck_CreateChunk :: "std_sort \<Rightarrow> ckm \<Rightarrow> (chunk_dir \<times> ckm) option" where
  "ck_CreateChunk srt k =
     (case ck_parser k of
        [] \<Rightarrow> None
      | triple # ts \<Rightarrow>
          (let k1 = k\<lparr>ck_bufferOffsets := (\<lambda>_. 0), ck_strings := (\<lambda>_. [])\<rparr>;
               k2 = the (WriteChunkData triple True (ck_tripleId k1) k1);
               k3 = fill_chunk ts (k2\<lparr>ck_tripleId := ck_tripleId k2 + 1\<rparr>);
               k4 = k3\<lparr>ck_strings := (\<lambda>t. SortBuffer srt (ck_strings k3 t))\<rparr>
           in Some (\<lambda>t. WriteChunkFile (ck_strings k4 t), k4)))"

end
