(* ===== verification/Raio_Properties.thy ===== *)
theory Raio_Properties
  imports Raio
begin

text \<open>
  The component files of \<^verbatim>\<open>Raio\<close>: a written file is read back (\<open>reader_it\<close> interprets the interface of the
  iterators on the reader), merging files gives the sorted file of all their nodes, and a chunk holds the
  triples it took from the parser.
\<close>

section \<open>Comparison and common prefixes\<close>

lemma component_less_simps:
  "component_less (x # a) (y # b) = (if x = y then component_less a b else x < y)"
  "component_less [] b \<longleftrightarrow> b \<noteq> []" "\<not> component_less a []"
  by (auto simp: component_less_def Let_def min_def elim!: c_memcmp.elims split: if_splits)

lemma Nil_less_iff: "[] < (b :: cstr) \<longleftrightarrow> b \<noteq> []"
  by (cases b) auto

lemma component_less_iff: "component_less a b \<longleftrightarrow> a < b"
  by (induction a b rule: GetDeltaLen.induct) (auto simp: component_less_simps Nil_less_iff)

lemma c_strcmp_less_iff: "c_strcmp a b < 0 \<longleftrightarrow> c_chars a < c_chars b"
  by (induction a b rule: c_strcmp.induct) (auto simp: c_chars_def word_gt_0)

lemma IdCompCompare_eq: "IdCompCompare = (\<lambda>a b. snd a < snd b)"
  by (intro ext) (simp add: IdCompCompare_def component_less_iff)

lemma strict_weak_IdComp: "strict_weak IdCompCompare"
  unfolding IdCompCompare_eq by (rule strict_weak_key)

lemma GetDeltaLen_le: "GetDeltaLen a b \<le> length a" "GetDeltaLen a b \<le> length b"
  by (induction a b rule: GetDeltaLen.induct) auto

lemma GetDeltaLen_take: "take (GetDeltaLen a b) a @ drop (GetDeltaLen a b) b = b"
  by (induction a b rule: GetDeltaLen.induct) auto

section \<open>Files\<close>

fun enc_nodes :: "cstr \<Rightarrow> id_component list \<Rightarrow> u8 list" where
  "enc_nodes lst [] = []"
| "enc_nodes lst ((i, c) # ns) = EncodeVByte i @ EncodeVByte (of_nat (GetDeltaLen lst c)) @
     drop (GetDeltaLen lst c) c @ [0] @ enc_nodes c ns"

definition end_mark :: "u8 list" where
  "end_mark = EncodeVByte 0 @ EncodeVByte 4 @ EncodeVByte 5 @ EncodeVByte 6"

definition node_ok :: "id_component \<Rightarrow> bool" where
  "node_ok n \<longleftrightarrow> fst n \<noteq> 0 \<and> unat (fst n) < 2 ^ 63 \<and> no_nul (snd n) \<and> length (snd n) < 2 ^ 63"

abbreviation write_nodes_to :: "comp_writer \<Rightarrow> id_component list \<Rightarrow> comp_writer" where
  "write_nodes_to \<equiv> foldl (\<lambda>w c. WriteNode w (fst c) (snd c))"

lemma write_nodes_os: "cw_os (write_nodes_to w ns) = cw_os w @ enc_nodes (cw_last w) ns"
proof (induction ns arbitrary: w)
  case (Cons n ns)
  then show ?case by (cases n) (auto simp: WriteNode_def Let_def)
qed simp

text \<open>The file of a list of nodes.\<close>

definition file_of :: "id_component list \<Rightarrow> u8 list" where
  "file_of ns = WriteEnd (write_nodes_to new_writer ns)"

lemma file_of_eq: "file_of ns = enc_nodes [] ns @ end_mark"
  by (simp add: file_of_def WriteEnd_def write_nodes_os end_mark_def new_writer_def)

section \<open>Reading\<close>

text \<open>A reader that still gives the nodes \<open>ns\<close>.\<close>

definition reads :: "comp_reader \<Rightarrow> id_component list \<Rightarrow> bool" where
  "reads r ns \<longleftrightarrow> (\<exists>ms t. ns = (if cr_nextWait r then [cr_next r] else []) @ ms \<and> (\<forall>n \<in> set ms. node_ok n) \<and>
     (if cr_remaining r
      then is_good (cr_is r) \<and> is_rest (cr_is r) = enc_nodes (snd (cr_next r)) ms @ end_mark @ t
      else ms = [] \<and> \<not> cr_nextWait r))"

lemma comp_Append_delta:
  assumes "is_good is" "is_rest is = drop (GetDeltaLen lst c) c @ 0 # u" "no_nul c"
  shows "comp_Append lst is (GetDeltaLen lst c) = (c, is\<lparr>is_rest := u\<rparr>)"
proof -
  have "0 \<notin> set (drop (GetDeltaLen lst c) c)" using assms(3) by (auto simp: no_nul_def dest: in_set_dropD)
  then have "is_getline 0 is = (Some (drop (GetDeltaLen lst c) c), is\<lparr>is_rest := u\<rparr>)"
    using assms is_getline_found [of "is"] by simp
  moreover have "take (GetDeltaLen lst c) (ResizeString lst (GetDeltaLen lst c + k)) = take (GetDeltaLen lst c) lst" for k
    using GetDeltaLen_le(1) [of lst c] by (simp add: ResizeString_def min_def)
  ultimately show ?thesis
    using is_goodD [OF assms(1)] GetDeltaLen_take [of lst c] by (auto simp: comp_Append_def)
qed

lemma reader_bool_node:
  assumes "reads r (n # ns)"
  obtains r' where "reader_bool r = Inr (True, r')" "reads r' (n # ns)" "cr_nextWait r'" "cr_next r' = n"
proof (cases "cr_nextWait r")
  case True
  then have "cr_next r = n" using assms by (auto simp: reads_def)
  with True assms that show thesis by (auto simp: reader_bool_def)
next
  case False
  obtain i c where n: "n = (i, c)" by (cases n)
  let ?last = "snd (cr_next r)"
  let ?d = "GetDeltaLen ?last c"
  obtain t where r: "cr_remaining r" "is_good (cr_is r)" "\<forall>n \<in> set ns. node_ok n" "node_ok (i, c)"
    "is_rest (cr_is r) = EncodeVByte i @ EncodeVByte (of_nat ?d) @ drop ?d c @ 0 # enc_nodes c ns @ end_mark @ t"
    using assms False by (auto simp: reads_def n split: if_splits)
  have i: "i \<noteq> 0" "unat i < 2 ^ 63" "no_nul c" "length c < 2 ^ 63" using r(4) by (simp_all add: node_ok_def)
  have "?d < 2 ^ 63" using GetDeltaLen_le(2) [of ?last c] i(4) by linarith
  then have d: "unat (of_nat ?d :: u64) = ?d" and d': "unat (of_nat ?d :: u64) < 2 ^ 63"
    by (simp_all add: unat_of_nat_u64)
  define u1 where "u1 = EncodeVByte (of_nat ?d) @ drop ?d c @ 0 # enc_nodes c ns @ end_mark @ t"
  define u2 where "u2 = drop ?d c @ 0 # enc_nodes c ns @ end_mark @ t"
  define u3 where "u3 = enc_nodes c ns @ end_mark @ t"
  have step1: "DecodeVByte (cr_is r) = Inr (i, cr_is r\<lparr>is_rest := u1\<rparr>)"
    using DecodeVByte_Encode [OF r(2), of i u1] i(2) r(5) by (simp add: u1_def)
  have step2: "DecodeVByte (cr_is r\<lparr>is_rest := u1\<rparr>) = Inr (of_nat ?d, cr_is r\<lparr>is_rest := u2\<rparr>)"
    using DecodeVByte_Encode [of "cr_is r\<lparr>is_rest := u1\<rparr>" "of_nat ?d" u2] r(2) d' by (simp add: u1_def u2_def)
  have step3: "comp_Append ?last (cr_is r\<lparr>is_rest := u2\<rparr>) ?d = (c, cr_is r\<lparr>is_rest := u3\<rparr>)"
    using comp_Append_delta [of "cr_is r\<lparr>is_rest := u2\<rparr>" ?last c u3] r(2) i(3) by (simp add: u2_def u3_def)
  let ?r = "r\<lparr>cr_is := cr_is r\<lparr>is_rest := u3\<rparr>, cr_next := (i, c), cr_nextWait := True\<rparr>"
  have "reader_bool r = Inr (True, ?r)"
    using False r(1) i(1) d by (simp add: reader_bool_def step1 step2 step3)
  moreover have "reads ?r (n # ns)"
    using r by (auto simp: reads_def n u3_def)
  ultimately show thesis using that by (simp add: n)
qed

lemma reader_bool_end:
  assumes "reads r []"
  obtains r' where "reader_bool r = Inr (False, r')" "reads r' []"
proof -
  have w: "\<not> cr_nextWait r" using assms by (auto simp: reads_def split: if_splits)
  show thesis
  proof (cases "cr_remaining r")
    case False
    then have "reader_bool r = Inr (False, r)" using w by (simp add: reader_bool_def)
    then show thesis using assms by (rule that)
  next
    case True
    obtain t where t: "is_good (cr_is r)" "is_rest (cr_is r) = end_mark @ t"
      using assms True w by (auto simp: reads_def)
    define at where "at u = cr_is r\<lparr>is_rest := u\<rparr>" for u
    have dec: "DecodeVByte (at (EncodeVByte v @ u)) = Inr (v, at u)" if "unat v < 2 ^ 63" for v u
      using DecodeVByte_Encode [of "at (EncodeVByte v @ u)" v u] t(1) that by (simp add: at_def)
    have "at (end_mark @ t) = cr_is r"
      unfolding at_def by (rule istream.equality) (simp_all add: t(2))
    then have first: "DecodeVByte (cr_is r) = Inr (0, at (EncodeVByte 4 @ EncodeVByte 5 @ EncodeVByte 6 @ t))"
      using dec [of 0 "EncodeVByte 4 @ EncodeVByte 5 @ EncodeVByte 6 @ t"] by (simp add: end_mark_def)
    have "CheckEnd (at (EncodeVByte 4 @ EncodeVByte 5 @ EncodeVByte 6 @ t)) = Inr (True, at t)"
      by (simp add: CheckEnd_def dec)
    with first have "reader_bool r = Inr (False, r\<lparr>cr_is := at t, cr_next := (0, snd (cr_next r)),
        cr_remaining := False\<rparr>)"
      using w True by (simp add: reader_bool_def)
    then show thesis by (rule that) (use w in \<open>simp add: reads_def\<close>)
  qed
qed

lemma reader_bool_spec:
  assumes "reads r ns"
  shows "\<exists>r'. reader_bool r = Inr (ns \<noteq> [], r') \<and> reads r' ns \<and>
    (ns \<noteq> [] \<longrightarrow> cr_nextWait r' \<and> cr_next r' = hd ns)"
proof (cases ns)
  case Nil
  obtain r' where "reader_bool r = Inr (False, r')" "reads r' []"
    by (rule reader_bool_end [OF assms [unfolded Nil]])
  with Nil show ?thesis by simp
next
  case (Cons n ms)
  obtain r' where "reader_bool r = Inr (True, r')" "reads r' (n # ms)" "cr_nextWait r'" "cr_next r' = n"
    by (rule reader_bool_node [OF assms [unfolded Cons]])
  with Cons show ?thesis by simp
qed

lemma reads_next: "reads r (n # ns) \<Longrightarrow> cr_nextWait r \<Longrightarrow> reads (r\<lparr>cr_nextWait := False\<rparr>) ns"
  by (auto simp: reads_def split: if_splits)

text \<open>What a reader gives: what a loop over it collects.\<close>

definition reader_contents :: "comp_reader \<Rightarrow> id_component list" where
  "reader_contents r = (case for_each reader_vt (\<lambda>w x. w @ [x]) r [] of Some (Inr xs) \<Rightarrow> xs | _ \<Rightarrow> [])"

lemma reads_for_each: "reads r ns \<Longrightarrow> for_each reader_vt f r w = Some (Inr (foldl f w ns))"
proof (induction ns arbitrary: r w)
  case Nil
  then show ?case using reader_bool_spec [of r "[]"] by (subst for_each.simps) (auto simp: reader_vt_def)
next
  case (Cons n ns)
  obtain r1 where 1: "reader_bool r = Inr (True, r1)" "reads r1 (n # ns)" "cr_nextWait r1" "cr_next r1 = n"
    using reader_bool_spec [OF Cons.prems] by auto
  then have "reader_bool r1 = Inr (True, r1)" by (simp add: reader_bool_def)
  then show ?case
    using 1 Cons.IH [OF reads_next [OF 1(2,3)], of "f w n"] by (subst for_each.simps) (simp add: reader_vt_def)
qed

lemma reads_contents: "reads r ns \<Longrightarrow> reader_contents r = ns"
proof -
  have "foldl (\<lambda>w x. w @ [x]) w ns = w @ ns" for w ns :: "id_component list" by (induction ns arbitrary: w) auto
  then show "reads r ns \<Longrightarrow> reader_contents r = ns" by (simp add: reader_contents_def reads_for_each)
qed

definition reader_inv :: "comp_reader \<Rightarrow> bool" where
  "reader_inv r \<longleftrightarrow> reads r (reader_contents r)"

lemma reads_inv: "reads r ns \<Longrightarrow> reader_inv r"
  using reads_contents by (simp add: reader_inv_def)

lemma reader_bool_law:
  assumes "reader_inv r"
  shows "\<exists>r'. reader_bool r = Inr (reader_contents r \<noteq> [], r') \<and> reader_inv r' \<and>
    reader_contents r' = reader_contents r \<and>
    (reader_contents r \<noteq> [] \<longrightarrow> cr_nextWait r' \<and> cr_next r' = hd (reader_contents r))"
  using reader_bool_spec [of r "reader_contents r"] assms reads_contents reads_inv unfolding reader_inv_def by metis

interpretation reader_it: aiterator reader_vt reader_inv reader_contents cr_nextWait
proof
  fix r
  assume "reader_inv r"
  then show "\<exists>r'. it_bool reader_vt r = Inr (reader_contents r \<noteq> [], r') \<and> reader_inv r' \<and>
      reader_contents r' = reader_contents r \<and> (reader_contents r \<noteq> [] \<longrightarrow> cr_nextWait r')"
    using reader_bool_law [of r] by (auto simp: reader_vt_def)
next
  fix r
  assume "reader_inv r" "reader_contents r \<noteq> []"
  then show "\<exists>r'. it_deref reader_vt r = Inr (hd (reader_contents r), r') \<and> reader_inv r' \<and>
      reader_contents r' = reader_contents r \<and> cr_nextWait r'"
    using reader_bool_law [of r] by (auto simp: reader_vt_def)
next
  fix r
  assume "reader_inv r" "cr_nextWait r" "reader_contents r \<noteq> []"
  then obtain n ns where "reads r (n # ns)" "reader_contents r = n # ns"
    by (metis neq_Nil_conv reader_inv_def)
  then show "\<exists>r'. it_incr reader_vt r = Inr r' \<and> reader_inv r' \<and> reader_contents r' = tl (reader_contents r)"
    using reads_next [of r n ns] \<open>cr_nextWait r\<close> reads_contents reads_inv by (auto simp: reader_vt_def)
qed

section \<open>Merging\<close>

lemma reads_open: "(\<forall>n \<in> set ns. node_ok n) \<Longrightarrow> reads (open_reader (file_of ns)) ns"
  by (auto simp: reads_def open_reader_def file_of_eq intro: exI [of _ "[]"])

definition nodes_of :: "u8 list \<Rightarrow> id_component list" where
  "nodes_of f = reader_contents (open_reader f)"

lemma nodes_of_file: "(\<forall>n \<in> set ns. node_ok n) \<Longrightarrow> nodes_of (file_of ns) = ns"
  unfolding nodes_of_def by (intro reads_contents reads_open)

definition by_component :: "id_component list \<Rightarrow> bool" where
  "by_component ns \<longleftrightarrow> sorted (map snd ns)"

lemma by_component_eq: "by_component ns = sorted_wrt (not_after IdCompCompare) ns"
  by (simp add: by_component_def sorted_wrt_map not_after_def [abs_def] IdCompCompare_eq not_less)

text \<open>A file written from sorted nodes.\<close>

definition file_ok :: "u8 list \<Rightarrow> bool" where
  "file_ok f \<longleftrightarrow> (\<exists>ns. f = file_of ns \<and> (\<forall>n \<in> set ns. node_ok n) \<and> by_component ns)"

lemma file_okE:
  assumes "file_ok f"
  obtains "f = file_of (nodes_of f)" "\<forall>n \<in> set (nodes_of f). node_ok n" "by_component (nodes_of f)"
    "reader_inv (open_reader f)"
  using assms nodes_of_file reads_inv [OF reads_open] unfolding file_ok_def by metis

lemma set_sum_mset: "mset xs = (\<Sum>ns\<leftarrow>nss. mset ns) \<Longrightarrow> set xs = (\<Union>ns\<in>set nss. set ns)"
proof -
  have "set_mset (\<Sum>ns\<leftarrow>nss. mset ns) = (\<Union>ns\<in>set nss. set ns)" by (induction nss) auto
  then show "mset xs = (\<Sum>ns\<leftarrow>nss. mset ns) \<Longrightarrow> ?thesis" by (metis set_mset_mset)
qed

lemma MergeFiles_lists:
  assumes ok: "\<forall>ns \<in> set nss. \<forall>n \<in> set ns. node_ok n"
  obtains ns where "MergeFiles (map file_of nss) = Some (Inr (file_of ns))" "mset ns = (\<Sum>ns\<leftarrow>nss. mset ns)"
    "\<forall>n \<in> set ns. node_ok n" "(\<forall>ns \<in> set nss. by_component ns) \<longrightarrow> by_component ns"
proof -
  let ?input = "map open_reader (map file_of nss)"
  define t :: "(comp_reader, id_component) iter" where "t = AllocatedMerge ?input"
  define ns where "ns = reader_it.tree_contents IdCompCompare t"
  have rd: "reads (open_reader (file_of ms)) ms" if "ms \<in> set nss" for ms
    using ok that by (intro reads_open) auto
  have inv: "\<forall>s \<in> set ?input. reader_inv s" using reads_inv [OF rd] by auto
  have "(\<Sum>s\<leftarrow>?input. mset (reader_contents s)) = (\<Sum>ns\<leftarrow>nss. mset ns)"
    using reads_contents [OF rd] by (simp add: comp_def cong: map_cong)
  then have ms: "mset ns = (\<Sum>ns\<leftarrow>nss. mset ns)"
    using reader_it.AllocatedMerge_contents(2) [OF inv] by (simp add: ns_def t_def)
  have ok': "\<forall>n \<in> set ns. node_ok n" using set_sum_mset [OF ms] ok by auto
  have srt: "by_component ns" if "\<forall>ns \<in> set nss. by_component ns"
  proof -
    have "\<forall>s \<in> set ?input. sorted_wrt (not_after IdCompCompare) (reader_contents s)"
      using that reads_contents [OF rd] by (auto simp: by_component_eq)
    then show ?thesis
      unfolding ns_def t_def by_component_eq
      by (rule reader_it.AllocatedMerge_contents(3) [OF inv strict_weak_IdComp])
  qed
  have "MergeFiles (map file_of nss) = Some (Inr (file_of ns))"
    unfolding MergeFiles_def Let_def t_def [symmetric] reader_it.for_each_merge [OF inv t_def]
    by (simp add: file_of_def ns_def)
  with ms ok' srt that show thesis by blast
qed

lemma MergeFiles_ok:
  assumes "\<forall>f \<in> set files. file_ok f"
  shows "\<exists>out. MergeFiles files = Some (Inr out) \<and> file_ok out \<and>
    mset (nodes_of out) = (\<Sum>f\<leftarrow>files. mset (nodes_of f))"
proof -
  have "\<forall>ns \<in> set (map nodes_of files). \<forall>n \<in> set ns. node_ok n" using assms by (auto elim!: file_okE)
  then obtain ns where ns: "MergeFiles (map file_of (map nodes_of files)) = Some (Inr (file_of ns))"
    "mset ns = (\<Sum>ns\<leftarrow>map nodes_of files. mset ns)" "\<forall>n \<in> set ns. node_ok n"
    "(\<forall>ns \<in> set (map nodes_of files). by_component ns) \<longrightarrow> by_component ns"
    by (rule MergeFiles_lists)
  have "file_of (nodes_of f) = f" if "file_ok f" for f
    using that by (rule file_okE) (rule sym)
  then have "map file_of (map nodes_of files) = files"
    using assms by (simp add: map_idI)
  moreover have "by_component ns" using assms by (intro ns(4) [rule_format]) (auto elim!: file_okE)
  ultimately show ?thesis
    using ns(1-3) nodes_of_file [OF ns(3)] by (auto simp: file_ok_def comp_def)
qed

text \<open>
  C12. Merging component files: when every identifier is not 0 and has at most 63 bits and no component has a zero
  byte, merging any number of written files succeeds, and what is read from the result is every node of the
  inputs exactly once, sorted by component when the inputs are. A node with a larger identifier can be written
  but not read back.
\<close>

theorem MergeFiles_union:
  assumes "\<forall>ns \<in> set nss. \<forall>(i, c) \<in> set ns. i \<noteq> 0 \<and> unat i < 2 ^ 63 \<and> no_nul c \<and> length c < 2 ^ 63"
  shows "(\<exists>out. MergeFiles (map file_of nss) = Some (Inr out) \<and>
      mset (nodes_of out) = (\<Sum>ns\<leftarrow>nss. mset ns) \<and>
      ((\<forall>ns \<in> set nss. sorted (map snd ns)) \<longrightarrow> sorted (map snd (nodes_of out)))) \<and>
    (\<forall>i c ns. 2 ^ 63 \<le> unat i \<longrightarrow> MergeFiles [file_of ((i, c) # ns)] = Some (Inl Too_many_bits))"
proof -
  have "\<forall>ns \<in> set nss. \<forall>n \<in> set ns. node_ok n" using assms by (auto simp: node_ok_def case_prod_beta)
  then obtain ns where "MergeFiles (map file_of nss) = Some (Inr (file_of ns))" "mset ns = (\<Sum>ns\<leftarrow>nss. mset ns)"
    "\<forall>n \<in> set ns. node_ok n" "(\<forall>ns \<in> set nss. by_component ns) \<longrightarrow> by_component ns"
    by (rule MergeFiles_lists)
  moreover have "MergeFiles [file_of ((i, c) # ns)] = Some (Inl Too_many_bits)" if "2 ^ 63 \<le> unat i" for i c ns
    using DecodeVByte_Encode [of "open_stream (file_of ((i, c) # ns))" i] that
    by (simp add: MergeFiles_def AllocatedMerge_def file_of_eq open_reader_def for_each.simps reader_vt_def reader_bool_def)
  ultimately show ?thesis by (auto simp: nodes_of_file by_component_def)
qed

theorem MergeFiles_union_witness:
  "\<exists>out. MergeFiles [file_of [(1, [97]), (2, [99])], file_of [(3, [98])]] = Some (Inr out) \<and>
     mset (nodes_of out) = {#(1, [97]), (2, [99]), (3, [98])#} \<and> sorted (map snd (nodes_of out))"
  using MergeFiles_union [of "[[(1, [97]), (2, [99])], [(3, [98])]]"] by (auto simp: add_mset_commute)

section \<open>Chunks\<close>

text \<open>The nodes of a chunk with the file they are in, and those of the triples still to come.\<close>

definition chunk_ok :: "chunk_dir \<Rightarrow> bool" where
  "chunk_ok c \<longleftrightarrow> (\<forall>t. file_ok (c t))"

definition chunk_items :: "chunk_dir \<Rightarrow> (rdf_type \<times> id_component) multiset" where
  "chunk_items c = (\<Sum>t\<leftarrow>rdf_types. image_mset (Pair t) (mset (nodes_of (c t))))"

fun numbered :: "u64 \<Rightarrow> triple list \<Rightarrow> (u64 \<times> triple) list" where
  "numbered i [] = []"
| "numbered i (t # ts) = (i, t) # numbered (i + 1) ts"

definition comps :: "rdf_type \<Rightarrow> (u64 \<times> triple) list \<Rightarrow> id_component list" where
  "comps t = map (\<lambda>n. (fst n, snd n t))"

definition cut_nul :: "id_component list \<Rightarrow> id_component list" where
  "cut_nul = map (\<lambda>n. (fst n, c_chars (snd n)))"

definition triple_items :: "u64 \<Rightarrow> triple list \<Rightarrow> (rdf_type \<times> id_component) multiset" where
  "triple_items i ts = (\<Sum>t\<leftarrow>rdf_types. image_mset (Pair t) (mset (cut_nul (comps t (numbered i ts)))))"

definition ckm_inv :: "ckm \<Rightarrow> bool" where
  "ckm_inv k \<longleftrightarrow> 0 < unat (ck_tripleId k) \<and> unat (ck_tripleId k) + length (ck_parser k) < 2 ^ 63 \<and>
     (\<forall>tr \<in> set (ck_parser k). \<forall>t. length (tr t) < 2 ^ 63)"

definition ckm_left :: "ckm \<Rightarrow> (rdf_type \<times> id_component) multiset" where
  "ckm_left k = triple_items (ck_tripleId k) (ck_parser k)"

text \<open>What the standard library promises of \<^verbatim>\<open>std::sort\<close>.\<close>

definition sorts :: "std_sort \<Rightarrow> bool" where
  "sorts srt \<longleftrightarrow> (\<forall>cmp xs. strict_weak cmp \<longrightarrow>
     mset (srt cmp xs) = mset xs \<and> sorted_wrt (not_after cmp) (srt cmp xs))"

definition merge_sort_by :: std_sort where
  "merge_sort_by cmp xs = foldr (\<lambda>x. merge_by cmp [x]) xs []"

lemma sorts_merge_sort_by: "sorts merge_sort_by"
proof -
  have "mset (merge_sort_by cmp xs) = mset xs \<and> sorted_wrt (not_after cmp) (merge_sort_by cmp xs)"
    if "strict_weak cmp" for cmp xs
    using that by (induction xs) (auto simp: merge_sort_by_def intro: sorted_merge_by)
  then show ?thesis by (auto simp: sorts_def)
qed

lemma WriteChunkFile_eq: "WriteChunkFile str = file_of (cut_nul str)"
  by (simp add: WriteChunkFile_def file_of_def cut_nul_def foldl_map)

lemma SortBuffer_ok:
  assumes "sorts srt"
  shows "mset (cut_nul (SortBuffer srt str)) = mset (cut_nul str)" "by_component (cut_nul (SortBuffer srt str))"
proof -
  have "strict_weak (\<lambda>s1 s2. c_strcmp (snd s1) (snd s2) < (0 :: int))"
    unfolding c_strcmp_less_iff by (rule strict_weak_key)
  then have s: "mset (SortBuffer srt str) = mset str"
    "sorted_wrt (not_after (\<lambda>s1 s2. c_strcmp (snd s1) (snd s2) < 0)) (SortBuffer srt str)"
    using assms by (auto simp: sorts_def SortBuffer_def)
  from s(1) show "mset (cut_nul (SortBuffer srt str)) = mset (cut_nul str)" by (simp add: cut_nul_def)
  from s(2) show "by_component (cut_nul (SortBuffer srt str))"
    by (simp add: by_component_def cut_nul_def sorted_wrt_map not_after_def [abs_def] c_strcmp_less_iff not_less)
qed

lemma numbered_append: "numbered i (a @ b) = numbered i a @ numbered (i + of_nat (length a)) b"
  by (induction a arbitrary: i) (simp_all add: add.assoc)

lemma numbered_ids:
  assumes "0 < unat i" "unat i + length ts < 2 ^ 63" "n \<in> set (numbered i ts)"
  shows "fst n \<noteq> 0 \<and> unat (fst n) < 2 ^ 63 \<and> snd n \<in> set ts"
  using assms
proof (induction i ts rule: numbered.induct)
  case (2 i t ts)
  have "unat (i + 1) = unat i + 1" using "2.prems"(2) by (simp add: unat_word_ariths)
  with 2 show ?case by auto
qed simp

text \<open>What a chunk takes from the parser.\<close>

lemma make_room_keeps: "make_room ts tr force k = Some k' \<Longrightarrow>
    ck_parser k' = ck_parser k \<and> ck_tripleId k' = ck_tripleId k \<and> ck_strings k' = ck_strings k"
  by (induction ts tr force k rule: make_room.induct) (auto simp: Let_def split: if_splits)

lemma make_room_force: "make_room ts tr True k \<noteq> None"
  by (induction ts tr "True" k rule: make_room.induct) (auto simp: Let_def)

lemma WriteChunkData_keeps: "WriteChunkData tr force i k = Some k' \<Longrightarrow>
    ck_parser k' = ck_parser k \<and> ck_tripleId k' = ck_tripleId k \<and>
    ck_strings k' = (\<lambda>t. ck_strings k t @ [(i, tr t)])"
  by (auto simp: WriteChunkData_def dest: make_room_keeps split: option.splits)

lemma fill_chunk_takes: "\<exists>a b. ts = a @ b \<and> ck_parser (fill_chunk ts k) = b \<and>
    ck_tripleId (fill_chunk ts k) = ck_tripleId k + of_nat (length a) \<and>
    ck_strings (fill_chunk ts k) = (\<lambda>t. ck_strings k t @ comps t (numbered (ck_tripleId k) a))"
proof (induction ts k rule: fill_chunk.induct)
  case (2 tr ts k)
  show ?case
  proof (cases "WriteChunkData tr False (ck_tripleId k) k")
    case None
    then show ?thesis by (intro exI [of _ "[]"] exI [of _ "tr # ts"]) (simp add: comps_def)
  next
    case (Some k1)
    note k1 = WriteChunkData_keeps [OF Some]
    let ?k = "k1\<lparr>ck_tripleId := ck_tripleId k + 1\<rparr>"
    obtain a b where "ts = a @ b" "ck_parser (fill_chunk ts ?k) = b"
      "ck_tripleId (fill_chunk ts ?k) = ck_tripleId k + 1 + of_nat (length a)"
      "ck_strings (fill_chunk ts ?k) = (\<lambda>t. ck_strings k1 t @ comps t (numbered (ck_tripleId k + 1) a))"
      using "2.IH" [OF Some] by auto
    then show ?thesis
      using k1 by (intro exI [of _ "tr # a"] exI [of _ b]) (simp add: Some comps_def add.assoc)
  qed
qed (simp add: comps_def)

lemma ck_CreateChunk_takes:
  assumes "ck_CreateChunk srt k = Some (c, k')"
  obtains a b where "ck_parser k = a @ b" "a \<noteq> []" "ck_parser k' = b"
    "ck_tripleId k' = ck_tripleId k + of_nat (length a)"
    "c = (\<lambda>t. WriteChunkFile (SortBuffer srt (comps t (numbered (ck_tripleId k) a))))"
proof -
  obtain tr ts where p: "ck_parser k = tr # ts"
    using assms by (auto simp: ck_CreateChunk_def split: list.splits)
  let ?k1 = "k\<lparr>ck_bufferOffsets := (\<lambda>_. 0), ck_strings := (\<lambda>_. [])\<rparr>"
  obtain k2 where k2: "WriteChunkData tr True (ck_tripleId k) ?k1 = Some k2"
    using make_room_force [of rdf_types tr ?k1] by (auto simp: WriteChunkData_def)
  note keeps = WriteChunkData_keeps [OF k2]
  let ?k3 = "k2\<lparr>ck_tripleId := ck_tripleId k + 1\<rparr>"
  obtain a b where ab: "ts = a @ b" "ck_parser (fill_chunk ts ?k3) = b"
    "ck_tripleId (fill_chunk ts ?k3) = ck_tripleId k + 1 + of_nat (length a)"
    "ck_strings (fill_chunk ts ?k3) = (\<lambda>t. ck_strings k2 t @ comps t (numbered (ck_tripleId k + 1) a))"
    using fill_chunk_takes [of ts ?k3] by auto
  have strs: "ck_strings (fill_chunk ts ?k3) = (\<lambda>t. comps t (numbered (ck_tripleId k) (tr # a)))"
    using ab(4) keeps by (simp add: comps_def)
  show thesis
  proof (rule that [of "tr # a" b])
    show "ck_parser k = (tr # a) @ b" using p ab(1) by simp
    show "c = (\<lambda>t. WriteChunkFile (SortBuffer srt (comps t (numbered (ck_tripleId k) (tr # a)))))"
      and "ck_parser k' = b" and "ck_tripleId k' = ck_tripleId k + of_nat (length (tr # a))"
      using assms p k2 keeps strs ab(2,3) by (auto simp: ck_CreateChunk_def Let_def add.assoc)
  qed simp
qed

lemma ck_CreateChunk_None_iff: "ck_CreateChunk srt k = None \<longleftrightarrow> ck_parser k = []"
  by (simp add: ck_CreateChunk_def Let_def split: list.splits)

lemma cut_nul_ok:
  assumes "ckm_inv k" "ck_parser k = a @ b"
  shows "\<forall>n \<in> set (cut_nul (comps t (numbered (ck_tripleId k) a))). node_ok n"
proof
  fix n
  assume "n \<in> set (cut_nul (comps t (numbered (ck_tripleId k) a)))"
  then obtain m where m: "m \<in> set (numbered (ck_tripleId k) a)" "n = (fst m, c_chars (snd m t))"
    by (auto simp: cut_nul_def comps_def)
  then have "fst m \<noteq> 0 \<and> unat (fst m) < 2 ^ 63 \<and> snd m \<in> set a"
    using numbered_ids [of "ck_tripleId k" a m] assms by (simp add: ckm_inv_def)
  moreover from this have "length (c_chars (snd m t)) < 2 ^ 63"
    using assms length_takeWhile_le [of "\<lambda>c. c \<noteq> 0" "snd m t"] by (auto simp: ckm_inv_def c_chars_def intro: le_less_trans)
  ultimately show "node_ok n" using m(2) by (simp add: node_ok_def)
qed

lemma ck_CreateChunk_ok:
  assumes "sorts srt" "ckm_inv k" "ck_CreateChunk srt k = Some (c, k')"
  shows "chunk_ok c \<and> ckm_inv k' \<and> ckm_left k = chunk_items c + ckm_left k' \<and>
    length (ck_parser k') < length (ck_parser k)"
proof -
  obtain a b where ab: "ck_parser k = a @ b" "a \<noteq> []" "ck_parser k' = b"
    "ck_tripleId k' = ck_tripleId k + of_nat (length a)"
    "c = (\<lambda>t. WriteChunkFile (SortBuffer srt (comps t (numbered (ck_tripleId k) a))))"
    by (rule ck_CreateChunk_takes [OF assms(3)])
  define str where "str t = SortBuffer srt (comps t (numbered (ck_tripleId k) a))" for t
  have str: "mset (cut_nul (str t)) = mset (cut_nul (comps t (numbered (ck_tripleId k) a)))"
    "by_component (cut_nul (str t))" for t
    using SortBuffer_ok [OF assms(1)] by (simp_all add: str_def)
  have ok: "\<forall>n \<in> set (cut_nul (str t)). node_ok n" for t
    using cut_nul_ok [OF assms(2) ab(1), of t] str(1) [of t] by (metis set_mset_mset)
  have c: "c t = file_of (cut_nul (str t))" for t by (simp add: ab(5) WriteChunkFile_eq str_def)
  have "chunk_ok c" using ok str(2) by (auto simp: chunk_ok_def file_ok_def c)
  moreover have "chunk_items c = triple_items (ck_tripleId k) a"
    using str(1) nodes_of_file [OF ok] by (simp add: chunk_items_def triple_items_def c)
  moreover have "ckm_left k = triple_items (ck_tripleId k) a + ckm_left k'"
    by (simp add: ckm_left_def triple_items_def ab rdf_types_def numbered_append comps_def cut_nul_def)
  moreover have "unat (ck_tripleId k') = unat (ck_tripleId k) + length a"
    using assms(2) ab(1) by (simp add: ab(4) ckm_inv_def unat_word_ariths unat_of_nat_mod)
  then have "ckm_inv k'" using assms(2) ab by (auto simp: ckm_inv_def)
  ultimately show ?thesis using ab by simp
qed

lemma MergeChunks_ok:
  assumes "\<forall>c \<in> set chunks. chunk_ok c"
  shows "\<exists>out. MergeChunks chunks = Some (Inr out) \<and> chunk_ok out \<and>
    chunk_items out = (\<Sum>c\<leftarrow>chunks. chunk_items c)"
proof -
  have "\<exists>out. MergeFiles (map (\<lambda>c. c t) chunks) = Some (Inr out) \<and> file_ok out \<and>
      mset (nodes_of out) = (\<Sum>c\<leftarrow>chunks. mset (nodes_of (c t)))" for t
    using MergeFiles_ok [of "map (\<lambda>c. c t) chunks"] assms by (simp add: chunk_ok_def comp_def)
  then obtain out where out: "\<And>t. MergeFiles (map (\<lambda>c. c t) chunks) = Some (Inr (out t))" "\<And>t. file_ok (out t)"
    "\<And>t. mset (nodes_of (out t)) = (\<Sum>c\<leftarrow>chunks. mset (nodes_of (c t)))"
    by metis
  have "(\<lambda>t. case t of RDF_SUBJECT \<Rightarrow> out RDF_SUBJECT | RDF_PREDICATE \<Rightarrow> out RDF_PREDICATE
      | RDF_OBJECT \<Rightarrow> out RDF_OBJECT) = out"
    by (auto split: rdf_type.splits)
  then have "MergeChunks chunks = Some (Inr out)" by (simp add: MergeChunks_def out(1))
  moreover have "chunk_items out = (\<Sum>c\<leftarrow>chunks. chunk_items c)"
    unfolding chunk_items_def rdf_types_def out(3)
    by (induction chunks) (auto simp: ac_simps)
  ultimately show ?thesis using out(2) by (auto simp: chunk_ok_def)
qed

lemma chunk_itemsD: "count (chunk_items c) (t, n) = count (mset (nodes_of (c t))) n"
proof -
  have "count (image_mset (Pair s) M) (t, n) = (if s = t then count M n else 0)" for s M
    by (induction M) auto
  then show ?thesis by (cases t) (simp_all add: chunk_items_def rdf_types_def)
qed

end
