(* ===== verification/Kmerger_Properties.thy ===== *)
theory Kmerger_Properties
  imports Kmerger Raio_Properties
begin

text \<open>
  The merge sort of \<^verbatim>\<open>Kmerger\<close> under every schedule: it cannot deadlock, it ends, and when no call threw it
  leaves one chunk that holds everything the configuration delivered. The locale \<open>kmerger_config\<close> is what the
  workers rely on; it is interpreted on \<^verbatim>\<open>CompressComponentKMerger\<close>, the configuration of the sources.

  Quantities of a state are sums over the points of the workers and over the tasks.
\<close>

section \<open>Sums over workers and tasks\<close>

definition cnt :: "(kpoint \<Rightarrow> 'b::comm_monoid_add) \<Rightarrow> ('g, 'c) kmerger \<Rightarrow> 'b" where
  "cnt f s = sum_list (map f (km_workers s))"

definition tsum :: "(ktask \<Rightarrow> 'b::comm_monoid_add) \<Rightarrow> ktask list \<Rightarrow> 'b" where
  "tsum f ts = sum_list (map f ts)"

lemma tsum_simps [simp]: "tsum f [] = 0" "tsum f (ts @ [t]) = tsum f ts + f t" "tsum f [t] = f t"
  by (simp_all add: tsum_def)

text \<open>The sum over all workers but one.\<close>

definition others :: "nat \<Rightarrow> (kpoint \<Rightarrow> 'b::comm_monoid_add) \<Rightarrow> kpoint list \<Rightarrow> 'b" where
  "others i f ws = sum_list (map f (take i ws)) + sum_list (map f (drop (Suc i) ws))"

lemma cnt_split: "i < length (km_workers s) \<Longrightarrow> cnt f s = f (km_workers s ! i) + others i f (km_workers s)"
proof -
  assume "i < length (km_workers s)"
  then have "km_workers s = take i (km_workers s) @ km_workers s ! i # drop (Suc i) (km_workers s)"
    by (rule id_take_nth_drop)
  then have "cnt f s = sum_list (map f (take i (km_workers s) @ km_workers s ! i # drop (Suc i) (km_workers s)))"
    by (simp add: cnt_def)
  then show ?thesis by (simp add: others_def ac_simps)
qed

lemma cnt_goto: "i < length (km_workers s) \<Longrightarrow> cnt f (goto_point i p s) = f p + others i f (km_workers s)"
  using cnt_split [of i "goto_point i p s" f] by (simp add: goto_point_def others_def)

lemma goto_simps [simp]:
  "km_units (goto_point i p s) = km_units s" "km_completed (goto_point i p s) = km_completed s"
  "km_chunks (goto_point i p s) = km_chunks s" "km_maxLayer (goto_point i p s) = km_maxLayer s"
  "km_tasks (goto_point i p s) = km_tasks s" "km_taskHolder (goto_point i p s) = km_taskHolder s"
  "km_idGen (goto_point i p s) = km_idGen s" "km_exception (goto_point i p s) = km_exception s"
  "km_cfg (goto_point i p s) = km_cfg s" "km_disk (goto_point i p s) = km_disk s"
  "length (km_workers (goto_point i p s)) = length (km_workers s)"
  by (simp_all add: goto_point_def)

lemma push_simps [simp]:
  "km_units (PushTask t s) = km_units s" "km_completed (PushTask t s) = km_completed s"
  "km_chunks (PushTask t s) = km_chunks s" "km_maxLayer (PushTask t s) = km_maxLayer s"
  "km_tasks (PushTask t s) = km_tasks s @ [t]" "km_taskHolder (PushTask t s) = km_taskHolder s"
  "km_idGen (PushTask t s) = km_idGen s" "km_exception (PushTask t s) = km_exception s"
  "km_cfg (PushTask t s) = km_cfg s" "km_disk (PushTask t s) = km_disk s" "km_workers (PushTask t s) = km_workers s"
  by (simp_all add: PushTask_def)

text \<open>The steps, one by one.\<close>

lemma worker_step_cases [consumes 1, case_names pop_end pop_create pop_merge create_id create_throw create_none
    create_some create_add create_next complete_set complete_none complete_found complete_push_none
    complete_push_some check_none check_found merge_push merge_id merge_throw merge_done merge_add
    throw_set throw_clear]:
  assumes "worker_step C i throws s = Some s'"
  obtains
    "km_workers s ! i = At_pop" "km_taskHolder s = None"
      "km_tasks s = [] \<and> km_completed s \<or> km_exception s \<noteq> None" "s' = goto_point i At_end s"
  | ts where "km_workers s ! i = At_pop" "km_taskHolder s = None" "km_exception s = None"
      "km_tasks s = ts @ [TCreate]" "s' = goto_point i Create_id (s\<lparr>km_tasks := ts\<rparr>)"
  | ts ch where "km_workers s ! i = At_pop" "km_taskHolder s = None" "km_exception s = None"
      "km_tasks s = ts @ [TMerge ch]" "s' = goto_point i (Merge_id ch) (s\<lparr>km_tasks := ts\<rparr>)"
  | "km_workers s ! i = Create_id" "s' = goto_point i (Create_call (km_idGen s + 1)) (s\<lparr>km_idGen := km_idGen s + 1\<rparr>)"
  | f where "km_workers s ! i = Create_call f" "throws" "s' = goto_point i (Throw_set ''create'') s"
  | f where "km_workers s ! i = Create_call f" "\<not> throws" "cfg_create C (km_cfg s) = None" "s' = goto_point i Complete_set s"
  | f c g where "km_workers s ! i = Create_call f" "\<not> throws" "cfg_create C (km_cfg s) = Some (c, g)"
      "s' = goto_point i (Create_add f) (s\<lparr>km_cfg := g, km_disk := (km_disk s)(f \<mapsto> c)\<rparr>)"
  | f where "km_workers s ! i = Create_add f"
      "s' = goto_point i Create_next (s\<lparr>km_chunks := km_chunks s @ [\<lparr>kc_layer = 0, kc_file = f\<rparr>]\<rparr>)"
  | "km_workers s ! i = Create_next" "km_taskHolder s = None" "s' = goto_point i Merge_check (PushTask TCreate s)"
  | "km_workers s ! i = Complete_set" "km_taskHolder s = None"
      "s' = goto_point i Complete_find (s\<lparr>km_taskHolder := Some i, km_completed := True\<rparr>)"
  | "km_workers s ! i = Complete_find" "FindChunksToMerge s = No_merge" "s' = goto_point i (Complete_push None) s"
  | ch rest where "km_workers s ! i = Complete_find" "FindChunksToMerge s = Merge_found ch rest"
      "s' = goto_point i (Complete_push (Some ch)) (s\<lparr>km_chunks := rest\<rparr>)"
  | "km_workers s ! i = Complete_push None" "s' = goto_point i At_pop (s\<lparr>km_taskHolder := None\<rparr>)"
  | ch where "km_workers s ! i = Complete_push (Some ch)"
      "s' = goto_point i At_pop ((PushTask (TMerge ch) s)\<lparr>km_taskHolder := None\<rparr>)"
  | "km_workers s ! i = Merge_check" "FindChunksToMerge s = No_merge" "s' = goto_point i At_pop s"
  | ch rest where "km_workers s ! i = Merge_check" "FindChunksToMerge s = Merge_found ch rest"
      "s' = goto_point i (Merge_push ch) (s\<lparr>km_chunks := rest\<rparr>)"
  | ch where "km_workers s ! i = Merge_push ch" "km_taskHolder s = None" "s' = goto_point i At_pop (PushTask (TMerge ch) s)"
  | ch where "km_workers s ! i = Merge_id ch"
      "s' = goto_point i (Merge_call ch (km_idGen s + 1)) (s\<lparr>km_idGen := km_idGen s + 1\<rparr>)"
  | ch f where "km_workers s ! i = Merge_call ch f" "s' = goto_point i (Throw_set ''merge'') s"
  | ch f cs c where "km_workers s ! i = Merge_call ch f" "those (map (\<lambda>c. km_disk s (kc_file c)) ch) = Some cs"
      "cfg_merge C cs = Some c" "s' = goto_point i (Merge_add (chunk_layer ch) f)
        (s\<lparr>km_disk := (km_disk s |` (- set (map kc_file ch)))(f \<mapsto> c)\<rparr>)"
  | l f m where "km_workers s ! i = Merge_add l f" "s' = goto_point i Merge_check
        (s\<lparr>km_chunks := km_chunks s @ [\<lparr>kc_layer = l + 1, kc_file = f\<rparr>], km_maxLayer := m\<rparr>)"
  | t where "km_workers s ! i = Throw_set t" "s' = goto_point i Throw_clear (s\<lparr>km_exception := Some t\<rparr>)"
  | "km_workers s ! i = Throw_clear" "km_taskHolder s = None"
      "s' = goto_point i At_end (s\<lparr>km_completed := True, km_tasks := []\<rparr>)"
proof (cases "km_workers s ! i")
  case At_pop
  note st = assms [unfolded worker_step_def At_pop kpoint.case PopTask_def]
  have h: "km_taskHolder s = None" using st by (auto split: if_splits)
  show thesis
  proof (cases "km_tasks s = [] \<or> km_exception s \<noteq> None")
    case True
    then have "s' = goto_point i At_end s" "km_tasks s = [] \<and> km_completed s \<or> km_exception s \<noteq> None"
      using st by (auto split: if_splits)
    then show thesis by (intro that(1) [OF At_pop h])
  next
    case False
    then obtain ts t where t: "km_tasks s = ts @ [t]" by (metis append_butlast_last_id)
    then have s': "s' = goto_point i (task_start t) (s\<lparr>km_tasks := ts\<rparr>)" using st False by (simp split: if_splits)
    have e: "km_exception s = None" using False by simp
    show thesis
    proof (cases t)
      case TCreate
      then show thesis using s' t by (intro that(2) [OF At_pop h e]) (simp_all add: task_start_def)
    next
      case (TMerge ch)
      then show thesis using s' t by (intro that(3) [OF At_pop h e]) (simp_all add: task_start_def)
    qed
  qed
next
  case (Create_call f)
  note st = assms [unfolded worker_step_def Create_call kpoint.case create_call_def option.inject]
  show thesis
  proof (cases throws)
    case True
    then show thesis using st by (intro that(5) [OF Create_call]) simp_all
  next
    case False
    show thesis
    proof (cases "cfg_create C (km_cfg s)")
      case None
      then show thesis using st False by (intro that(6) [OF Create_call]) simp_all
    next
      case (Some cg)
      then obtain c g where cg: "cfg_create C (km_cfg s) = Some (c, g)" by (cases cg) simp
      then have "s' = goto_point i (Create_add f) (s\<lparr>km_cfg := g, km_disk := (km_disk s)(f \<mapsto> c)\<rparr>)"
        using st [symmetric] False by simp
      with False cg show thesis by (intro that(7) [OF Create_call])
    qed
  qed
next
  case Complete_find
  note st = assms [unfolded worker_step_def Complete_find kpoint.case merge_required_def]
  show thesis
  proof (cases "FindChunksToMerge s")
    case No_merge
    then show thesis using st by (intro that(11) [OF Complete_find]) simp_all
  next
    case (Merge_found ch rest)
    have "s' = goto_point i (Complete_push (Some ch)) (s\<lparr>km_chunks := rest\<rparr>)"
      using st [symmetric] unfolding Merge_found find_result.case option.inject .
    with Merge_found show thesis by (intro that(12) [OF Complete_find])
  qed (use st in simp)
next
  case (Complete_push m)
  note st = assms [unfolded worker_step_def Complete_push kpoint.case option.inject]
  show thesis
  proof (cases m)
    case None
    then show thesis using st Complete_push by (intro that(13)) simp_all
  next
    case (Some ch)
    have "s' = goto_point i At_pop ((PushTask (TMerge ch) s)\<lparr>km_taskHolder := None\<rparr>)"
      using st [symmetric] unfolding Some option.case .
    with Complete_push Some show thesis by (intro that(14)) simp
  qed
next
  case Merge_check
  note st = assms [unfolded worker_step_def Merge_check kpoint.case merge_required_def]
  show thesis
  proof (cases "FindChunksToMerge s")
    case No_merge
    then show thesis using st by (intro that(15) [OF Merge_check]) simp_all
  next
    case (Merge_found ch rest)
    have "s' = goto_point i (Merge_push ch) (s\<lparr>km_chunks := rest\<rparr>)"
      using st [symmetric] unfolding Merge_found find_result.case option.inject .
    with Merge_found show thesis by (intro that(16) [OF Merge_check])
  qed (use st in simp)
next
  case (Merge_call ch f)
  note st = assms [unfolded worker_step_def Merge_call kpoint.case merge_call_def option.inject]
  show thesis
  proof (cases "if throws then None else Option.bind (those (map (\<lambda>c. km_disk s (kc_file c)) ch)) (cfg_merge C)")
    case None
    then show thesis using st by (intro that(19) [OF Merge_call]) simp_all
  next
    case (Some c)
    then obtain cs where cs: "those (map (\<lambda>c. km_disk s (kc_file c)) ch) = Some cs" "cfg_merge C cs = Some c"
      by (auto simp: bind_eq_Some_conv split: if_splits)
    have "s' = goto_point i (Merge_add (chunk_layer ch) f)
        (s\<lparr>km_disk := (km_disk s |` (- set (map kc_file ch)))(f \<mapsto> c)\<rparr>)"
      using st [symmetric] unfolding Some option.case .
    with cs show thesis by (intro that(20) [OF Merge_call])
  qed
next
  case (Merge_add l f)
  note st = assms [unfolded worker_step_def Merge_add kpoint.case option.inject]
  from Merge_add st [symmetric] show thesis by (rule that(21))
next
  case Create_id
  note st = assms [unfolded worker_step_def Create_id kpoint.case GetNewIdSync_def prod.case option.inject]
  from Create_id st [symmetric] show thesis by (rule that(4))
next
  case (Create_add f)
  note st = assms [unfolded worker_step_def Create_add kpoint.case option.inject]
  from Create_add st [symmetric] show thesis by (rule that(8))
next
  case Create_next
  note st = assms [unfolded worker_step_def Create_next kpoint.case option.inject]
  then have "km_taskHolder s = None" "s' = goto_point i Merge_check (PushTask TCreate s)"
    by (simp_all split: if_splits)
  with Create_next show thesis by (intro that(9))
next
  case Complete_set
  note st = assms [unfolded worker_step_def Complete_set kpoint.case option.inject]
  then have "km_taskHolder s = None"
      "s' = goto_point i Complete_find (s\<lparr>km_taskHolder := Some i, km_completed := True\<rparr>)"
    by (simp_all split: if_splits)
  with Complete_set show thesis by (intro that(10))
next
  case (Merge_push ch)
  note st = assms [unfolded worker_step_def Merge_push kpoint.case option.inject]
  then have "km_taskHolder s = None" "s' = goto_point i At_pop (PushTask (TMerge ch) s)"
    by (simp_all split: if_splits)
  with Merge_push show thesis by (intro that(17))
next
  case (Merge_id ch)
  note st = assms [unfolded worker_step_def Merge_id kpoint.case GetNewIdSync_def prod.case option.inject]
  from Merge_id st [symmetric] show thesis by (rule that(18))
next
  case (Throw_set t)
  note st = assms [unfolded worker_step_def Throw_set kpoint.case option.inject]
  from Throw_set st [symmetric] show thesis by (rule that(22))
next
  case Throw_clear
  note st = assms [unfolded worker_step_def Throw_clear kpoint.case option.inject]
  then have "km_taskHolder s = None" "s' = goto_point i At_end (s\<lparr>km_completed := True, km_tasks := []\<rparr>)"
    by (simp_all split: if_splits)
  with Throw_clear show thesis by (intro that(23))
next
  case At_end
  with assms show thesis by (simp add: worker_step_def)
qed

section \<open>Who creates and who has thrown\<close>

fun creating :: "kpoint \<Rightarrow> nat" where
  "creating Create_id = 1" | "creating (Create_call f) = 1" | "creating (Create_add f) = 1"
| "creating Create_next = 1" | "creating Complete_set = 1" | "creating _ = 0"

fun create_task :: "ktask \<Rightarrow> nat" where
  "create_task TCreate = 1" | "create_task _ = 0"

fun throw_set :: "kpoint \<Rightarrow> nat" where
  "throw_set (Throw_set t) = 1" | "throw_set _ = 0"

fun throwing :: "kpoint \<Rightarrow> nat" where
  "throwing (Throw_set t) = 1" | "throwing Throw_clear = 1" | "throwing _ = 0"

definition creates :: "('g, 'c) kmerger \<Rightarrow> nat" where
  "creates s = cnt creating s + tsum create_task (km_tasks s)"

definition failed :: "('g, 'c) kmerger \<Rightarrow> bool" where
  "failed s \<longleftrightarrow> km_exception s \<noteq> None \<or> 0 < cnt throw_set s"

definition inv_create :: "('g, 'c) kmerger \<Rightarrow> bool" where
  "inv_create s \<longleftrightarrow> creates s \<le> 1 \<and> (km_completed s \<and> \<not> failed s \<longrightarrow> creates s = 0) \<and>
     (\<not> km_completed s \<longrightarrow> 1 \<le> creates s + cnt throwing s) \<and>
     (0 < cnt throwing s \<longrightarrow> failed s)"

lemmas cnt_simps = cnt_goto cnt_split

lemma inv_create_step:
  assumes st: "worker_step C i throws s = Some s'" and i: "i < length (km_workers s)" and inv: "inv_create s"
  shows "inv_create s'"
proof -
  note defs = inv_create_def creates_def failed_def
  from st show ?thesis
    using inv i by (cases rule: worker_step_cases) (auto simp: defs cnt_goto cnt_split [OF i])
qed

section \<open>Choosing chunks\<close>

lemma take_layer_Some: "take_layer n i cs = Some (ch, rest) \<Longrightarrow> mset cs = mset ch + mset rest \<and> length ch = n"
proof (induction n i cs arbitrary: ch rest rule: take_layer.induct)
  case (3 n i c cs)
  show ?case
  proof (cases "kc_layer c = i")
    case True
    with "3.prems" obtain ch' where "take_layer n i cs = Some (ch', rest)" "ch = c # ch'" by auto
    with "3.IH"(1) [OF True] show ?thesis by simp
  next
    case False
    with "3.prems" obtain rest' where "take_layer (Suc n) i cs = Some (ch, rest')" "rest = c # rest'" by auto
    with "3.IH"(2) [OF False] show ?thesis by simp
  qed
qed auto

lemma take_layer_enough: "n \<le> length (filter (\<lambda>c. kc_layer c = i) cs) \<Longrightarrow> take_layer n i cs \<noteq> None"
  by (induction n i cs rule: take_layer.induct) auto

lemma find_Some_prop: "find P xs = Some x \<Longrightarrow> P x"
  by (induction xs) (auto split: if_splits)

lemma find_not_past_end: "FindChunksToMerge s \<noteq> Past_end"
proof
  assume "FindChunksToMerge s = Past_end"
  then obtain i where i: "find (\<lambda>i. km_units s \<le> length (filter (\<lambda>c. kc_layer c = i) (km_chunks s)))
      [0..<km_maxLayer s + 1] = Some i" and "take_layer (km_units s) i (km_chunks s) = None"
    by (auto simp: FindChunksToMerge_def Let_def split: option.splits if_splits)
  then show False using take_layer_enough [OF find_Some_prop [OF i]] by simp
qed

lemma find_no_merge: "FindChunksToMerge s = No_merge \<Longrightarrow> km_completed s \<Longrightarrow> length (km_chunks s) \<le> 1"
  by (auto simp: FindChunksToMerge_def Let_def split: if_splits)

lemma find_found:
  assumes "FindChunksToMerge s = Merge_found ch rest" "2 \<le> km_units s"
  shows "mset (km_chunks s) = mset ch + mset rest" "2 \<le> length ch"
    "length (km_chunks s) = length ch + length rest"
proof -
  have "mset (km_chunks s) = mset ch + mset rest \<and> 2 \<le> length ch"
  proof (cases "km_completed s")
    case True
    let ?k = "length (km_chunks s) - km_units s"
    have "mset (take ?k (km_chunks s)) + mset (drop ?k (km_chunks s)) = mset (km_chunks s)"
      by (metis append_take_drop_id mset_append)
    then show ?thesis
      using assms True by (auto simp: FindChunksToMerge_def Let_def union_commute split: if_splits)
  next
    case False
    then obtain i where "take_layer (km_units s) i (km_chunks s) = Some (ch, rest)"
      using assms by (auto simp: FindChunksToMerge_def Let_def split: option.splits)
    then show ?thesis using take_layer_Some assms(2) by metis
  qed
  then show "mset (km_chunks s) = mset ch + mset rest" "2 \<le> length ch" by simp_all
  then show "length (km_chunks s) = length ch + length rest" by (metis size_mset size_union)
qed

section \<open>Locks, pending merges and ends\<close>

fun holding :: "kpoint \<Rightarrow> nat" where
  "holding Complete_find = 1" | "holding (Complete_push m) = 1" | "holding _ = 0"

definition inv_lock :: "('g, 'c) kmerger \<Rightarrow> bool" where
  "inv_lock s \<longleftrightarrow> (case km_taskHolder s of
      None \<Rightarrow> cnt holding s = 0
    | Some j \<Rightarrow> j < length (km_workers s) \<and> holding (km_workers s ! j) = 1 \<and> cnt holding s = 1 \<and> km_completed s)"

text \<open>Work that still leads to a search for chunks to merge.\<close>

fun merging :: "kpoint \<Rightarrow> nat" where
  "merging (Create_add f) = 1" | "merging Create_next = 1" | "merging Complete_find = 1"
| "merging (Complete_push (Some ch)) = 1" | "merging Merge_check = 1" | "merging (Merge_push ch) = 1"
| "merging (Merge_id ch) = 1" | "merging (Merge_call ch f) = 1" | "merging (Merge_add l f) = 1"
| "merging _ = 0"

fun merge_task :: "ktask \<Rightarrow> nat" where
  "merge_task (TMerge ch) = 1" | "merge_task TCreate = 0"

definition inv_pending :: "('g, 'c) kmerger \<Rightarrow> bool" where
  "inv_pending s \<longleftrightarrow> (km_completed s \<and> \<not> failed s \<and> 1 < length (km_chunks s) \<longrightarrow>
     0 < cnt merging s + tsum merge_task (km_tasks s))"

fun alive :: "kpoint \<Rightarrow> nat" where
  "alive At_end = 0" | "alive _ = 1"

definition inv_end :: "('g, 'c) kmerger \<Rightarrow> bool" where
  "inv_end s \<longleftrightarrow> (cnt alive s = 0 \<longrightarrow> failed s \<or> km_tasks s = [])"

lemma failed_step:
  assumes st: "worker_step C i throws s = Some s'" and i: "i < length (km_workers s)"
  shows "failed s \<Longrightarrow> failed s'"
  using st i by (cases rule: worker_step_cases) (auto simp: failed_def cnt_goto cnt_split [OF i])

lemma cnt_zero_iff: "cnt f s = (0 :: nat) \<longleftrightarrow> (\<forall>p \<in> set (km_workers s). f p = 0)"
  by (auto simp: cnt_def)

lemma goto_nth: "j < length (km_workers s) \<Longrightarrow> km_workers (goto_point i p s) ! j = (if i = j then p else km_workers s ! j)"
  by (simp add: goto_point_def)

lemma inv_lock_step:
  assumes st: "worker_step C i throws s = Some s'" and i: "i < length (km_workers s)" and inv: "inv_lock s"
  shows "inv_lock s'"
proof -
  from st show ?thesis
    using inv i by (cases rule: worker_step_cases)
      (auto simp: inv_lock_def cnt_goto cnt_split [OF i] goto_nth split: option.splits)
qed

lemma step_keeps:
  assumes st: "worker_step C i throws s = Some s'"
  shows "km_units s' = km_units s" "length (km_workers s') = length (km_workers s)"
  using st by (cases rule: worker_step_cases; simp)+

lemma inv_pending_step:
  assumes st: "worker_step C i throws s = Some s'" and i: "i < length (km_workers s)"
    and inv: "inv_pending s" "inv_create s"
  shows "inv_pending s'"
proof (cases "failed s \<or> failed s'")
  case True
  then have "failed s'" using failed_step [OF st i] by blast
  then show ?thesis by (simp add: inv_pending_def)
next
  case False
  from st show ?thesis
  proof (cases rule: worker_step_cases)
    case throw_clear
    with inv(2) False i show ?thesis by (simp add: inv_create_def cnt_split [OF i])
  next
    case complete_none
    with find_no_merge [of s] show ?thesis by (auto simp: inv_pending_def)
  next
    case check_none
    with find_no_merge [of s] show ?thesis by (auto simp: inv_pending_def)
  qed (use inv(1) i False in \<open>auto simp: inv_pending_def cnt_goto cnt_split [OF i] failed_def\<close>)
qed

lemma inv_end_step:
  assumes st: "worker_step C i throws s = Some s'" and i: "i < length (km_workers s)"
    and inv: "inv_create s" "inv_end s"
  shows "inv_end s'"
proof (cases "failed s'")
  case True
  then show ?thesis by (simp add: inv_end_def)
next
  case False
  from st show ?thesis
  proof (cases rule: worker_step_cases)
    case pop_end
    then have "km_tasks s = []" using False by (auto simp: failed_def)
    with pop_end show ?thesis by (simp add: inv_end_def)
  qed (use i in \<open>auto simp: inv_end_def cnt_goto\<close>)
qed

section \<open>Termination\<close>

fun point_weight :: "kpoint \<Rightarrow> nat" where
  "point_weight At_pop = 1"
| "point_weight Create_id = 6" | "point_weight (Create_call f) = 5" | "point_weight (Create_add f) = 20"
| "point_weight Create_next = 9"
| "point_weight Complete_set = 4" | "point_weight Complete_find = 3" | "point_weight (Complete_push None) = 2"
| "point_weight (Complete_push (Some ch)) = 17"
| "point_weight Merge_check = 2" | "point_weight (Merge_push ch) = 17"
| "point_weight (Merge_id ch) = 15" | "point_weight (Merge_call ch f) = 14" | "point_weight (Merge_add l f) = 13"
| "point_weight (Throw_set t) = 3" | "point_weight Throw_clear = 2" | "point_weight At_end = 0"

fun task_weight :: "ktask \<Rightarrow> nat" where
  "task_weight TCreate = 6" | "task_weight (TMerge ch) = 15"

text \<open>What is left to do, when the configuration still has at most \<open>todo\<close> chunks to create.\<close>

definition km_measure :: "('g \<Rightarrow> nat) \<Rightarrow> ('g, 'c) kmerger \<Rightarrow> nat" where
  "km_measure todo s = 16 * todo (km_cfg s) + 10 * length (km_chunks s) +
     tsum task_weight (km_tasks s) + cnt point_weight s"

lemma km_measure_step:
  assumes st: "worker_step C i throws s = Some s'" and i: "i < length (km_workers s)"
    and u: "2 \<le> km_units s"
    and todo: "\<And>c g. cfg_create C (km_cfg s) = Some (c, g) \<Longrightarrow> todo g < todo (km_cfg s)"
  shows "km_measure todo s' < km_measure todo s"
  using st
proof (cases rule: worker_step_cases)
  case (create_some f c g)
  with todo [of c g] i show ?thesis by (simp add: km_measure_def cnt_goto cnt_split [OF i])
next
  case (complete_found ch rest)
  with find_found [OF complete_found(2) u] i show ?thesis by (simp add: km_measure_def cnt_goto cnt_split [OF i])
next
  case (check_found ch rest)
  with find_found [OF check_found(2) u] i show ?thesis by (simp add: km_measure_def cnt_goto cnt_split [OF i])
qed (use i in \<open>auto simp: km_measure_def cnt_goto cnt_split [OF i]\<close>)

section \<open>Progress\<close>

lemma worker_progress:
  assumes i: "i < length (km_workers s)" and p: "km_workers s ! i \<noteq> At_end"
    and lock: "km_taskHolder s = None \<or> holding (km_workers s ! i) = 1"
    and pop: "km_workers s ! i = At_pop \<longrightarrow> km_tasks s \<noteq> [] \<or> km_completed s"
  shows "\<exists>s'. worker_step C i False s = Some s'"
  using assms find_not_past_end [of s]
  by (cases "km_workers s ! i")
    (auto simp: worker_step_def PopTask_def merge_required_def GetNewIdSync_def split: find_result.splits)

lemma km_progress:
  assumes inv: "inv_create s" "inv_lock s" and open_: "\<not> joined s"
  shows "\<exists>s'. km_step C s s'"
proof (cases "km_taskHolder s")
  case (Some j)
  then have j: "j < length (km_workers s)" "holding (km_workers s ! j) = 1"
    using inv(2) by (auto simp: inv_lock_def)
  then have "km_workers s ! j \<noteq> At_end" "km_workers s ! j \<noteq> At_pop" by auto
  then show ?thesis using worker_progress [of j s C] j by (auto simp: km_step_iff)
next
  case None
  obtain i where i: "i < length (km_workers s)" "km_workers s ! i \<noteq> At_end"
    using open_ by (auto simp: joined_def in_set_conv_nth)
  show ?thesis
  proof (cases "\<exists>k < length (km_workers s). km_workers s ! k \<noteq> At_end \<and> km_workers s ! k \<noteq> At_pop")
    case True
    then obtain k where "k < length (km_workers s)" "km_workers s ! k \<noteq> At_end" "km_workers s ! k \<noteq> At_pop" by blast
    then show ?thesis using worker_progress [of k s C] None by (auto simp: km_step_iff)
  next
    case False
    then have idle: "\<forall>p \<in> set (km_workers s). p = At_end \<or> p = At_pop" by (auto simp: in_set_conv_nth)
    have "km_tasks s \<noteq> [] \<or> km_completed s"
    proof (rule ccontr)
      assume n: "\<not> (km_tasks s \<noteq> [] \<or> km_completed s)"
      have "cnt creating s = 0" "cnt throwing s = 0" using idle by (auto simp: cnt_zero_iff)
      with n inv(1) show False by (simp add: inv_create_def creates_def)
    qed
    then obtain s' where "worker_step C i False s = Some s'" using worker_progress [OF i] None by blast
    with i(1) show ?thesis by (blast intro: km_step.step)
  qed
qed

section \<open>Files\<close>

definition files :: "kchunk list \<Rightarrow> nat multiset" where
  "files ch = mset (map kc_file ch)"

lemma files_simps [simp]: "files [] = {#}" "files (a @ b) = files a + files b" "files [c] = {#kc_file c#}"
  by (simp_all add: files_def)

text \<open>The files a point of a worker or a task stands for, and the file it is about to write.\<close>

fun owned :: "kpoint \<Rightarrow> nat multiset" where
  "owned (Create_add f) = {#f#}" | "owned (Complete_push (Some ch)) = files ch"
| "owned (Merge_push ch) = files ch" | "owned (Merge_id ch) = files ch" | "owned (Merge_call ch f) = files ch"
| "owned (Merge_add l f) = {#f#}" | "owned _ = {#}"

fun target :: "kpoint \<Rightarrow> nat multiset" where
  "target (Create_call f) = {#f#}" | "target (Merge_call ch f) = {#f#}" | "target _ = {#}"

fun task_files :: "ktask \<Rightarrow> nat multiset" where
  "task_files (TMerge ch) = files ch" | "task_files TCreate = {#}"

definition held :: "('g, 'c) kmerger \<Rightarrow> nat multiset" where
  "held s = files (km_chunks s) + tsum task_files (km_tasks s) + cnt owned s"

definition live :: "('g, 'c) kmerger \<Rightarrow> nat multiset" where
  "live s = held s + cnt target s"

definition inv_live :: "('g, 'c) kmerger \<Rightarrow> bool" where
  "inv_live s \<longleftrightarrow> (\<forall>f. count (live s) f \<le> (if 1 \<le> f \<and> f \<le> km_idGen s then 1 else 0))"

lemma files_found: "FindChunksToMerge s = Merge_found ch rest \<Longrightarrow> 2 \<le> km_units s \<Longrightarrow>
    files (km_chunks s) = files ch + files rest"
  using find_found(1) [of s ch rest] by (simp add: files_def)

lemma live_step:
  assumes st: "worker_step C i throws s = Some s'" and i: "i < length (km_workers s)" and u: "2 \<le> km_units s"
  shows "count (live s') f \<le> count (live s) f + (if km_idGen s < f \<and> f \<le> km_idGen s' then 1 else 0) \<and>
    km_idGen s \<le> km_idGen s'"
  using st
proof (cases rule: worker_step_cases)
  case (complete_found ch rest)
  with files_found [OF complete_found(2) u] i show ?thesis by (simp add: live_def held_def cnt_goto cnt_split [OF i])
next
  case (check_found ch rest)
  with files_found [OF check_found(2) u] i show ?thesis by (simp add: live_def held_def cnt_goto cnt_split [OF i])
qed (use i in \<open>auto simp: live_def held_def cnt_goto cnt_split [OF i]\<close>)

lemma inv_live_step:
  assumes st: "worker_step C i throws s = Some s'" and i: "i < length (km_workers s)" and u: "2 \<le> km_units s"
    and inv: "inv_live s"
  shows "inv_live s'"
  unfolding inv_live_def
proof
  fix f
  show "count (live s') f \<le> (if 1 \<le> f \<and> f \<le> km_idGen s' then 1 else 0)"
    using live_step [OF st i u, of f] inv [unfolded inv_live_def, rule_format, of f] by (auto split: if_splits)
qed

text \<open>Only the calls of the configuration touch files; no other step loses a file, unless the run has failed.\<close>

lemma held_step:
  assumes st: "worker_step C i throws s = Some s'" and i: "i < length (km_workers s)" and u: "2 \<le> km_units s"
  obtains (same) "km_disk s' = km_disk s" "km_cfg s' = km_cfg s" "held s' \<subseteq># held s" "\<not> failed s' \<Longrightarrow> inv_create s \<Longrightarrow> held s' = held s"
  | (create) f c g where "km_workers s ! i = Create_call f" "cfg_create C (km_cfg s) = Some (c, g)" "km_cfg s' = g"
      "km_disk s' = (km_disk s)(f \<mapsto> c)" "held s' = held s + {#f#}" "count (held s) f < count (live s) f"
  | (merge) ch f cs c H where "those (map (\<lambda>c. km_disk s (kc_file c)) ch) = Some cs" "cfg_merge C cs = Some c"
      "km_cfg s' = km_cfg s" "km_disk s' = (km_disk s |` (- set (map kc_file ch)))(f \<mapsto> c)"
      "held s = files ch + H" "held s' = H + {#f#}" "count (held s) f < count (live s) f"
  using st
proof (cases rule: worker_step_cases)
  case (create_some f c g)
  with i show thesis by (intro create [of f c g]) (simp_all add: live_def held_def cnt_goto cnt_split [OF i] ac_simps)
next
  case (merge_done ch f cs c)
  with i show thesis
    by (intro merge [of ch cs c f "files (km_chunks s) + tsum task_files (km_tasks s) + others i owned (km_workers s)"])
      (simp_all add: live_def held_def cnt_goto cnt_split [OF i] ac_simps)
next
  case (complete_found ch rest)
  with files_found [OF complete_found(2) u] i show thesis
    by (intro same) (simp_all add: held_def cnt_goto cnt_split [OF i] ac_simps)
next
  case (check_found ch rest)
  with files_found [OF check_found(2) u] i show thesis
    by (intro same) (simp_all add: held_def cnt_goto cnt_split [OF i] ac_simps)
qed (intro same; use i in \<open>auto simp: held_def cnt_goto cnt_split [OF i] ac_simps failed_def inv_create_def\<close>)+

section \<open>The contract of a configuration\<close>

locale kmerger_config =
  fixes C :: "('g, 'c) kconfig" and cinv :: "'g \<Rightarrow> bool" and valid :: "'c \<Rightarrow> bool"
    and items :: "'c \<Rightarrow> 'i multiset" and left_over :: "'g \<Rightarrow> 'i multiset" and todo :: "'g \<Rightarrow> nat"
  assumes create_none: "cinv g \<Longrightarrow> cfg_create C g = None \<Longrightarrow> left_over g = {#}"
    and create_some: "cinv g \<Longrightarrow> cfg_create C g = Some (c, g') \<Longrightarrow>
      valid c \<and> cinv g' \<and> left_over g = items c + left_over g' \<and> todo g' < todo g"
    and merge_ok: "\<forall>c \<in> set cs. valid c \<Longrightarrow>
      \<exists>c. cfg_merge C cs = Some c \<and> valid c \<and> items c = (\<Sum>c\<leftarrow>cs. items c)"
    and default_ok: "valid (cfg_default C) \<and> items (cfg_default C) = {#}"

fun completing :: "kpoint \<Rightarrow> nat" where
  "completing Complete_set = 1" | "completing _ = 0"

definition disk_item :: "('c \<Rightarrow> 'i multiset) \<Rightarrow> (nat \<rightharpoonup> 'c) \<Rightarrow> nat \<Rightarrow> 'i multiset" where
  "disk_item items disk f = (case disk f of None \<Rightarrow> {#} | Some c \<Rightarrow> items c)"

definition stored :: "('c \<Rightarrow> 'i multiset) \<Rightarrow> ('g, 'c) kmerger \<Rightarrow> 'i multiset" where
  "stored items s = (\<Sum>f\<in>#held s. disk_item items (km_disk s) f)"

definition on_disk :: "('c \<Rightarrow> bool) \<Rightarrow> ('g, 'c) kmerger \<Rightarrow> bool" where
  "on_disk valid s \<longleftrightarrow> (\<forall>f \<in># held s. \<exists>c. km_disk s f = Some c \<and> valid c)"

lemma sum_mset_disk_cong:
  "(\<And>f. f \<in># H \<Longrightarrow> disk' f = disk f) \<Longrightarrow> (\<Sum>f\<in>#H. disk_item items disk' f) = (\<Sum>f\<in>#H. disk_item items disk f)"
  by (intro arg_cong [where f = sum_mset] image_mset_cong) (simp add: disk_item_def)

lemma those_items: "those (map (\<lambda>c. disk (kc_file c)) ch) = Some cs \<Longrightarrow>
    (\<Sum>f\<in>#files ch. disk_item items disk f) = (\<Sum>c\<leftarrow>cs. items c) \<and>
    (\<forall>c \<in> set cs. \<exists>f \<in># files ch. disk f = Some c)"
  by (induction ch arbitrary: cs) (fastforce simp: files_def disk_item_def split: option.splits)+

lemma completing_le_creating: "cnt completing s \<le> cnt creating s"
proof -
  have "completing p \<le> creating p" for p by (cases p) auto
  then show ?thesis unfolding cnt_def by (intro sum_list_mono)
qed

lemma start_simps:
  assumes "new_KMerger units w g = Inr s"
  shows "2 \<le> km_units (PushAndJoin_start s)" "km_chunks (PushAndJoin_start s) = []"
    "km_tasks (PushAndJoin_start s) = [TCreate]" "km_taskHolder (PushAndJoin_start s) = None"
    "\<not> km_completed (PushAndJoin_start s)" "km_exception (PushAndJoin_start s) = None"
    "km_cfg (PushAndJoin_start s) = g" "km_workers (PushAndJoin_start s) = replicate w At_pop" "0 < w"
  using assms by (auto simp: new_KMerger_def PushAndJoin_start_def Init_def PushTask_def split: if_splits)

lemma sum_list_replicate_0 [simp]: "sum_list (replicate n 0) = (0 :: 'b::comm_monoid_add)"
  by (induction n) auto

lemma cnt_start: "new_KMerger units w g = Inr s \<Longrightarrow> cnt f (PushAndJoin_start s) = sum_list (replicate w (f At_pop))"
  by (simp add: cnt_def start_simps)

lemma cnt_joined: "joined s \<Longrightarrow> cnt f s = sum_list (replicate (length (km_workers s)) (f At_end))"
proof -
  assume "joined s"
  then have "map f (km_workers s) = replicate (length (km_workers s)) (f At_end)"
    by (auto simp: joined_def map_replicate_const [symmetric])
  then show ?thesis by (simp add: cnt_def)
qed

context kmerger_config
begin

definition inv_data :: "'i multiset \<Rightarrow> ('g, 'c) kmerger \<Rightarrow> bool" where
  "inv_data tot s \<longleftrightarrow> cinv (km_cfg s) \<and> on_disk valid s \<and>
     (\<not> failed s \<longrightarrow> stored items s + left_over (km_cfg s) = tot) \<and>
     (\<not> failed s \<and> (km_completed s \<or> 0 < cnt completing s) \<longrightarrow> left_over (km_cfg s) = {#})"

definition inv :: "'i multiset \<Rightarrow> ('g, 'c) kmerger \<Rightarrow> bool" where
  "inv tot s \<longleftrightarrow> 2 \<le> km_units s \<and> inv_create s \<and> inv_lock s \<and> inv_pending s \<and> inv_end s \<and> inv_live s \<and>
     inv_data tot s"

lemma stored_step:
  assumes st: "worker_step C i throws s = Some s'" and i: "i < length (km_workers s)" and inv: "inv tot s"
  shows "cinv (km_cfg s') \<and> on_disk valid s' \<and> (\<not> failed s' \<longrightarrow> stored items s' + left_over (km_cfg s') = tot)"
proof -
  have u: "2 \<le> km_units s" and cr: "inv_create s" and dat: "cinv (km_cfg s)" "on_disk valid s"
    and nf: "\<not> failed s' \<Longrightarrow> stored items s + left_over (km_cfg s) = tot"
    using inv failed_step [OF st i] by (auto simp: inv_def inv_data_def)
  have le1: "count (live s) f \<le> 1" for f
  proof -
    have "inv_live s" using inv by (simp add: inv_def)
    then have "count (live s) f \<le> (if 1 \<le> f \<and> f \<le> km_idGen s then 1 else 0)" by (simp add: inv_live_def)
    then show ?thesis by (simp split: if_splits)
  qed
  have held_le: "count (held s) f \<le> 1" for f
    using le1 [of f] by (simp add: live_def)
  show ?thesis
    using st i u
  proof (cases rule: held_step)
    case same
    have "on_disk valid s'" using dat(2) same(1,3) by (auto simp: on_disk_def dest: mset_subset_eqD)
    moreover have "stored items s' = stored items s" if "\<not> failed s'"
      using same(4) [OF that cr] by (simp add: stored_def same(1))
    ultimately show ?thesis using dat(1) nf by (simp add: same(2))
  next
    case (create f c g)
    have n: "f \<notin># held s" using create(6) le1 [of f] by (simp add: count_eq_zero_iff [symmetric])
    note ok = create_some [OF dat(1) create(2)]
    have "on_disk valid s'"
      using dat(2) ok n by (auto simp: on_disk_def create(4,5))
    moreover have "stored items s' = stored items s + items c"
    proof -
      have "(\<Sum>x\<in>#held s. disk_item items ((km_disk s)(f \<mapsto> c)) x) = (\<Sum>x\<in>#held s. disk_item items (km_disk s) x)"
        using n by (intro sum_mset_disk_cong) auto
      then show ?thesis by (simp add: stored_def create(4,5) disk_item_def)
    qed
    ultimately show ?thesis using ok nf by (auto simp: create(3) ac_simps)
  next
    case (merge ch f cs c H)
    let ?disk = "(km_disk s |` (- set (map kc_file ch)))(f \<mapsto> c)"
    have n: "f \<notin># held s" using merge(7) le1 [of f] by (simp add: count_eq_zero_iff [symmetric])
    have sep: "x \<notin> set (map kc_file ch)" if "x \<in># H" for x
    proof
      assume "x \<in> set (map kc_file ch)"
      then have "0 < count (files ch) x" by (simp add: files_def)
      moreover have "0 < count H x" using that by simp
      moreover have "count (files ch) x + count H x \<le> 1" using held_le [of x] by (simp add: merge(5))
      ultimately show False by linarith
    qed
    have agree: "?disk x = km_disk s x" if "x \<in># H" for x
      using that sep [OF that] n by (auto simp: merge(5))
    note th = those_items [OF merge(1), of items]
    have "\<forall>c \<in> set cs. valid c"
    proof
      fix c
      assume "c \<in> set cs"
      then obtain x where "x \<in># files ch" "km_disk s x = Some c" using th by auto
      then show "valid c" using dat(2) [unfolded on_disk_def, rule_format, of x] by (simp add: merge(5))
    qed
    from merge_ok [OF this] merge(2) have ok: "valid c" "items c = (\<Sum>c\<leftarrow>cs. items c)" by auto
    have "on_disk valid s'"
      using dat(2) ok agree by (auto simp: on_disk_def merge(4,5,6))
    moreover have "stored items s' = stored items s"
    proof -
      have "(\<Sum>x\<in>#H. disk_item items ?disk x) = (\<Sum>x\<in>#H. disk_item items (km_disk s) x)"
        by (intro sum_mset_disk_cong agree)
      then show ?thesis using th ok(2) by (simp add: stored_def merge(4,5,6) disk_item_def)
    qed
    ultimately show ?thesis using dat(1) nf by (simp add: merge(3))
  qed
qed

lemma left_step:
  assumes st: "worker_step C i throws s = Some s'" and i: "i < length (km_workers s)" and inv: "inv tot s"
    and f: "\<not> failed s'" and done_: "km_completed s' \<or> 0 < cnt completing s'"
  shows "left_over (km_cfg s') = {#}"
proof -
  have cr: "inv_create s" and g: "cinv (km_cfg s)" and nf: "\<not> failed s"
    and lo: "km_completed s \<or> 0 < cnt completing s \<Longrightarrow> left_over (km_cfg s) = {#}"
    using inv failed_step [OF st i] f by (auto simp: inv_def inv_data_def)
  from st show ?thesis
  proof (cases rule: worker_step_cases)
    case (create_none f)
    with kmerger_config.create_none [OF kmerger_config_axioms g] show ?thesis by simp
  next
    case (create_some f c g')
    have "creates s \<noteq> 0" using create_some(1) i by (simp add: creates_def cnt_split [OF i])
    then have "\<not> km_completed s" "cnt creating s \<le> 1" using cr nf by (auto simp: inv_create_def creates_def)
    then have "others i creating (km_workers s) = 0" using create_some(1) by (simp add: cnt_split [OF i])
    then have "cnt creating s' = 1" using create_some i by (simp add: cnt_goto)
    have "others i completing (km_workers s) \<le> others i creating (km_workers s)"
      using completing_le_creating [of "goto_point i At_end s"] i by (simp add: cnt_goto)
    then have "cnt completing s' = 0"
      using \<open>others i creating (km_workers s) = 0\<close> create_some i by (simp add: cnt_goto)
    with done_ \<open>\<not> km_completed s\<close> create_some show ?thesis by simp
  next
    case throw_clear
    with cr nf i show ?thesis by (simp add: inv_create_def cnt_split [OF i])
  qed (use done_ lo i in \<open>auto simp: cnt_goto cnt_split [OF i]\<close>)
qed

lemma inv_step: "worker_step C i throws s = Some s' \<Longrightarrow> i < length (km_workers s) \<Longrightarrow> inv tot s \<Longrightarrow> inv tot s'"
  using inv_create_step [of C i throws s s'] inv_lock_step [of C i throws s s'] inv_pending_step [of C i throws s s']
    inv_end_step [of C i throws s s'] inv_live_step [of C i throws s s'] stored_step [of i throws s s' tot]
    left_step [of i throws s s' tot] step_keeps [of C i throws s s']
  by (simp add: inv_def inv_data_def)

lemma inv_reach: "km_reach C s t \<Longrightarrow> inv tot s \<Longrightarrow> inv tot t"
  by (induction rule: km_reach.induct) (auto simp: km_step_iff intro: inv_step)

lemma inv_start:
  assumes "new_KMerger units w g = Inr s" "cinv g"
  shows "inv (left_over g) (PushAndJoin_start s)"
proof -
  have "creates (PushAndJoin_start s) = 1" "\<not> failed (PushAndJoin_start s)"
    by (simp_all add: creates_def failed_def start_simps [OF assms(1)] cnt_start [OF assms(1)])
  then have "inv_create (PushAndJoin_start s)"
    by (simp add: inv_create_def start_simps [OF assms(1)] cnt_start [OF assms(1)])
  moreover have "held (PushAndJoin_start s) = {#}" "live (PushAndJoin_start s) = {#}"
    by (simp_all add: live_def held_def start_simps [OF assms(1)] cnt_start [OF assms(1)])
  ultimately show ?thesis
    using assms(2)
    by (simp add: inv_def inv_data_def inv_lock_def inv_pending_def inv_end_def inv_live_def on_disk_def stored_def
        start_simps [OF assms(1)] cnt_start [OF assms(1)])
qed

text \<open>The result of a run whose workers have all ended.\<close>

lemma result:
  assumes "new_KMerger units w g = Inr s" "cinv g" "km_reach C (PushAndJoin_start s) t"
    and j: "joined t" and e: "km_exception t = None"
  shows "\<exists>f t' c. PushAndJoin_end C t = Inr (f, t') \<and> km_disk t' f = Some c \<and> valid c \<and> items c = left_over g"
proof -
  have inv: "inv (left_over g) t" by (rule inv_reach [OF assms(3) inv_start [OF assms(1,2)]])
  have zero: "cnt f t = 0" if "f At_end = (0 :: nat)" for f
    using j that by (auto simp: cnt_zero_iff joined_def)
  have nf: "\<not> failed t" by (simp add: failed_def e zero)
  have tasks: "km_tasks t = []" using inv nf by (simp add: inv_def inv_end_def zero)
  have comp: "km_completed t"
    using inv by (rule_tac ccontr) (simp add: inv_def inv_create_def creates_def zero tasks)
  have len: "length (km_chunks t) \<le> 1"
    using inv nf comp by (auto simp: inv_def inv_pending_def zero tasks)
  have held: "held t = files (km_chunks t)" by (simp add: held_def tasks cnt_joined [OF j])
  have dat: "on_disk valid t" "stored items t = left_over g"
    using inv nf comp by (auto simp: inv_def inv_data_def)
  show ?thesis
  proof (cases "km_chunks t")
    case Nil
    then have "left_over g = {#}" using dat(2) held by (simp add: stored_def)
    then show ?thesis using Nil e default_ok by (simp add: PushAndJoin_end_def GetNewIdSync_def)
  next
    case (Cons k ks)
    then have "ks = []" using len by simp
    then show ?thesis
      using dat held Cons e by (auto simp: PushAndJoin_end_def on_disk_def stored_def disk_item_def files_def)
  qed
qed

text \<open>Every run ends, and only when its workers have.\<close>

lemma run_bound: "(km_step C ^^ n) s t \<Longrightarrow> inv tot s \<Longrightarrow> inv tot t \<and> km_measure todo t + n \<le> km_measure todo s"
proof (induction n arbitrary: t)
  case (Suc n)
  then obtain u where u: "(km_step C ^^ n) s u" "km_step C u t" by auto
  then obtain i throws where st: "worker_step C i throws u = Some t" "i < length (km_workers u)"
    by (auto simp: km_step_iff)
  have iu: "inv tot u" and m: "km_measure todo u + n \<le> km_measure todo s" using Suc.IH [OF u(1) Suc.prems(2)] by auto
  have "km_measure todo t < km_measure todo u"
    using iu create_some by (intro km_measure_step [OF st]) (auto simp: inv_def inv_data_def)
  with inv_step [OF st iu] m show ?case by simp
qed simp

lemma ends:
  assumes "new_KMerger units w g = Inr s" "cinv g" "(km_step C ^^ n) (PushAndJoin_start s) t"
  shows "n \<le> 16 * todo g + 6 + w" "\<not> joined t \<Longrightarrow> \<exists>t'. km_step C t t'" "cnt creating t \<le> 1"
proof -
  note b = run_bound [OF assms(3) inv_start [OF assms(1,2)]]
  then have "inv_create t" "inv_lock t" by (simp_all add: inv_def)
  then show "\<not> joined t \<Longrightarrow> \<exists>t'. km_step C t t'" "cnt creating t \<le> 1"
    using km_progress by (blast, simp add: inv_create_def creates_def)
  have "km_measure todo (PushAndJoin_start s) = 16 * todo g + 6 + w"
    by (simp add: km_measure_def start_simps [OF assms(1)] cnt_start [OF assms(1)] sum_list_replicate)
  then show "n \<le> 16 * todo g + 6 + w" using b by simp
qed

end

section \<open>CompressComponentKMerger\<close>

lemma chunk_items_eq:
  "chunk_items c = triple_items i ts \<Longrightarrow> mset (nodes_of (c ty)) = mset (cut_nul (comps ty (numbered i ts)))"
proof -
  assume eq: "chunk_items c = triple_items i ts"
  let ?c' = "\<lambda>t. cut_nul (comps t (numbered i ts))"
  have pick: "filter_mset (\<lambda>x. fst x = ty) (\<Sum>t\<leftarrow>rdf_types. image_mset (Pair t) (M t)) = image_mset (Pair ty) (M ty)"
    for M :: "rdf_type \<Rightarrow> id_component multiset"
  proof -
    have "filter_mset (\<lambda>x. fst x = ty) (image_mset (Pair t) N) = (if t = ty then image_mset (Pair t) N else {#})"
      for t and N :: "id_component multiset"
      by (induction N) auto
    then show ?thesis by (cases ty) (simp_all add: rdf_types_def)
  qed
  have "image_mset (Pair ty) (mset (nodes_of (c ty))) = image_mset (Pair ty) (mset (?c' ty))"
    using arg_cong [OF eq, of "filter_mset (\<lambda>x. fst x = ty)"]
    unfolding chunk_items_def triple_items_def pick .
  then have "image_mset snd (image_mset (Pair ty) (mset (nodes_of (c ty)))) =
      image_mset snd (image_mset (Pair ty) (mset (?c' ty)))"
    by (rule arg_cong)
  then show ?thesis by (simp add: image_mset.compositionality comp_def)
qed

definition raio_config :: "std_sort \<Rightarrow> (ckm, chunk_dir) kconfig" where
  "raio_config srt =
     \<lparr>cfg_create = ck_CreateChunk srt,
      cfg_merge = (\<lambda>chunks. case MergeChunks chunks of Some (Inr c) \<Rightarrow> Some c | _ \<Rightarrow> None),
      cfg_default = CreateDefaultChunk\<rparr>"

lemma default_chunk_ok: "chunk_ok CreateDefaultChunk \<and> chunk_items CreateDefaultChunk = {#}"
proof -
  have d: "CreateDefaultChunk t = file_of []" for t by (simp add: CreateDefaultChunk_def file_of_def)
  have "file_ok (file_of [])" unfolding file_ok_def by (intro exI [of _ "[]"]) (simp add: by_component_def)
  moreover have "nodes_of (file_of []) = []" by (rule nodes_of_file) simp
  ultimately show ?thesis by (simp add: chunk_ok_def chunk_items_def d rdf_types_def)
qed

lemma raio_contract:
  assumes "sorts srt"
  shows "kmerger_config (raio_config srt) ckm_inv chunk_ok chunk_items ckm_left (\<lambda>k. length (ck_parser k))"
proof
  fix g
  show "cfg_create (raio_config srt) g = None \<Longrightarrow> ckm_left g = {#}"
    by (simp add: raio_config_def ck_CreateChunk_None_iff ckm_left_def triple_items_def rdf_types_def comps_def cut_nul_def)
  fix c g'
  assume "ckm_inv g" "cfg_create (raio_config srt) g = Some (c, g')"
  then show "chunk_ok c \<and> ckm_inv g' \<and> ckm_left g = chunk_items c + ckm_left g' \<and>
      length (ck_parser g') < length (ck_parser g)"
    using ck_CreateChunk_ok [OF assms] by (simp add: raio_config_def)
next
  fix cs
  assume "\<forall>c \<in> set cs. chunk_ok c"
  from MergeChunks_ok [OF this] show "\<exists>c. cfg_merge (raio_config srt) cs = Some c \<and> chunk_ok c \<and>
      chunk_items c = (\<Sum>c\<leftarrow>cs. chunk_items c)"
    by (auto simp: raio_config_def)
qed (simp add: raio_config_def default_chunk_ok)

interpretation raio_km: kmerger_config "raio_config merge_sort_by" ckm_inv chunk_ok chunk_items ckm_left
    "\<lambda>k. length (ck_parser k)"
  by (rule raio_contract [OF sorts_merge_sort_by])

lemma numbered_map: "numbered j ts = map (\<lambda>i. (j + of_nat i, ts ! i)) [0..<length ts]"
proof (induction j ts rule: numbered.induct)
  case (2 j t ts)
  have "map (\<lambda>i. (j + of_nat i, (t # ts) ! i)) [0..<Suc (length ts)] =
      (j, t) # map (\<lambda>i. (j + of_nat (Suc i), ts ! i)) [0..<length ts]"
    by (simp add: upt_conv_Cons map_Suc_upt [symmetric] comp_def del: upt_Suc)
  with 2 show ?case by (simp add: add.assoc)
qed simp

lemma new_ckm_inv: "length triples < 2 ^ 63 - 1 \<Longrightarrow> \<forall>tr \<in> set triples. \<forall>ty. length (tr ty) < 2 ^ 63 \<Longrightarrow>
    ckm_inv (new_ckm triples bufferSize)"
  by (simp add: ckm_inv_def new_ckm_def)

text \<open>
  C2. The merge sort of the triples of a parser, on any number of worker threads and in any order of their
  steps: when the workers have ended and none of them caught an exception, \<^verbatim>\<open>PushAndJoin\<close> returns a chunk
  (never the error of more than one chunk left), whose subject, predicate and object files, read back, are
  sorted by component and hold every component of every triple exactly once, under the number of its triple.
\<close>

theorem PushAndJoin_sorts:
  assumes "sorts srt"
    and "length triples < 2 ^ 63 - 1" "\<forall>tr \<in> set triples. \<forall>ty. length (tr ty) < 2 ^ 63"
    and "new_KMerger units workersCount (new_ckm triples bufferSize) = Inr s"
    and "km_reach (raio_config srt) (PushAndJoin_start s) t"
    and "joined t" "km_exception t = None"
  shows "\<exists>f t' c. PushAndJoin_end (raio_config srt) t = Inr (f, t') \<and> km_disk t' f = Some c \<and>
    (\<forall>ty. sorted (map snd (nodes_of (c ty))) \<and>
      mset (nodes_of (c ty)) = mset (map (\<lambda>i. (of_nat (i + 1), c_chars ((triples ! i) ty))) [0..<length triples]))"
proof -
  obtain f t' c where r: "PushAndJoin_end (raio_config srt) t = Inr (f, t')" "km_disk t' f = Some c" "chunk_ok c"
    "chunk_items c = ckm_left (new_ckm triples bufferSize)"
    using kmerger_config.result [OF raio_contract [OF assms(1)] assms(4) new_ckm_inv [OF assms(2,3)] assms(5-7)] by blast
  have "sorted (map snd (nodes_of (c ty)))" for ty
  proof -
    have "file_ok (c ty)" using r(3) by (simp add: chunk_ok_def)
    then show ?thesis by (rule file_okE) (simp add: by_component_def)
  qed
  moreover have "mset (nodes_of (c ty)) = mset (map (\<lambda>i. (of_nat (i + 1), c_chars ((triples ! i) ty))) [0..<length triples])" for ty
  proof -
    have "chunk_items c = triple_items 1 triples" using r(4) by (simp add: ckm_left_def new_ckm_def)
    then have "mset (nodes_of (c ty)) = mset (cut_nul (comps ty (numbered 1 triples)))"
      using chunk_items_eq by simp
    then show ?thesis by (simp add: cut_nul_def comps_def numbered_map comp_def add.commute)
  qed
  ultimately show ?thesis using r(1,2) by blast
qed

text \<open>
  C9. The merge sort ends: a run takes at most sixteen steps for every triple, one for every worker and six
  more; a state from which no worker can go on is one where all of them have ended, so there is no deadlock
  on the locks or on the condition variable; and at no time are two workers creating chunks, so the parser
  and the buffers of the configuration are never used by two threads at once.
\<close>

theorem PushAndJoin_ends:
  assumes "sorts srt"
    and "length triples < 2 ^ 63 - 1" "\<forall>tr \<in> set triples. \<forall>ty. length (tr ty) < 2 ^ 63"
    and "new_KMerger units workersCount (new_ckm triples bufferSize) = Inr s"
    and "(km_step (raio_config srt) ^^ n) (PushAndJoin_start s) t"
  shows "n \<le> 16 * length triples + workersCount + 6 \<and>
    ((\<nexists>t'. km_step (raio_config srt) t t') \<longrightarrow> joined t) \<and>
    length (filter (\<lambda>p. creating p = 1) (km_workers t)) \<le> 1"
proof -
  note e = kmerger_config.ends [OF raio_contract [OF assms(1)] assms(4) new_ckm_inv [OF assms(2,3)] assms(5)]
  have "length (filter (\<lambda>p. creating p = 1) ws) \<le> sum_list (map creating ws)" for ws
    by (induction ws) auto
  from this [of "km_workers t"] e show ?thesis by (auto simp: cnt_def new_ckm_def)
qed

text \<open>A run of one worker over one triple.\<close>

lemma km_run_relpow: "km_run C sched s = Some t \<Longrightarrow> (km_step C ^^ length sched) s t"
proof (induction C sched s arbitrary: t rule: km_run.induct)
  case (2 C i throws rest s)
  then obtain u where u: "worker_step C i throws s = Some u" "i < length (km_workers s)" "km_run C rest u = Some t"
    by (auto simp: bind_eq_Some_conv split: if_splits)
  then have "(km_step C ^^ length rest) u t" using 2 by simp
  with u show ?case unfolding list.size add_Suc_right add_0_right
    by (intro relpowp_Suc_I2) (auto intro: km_step.step)
qed simp

lemma relpow_reach: "(km_step C ^^ n) s t \<Longrightarrow> km_reach C s t"
  by (induction n arbitrary: t) (auto intro: km_reach.intros)

lemma run_one:
  assumes "cfg_create C g = Some (c, g1)" "cfg_create C g1 = None" "new_KMerger 2 1 g = Inr s"
  shows "\<exists>t. km_run C (replicate 13 (0, False)) (PushAndJoin_start s) = Some t \<and> joined t \<and> km_exception t = None"
proof -
  have s: "PushAndJoin_start s = \<lparr>km_units = 2, km_workersCount = 1, km_completed = False, km_workers = [At_pop],
      km_chunks = [], km_maxLayer = 0, km_tasks = [TCreate], km_taskHolder = None, km_idGen = 0,
      km_exception = None, km_cfg = g, km_disk = (\<lambda>_. None)\<rparr>"
    using assms(3) by (auto simp: new_KMerger_def PushAndJoin_start_def Init_def PushTask_def)
  have n: "replicate 13 x = [x, x, x, x, x, x, x, x, x, x, x, x, x]" for x :: "nat \<times> bool"
    by (simp add: numeral_eq_Suc)
  show ?thesis
    unfolding s n
    by (simp add: worker_step_def PopTask_def task_start_def goto_point_def GetNewIdSync_def create_call_def
        assms(1,2) PushTask_def merge_required_def FindChunksToMerge_def Let_def joined_def)
qed

lemma one_triple:
  assumes "new_KMerger 2 1 (new_ckm [tr] b) = Inr s" "sorts srt" "\<forall>ty. length (tr ty) < 2 ^ 63"
  shows "\<exists>t. (km_step (raio_config srt) ^^ 13) (PushAndJoin_start s) t \<and> joined t \<and> km_exception t = None"
proof -
  obtain c k where c: "ck_CreateChunk srt (new_ckm [tr] b) = Some (c, k)"
    using ck_CreateChunk_None_iff [of srt "new_ckm [tr] b"] by (cases "ck_CreateChunk srt (new_ckm [tr] b)") (auto simp: new_ckm_def)
  have "ck_parser k = []"
    using ck_CreateChunk_ok [OF assms(2) new_ckm_inv c] assms(3) by (simp add: new_ckm_def)
  then have "cfg_create (raio_config srt) k = None" by (simp add: raio_config_def ck_CreateChunk_None_iff)
  then obtain t where t: "km_run (raio_config srt) (replicate 13 (0, False)) (PushAndJoin_start s) = Some t"
    "joined t" "km_exception t = None"
    using run_one [of "raio_config srt" "new_ckm [tr] b" c k s] assms(1) c by (auto simp: raio_config_def)
  from km_run_relpow [OF t(1)] t(2,3) show ?thesis by auto
qed

theorem PushAndJoin_sorts_witness:
  "\<exists>s t f t' c. new_KMerger 2 1 (new_ckm [\<lambda>_. [97]] 64) = Inr s \<and>
     km_reach (raio_config merge_sort_by) (PushAndJoin_start s) t \<and>
     PushAndJoin_end (raio_config merge_sort_by) t = Inr (f, t') \<and> km_disk t' f = Some c \<and>
     nodes_of (c RDF_OBJECT) = [(1, [97])]"
proof -
  obtain s :: "(ckm, chunk_dir) kmerger" where s: "new_KMerger 2 1 (new_ckm [\<lambda>_. [97]] 64) = Inr s"
    by (simp add: new_KMerger_def)
  then obtain t where t: "(km_step (raio_config merge_sort_by) ^^ 13) (PushAndJoin_start s) t"
    "joined t" "km_exception t = None"
    using one_triple [OF s sorts_merge_sort_by] by auto
  have "length [\<lambda>_ :: rdf_type. [97 :: u8]] < 2 ^ 63 - 1" by simp
  from PushAndJoin_sorts [OF sorts_merge_sort_by this _ s relpow_reach [OF t(1)] t(2,3)]
  obtain f t' c where "PushAndJoin_end (raio_config merge_sort_by) t = Inr (f, t')" "km_disk t' f = Some c"
    "mset (nodes_of (c RDF_OBJECT)) = mset [(1, [97])]"
    by (auto simp: c_chars_def)
  then show ?thesis using s relpow_reach [OF t(1)] by (metis mset_single_iff_right)
qed

theorem PushAndJoin_ends_witness:
  "\<exists>s t. new_KMerger 2 1 (new_ckm [\<lambda>_. [97]] 64) = Inr s \<and>
     (km_step (raio_config merge_sort_by) ^^ 13) (PushAndJoin_start s) t \<and> joined t \<and>
     length (filter (\<lambda>p. creating p = 1) (km_workers t)) \<le> 1 \<and> (13 :: nat) \<le> 16 * 1 + 1 + 6"
proof -
  obtain s :: "(ckm, chunk_dir) kmerger" where s: "new_KMerger 2 1 (new_ckm [\<lambda>_. [97]] 64) = Inr s"
    by (simp add: new_KMerger_def)
  then obtain t where t: "(km_step (raio_config merge_sort_by) ^^ 13) (PushAndJoin_start s) t" "joined t"
    using one_triple [OF s sorts_merge_sort_by] by auto
  have "length [\<lambda>_ :: rdf_type. [97 :: u8]] < 2 ^ 63 - 1" by simp
  from PushAndJoin_ends [OF sorts_merge_sort_by this _ s t(1)] s t show ?thesis by auto
qed

end
