(* ===== verification/Compact.thy ===== *)
theory Compact
  imports Lib_Io Crc
begin

text \<open>
  The bit-packed arrays of \<^verbatim>\<open>src/core/lib/actslib/data/compact.hpp\<close>: a bitmap over bytes and a sequence of
  numbers of \<^verbatim>\<open>numbits\<close> bits over 64-bit words, proved against the stream of bits they stand for.

  The memory behind the pointer is the list of its bytes or words. An access outside it and a shift by the
  width of the operand or more are undefined behaviour, \<open>Inl Past_the_end\<close> and \<open>Inl Bad_shift\<close>; what is
  thrown are the other errors. The product \<^verbatim>\<open>id * numbits\<close> wraps around at 64 bits.
\<close>

section \<open>Bitmap64\<close>

record bitmap64 =
  bm_data :: "u8 list"
  bm_datalen :: nat

definition WordOfId :: "nat \<Rightarrow> nat" where
  "WordOfId i = i div 8"

text \<open>A \<^verbatim>\<open>char\<close> is promoted with its sign; the test only looks at its eight bits.\<close>

definition bm_get :: "bitmap64 \<Rightarrow> nat \<Rightarrow> lib_error + bool" where
  "bm_get b i =
     (let word = WordOfId i
      in if bm_datalen b \<le> word then Inr False
         else if length (bm_data b) \<le> word then Inl Past_the_end
         else Inr ((scast (bm_data b ! word) :: u32) AND push_bit (i mod 8) 1 \<noteq> 0))"

definition bm_Set :: "bitmap64 \<Rightarrow> nat \<Rightarrow> bool \<Rightarrow> lib_error + bitmap64" where
  "bm_Set b i v =
     (let word = WordOfId i
      in if v then
           (if bm_datalen b \<le> word then Inl Outside_words
            else if length (bm_data b) \<le> word then Inl Past_the_end
            else Inr (b\<lparr>bm_data := (bm_data b)[word := bm_data b ! word OR push_bit (i mod 8) 1]\<rparr>))
         else
           (if length (bm_data b) \<le> word then Inl Past_the_end
            else Inr (b\<lparr>bm_data := (bm_data b)[word := bm_data b ! word AND NOT (push_bit (i mod 8) 1)]\<rparr>)))"

definition bm_UpdateCRC :: "bitmap64 \<Rightarrow> u32 \<Rightarrow> u32 option" where
  "bm_UpdateCRC b crc = CRC_Update CRC32_Update crc (bm_data b) 0 (bm_datalen b)"

section \<open>Sequence\<close>

record sequence =
  sq_data :: "u64 list"
  sq_datalen :: nat
  sq_numbits :: nat
  sq_maxValue :: u64

definition WORD_LEN :: nat where
  "WORD_LEN = 64"

definition shl :: "u64 \<Rightarrow> nat \<Rightarrow> lib_error + u64" where
  "shl w n = (if n < 64 then Inr (push_bit n w) else Inl Bad_shift)"

definition shr :: "u64 \<Rightarrow> nat \<Rightarrow> lib_error + u64" where
  "shr w n = (if n < 64 then Inr (drop_bit n w) else Inl Bad_shift)"

definition load :: "u64 list \<Rightarrow> nat \<Rightarrow> lib_error + u64" where
  "load ws i = (if i < length ws then Inr (ws ! i) else Inl Past_the_end)"

text \<open>The constructor; a null pointer is \<open>None\<close>. \<^verbatim>\<open>maxValue\<close> is computed before the bits are checked.\<close>

definition new_Sequence :: "u64 list option \<Rightarrow> nat \<Rightarrow> nat \<Rightarrow> lib_error + sequence" where
  "new_Sequence data datalen numbits =
     ebind (if numbits = 64 then Inr (NOT 0) else ebind (shl 1 numbits) (\<lambda>x. Inr (x - 1))) (\<lambda>maxValue.
       if datalen \<noteq> 0 \<and> numbits \<noteq> 0 \<and> data = None then Inl Empty_data
       else if WORD_LEN < numbits then Inl Numbits_above_word
       else Inr \<lparr>sq_data = (case data of None \<Rightarrow> [] | Some ws \<Rightarrow> ws), sq_datalen = datalen,
         sq_numbits = numbits, sq_maxValue = maxValue\<rparr>)"

definition sq_get :: "sequence \<Rightarrow> nat \<Rightarrow> lib_error + u64" where
  "sq_get s i =
     (let offset = i * sq_numbits s mod 2 ^ 64; word = offset div WORD_LEN; wordOff = offset mod WORD_LEN;
          n = sq_numbits s
      in if WORD_LEN < wordOff + n then
           ebind (load (sq_data s) word) (\<lambda>lo. ebind (shr lo wordOff) (\<lambda>a.
           ebind (load (sq_data s) (word + 1)) (\<lambda>hi. ebind (shl hi (2 * WORD_LEN - wordOff - n)) (\<lambda>b.
           ebind (shr b (WORD_LEN - n)) (\<lambda>c. Inr (a OR c))))))
         else
           ebind (load (sq_data s) word) (\<lambda>w. ebind (shl w (WORD_LEN - wordOff - n)) (\<lambda>b. shr b (WORD_LEN - n))))"

definition sq_Set :: "sequence \<Rightarrow> nat \<Rightarrow> u64 \<Rightarrow> lib_error + sequence" where
  "sq_Set s i v =
     (if sq_maxValue s < v then Inl Value_above_limit
      else (let offset = i * sq_numbits s mod 2 ^ 64; word = offset div WORD_LEN; wordOff = offset mod WORD_LEN;
                n = sq_numbits s
        in ebind (shl (NOT 0) n) (\<lambda>ones. ebind (shl (NOT ones) wordOff) (\<lambda>m. ebind (load (sq_data s) word) (\<lambda>w.
           ebind (shl v wordOff) (\<lambda>x.
             let s1 = s\<lparr>sq_data := (sq_data s)[word := w AND NOT m OR x]\<rparr>
             in if WORD_LEN < wordOff + n then
                  ebind (shl (NOT 0) (n + wordOff - WORD_LEN)) (\<lambda>m2.
                  ebind (load (sq_data s1) (word + 1)) (\<lambda>w2. ebind (shr v (WORD_LEN - wordOff)) (\<lambda>y.
                    Inr (s1\<lparr>sq_data := (sq_data s1)[word + 1 := w2 AND m2 OR y]\<rparr>))))
                else Inr s1))))))"

text \<open>The sum is over the first \<^verbatim>\<open>datalen\<close> bytes, not words.\<close>

definition sq_UpdateCRC :: "sequence \<Rightarrow> u32 \<Rightarrow> u32 option" where
  "sq_UpdateCRC s crc = CRC_Update CRC32_Update crc (concat (map (\<lambda>w. le_bytes 8 (unat w)) (sq_data s))) 0 (sq_datalen s)"

section \<open>Bitmaps are sets of identifiers\<close>

lemma and_push_bit_1: "(x AND push_bit k 1 \<noteq> 0) = (bit x k \<and> k < LENGTH('a))" for x :: "'a::len word"
  using and_exp_eq_0_iff_not_bit [of x k] by (auto simp: push_bit_eq_mult dest: bit_imp_le_length)

lemma mod_8_cases: "i mod 8 = 7 \<or> i mod 8 < (7 :: nat)"
  by presburger

lemma bm_get_bit: "WordOfId i < bm_datalen b \<Longrightarrow> WordOfId i < length (bm_data b) \<Longrightarrow>
    bm_get b i = Inr (bit (bm_data b ! WordOfId i) (i mod 8))"
  using mod_8_cases [of i] unfolding bm_get_def and_push_bit_1 by (auto simp: bit_signed_iff min_def)

lemma bm_get_outside: "bm_datalen b \<le> WordOfId i \<Longrightarrow> bm_get b i = Inr False"
  by (simp add: bm_get_def)

lemma same_id: "WordOfId j = WordOfId i \<Longrightarrow> j mod 8 = i mod 8 \<Longrightarrow> j = i"
  by (metis WordOfId_def mult_div_mod_eq)

lemma bit_set_clear:
  assumes "k < 8" "m < 8"
  shows "bit (w OR 2 ^ m :: u8) k = (k = m \<or> bit w k)"
    and "bit (w AND NOT (2 ^ m) :: u8) k = (k \<noteq> m \<and> bit w k)"
  using assms by (auto simp: bit_simps)

lemma bm_Set_get:
  assumes s: "bm_Set b i v = Inr b'" and len: "bm_datalen b = length (bm_data b)"
  shows "bm_get b' j = (if j = i then Inr v else bm_get b j)"
proof -
  have i: "WordOfId i < length (bm_data b)" and
    b': "b' = b\<lparr>bm_data := (bm_data b)[WordOfId i := if v then bm_data b ! WordOfId i OR push_bit (i mod 8) 1
      else bm_data b ! WordOfId i AND NOT (push_bit (i mod 8) 1)]\<rparr>"
    using s len by (auto simp: bm_Set_def Let_def split: if_splits)
  have m: "j mod 8 < 8" "i mod 8 < 8" by simp_all
  show ?thesis
  proof (cases "WordOfId j = WordOfId i")
    case True
    then have "j mod 8 = i mod 8 \<longleftrightarrow> j = i" using same_id by auto
    then show ?thesis
      using i len True by (simp add: bm_get_bit b' bit_set_clear [OF m] bit_set_clear [OF m(2) m(2)])
  next
    case False
    then show ?thesis using i len
      by (cases "WordOfId j < length (bm_data b)") (auto simp: bm_get_bit bm_get_outside b')
  qed
qed

text \<open>The clearing of a bit is not checked against the length, as the setting of one is.\<close>

lemma bm_Set_outside:
  "length (bm_data b) = bm_datalen b \<Longrightarrow> bm_datalen b \<le> WordOfId i \<Longrightarrow>
   bm_Set b i v = Inl (if v then Outside_words else Past_the_end)"
  by (simp add: bm_Set_def)

section \<open>Sequences are streams of bits\<close>

text \<open>The bit at a position of the memory.\<close>

definition sbit :: "u64 list \<Rightarrow> nat \<Rightarrow> bool" where
  "sbit ws p \<longleftrightarrow> bit (ws ! (p div 64)) (p mod 64)"

definition in_range :: "sequence \<Rightarrow> nat \<Rightarrow> bool" where
  "in_range s i \<longleftrightarrow> (i + 1) * sq_numbits s \<le> 64 * length (sq_data s) \<and> length (sq_data s) < 2 ^ 58"

lemma in_range_offset:
  assumes "in_range s i" "0 < sq_numbits s"
  shows "i * sq_numbits s mod 2 ^ 64 = i * sq_numbits s"
    and "i * sq_numbits s div 64 < length (sq_data s)"
    and "64 < i * sq_numbits s mod 64 + sq_numbits s \<Longrightarrow> i * sq_numbits s div 64 + 1 < length (sq_data s)"
proof -
  let ?o = "i * sq_numbits s"
  have o: "?o + sq_numbits s \<le> 64 * length (sq_data s)" "length (sq_data s) < 2 ^ 58"
    using assms(1) by (auto simp: in_range_def)
  then have "?o < 2 ^ 64" by simp
  then show "?o mod 2 ^ 64 = ?o" by simp
  show "?o div 64 < length (sq_data s)" using o(1) assms(2) by (simp add: div_less_iff_less_mult)
  assume "64 < ?o mod 64 + sq_numbits s"
  moreover have "64 * (?o div 64) + ?o mod 64 = ?o" by simp
  ultimately show "?o div 64 + 1 < length (sq_data s)" using o(1) by linarith
qed

lemma sbit_add:
  "p mod 64 + k < 64 \<Longrightarrow> sbit ws (p + k) = bit (ws ! (p div 64)) (p mod 64 + k)"
  "64 \<le> p mod 64 + k \<Longrightarrow> k \<le> 64 \<Longrightarrow> sbit ws (p + k) = bit (ws ! (p div 64 + 1)) (p mod 64 + k - 64)"
proof -
  have dm: "(r + q * 64) div 64 = q" "(r + q * 64) mod 64 = r" if "r < 64" for r q :: nat
    using that by (simp_all add: div_mult_self1)
  show "sbit ws (p + k) = bit (ws ! (p div 64)) (p mod 64 + k)" if r: "p mod 64 + k < 64"
  proof -
    have "p + k = (p mod 64 + k) + p div 64 * 64" using div_mult_mod_eq [of p 64] by linarith
    then show ?thesis unfolding sbit_def using dm [OF r] by metis
  qed
  show "sbit ws (p + k) = bit (ws ! (p div 64 + 1)) (p mod 64 + k - 64)" if r: "64 \<le> p mod 64 + k" "k \<le> 64"
  proof -
    have "p mod 64 < 64" by simp
    then have "p mod 64 + k - 64 < 64" using r(2) by linarith
    moreover have "p + k = (p mod 64 + k - 64) + (p div 64 + 1) * 64"
      using div_mult_mod_eq [of p 64] r(1) by (simp only: distrib_right)
    ultimately show ?thesis unfolding sbit_def using dm by metis
  qed
qed

lemma sq_get_bits:
  assumes n: "0 < sq_numbits s" "sq_numbits s \<le> 64" and r: "in_range s i"
  obtains v where "sq_get s i = Inr v" "\<And>k. bit v k \<longleftrightarrow> k < sq_numbits s \<and> sbit (sq_data s) (i * sq_numbits s + k)"
proof -
  define n where "n = sq_numbits s"
  define w where "w = i * n div 64"
  define q where "q = i * n mod 64"
  define ws where "ws = sq_data s"
  have q: "q < 64" by (simp add: q_def)
  have nn: "0 < n" "n \<le> 64" using n by (simp_all add: n_def)
  note off = in_range_offset [OF r n(1), folded n_def ws_def, folded q_def w_def]
  have get: "sq_get s i = (if 64 < q + n
      then ebind (load ws w) (\<lambda>lo. ebind (shr lo q) (\<lambda>a. ebind (load ws (w + 1)) (\<lambda>hi. ebind (shl hi (128 - q - n)) (\<lambda>b.
           ebind (shr b (64 - n)) (\<lambda>c. Inr (a OR c))))))
      else ebind (load ws w) (\<lambda>x. ebind (shl x (64 - q - n)) (\<lambda>b. shr b (64 - n))))"
    unfolding sq_get_def Let_def WORD_LEN_def n_def [symmetric] off(1) w_def [symmetric] q_def [symmetric]
      ws_def [symmetric] by simp
  note sb = sbit_add [of "i * n" _ ws, folded q_def w_def]
  show thesis
  proof (cases "64 < q + n")
    case True
    let ?v = "drop_bit q (ws ! w) OR drop_bit (64 - n) (push_bit (128 - q - n) (ws ! (w + 1)))"
    have "bit ?v k \<longleftrightarrow> k < n \<and> sbit ws (i * n + k)" for k
    proof (cases "q + k < 64")
      case k: True
      then have "\<not> bit (drop_bit (64 - n) (push_bit (128 - q - n) (ws ! (w + 1)))) k"
        using True q nn by (auto simp: bit_simps)
      with k True show ?thesis by (auto simp: bit_simps sb(1))
    next
      case False
      then have "\<not> bit (drop_bit q (ws ! w)) k" by (auto simp: bit_simps dest: bit_imp_le_length)
      moreover have "bit (drop_bit (64 - n) (push_bit (128 - q - n) (ws ! (w + 1)))) k \<longleftrightarrow>
          k < n \<and> bit (ws ! (w + 1)) (q + k - 64)"
      proof (cases "k < n")
        case kn: True
        then have "64 - n + k - (128 - q - n) = q + k - 64" "128 - q - n \<le> 64 - n + k" "64 - n + k < 64"
          using False True q nn by simp_all
        with kn show ?thesis by (auto simp: bit_simps)
      next
        case False
        then have "\<not> 64 - n + k < 64" using nn by simp
        with False show ?thesis by (auto simp: bit_simps)
      qed
      ultimately show ?thesis using False nn(2) sb(2) [of k] by (auto simp: bit_or_iff)
    qed
    moreover have "sq_get s i = Inr ?v"
      using True off q nn by (simp add: get load_def shl_def shr_def)
    ultimately show thesis using that by (simp add: n_def ws_def)
  next
    case False
    let ?v = "drop_bit (64 - n) (push_bit (64 - q - n) (ws ! w))"
    have "bit ?v k \<longleftrightarrow> k < n \<and> sbit ws (i * n + k)" for k
    proof (cases "k < n")
      case True
      then have "64 - n + k - (64 - q - n) = q + k" "64 - q - n \<le> 64 - n + k" "64 - n + k < 64" "q + k < 64"
        using False nn by simp_all
      with True show ?thesis by (auto simp: bit_simps sb(1))
    next
      case kn: False
      then have "\<not> 64 - n + k < 64" using nn by simp
      with kn show ?thesis by (auto simp: bit_simps)
    qed
    moreover have "sq_get s i = Inr ?v"
      using False off q nn by (simp add: get load_def shl_def shr_def)
    ultimately show thesis using that by (simp add: n_def ws_def)
  qed
qed


text \<open>The largest value is the one of \<^verbatim>\<open>numbits\<close> ones.\<close>

lemma below_max_bits:
  fixes v :: u64
  assumes "v \<le> 2 ^ n - 1" "n < 64" "bit v k"
  shows "k < n"
proof -
  have "take_bit n (unat (mask n :: u64)) = unat (mask n :: u64)" by (simp flip: unsigned_take_bit_eq)
  then have "unat (mask n :: u64) < 2 ^ n" by (simp only: take_bit_nat_eq_self_iff)
  then have "unat v < 2 ^ n"
    using assms(1) unfolding mask_eq_exp_minus_1 word_le_nat_alt by (rule order.strict_trans1 [rotated])
  then have "take_bit n (unat v) = unat v" by (simp add: take_bit_nat_eq_self_iff)
  moreover have "bit (unat v) k" using assms(3) by (auto simp: bit_unsigned_iff dest: bit_imp_le_length)
  ultimately show ?thesis by (metis bit_take_bit_iff)
qed

lemma split_position:
  assumes "p = a * 64 + r" "r < 64" "(o' :: nat) = w * 64 + q" "q < 64" "n \<le> 64"
  shows "o' \<le> p \<and> p < o' + n \<longleftrightarrow>
    (if a = w then q \<le> r \<and> r - q < n else a = w + 1 \<and> r + 64 - q < n)"
proof -
  consider "a = w" | "a = w + 1" | "a < w" | "w + 2 \<le> a" by linarith
  then show ?thesis
  proof cases
    case 3
    then have "a * 64 + 64 \<le> w * 64" by linarith
    with 3 show ?thesis unfolding assms(1,3) using assms(2) by auto
  next
    case 4
    then have "w * 64 + 128 \<le> a * 64" by linarith
    with 4 show ?thesis unfolding assms(1,3) using assms(4,5) by auto
  qed (use assms in auto)
qed

lemma set_low_bit: "bit (x AND NOT (push_bit q (NOT (push_bit n (NOT 0)))) OR push_bit q v) r \<longleftrightarrow>
    (if q \<le> r \<and> r - q < n then bit v (r - q) else bit x r)"
  if "r < 64" "\<And>k. bit v k \<Longrightarrow> k < n" for x v :: u64
  using that by (auto simp: bit_simps)

lemma set_high_bit: "bit (x AND push_bit m (NOT 0) OR drop_bit d v) r \<longleftrightarrow> (if r < m then bit v (r + d) else bit x r)"
  if "r < 64" "\<And>k. bit v k \<Longrightarrow> k < m + d" for x v :: u64
proof -
  have "\<not> bit v (d + r)" if "\<not> r < m" using that \<open>\<And>k. bit v k \<Longrightarrow> k < m + d\<close> [of "d + r"] by auto
  then show ?thesis using that(1) by (auto simp: bit_simps add.commute)
qed

lemma sq_Set_bits:
  assumes n: "0 < sq_numbits s" "sq_numbits s < 64" and r: "in_range s i"
    and m: "sq_maxValue s = 2 ^ sq_numbits s - 1" "v \<le> sq_maxValue s"
  obtains ws where "sq_Set s i v = Inr (s\<lparr>sq_data := ws\<rparr>)" "length ws = length (sq_data s)"
    "\<And>p. p < 64 * length ws \<Longrightarrow> sbit ws p =
      (if i * sq_numbits s \<le> p \<and> p < i * sq_numbits s + sq_numbits s then bit v (p - i * sq_numbits s)
       else sbit (sq_data s) p)"
proof -
  define n where "n = sq_numbits s"
  define w where "w = i * n div 64"
  define q where "q = i * n mod 64"
  define us where "us = sq_data s"
  have q: "q < 64" by (simp add: q_def)
  have o: "i * n = w * 64 + q" by (simp add: w_def q_def)
  have nn: "0 < n" "n < 64" using n by (simp_all add: n_def)
  note off = in_range_offset [OF r n(1), folded n_def us_def, folded q_def w_def]
  have bv: "k < n" if "bit v k" for k using below_max_bits [of v n k] m nn that by (simp add: n_def)
  define lo where "lo = us ! w AND NOT (push_bit q (NOT (push_bit n (NOT 0)))) OR push_bit q v"
  define hi where "hi = us ! (w + 1) AND push_bit (n + q - 64) (NOT 0) OR drop_bit (64 - q) v"
  define ws where "ws = (if 64 < q + n then us[w := lo, w + 1 := hi] else us[w := lo])"
  have s': "sq_Set s i v = Inr (s\<lparr>sq_data := ws\<rparr>)"
    using nn q off m(2)
    by (auto simp: sq_Set_def Let_def WORD_LEN_def n_def [symmetric] w_def [symmetric] q_def [symmetric]
        us_def [symmetric] shl_def shr_def load_def ws_def lo_def hi_def)
  have "sbit ws p = (if i * n \<le> p \<and> p < i * n + n then bit v (p - i * n) else sbit us p)"
    if "p < 64 * length ws" for p
  proof -
    define a where "a = p div 64"
    define t where "t = p mod 64"
    have p: "p = a * 64 + t" "t < 64" by (simp_all add: a_def t_def)
    have sb: "sbit ws p = bit (ws ! a) t" "sbit us p = bit (us ! a) t" by (simp_all add: sbit_def a_def t_def)
    have pos: "i * n \<le> p \<and> p < i * n + n \<longleftrightarrow> (if a = w then q \<le> t \<and> t - q < n else a = w + 1 \<and> t + 64 - q < n)"
      using split_position [OF p o q, of n] nn by simp
    consider "a = w" | "a = w + 1" "64 < q + n" | "a \<noteq> w" "a = w + 1 \<longrightarrow> q + n \<le> 64" by linarith
    then show ?thesis
    proof cases
      case 1
      then have "ws ! a = lo" using off(2) by (simp add: ws_def)
      moreover have "p - i * n = t - q" using 1 p(1) o by simp
      ultimately show ?thesis
        using 1 pos set_low_bit [of t v n "us ! w" q, OF p(2) bv] by (auto simp: sb lo_def)
    next
      case 2
      then have "ws ! a = hi" using off(3) by (simp add: ws_def add.commute)
      moreover have "p - i * n = t + (64 - q)" using 2 p(1) o q by simp
      moreover have "t + 64 - q < n \<longleftrightarrow> t < n + q - 64" using 2 q by linarith
      moreover have "bit hi t \<longleftrightarrow> (if t < n + q - 64 then bit v (t + (64 - q)) else bit (us ! (w + 1)) t)"
        unfolding hi_def by (rule set_high_bit) (use p(2) bv 2 q in force)+
      ultimately show ?thesis using 2 pos by (auto simp: sb)
    next
      case 3
      then have "ws ! a = us ! a" by (auto simp: ws_def)
      moreover have "\<not> (i * n \<le> p \<and> p < i * n + n)" using 3 pos q by auto
      ultimately show ?thesis by (auto simp: sb)
    qed
  qed
  moreover have "length ws = length us" by (simp add: ws_def)
  ultimately show thesis using that [OF s'] by (simp add: us_def n_def)
qed

lemma in_range_disjoint:
  "i \<noteq> j \<Longrightarrow> k < n \<Longrightarrow> \<not> (i * n \<le> j * n + k \<and> j * n + k < i * n + n)" for i j k n :: nat
proof (cases "i < j")
  case True
  then have "(i + 1) * n \<le> j * n" by (simp only: mult_le_mono1)
  then show ?thesis by simp
next
  case False
  moreover assume "i \<noteq> j" "k < n"
  ultimately have "(j + 1) * n \<le> i * n" by (simp only: mult_le_mono1)
  then show ?thesis using \<open>k < n\<close> by simp
qed

lemma in_range_position: "in_range s j \<Longrightarrow> k < sq_numbits s \<Longrightarrow> j * sq_numbits s + k < 64 * length (sq_data s)"
  by (simp add: in_range_def)

lemma new_Sequence_max: "new_Sequence d len n = Inr s \<Longrightarrow> n < 64 \<Longrightarrow>
    sq_numbits s = n \<and> sq_maxValue s = 2 ^ n - 1 \<and> sq_data s = (case d of None \<Rightarrow> [] | Some ws \<Rightarrow> ws)"
  by (auto simp: new_Sequence_def shl_def push_bit_eq_mult split: if_splits)

text \<open>
  C30. In a sequence of numbers of \<open>n\<close> bits, below 64, setting a number not above the limit
  succeeds, also where its bits cross two words; reading it returns it, and the number at every
  other index is as before.
\<close>

theorem sq_Set_get:
  assumes "new_Sequence (Some ws) len n = Inr s0" and s: "s = s0\<lparr>sq_data := us\<rparr>"
    and n: "0 < n" "n < 64" and r: "in_range s i" "in_range s j" and v: "v \<le> 2 ^ n - 1"
  shows "\<exists>us'. length us' = length us \<and> sq_Set s i v = Inr (s\<lparr>sq_data := us'\<rparr>) \<and>
    sq_get (s\<lparr>sq_data := us'\<rparr>) j = (if j = i then Inr v else sq_get s j)"
proof -
  have nb: "sq_numbits s = n" and mx: "sq_maxValue s = 2 ^ n - 1"
    using new_Sequence_max [OF assms(1) n(2)] by (simp_all add: s)
  obtain us' where set: "sq_Set s i v = Inr (s\<lparr>sq_data := us'\<rparr>)" and len: "length us' = length (sq_data s)"
    and bits: "\<And>p. p < 64 * length us' \<Longrightarrow> sbit us' p =
      (if i * n \<le> p \<and> p < i * n + n then bit v (p - i * n) else sbit (sq_data s) p)"
    by (rule sq_Set_bits [of s i v]) (use n nb mx r v in simp_all)
  let ?s' = "s\<lparr>sq_data := us'\<rparr>"
  have "in_range ?s' j" using r(2) len by (simp add: in_range_def)
  then obtain x where x: "sq_get ?s' j = Inr x" "\<And>k. bit x k \<longleftrightarrow> k < n \<and> sbit us' (j * n + k)"
    by (rule sq_get_bits [of ?s' j, rotated 2]) (use n nb in simp_all)
  obtain y where y: "sq_get s j = Inr y" "\<And>k. bit y k \<longleftrightarrow> k < n \<and> sbit (sq_data s) (j * n + k)"
    by (rule sq_get_bits [of s j]) (use n nb r in simp_all)
  have pos: "j * n + k < 64 * length us'" if "k < n" for k
    using in_range_position [OF r(2)] that by (simp add: nb len)
  have "x = (if j = i then v else y)"
  proof (rule bit_word_eqI)
    fix k
    show "bit x k = bit (if j = i then v else y) k"
      using below_max_bits [OF v n(2)] in_range_disjoint [of i j k n] pos [of k]
      by (auto simp: x(2) y(2) bits)
  qed
  then show ?thesis using set len x(1) y(1) by (auto simp: s)
qed

lemma sq_Set_get_witness:
  "\<exists>us'. length us' = length [0 :: u64, 0] \<and>
    sq_Set \<lparr>sq_data = [0, 0], sq_datalen = 2, sq_numbits = 5, sq_maxValue = 31\<rparr> 12 21 =
      Inr \<lparr>sq_data = us', sq_datalen = 2, sq_numbits = 5, sq_maxValue = 31\<rparr> \<and>
    sq_get \<lparr>sq_data = us', sq_datalen = 2, sq_numbits = 5, sq_maxValue = 31\<rparr> 12 = Inr 21"
  using sq_Set_get [of "[0, 0]" 2 5 "\<lparr>sq_data = [0, 0], sq_datalen = 2, sq_numbits = 5, sq_maxValue = 31\<rparr>"
      "\<lparr>sq_data = [0, 0], sq_datalen = 2, sq_numbits = 5, sq_maxValue = 31\<rparr>" "[0, 0]" 12 12 21]
  by (simp add: new_Sequence_def shl_def WORD_LEN_def in_range_def)

text \<open>
  With 64 bits the constructor accepts the sequence, but the mask is shifted by the width of the word.
\<close>

lemma sq_Set_64_bits:
  "new_Sequence (Some ws) len 64 = Inr s \<Longrightarrow> sq_Set s i v = Inl Bad_shift"
  by (auto simp: new_Sequence_def WORD_LEN_def sq_Set_def shl_def word_le_def not_less simp flip: word_le_def split: if_splits)

lemma new_Sequence_above: "64 < n \<Longrightarrow> new_Sequence d len n = Inl Bad_shift"
  by (simp add: new_Sequence_def shl_def)

end
