(* ===== verification/Byte_Memory.thy ===== *)
theory Byte_Memory
  imports Acts_Prelude
begin

text \<open>
  Memory as a function from addresses to bytes, with little-endian integers in it: what a cast of a
  pointer into a byte array to a pointer to a struct reads and writes.
\<close>

type_synonym bytes = "nat \<Rightarrow> u8"

definition rd :: "nat \<Rightarrow> bytes \<Rightarrow> nat \<Rightarrow> nat" where
  "rd k m a = le_nat (map m [a..<a + k])"

definition wr :: "nat \<Rightarrow> nat \<Rightarrow> nat \<Rightarrow> bytes \<Rightarrow> bytes" where
  "wr k a v m = (\<lambda>p. if a \<le> p \<and> p < a + k then le_bytes k v ! (p - a) else m p)"

definition put_list :: "nat \<Rightarrow> u8 list \<Rightarrow> bytes \<Rightarrow> bytes" where
  "put_list a bs m = (\<lambda>p. if a \<le> p \<and> p < a + length bs then bs ! (p - a) else m p)"

lemma rd_bound: "rd k m a < 256 ^ k"
  using le_nat_bound [of "map m [a..<a + k]"] by (simp add: rd_def)

lemma rd_wr_same [simp]: "rd k (wr k a v m) a = v mod 256 ^ k"
proof -
  have "map (wr k a v m) [a..<a + k] = le_bytes k v" by (rule nth_equalityI) (simp_all add: wr_def)
  then show ?thesis by (simp add: rd_def le_nat_le_bytes)
qed

lemma rd_cong: "(\<And>p. a \<le> p \<Longrightarrow> p < a + k \<Longrightarrow> m p = m' p) \<Longrightarrow> rd k m a = rd k m' a"
  unfolding rd_def by (rule arg_cong [where f = le_nat]) simp

lemma rd_wr_other: "a + k \<le> b \<or> b + l \<le> a \<Longrightarrow> rd k (wr l b v m) a = rd k m a"
  by (rule rd_cong) (auto simp: wr_def)

lemma wr_outside: "p < a \<or> a + k \<le> p \<Longrightarrow> wr k a v m p = m p"
  by (auto simp: wr_def)

lemma put_list_outside: "p < a \<or> a + length bs \<le> p \<Longrightarrow> put_list a bs m p = m p"
  by (auto simp: put_list_def)

end
