(* ===== verification/Static_Allocator.thy ===== *)
theory Static_Allocator
  imports Byte_Memory
begin

text \<open>
  The free-list allocator over an array, \<^verbatim>\<open>MemoryAllocatorStatic\<close> of \<^verbatim>\<open>src/core/shared/core/memory_allocator_static.hpp\<close>,
  with references of 32 bits, as the virtual machine uses it.

  The array is its bytes; a header is 16 bytes of it (\<^verbatim>\<open>prev\<close>, \<^verbatim>\<open>next\<close>, \<^verbatim>\<open>len\<close> and the byte of \<^verbatim>\<open>allocated\<close>). An
  access outside the array is \<open>Inl Bad_ref\<close>. The search for a block follows the links wherever they lead,
  so it is a partial function: a cycle gives \<open>None\<close>.
\<close>

section \<open>Headers in the array\<close>

datatype alloc_error = Not_enough_data | Bad_ref

record salloc =
  sa_len :: nat
  sa_data :: bytes

definition HEADER_SIZE :: nat where
  "HEADER_SIZE = 16"

abbreviation sa_total :: "salloc \<Rightarrow> nat" where
  "sa_total s \<equiv> sa_len s + HEADER_SIZE"

definition hdr_ok :: "salloc \<Rightarrow> nat \<Rightarrow> bool" where
  "hdr_ok s a \<longleftrightarrow> a + HEADER_SIZE \<le> sa_total s"

definition h_prev :: "salloc \<Rightarrow> nat \<Rightarrow> nat" where "h_prev s a = rd 4 (sa_data s) a"
definition h_next :: "salloc \<Rightarrow> nat \<Rightarrow> nat" where "h_next s a = rd 4 (sa_data s) (a + 4)"
definition h_len :: "salloc \<Rightarrow> nat \<Rightarrow> nat" where "h_len s a = rd 4 (sa_data s) (a + 8)"
definition h_used :: "salloc \<Rightarrow> nat \<Rightarrow> bool" where "h_used s a \<longleftrightarrow> sa_data s (a + 12) \<noteq> 0"

definition set_prev :: "nat \<Rightarrow> nat \<Rightarrow> salloc \<Rightarrow> salloc" where
  "set_prev a v s = s\<lparr>sa_data := wr 4 a v (sa_data s)\<rparr>"

definition set_next :: "nat \<Rightarrow> nat \<Rightarrow> salloc \<Rightarrow> salloc" where
  "set_next a v s = s\<lparr>sa_data := wr 4 (a + 4) v (sa_data s)\<rparr>"

definition set_len :: "nat \<Rightarrow> nat \<Rightarrow> salloc \<Rightarrow> salloc" where
  "set_len a v s = s\<lparr>sa_data := wr 4 (a + 8) v (sa_data s)\<rparr>"

definition set_used :: "nat \<Rightarrow> bool \<Rightarrow> salloc \<Rightarrow> salloc" where
  "set_used a b s = s\<lparr>sa_data := (sa_data s)(a + 12 := (if b then 1 else 0))\<rparr>"

section \<open>Operations\<close>

definition new_allocator :: "nat \<Rightarrow> salloc" where
  "new_allocator len =
     (let s = \<lparr>sa_len = len, sa_data = \<lambda>p. 0\<rparr> in set_used 0 False (set_len 0 len (set_next 0 0 (set_prev 0 0 s))))"

partial_function (option) find_free :: "salloc \<Rightarrow> nat \<Rightarrow> nat \<Rightarrow> (alloc_error + nat) option" where
  "find_free s len h =
     (if \<not> hdr_ok s h then Some (Inl Bad_ref)
      else if h_used s h \<or> h_len s h < len then
        (if h_next s h = 0 then Some (Inl Not_enough_data) else find_free s len (h_next s h))
      else Some (Inr h))"

declare find_free.simps [code]

definition claim :: "salloc \<Rightarrow> nat \<Rightarrow> nat \<Rightarrow> salloc" where
  "claim s0 h len =
     (let s = set_used h True s0; ptr = h + HEADER_SIZE
      in if len + HEADER_SIZE < h_len s h then
           let nx = ptr + len;
               s = set_prev nx h s;
               s = set_next nx (h_next s h) s;
               s = set_len nx (h_len s h - len - HEADER_SIZE) s;
               s = set_next h nx s
           in set_len h len s
         else s)"

definition AllocRef :: "salloc \<Rightarrow> nat \<Rightarrow> (alloc_error + salloc \<times> nat) option" where
  "AllocRef s len =
     map_option (\<lambda>r. ebind r (\<lambda>h. Inr (claim s h len, h + HEADER_SIZE))) (find_free s len 0)"

definition merge_next :: "salloc \<Rightarrow> nat \<Rightarrow> alloc_error + salloc" where
  "merge_next s h =
     (if h_next s h = 0 then Inr s
      else let nh = h_next s h
        in ebind (guard_or Bad_ref (hdr_ok s nh)) (\<lambda>_.
           if h_used s nh then Inr s
           else ebind (if h_next s nh = 0 then Inr s
               else ebind (guard_or Bad_ref (hdr_ok s (h_next s nh))) (\<lambda>_. Inr (set_prev (h_next s nh) h s)))
             (\<lambda>s. let s = set_len h (h_len s h + h_len s nh) s in Inr (set_next h (h_next s nh) s))))"

definition merge_prev :: "salloc \<Rightarrow> nat \<Rightarrow> alloc_error + salloc" where
  "merge_prev s h =
     (if h_prev s h = 0 then Inr s
      else let ph = h_prev s h
        in ebind (guard_or Bad_ref (hdr_ok s ph)) (\<lambda>_.
           if h_used s ph then Inr s
           else let s = set_next ph (h_next s h) s in Inr (set_len ph (h_len s ph + h_len s h) s)))"

definition FreeRef :: "salloc \<Rightarrow> nat \<Rightarrow> alloc_error + salloc" where
  "FreeRef s ref =
     ebind (guard_or Bad_ref (HEADER_SIZE \<le> ref \<and> hdr_ok s (ref - HEADER_SIZE))) (\<lambda>_.
     let h = ref - HEADER_SIZE
     in ebind (merge_next (set_used h False s) h) (\<lambda>s. merge_prev s h))"

text \<open>\<^verbatim>\<open>Alloc(const std::string&)\<close>: room for the terminator, but only the characters are copied.\<close>

definition Alloc_string :: "salloc \<Rightarrow> u8 list \<Rightarrow> (alloc_error + salloc \<times> nat) option" where
  "Alloc_string s str =
     map_option (\<lambda>r. ebind r (\<lambda>(s', ref). Inr (s'\<lparr>sa_data := put_list ref str (sa_data s')\<rparr>, ref)))
       (AllocRef s (length str + 1))"

section \<open>Reading back a written header\<close>

definition apart :: "nat \<Rightarrow> nat \<Rightarrow> bool" where
  "apart a b \<longleftrightarrow> a + 16 \<le> b \<or> b + 16 \<le> a"

lemmas header_defs = h_prev_def h_next_def h_len_def h_used_def set_prev_def set_next_def set_len_def set_used_def

lemma header_same [simp]:
  "h_next (set_prev a v s) a = h_next s a" "h_len (set_prev a v s) a = h_len s a" "h_used (set_prev a v s) a = h_used s a"
  "h_next (set_next a v s) a = v mod 2 ^ 32" "h_len (set_next a v s) a = h_len s a" "h_used (set_next a v s) a = h_used s a"
  "h_next (set_len a v s) a = h_next s a" "h_len (set_len a v s) a = v mod 2 ^ 32" "h_used (set_len a v s) a = h_used s a"
  "h_next (set_used a b s) a = h_next s a" "h_len (set_used a b s) a = h_len s a" "h_used (set_used a b s) a = b"
  "h_prev (set_prev a v s) a = v mod 2 ^ 32" "h_prev (set_next a v s) a = h_prev s a" "h_prev (set_len a v s) a = h_prev s a"
  "h_prev (set_used a b s) a = h_prev s a"
  by (auto simp: header_defs rd_wr_other wr_outside intro!: rd_cong)

lemma header_other [simp]:
  assumes "apart a c"
  shows "h_next (set_prev a v s) c = h_next s c" "h_len (set_prev a v s) c = h_len s c" "h_used (set_prev a v s) c = h_used s c"
    "h_next (set_next a v s) c = h_next s c" "h_len (set_next a v s) c = h_len s c" "h_used (set_next a v s) c = h_used s c"
    "h_next (set_len a v s) c = h_next s c" "h_len (set_len a v s) c = h_len s c" "h_used (set_len a v s) c = h_used s c"
    "h_next (set_used a b s) c = h_next s c" "h_len (set_used a b s) c = h_len s c" "h_used (set_used a b s) c = h_used s c"
    "h_prev (set_prev a v s) c = h_prev s c" "h_prev (set_next a v s) c = h_prev s c" "h_prev (set_len a v s) c = h_prev s c"
    "h_prev (set_used a b s) c = h_prev s c"
  using assms by (auto simp: apart_def header_defs rd_wr_other wr_outside intro!: rd_cong)

lemma set_total [simp]:
  "sa_len (set_prev a v s) = sa_len s" "sa_len (set_next a v s) = sa_len s"
  "sa_len (set_len a v s) = sa_len s" "sa_len (set_used a b s) = sa_len s"
  by (simp_all add: header_defs)

lemma set_outside:
  assumes "p < a \<or> a + 16 \<le> p"
  shows "sa_data (set_prev a v s) p = sa_data s p" "sa_data (set_next a v s) p = sa_data s p"
    "sa_data (set_len a v s) p = sa_data s p" "sa_data (set_used a b s) p = sa_data s p"
  using assms by (auto simp: header_defs wr_outside)

lemma h_bound: "h_prev s a < 2 ^ 32" "h_next s a < 2 ^ 32" "h_len s a < 2 ^ 32"
  using rd_bound [of 4] by (simp_all add: header_defs)

section \<open>The chain of blocks\<close>

text \<open>
  The headers of a heap, from the one at 0: each is followed by its bytes and then, not necessarily at
  once, by the next header; the last one names no next header and ends before the end of the array.
\<close>

definition nx_link :: "salloc \<Rightarrow> nat \<Rightarrow> nat \<Rightarrow> bool" where
  "nx_link s a b \<longleftrightarrow> h_next s a = (if b = sa_total s then 0 else b) \<and> a + HEADER_SIZE + h_len s a \<le> b"

fun first :: "nat list \<Rightarrow> nat \<Rightarrow> nat" where
  "first [] e = e"
| "first (a # as) e = a"

fun chain :: "salloc \<Rightarrow> nat list \<Rightarrow> nat \<Rightarrow> bool" where
  "chain s [] e \<longleftrightarrow> True"
| "chain s (a # as) e \<longleftrightarrow> nx_link s a (first as e) \<and> chain s as e"

definition heap :: "salloc \<Rightarrow> nat list \<Rightarrow> bool" where
  "heap s as \<longleftrightarrow> first as 1 = 0 \<and> chain s as (sa_total s) \<and> sa_total s \<le> 2 ^ 32"

text \<open>The regions in use: where the bytes of an allocated block start, and how many there are.\<close>

definition live :: "salloc \<Rightarrow> nat list \<Rightarrow> (nat \<times> nat) set" where
  "live s as = {(a + HEADER_SIZE, h_len s a) | a. a \<in> set as \<and> h_used s a}"

definition in_live :: "salloc \<Rightarrow> nat list \<Rightarrow> nat \<Rightarrow> bool" where
  "in_live s as p \<longleftrightarrow> (\<exists>(r, l) \<in> live s as. r \<le> p \<and> p < r + l)"

lemma first_append [simp]: "first (xs @ ys) e = first xs (first ys e)"
  by (cases xs) simp_all

lemma chain_append [simp]: "chain s (xs @ ys) e \<longleftrightarrow> chain s xs (first ys e) \<and> chain s ys e"
  by (induction xs) auto

lemma chain_bounds: "chain s as e \<Longrightarrow> first as e \<le> e \<and> (\<forall>a \<in> set as. first as e \<le> a \<and> a + 16 + h_len s a \<le> e)"
  by (induction as) (auto simp: nx_link_def HEADER_SIZE_def; fastforce)+

lemma chain_cong:
  assumes "\<And>a. a \<in> set as \<Longrightarrow> h_next s' a = h_next s a \<and> h_len s' a = h_len s a" "sa_len s' = sa_len s"
  shows "chain s' as e = chain s as e"
  using assms(1) by (induction as) (auto simp: nx_link_def assms(2))

lemma split_chain:
  assumes "heap s (pre @ h # post)"
  shows "chain s pre h" "nx_link s h (first post (sa_total s))" "chain s post (sa_total s)" "sa_total s \<le> 2 ^ 32"
    and "\<And>a. a \<in> set pre \<Longrightarrow> a + 16 + h_len s a \<le> h"
    and "\<And>a. a \<in> set post \<Longrightarrow> h + 16 + h_len s h \<le> a"
    and "h + 16 + h_len s h \<le> sa_total s"
    and "first (pre @ [h]) 1 = 0"
    and "\<And>a. a \<in> set post \<Longrightarrow> a + 16 + h_len s a \<le> sa_total s"
    and "post \<noteq> [] \<Longrightarrow> first post (sa_total s) < sa_total s"
    and "h + 16 + h_len s h \<le> first post (sa_total s)"
    and "\<And>a. a \<in> set pre \<Longrightarrow> apart h a \<and> apart a h" "\<And>a. a \<in> set post \<Longrightarrow> apart h a \<and> apart a h"
proof -
  show c: "chain s pre h" "nx_link s h (first post (sa_total s))" "chain s post (sa_total s)" "sa_total s \<le> 2 ^ 32"
    "first (pre @ [h]) 1 = 0"
    using assms by (simp_all add: heap_def)
  note b = chain_bounds [OF c(1)] chain_bounds [OF c(3)]
  show pre: "\<And>a. a \<in> set pre \<Longrightarrow> a + 16 + h_len s a \<le> h" using b(1) by blast
  show h: "h + 16 + h_len s h \<le> first post (sa_total s)" using c(2) by (simp add: nx_link_def HEADER_SIZE_def)
  show post: "\<And>a. a \<in> set post \<Longrightarrow> h + 16 + h_len s h \<le> a" using b(2) h le_trans by blast
  show "h + 16 + h_len s h \<le> sa_total s" using b(2) h by linarith
  show "\<And>a. a \<in> set post \<Longrightarrow> a + 16 + h_len s a \<le> sa_total s" using b(2) by blast
  then show "first post (sa_total s) < sa_total s" if "post \<noteq> []" using that by (cases post) fastforce+
  show "\<And>a. a \<in> set pre \<Longrightarrow> apart h a \<and> apart a h" using pre by (fastforce simp: apart_def)
  show "\<And>a. a \<in> set post \<Longrightarrow> apart h a \<and> apart a h" using post by (fastforce simp: apart_def)
qed

lemma link_next_zero: "nx_link s a (first post (sa_total s)) \<Longrightarrow> chain s post (sa_total s) \<Longrightarrow> h_next s a = 0 \<longleftrightarrow> post = []"
  using chain_bounds [of s post "sa_total s"] by (cases post) (fastforce simp: nx_link_def HEADER_SIZE_def)+

lemma live_append: "live s (xs @ ys) = live s xs \<union> live s ys"
  by (auto simp: live_def)

lemma live_Cons: "live s (a # as) = (if h_used s a then {(a + HEADER_SIZE, h_len s a)} else {}) \<union> live s as"
  by (auto simp: live_def)

lemma live_cong: "(\<And>a. a \<in> set as \<Longrightarrow> h_used s' a = h_used s a \<and> h_len s' a = h_len s a) \<Longrightarrow> live s' as = live s as"
  by (auto simp: live_def)

text \<open>A header is never inside the bytes of a block.\<close>

lemma live_not_in_header:
  assumes "heap s as" "in_live s as p" "h \<in> set as"
  shows "p < h \<or> h + 16 \<le> p"
proof -
  obtain a where a: "a \<in> set as" "a + 16 \<le> p" "p < a + 16 + h_len s a"
    using assms(2) by (auto simp: in_live_def live_def HEADER_SIZE_def)
  obtain pre post where as: "as = pre @ a # post" using a(1) split_list by fastforce
  note c = split_chain [of s pre a post, folded as, OF assms(1)]
  from assms(3) consider "h \<in> set pre" | "h = a" | "h \<in> set post" by (auto simp: as)
  then show ?thesis
  proof cases
    case 1 then show ?thesis using c(5) [OF 1] a by linarith
  next
    case 3 then show ?thesis using c(6) [OF 3] a by linarith
  qed (use a in auto)
qed

section \<open>Allocating is first fit\<close>

lemma find_free_spec:
  assumes "chain s as (sa_total s)" "as \<noteq> []" "sa_total s \<le> 2 ^ 32"
  shows "case dropWhile (\<lambda>a. h_used s a \<or> h_len s a < n) as of
      [] \<Rightarrow> find_free s n (hd as) = Some (Inl Not_enough_data)
    | h # post \<Rightarrow> find_free s n (hd as) = Some (Inr h)"
  using assms
proof (induction as)
  case (Cons a as)
  note b = chain_bounds [OF Cons.prems(1)]
  have ok: "hdr_ok s a" using b by (auto simp: hdr_ok_def HEADER_SIZE_def)
  have l: "nx_link s a (first as (sa_total s))" "chain s as (sa_total s)" using Cons.prems(1) by simp_all
  show ?case
  proof (cases "h_used s a \<or> h_len s a < n")
    case True
    show ?thesis
    proof (cases as)
      case Nil
      then show ?thesis using True ok link_next_zero [OF l] by (subst find_free.simps) simp
    next
      case (Cons a' as')
      then have "h_next s a \<noteq> 0" using link_next_zero [OF l] by simp
      moreover from this have "h_next s a = a'" using l Cons by (auto simp: nx_link_def split: if_splits)
      ultimately have "find_free s n a = find_free s n a'" using True ok by (subst find_free.simps) simp
      moreover have "as \<noteq> []" "hd as = a'" by (simp_all add: Cons)
      ultimately show ?thesis
        using Cons.IH [OF l(2) \<open>as \<noteq> []\<close> Cons.prems(3)] True by (simp split: list.splits del: dropWhile_eq_Nil_conv)
    qed
  next
    case False
    then show ?thesis using ok by (subst find_free.simps) simp
  qed
qed simp

lemma claim_heap:
  assumes hp: "heap s (pre @ h # post)" and n: "n \<le> h_len s h" and u: "\<not> h_used s h"
  defines "nx \<equiv> h + HEADER_SIZE + n"
  defines "s' \<equiv> claim s h n"
  obtains "\<not> n + HEADER_SIZE < h_len s h" "heap s' (pre @ h # post)"
      "live s' (pre @ h # post) = insert (h + HEADER_SIZE, h_len s h) (live s (pre @ h # post))"
      "\<And>p. p < h \<or> h + 16 \<le> p \<Longrightarrow> sa_data s' p = sa_data s p"
      "sa_len s' = sa_len s"
    | "n + HEADER_SIZE < h_len s h" "heap s' (pre @ h # nx # post)"
      "live s' (pre @ h # nx # post) = insert (h + HEADER_SIZE, n) (live s (pre @ h # post)) \<union>
        (if sa_data s (nx + 12) = 0 then {} else {(nx + HEADER_SIZE, h_len s h - n - HEADER_SIZE)})"
      "\<And>p. p < h \<or> h + 16 \<le> p \<and> p < nx \<or> nx + 16 \<le> p \<Longrightarrow> sa_data s' p = sa_data s p"
      "sa_len s' = sa_len s"
proof -
  note c = split_chain [OF hp]
  have t: "sa_total s = sa_len s + 16" by (simp add: HEADER_SIZE_def)
  show thesis
  proof (cases "n + HEADER_SIZE < h_len s h")
    case False
    then have s': "s' = set_used h True s" by (simp add: s'_def claim_def Let_def)
    have same: "h_next s' a = h_next s a" "h_len s' a = h_len s a" "a \<noteq> h \<Longrightarrow> h_used s' a = h_used s a" 
      if "a \<in> set (pre @ h # post)" for a using that c(12,13) by (auto simp: s')
    have "heap s' (pre @ h # post)"
      using hp chain_cong [of "pre @ h # post" s' s] same by (simp add: heap_def s')
    moreover have "live s' (pre @ h # post) = insert (h + HEADER_SIZE, h_len s h) (live s (pre @ h # post))"
    proof -
      have "live s' pre = live s pre" "live s' post = live s post"
        using c(12,13) by (auto intro!: live_cong simp: s')
      then show ?thesis by (simp add: live_append live_Cons s' u)
    qed
    ultimately show thesis using that(1) [OF False] set_outside by (simp add: s')
  next
    case True
    have ap: "apart nx h" "apart h nx" by (simp_all add: nx_def apart_def HEADER_SIZE_def)
    have nx: "nx + 16 < h + 16 + h_len s h" using True by (simp add: nx_def HEADER_SIZE_def)
    then have big: "nx < 2 ^ 32" "n < 2 ^ 32" "h_len s h - n - HEADER_SIZE < 2 ^ 32" "h < 2 ^ 32" "h_next s h < 2 ^ 32"
      using c(4,7) h_bound(2) [of s h] by (simp_all add: nx_def HEADER_SIZE_def)
    have s': "s' = set_len h n (set_next h nx (set_len nx (h_len s h - n - HEADER_SIZE) (set_next nx (h_next s h)
        (set_prev nx h (set_used h True s)))))"
      using True ap by (simp add: s'_def claim_def Let_def nx_def)
    have at_h: "h_next s' h = nx" "h_len s' h = n" "h_used s' h"
      using ap big by (simp_all add: s')
    have used_nx: "h_used s' nx \<longleftrightarrow> sa_data s (nx + 12) \<noteq> 0"
      using ap by (simp add: s') (simp add: h_used_def)
    have at_nx: "h_next s' nx = h_next s h" "h_len s' nx = h_len s h - n - HEADER_SIZE"
      using ap big by (simp_all add: s')
    have far: "apart h a \<and> apart nx a" if "a \<in> set pre \<or> a \<in> set post" for a
    proof (cases "a \<in> set pre")
      case True
      then show ?thesis using c(5) [OF True] c(12) [OF True] by (simp add: nx_def apart_def HEADER_SIZE_def)
    next
      case False
      then have "a \<in> set post" using that by simp
      then show ?thesis using c(6,13) nx by (fastforce simp: apart_def)
    qed
    have other: "h_next s' a = h_next s a" "h_len s' a = h_len s a" "h_used s' a = h_used s a"
      if "a \<in> set pre \<or> a \<in> set post" for a using far [OF that] by (simp_all add: s')
    have len: "sa_len s' = sa_len s" by (simp add: s')
    have "chain s' pre h" "chain s' post (sa_total s)"
      using c(1,3) chain_cong [of pre s' s h] chain_cong [of post s' s] other by (simp_all add: len)
    moreover have "nx_link s' nx (first post (sa_total s))"
      using c(2) nx c(11) unfolding nx_link_def at_nx len by (simp add: HEADER_SIZE_def nx_def)
    moreover have "nx_link s' h nx"
      using nx c(7) unfolding nx_link_def at_h len by (simp add: HEADER_SIZE_def nx_def)
    ultimately have "heap s' (pre @ h # nx # post)"
      using c(8,4) by (cases pre) (simp_all add: heap_def len)
    moreover have "live s' (pre @ h # nx # post) = insert (h + HEADER_SIZE, n) (live s (pre @ h # post)) \<union>
        (if sa_data s (nx + 12) = 0 then {} else {(nx + HEADER_SIZE, h_len s h - n - HEADER_SIZE)})"
    proof -
      have "live s' pre = live s pre" "live s' post = live s post" using other by (auto intro!: live_cong)
      then show ?thesis by (simp add: live_append live_Cons at_h at_nx used_nx u)
    qed
    moreover have "sa_data s' p = sa_data s p" if "p < h \<or> h + 16 \<le> p \<and> p < nx \<or> nx + 16 \<le> p" for p
    proof -
      have "p < h \<or> h + 16 \<le> p" "p < nx \<or> nx + 16 \<le> p" using that by (auto simp: nx_def HEADER_SIZE_def)
      then show ?thesis by (simp add: s' set_outside)
    qed
    ultimately show thesis using that(2) [OF True] len by blast
  qed
qed

text \<open>
  On a heap allocation is first fit: it refuses exactly when no free block is long enough, otherwise
  it takes the first one. The region handed out lies in the array, is as long as asked for, is apart
  from every region in use, and the bytes of those are kept.
\<close>

lemma AllocRef_first_fit:
  assumes hp: "heap s as"
  shows "case dropWhile (\<lambda>a. h_used s a \<or> h_len s a < n) as of
      [] \<Rightarrow> AllocRef s n = Some (Inl Not_enough_data)
    | h # _ \<Rightarrow> \<exists>s' as' l. AllocRef s n = Some (Inr (s', h + HEADER_SIZE)) \<and> heap s' as' \<and> n \<le> l \<and>
        h + HEADER_SIZE + l \<le> sa_total s \<and>
        (h + HEADER_SIZE, l) \<in> live s' as' \<and> live s as \<subseteq> live s' as' \<and>
        (\<forall>(r, k) \<in> live s as. r + k \<le> h + HEADER_SIZE \<or> h + HEADER_SIZE + l \<le> r) \<and>
        (\<forall>p. in_live s as p \<longrightarrow> sa_data s' p = sa_data s p)"
proof -
  let ?P = "\<lambda>a. h_used s a \<or> h_len s a < n"
  have ne: "as \<noteq> []" "hd as = 0" using hp by (cases as; simp add: heap_def)+
  note ff = find_free_spec [of s as n]
  have c: "chain s as (sa_total s)" "sa_total s \<le> 2 ^ 32" using hp by (simp_all add: heap_def)
  show ?thesis
  proof (cases "dropWhile ?P as")
    case Nil
    then show ?thesis using ff [OF c(1) ne(1) c(2)] ne(2)
      by (simp add: AllocRef_def del: dropWhile_eq_Nil_conv)
  next
    case (Cons h post)
    then obtain pre where as: "as = pre @ h # post" by (metis takeWhile_dropWhile_id)
    have nP: "\<not> h_used s h" "n \<le> h_len s h" using Cons hd_dropWhile [of ?P as] by auto
    have alloc: "AllocRef s n = Some (Inr (claim s h n, h + HEADER_SIZE))"
      using ff [OF c(1) ne(1) c(2)] Cons ne(2) by (simp add: AllocRef_def)
    note sp = split_chain [OF hp [unfolded as]]
    have hdr: "p < h \<or> h + 16 \<le> p" if "in_live s as p" for p
      by (rule live_not_in_header [OF hp that]) (simp add: as)
    have far: "r + k \<le> h + HEADER_SIZE \<or> h + HEADER_SIZE + h_len s h \<le> r" "r + k \<le> h \<or> h + 16 + h_len s h \<le> r"
      if live: "(r, k) \<in> live s as" for r k
    proof -
      obtain a where "a \<in> set pre \<or> a \<in> set post" "r = a + 16" "k = h_len s a"
        using live nP(1) by (auto simp: live_def as HEADER_SIZE_def)
      then show "r + k \<le> h \<or> h + 16 + h_len s h \<le> r" using sp(5,6) by force
      then show "r + k \<le> h + HEADER_SIZE \<or> h + HEADER_SIZE + h_len s h \<le> r" by (auto simp: HEADER_SIZE_def)
    qed
    obtain s' as' l where r: "claim s h n = s'" "heap s' as'" "n \<le> l" "l \<le> h_len s h"
      "(h + HEADER_SIZE, l) \<in> live s' as'" "live s as \<subseteq> live s' as'"
      "\<And>p. in_live s as p \<Longrightarrow> sa_data s' p = sa_data s p"
    proof (rule claim_heap [OF hp [unfolded as] nP(2,1)])
      assume "heap (claim s h n) (pre @ h # post)"
        "live (claim s h n) (pre @ h # post) = insert (h + HEADER_SIZE, h_len s h) (live s (pre @ h # post))"
        "\<And>p. p < h \<or> h + 16 \<le> p \<Longrightarrow> sa_data (claim s h n) p = sa_data s p"
      then show thesis using that [OF refl, of "pre @ h # post" "h_len s h"] nP(2) hdr by (auto simp: as)
    next
      let ?nx = "h + HEADER_SIZE + n"
      assume a: "n + HEADER_SIZE < h_len s h" "heap (claim s h n) (pre @ h # ?nx # post)"
        "live (claim s h n) (pre @ h # ?nx # post) = insert (h + HEADER_SIZE, n) (live s (pre @ h # post)) \<union>
          (if sa_data s (?nx + 12) = 0 then {} else {(?nx + HEADER_SIZE, h_len s h - n - HEADER_SIZE)})"
        "\<And>p. p < h \<or> h + 16 \<le> p \<and> p < ?nx \<or> ?nx + 16 \<le> p \<Longrightarrow> sa_data (claim s h n) p = sa_data s p"
      have "sa_data (claim s h n) p = sa_data s p" if il: "in_live s as p" for p
      proof -
        obtain r k where rk: "(r, k) \<in> live s as" "r \<le> p" "p < r + k" using il by (auto simp: in_live_def)
        have "p < h \<or> h + 16 + h_len s h \<le> p" using far(2) [OF rk(1)] rk(2,3) by linarith
        then show ?thesis using a(1) by (intro a(4)) (auto simp: HEADER_SIZE_def)
      qed
      then show thesis using that [OF refl a(2), of n] nP(2) a(3) by (auto simp: as)
    qed
    have "r + k \<le> h + HEADER_SIZE \<or> h + HEADER_SIZE + l \<le> r" if "(r, k) \<in> live s as" for r k
      using far(1) [OF that] r(4) by linarith
    moreover have "h + HEADER_SIZE + l \<le> sa_total s" using sp(7) r(4) by (simp add: HEADER_SIZE_def)
    ultimately show ?thesis using alloc r Cons by auto
  qed
qed

section \<open>Freeing\<close>

lemma first_in: "xs \<noteq> [] \<Longrightarrow> first xs e = hd xs"
  by (cases xs) simp_all




lemma new_allocator_heap: "len + HEADER_SIZE \<le> 2 ^ 32 \<Longrightarrow> heap (new_allocator len) [0]"
  by (simp add: heap_def nx_link_def new_allocator_def Let_def HEADER_SIZE_def)

lemma new_allocator_free: "\<not> h_used (new_allocator len) 0 \<and> live (new_allocator len) [0] = {} \<and>
    (len < 2 ^ 32 \<longrightarrow> h_len (new_allocator len) 0 = len)"
  by (simp add: live_def new_allocator_def Let_def)

section \<open>Clients\<close>

text \<open>
  A client allocates, writes inside the regions it holds, and gives regions back. The regions it holds
  are a list of references and lengths; \<open>None\<close> when the client is refused or steps outside them.
\<close>

datatype client_call = Get_region nat | Put_bytes nat nat "u8 list" | Give_back nat

definition client_step :: "client_call \<Rightarrow> salloc \<times> (nat \<times> nat) list \<Rightarrow> (salloc \<times> (nat \<times> nat) list) option" where
  "client_step c = (\<lambda>(s, held).
     case c of
       Get_region n \<Rightarrow> (case AllocRef s n of Some (Inr (s', r)) \<Rightarrow> Some (s', held @ [(r, n)]) | _ \<Rightarrow> None)
     | Put_bytes i off bs \<Rightarrow>
         (if i < length held \<and> off + length bs \<le> snd (held ! i)
          then Some (s\<lparr>sa_data := put_list (fst (held ! i) + off) bs (sa_data s)\<rparr>, held) else None)
     | Give_back i \<Rightarrow>
         (if i < length held
          then (case FreeRef s (fst (held ! i)) of Inr s' \<Rightarrow> Some (s', take i held @ drop (i + 1) held) | Inl _ \<Rightarrow> None)
          else None))"

fun client_run :: "client_call list \<Rightarrow> salloc \<times> (nat \<times> nat) list \<Rightarrow> (salloc \<times> (nat \<times> nat) list) option" where
  "client_run [] x = Some x"
| "client_run (c # cs) x = (case client_step c x of None \<Rightarrow> None | Some y \<Rightarrow> client_run cs y)"

definition regions_apart :: "(nat \<times> nat) list \<Rightarrow> bool" where
  "regions_apart rs \<longleftrightarrow> sorted_wrt (\<lambda>(r, k) (r', k'). r + k \<le> r' \<or> r' + k' \<le> r) rs"

fun gives_back :: "client_call \<Rightarrow> bool" where
  "gives_back (Give_back i) = True"
| "gives_back _ = False"

lemma heap_put:
  assumes hp: "heap s as" and live: "(r, l) \<in> live s as" and len: "off + length bs \<le> l"
  defines "s' \<equiv> s\<lparr>sa_data := put_list (r + off) bs (sa_data s)\<rparr>"
  shows "heap s' as" "live s' as = live s as"
proof -
  have out: "sa_data s' p = sa_data s p" if "a \<in> set as" "a \<le> p" "p < a + 16" for a p
  proof -
    have "\<not> (r + off \<le> p \<and> p < r + off + length bs)"
    proof
      assume "r + off \<le> p \<and> p < r + off + length bs"
      then have "r \<le> p" "p < r + l" using len by linarith+
      then have "in_live s as p" using live unfolding in_live_def by blast
      from live_not_in_header [OF hp this that(1)] show False using that(2,3) by linarith
    qed
    then show ?thesis by (auto simp: s'_def put_list_def)
  qed
  have same: "h_next s' a = h_next s a" "h_len s' a = h_len s a" "h_used s' a = h_used s a" if "a \<in> set as" for a
  proof -
    show "h_next s' a = h_next s a" unfolding h_next_def by (rule rd_cong) (rule out [OF that]; simp)
    show "h_len s' a = h_len s a" unfolding h_len_def by (rule rd_cong) (rule out [OF that]; simp)
    show "h_used s' a = h_used s a" unfolding h_used_def using out [OF that, of "a + 12"] by simp
  qed
  show "heap s' as" using hp chain_cong [of as s' s] same by (simp add: heap_def s'_def)
  show "live s' as = live s as" using same by (intro live_cong) simp
qed

definition client_inv :: "nat \<Rightarrow> salloc \<times> (nat \<times> nat) list \<Rightarrow> bool" where
  "client_inv len = (\<lambda>(s, held). sa_len s = len \<and> regions_apart held \<and> (\<exists>as. heap s as \<and>
     (\<forall>(r, n) \<in> set held. \<exists>l \<ge> n. (r, l) \<in> live s as)))"

lemma claim_len [simp]: "sa_len (claim s h n) = sa_len s"
  by (simp add: claim_def Let_def)

lemma live_in_array: "heap s as \<Longrightarrow> (r, l) \<in> live s as \<Longrightarrow> r + l \<le> sa_total s"
  using chain_bounds [of s as "sa_total s"] by (auto simp: heap_def live_def HEADER_SIZE_def add.commute)

lemma client_step_inv:
  assumes inv: "client_inv len (s, held)" and st: "client_step c (s, held) = Some y" and "\<not> gives_back c"
  shows "client_inv len y"
proof -
  obtain as where hp: "heap s as" and held: "\<And>r n. (r, n) \<in> set held \<Longrightarrow> \<exists>l \<ge> n. (r, l) \<in> live s as"
    and apart: "regions_apart held" and len: "sa_len s = len"
    using inv unfolding client_inv_def by blast
  show ?thesis
  proof (cases c)
    case (Get_region n)
    obtain s' r where a: "AllocRef s n = Some (Inr (s', r))" and y: "y = (s', held @ [(r, n)])"
      using st unfolding Get_region client_step_def by (auto split: option.splits sum.splits)
    obtain h post where dw: "dropWhile (\<lambda>a. h_used s a \<or> h_len s a < n) as = h # post"
      using AllocRef_first_fit [OF hp, of n] a by (auto split: list.splits)
    obtain as' l where r: "heap s' as'" "n \<le> l" "(r, l) \<in> live s' as'" "live s as \<subseteq> live s' as'"
      "\<forall>(r', k) \<in> live s as. r' + k \<le> r \<or> r + l \<le> r'"
      using AllocRef_first_fit [OF hp, of n] unfolding dw by (auto simp: a)
    have far: "r' + k \<le> r \<or> r + n \<le> r'" if rk: "(r', k) \<in> set held" for r' k
    proof -
      obtain l' where "k \<le> l'" "(r', l') \<in> live s as" using held [OF rk] by blast
      then have "r' + l' \<le> r \<or> r + l \<le> r'" using r(5) by blast
      then show ?thesis using \<open>k \<le> l'\<close> r(2) by linarith
    qed
    have "regions_apart (held @ [(r, n)])"
      using apart far by (auto simp: regions_apart_def sorted_wrt_append)
    moreover have "\<exists>l \<ge> n'. (r', l) \<in> live s' as'" if "(r', n') \<in> set (held @ [(r, n)])" for r' n'
      using that held [of r' n'] r(2,3,4) by auto
    moreover have "sa_len s' = len" using a len by (auto simp: AllocRef_def ebind_eq_Inr_iff)
    ultimately show ?thesis using r(1) unfolding y client_inv_def by blast
  next
    case (Put_bytes i off bs)
    then have i: "i < length held" "off + length bs \<le> snd (held ! i)"
      and y: "y = (s\<lparr>sa_data := put_list (fst (held ! i) + off) bs (sa_data s)\<rparr>, held)"
      using st by (auto simp: client_step_def split: if_splits)
    have "(fst (held ! i), snd (held ! i)) \<in> set held" using i(1) by simp
    then obtain l where l: "snd (held ! i) \<le> l" "(fst (held ! i), l) \<in> live s as" using held by blast
    note put = heap_put [OF hp l(2), of off bs]
    have "off + length bs \<le> l" using i(2) l(1) by linarith
    then show ?thesis using put held apart len unfolding y client_inv_def by auto
  qed (use assms(3) in simp)
qed

text \<open>
  C35. As long as a client gives nothing back, whatever it allocates and writes, the regions it
  was handed lie in the array and none overlaps another. With \<^verbatim>\<open>FreeRef\<close> this fails: after the nine calls of
  the second part the client holds two regions that share 32 bytes.
\<close>

theorem regions_apart_until_freed:
  "(client_run cs (new_allocator len, []) = Some (s, held) \<longrightarrow> len + HEADER_SIZE \<le> 2 ^ 32 \<longrightarrow> (\<forall>c \<in> set cs. \<not> gives_back c) \<longrightarrow>
     regions_apart held \<and> (\<forall>(r, n) \<in> set held. r + n \<le> len + HEADER_SIZE)) \<and>
   map_option snd (client_run [Get_region 16, Get_region 64, Get_region 16, Give_back 1, Get_region 16, Get_region 32,
       Give_back 2, Give_back 1, Get_region 64] (new_allocator 256, [])) = Some [(16, 16), (80, 32), (48, 64)]"
proof -
  have run: "client_inv len y" if "client_run cs x = Some y" "client_inv len x" "\<forall>c \<in> set cs. \<not> gives_back c" for x y
    using that
  proof (induction cs x rule: client_run.induct)
    case (2 c cs x)
    obtain x' where x': "client_step c x = Some x'" "client_run cs x' = Some y"
      using "2.prems"(1) by (auto split: option.splits)
    have "client_inv len x'" using client_step_inv [of len "fst x" "snd x" c x'] x'(1) "2.prems" by simp
    then show ?case using "2.IH" [OF x'(1) x'(2)] "2.prems"(3) by simp
  qed simp
  have "regions_apart held \<and> (\<forall>(r, n) \<in> set held. r + n \<le> len + HEADER_SIZE)"
    if cs: "client_run cs (new_allocator len, []) = Some (s, held)" "\<forall>c \<in> set cs. \<not> gives_back c" and len: "len + HEADER_SIZE \<le> 2 ^ 32"
  proof -
    have "client_inv len (new_allocator len, [])"
      using new_allocator_heap [OF len] by (auto simp: client_inv_def regions_apart_def new_allocator_def Let_def)
    from run [OF cs(1) this cs(2)] obtain as where inv: "sa_len s = len" "regions_apart held" "heap s as"
      "\<And>r n. (r, n) \<in> set held \<Longrightarrow> \<exists>l \<ge> n. (r, l) \<in> live s as"
      unfolding client_inv_def by blast
    have "r + n \<le> len + HEADER_SIZE" if "(r, n) \<in> set held" for r n
      using inv(4) [OF that] live_in_array [OF inv(3), of r] inv(1) by fastforce
    then show ?thesis using inv(2) by blast
  qed
  moreover have fresh: "h_used \<lparr>sa_len = l, sa_data = \<lambda>p. 0\<rparr> a = False" for l a
    by (simp add: h_used_def)
  have "map_option snd (client_run [Get_region 16, Get_region 64, Get_region 16, Give_back 1, Get_region 16, Get_region 32,
       Give_back 2, Give_back 1, Get_region 64] (new_allocator 256, [])) = Some [(16, 16), (80, 32), (48, 64)]"
    by (simp add: client_step_def AllocRef_def find_free.simps claim_def FreeRef_def merge_next_def merge_prev_def Let_def
        hdr_ok_def HEADER_SIZE_def apart_def new_allocator_def fresh)
  ultimately show ?thesis by blast
qed

lemma regions_apart_until_freed_witness:
  "regions_apart [(16, 16), (48, 8)] \<and> 48 + 8 \<le> 100 + HEADER_SIZE"
proof -
  let ?cs = "[Get_region 16, Put_bytes 0 3 [1, 2], Get_region 8]"
  have fresh: "h_used \<lparr>sa_len = l, sa_data = \<lambda>p. 0\<rparr> a = False" for l a
    by (simp add: h_used_def)
  have "map_option snd (client_run ?cs (new_allocator 100, [])) = Some [(16, 16), (48, 8)]"
  proof -
    let ?s1 = "claim (new_allocator 100) 0 16"
    have s1: "client_step (Get_region 16) (new_allocator 100, []) = Some (?s1, [(16, 16)])"
      by (simp add: client_step_def AllocRef_def find_free.simps Let_def hdr_ok_def HEADER_SIZE_def
          new_allocator_def)
    let ?s2 = "?s1\<lparr>sa_data := put_list 19 [1, 2] (sa_data ?s1)\<rparr>"
    have s2: "client_step (Put_bytes 0 3 [1, 2]) (?s1, [(16, 16)]) = Some (?s2, [(16, 16)])"
      by (simp add: client_step_def)
    have keep: "h_used ?s2 a = h_used ?s1 a \<and> h_len ?s2 a = h_len ?s1 a \<and> h_next ?s2 a = h_next ?s1 a" if "a = 0 \<or> 32 \<le> a" for a
      using that by (auto simp: h_used_def h_len_def h_next_def put_list_def intro!: rd_cong)
    have at: "h_used ?s1 0" "h_next ?s1 0 = 32" "\<not> h_used ?s1 32" "h_len ?s1 32 = 68"
      by (simp_all add: claim_def Let_def HEADER_SIZE_def new_allocator_def apart_def fresh)
    have "find_free ?s2 8 0 = Some (Inr 32)"
      using keep [of 0] keep [of 32] at by (simp add: find_free.simps hdr_ok_def HEADER_SIZE_def claim_def Let_def new_allocator_def)
    then have "\<exists>s3. client_step (Get_region 8) (?s2, [(16, 16)]) = Some (s3, [(16, 16), (48, 8)])"
      by (simp add: client_step_def AllocRef_def HEADER_SIZE_def)
    then show ?thesis using s1 s2 by auto
  qed
  then obtain s where "client_run ?cs (new_allocator 100, []) = Some (s, [(16, 16), (48, 8)])" by auto
  moreover have "(100 :: nat) + HEADER_SIZE \<le> 2 ^ 32" "\<forall>c \<in> set ?cs. \<not> gives_back c" by (simp_all add: HEADER_SIZE_def)
  ultimately show ?thesis using regions_apart_until_freed [of ?cs 100 s "[(16, 16), (48, 8)]"] by auto
qed


end
