(* ===== verification/Acts_Vm.thy ===== *)
theory Acts_Vm
  imports Static_Allocator Hash_Mini
begin

text \<open>
  The virtual machine of \<^verbatim>\<open>src/core/vm/acts_vm.hpp\<close> and \<^verbatim>\<open>acts_vm.cpp\<close>: values, threads, fields, strings, builtins
  and the linking of scripts.

  A result is a value, an error or, as \<open>None\<close>, no return: the sources have loops that never end. What is
  thrown is \<open>Runtime_error\<close>; an access outside an array or outside the loaded scripts is \<open>Bad_access\<close>, an
  operation undefined on its operands \<open>Bad_operand\<close>. A pointer
  into an array of the machine is an index, a pointer into a script an address of \<open>vm_mem\<close>, which gives
  \<open>None\<close> where nothing is loaded. The text of a message is not modelled beyond its fixed part; warnings are
  logged. The layout is the one of a 64-bit little-endian target.
\<close>

section \<open>Results\<close>

datatype vm_error = Runtime_error string | Bad_access | Bad_operand

type_synonym 'a vm_res = "(vm_error + 'a) option"

definition vbind :: "'a vm_res \<Rightarrow> ('a \<Rightarrow> 'b vm_res) \<Rightarrow> 'b vm_res" where
  "vbind m f = Option.bind m (\<lambda>r. case r of Inl e \<Rightarrow> Some (Inl e) | Inr a \<Rightarrow> f a)"

abbreviation vret :: "'a \<Rightarrow> 'a vm_res" where
  "vret a \<equiv> Some (Inr a)"

abbreviation vthrow :: "vm_error \<Rightarrow> 'a vm_res" where
  "vthrow e \<equiv> Some (Inl e)"

definition vguard :: "bool \<Rightarrow> unit vm_res" where
  "vguard b = (if b then vret () else vthrow Bad_access)"

definition of_alloc :: "alloc_error + 'a \<Rightarrow> vm_error + 'a" where
  "of_alloc r = (case r of Inr a \<Rightarrow> Inr a | Inl Bad_ref \<Rightarrow> Inl Bad_access
     | Inl Not_enough_data \<Rightarrow> Inl (Runtime_error ''Not enough data in the allocator''))"

lemma vbind_simps [simp]: "vbind None f = None" "vbind (vthrow e) f = vthrow e" "vbind (vret a) f = f a"
  by (simp_all add: vbind_def)

lemma vguard_simps [simp]: "vguard True = vret ()" "vguard False = vthrow Bad_access"
  by (simp_all add: vguard_def)

lemma vbind_eq_vret_iff: "vbind m f = vret b \<longleftrightarrow> (\<exists>a. m = vret a \<and> f a = vret b)"
  by (cases m; cases "the m") (auto simp: vbind_def)

lemma vguard_eq_vret_iff [simp]: "vguard b = vret u \<longleftrightarrow> b"
  by (simp add: vguard_def)

lemma vbind_mono [partial_function_mono]:
  "mono_option m \<Longrightarrow> (\<And>a. mono_option (\<lambda>f. F f a)) \<Longrightarrow> mono_option (\<lambda>f. vbind (m f) (F f))"
  unfolding vbind_def
proof (rule bind_mono)
  fix y :: "vm_error + 'c"
  assume "\<And>a. mono_option (\<lambda>f. F f a)"
  then show "mono_option (\<lambda>f. case y of Inl e \<Rightarrow> Some (Inl e) | Inr a \<Rightarrow> F f a)"
    by (cases y) (auto intro: partial_function_mono)
qed

lemma vbind_cong [fundef_cong]: "m = m' \<Longrightarrow> (\<And>a. m' = vret a \<Longrightarrow> f a = g a) \<Longrightarrow> vbind m f = vbind m' g"
  by (cases m'; cases "the m'") (auto simp: vbind_def)

section \<open>Data\<close>

definition ACTSCRIPT_MAGIC :: nat where "ACTSCRIPT_MAGIC = 0x4d565354434124F1"
definition INVALID_STR_REF :: nat where "INVALID_STR_REF = 2 ^ 32 - 1"
definition INVALID_FIELD_REF :: nat where "INVALID_FIELD_REF = 2 ^ 32 - 1"
definition BAD_BUILTIN_ID :: nat where "BAD_BUILTIN_ID = 2 ^ 16 - 1"
definition FLAG_BUILTIN_METHOD :: nat where "FLAG_BUILTIN_METHOD = 0x8000"
definition BAD_SCRIPTFUNC_ID :: nat where "BAD_SCRIPTFUNC_ID = 2 ^ 32 - 1"

text \<open>The type of a value in memory may be any number: those without a name are \<open>VT_NUMBER\<close>.\<close>

datatype vm_var_type =
  VT_UNDEFINED | VT_THREAD | VT_POINTER | VT_INTEGER | VT_FLOAT | VT_HASH | VT_PRECALL | VT_LOCATION
  | VT_SCRIPT_FUNCTION | VT_BUILTIN_FUNCTION | VT_ARRAY | VT_VECTOR | VT_STRUCT | VT_STRING
  | VT_NUMBER nat

definition named_types :: "vm_var_type list" where
  "named_types = [VT_UNDEFINED, VT_THREAD, VT_POINTER, VT_INTEGER, VT_FLOAT, VT_HASH, VT_PRECALL, VT_LOCATION,
     VT_SCRIPT_FUNCTION, VT_BUILTIN_FUNCTION, VT_ARRAY, VT_VECTOR, VT_STRUCT, VT_STRING]"

definition type_of_code :: "nat \<Rightarrow> vm_var_type" where
  "type_of_code n = (if n < length named_types then named_types ! n else VT_NUMBER n)"

definition VmVarTypeNames :: "string list" where
  "VmVarTypeNames = [''UNDEFINED'', ''THREAD'', ''POINTER'', ''INTEGER'', ''FLOAT'', ''HASH'', ''PRECALL'',
     ''LOCATION'', ''SCRIPT_FUNCTION'', ''BUILTIN_FUNCTION'', ''ARRAY'', ''VECTOR'', ''STRUCT'', ''STRING'']"

text \<open>The name of a type, \<open>None\<close> for the text with the number of an unknown one.\<close>

definition VmVarTypeName :: "nat \<Rightarrow> string option" where
  "VmVarTypeName n = (if n < length VmVarTypeNames then Some (VmVarTypeNames ! n) else None)"

text \<open>The union of a value is its eight bytes; a shorter member is the low bits, and writing it keeps the others.\<close>

record vmvar =
  vv_type :: vm_var_type
  vv_val :: u64

definition put_low :: "nat \<Rightarrow> u64 \<Rightarrow> u64 \<Rightarrow> u64" where
  "put_low n v old = (old AND NOT (mask n)) OR (v AND mask n)"

definition get_low :: "nat \<Rightarrow> vmvar \<Rightarrow> nat" where
  "get_low n v = unat (vv_val v AND mask n)"

definition no_var :: vmvar where
  "no_var = \<lparr>vv_type = VT_UNDEFINED, vv_val = 0\<rparr>"

record vmfield =
  vf_var :: vmvar
  vf_data :: u64

record vmframe =
  fm_numVars :: nat
  fm_varFields :: "nat \<Rightarrow> nat"

record vmthread =
  th_frames :: "nat \<Rightarrow> vmframe"
  th_running :: bool
  th_threadId :: nat
  th_waitFrameTime :: int
  th_waitTime :: nat
  th_stack :: "nat \<Rightarrow> vmvar"
  th_top :: nat
  th_field :: nat
  th_frame :: "nat option"
  th_codePos :: nat

record builtin_call =
  bc_callback :: nat
  bc_minArgs :: nat
  bc_maxArgs :: nat
  bc_name :: u64

record vm_config =
  cfg_getter :: "cstr \<Rightarrow> nat option"
  cfg_enabledDevBlocks :: bool

record script_info =
  si_script :: nat
  si_group :: nat

record actsvm =
  vm_callFuncs :: "nat \<Rightarrow> builtin_call"
  vm_callMethods :: "nat \<Rightarrow> builtin_call"
  vm_callMethodsCount :: nat
  vm_callFuncsCount :: nat
  vm_threads :: "nat \<Rightarrow> vmthread"
  vm_current :: "nat option"
  vm_alloc :: salloc
  vm_fields :: "nat \<Rightarrow> vmfield"
  vm_fieldFree :: nat
  vm_stringStart :: "nat \<Rightarrow> nat"
  vm_cfg :: vm_config
  vm_linkGroup :: nat
  vm_topScripts :: nat
  vm_linkedScripts :: "nat \<Rightarrow> script_info"
  vm_linkedScriptsCount :: nat
  vm_mem :: "nat \<Rightarrow> u8 option"
  vm_warnings :: "string list"

definition MAX_BUILTINS :: nat where "MAX_BUILTINS = 0x100"
definition MAX_THREADS :: nat where "MAX_THREADS = 0x100"
definition MAX_VARS :: nat where "MAX_VARS = 0x100"
definition STACK_SIZE :: nat where "STACK_SIZE = 0x1000"
definition ALLOC_LEN :: nat where "ALLOC_LEN = 0x20000"
definition MAX_FIELDS :: nat where "MAX_FIELDS = 0x4000"
definition STRING_BUCKETS :: nat where "STRING_BUCKETS = 0x200"
definition MAX_LINKED :: nat where "MAX_LINKED = 0x400"

lemmas vm_sizes = MAX_BUILTINS_def MAX_THREADS_def MAX_VARS_def STACK_SIZE_def ALLOC_LEN_def MAX_FIELDS_def
  STRING_BUCKETS_def MAX_LINKED_def

definition empty_frame :: vmframe where
  "empty_frame = \<lparr>fm_numVars = 0, fm_varFields = \<lambda>i. 0\<rparr>"

definition empty_thread :: vmthread where
  "empty_thread = \<lparr>th_frames = \<lambda>i. empty_frame, th_running = False, th_threadId = 0, th_waitFrameTime = 0,
     th_waitTime = 0, th_stack = \<lambda>i. no_var, th_top = 0, th_field = 0, th_frame = None, th_codePos = 0\<rparr>"

text \<open>The constructor. Every field but the last one names itself as the next free one.\<close>

definition new_vm :: "vm_config \<Rightarrow> (nat \<Rightarrow> u8 option) \<Rightarrow> actsvm" where
  "new_vm cfg mem =
     \<lparr>vm_callFuncs = \<lambda>i. \<lparr>bc_callback = 0, bc_minArgs = 0, bc_maxArgs = 0, bc_name = 0\<rparr>,
      vm_callMethods = \<lambda>i. \<lparr>bc_callback = 0, bc_minArgs = 0, bc_maxArgs = 0, bc_name = 0\<rparr>,
      vm_callMethodsCount = 0, vm_callFuncsCount = 0,
      vm_threads = \<lambda>i. empty_thread, vm_current = None, vm_alloc = new_allocator ALLOC_LEN,
      vm_fields = \<lambda>i. \<lparr>vf_var = no_var, vf_data = (if i < MAX_FIELDS - 1 then of_nat i else of_nat INVALID_FIELD_REF)\<rparr>,
      vm_fieldFree = 0, vm_stringStart = \<lambda>i. 0, vm_cfg = cfg, vm_linkGroup = 0, vm_topScripts = 0,
      vm_linkedScripts = \<lambda>i. \<lparr>si_script = 0, si_group = 0\<rparr>, vm_linkedScriptsCount = 0, vm_mem = mem,
      vm_warnings = []\<rparr>"

section \<open>Access to memory\<close>

definition upd_thread :: "nat \<Rightarrow> (vmthread \<Rightarrow> vmthread) \<Rightarrow> actsvm \<Rightarrow> actsvm" where
  "upd_thread t f vm = vm\<lparr>vm_threads := (vm_threads vm)(t := f (vm_threads vm t))\<rparr>"

definition mem_rd :: "nat \<Rightarrow> actsvm \<Rightarrow> nat \<Rightarrow> nat vm_res" where
  "mem_rd k vm a =
     (if list_all (\<lambda>p. vm_mem vm p \<noteq> None) [a..<a + k] then vret (rd k (\<lambda>p. the (vm_mem vm p)) a)
      else vthrow Bad_access)"

definition mem_wr :: "nat \<Rightarrow> nat \<Rightarrow> nat \<Rightarrow> actsvm \<Rightarrow> actsvm vm_res" where
  "mem_wr k a v vm =
     (if list_all (\<lambda>p. vm_mem vm p \<noteq> None) [a..<a + k]
      then vret (vm\<lparr>vm_mem := (\<lambda>p. if a \<le> p \<and> p < a + k then Some (le_bytes k v ! (p - a)) else vm_mem vm p)\<rparr>)
      else vthrow Bad_access)"

text \<open>A string of a script, up to its terminator; \<open>None\<close> when the script ends before it.\<close>

partial_function (option) mem_str :: "actsvm \<Rightarrow> nat \<Rightarrow> cstr vm_res" where
  "mem_str vm a = (case vm_mem vm a of None \<Rightarrow> vthrow Bad_access
     | Some c \<Rightarrow> if c = 0 then vret [] else vbind (mem_str vm (a + 1)) (\<lambda>cs. vret (c # cs)))"

declare mem_str.simps [code]

text \<open>What the references of the allocator lead to.\<close>

definition heap_rd :: "nat \<Rightarrow> actsvm \<Rightarrow> nat \<Rightarrow> nat vm_res" where
  "heap_rd k vm a =
     (if a + k \<le> sa_total (vm_alloc vm) then vret (rd k (sa_data (vm_alloc vm)) a) else vthrow Bad_access)"

definition heap_wr :: "nat \<Rightarrow> nat \<Rightarrow> nat \<Rightarrow> actsvm \<Rightarrow> actsvm vm_res" where
  "heap_wr k a v vm =
     (if a + k \<le> sa_total (vm_alloc vm)
      then vret (vm\<lparr>vm_alloc := (vm_alloc vm)\<lparr>sa_data := wr k a v (sa_data (vm_alloc vm))\<rparr>\<rparr>) else vthrow Bad_access)"

definition vm_AllocRef :: "actsvm \<Rightarrow> nat \<Rightarrow> (actsvm \<times> nat) vm_res" where
  "vm_AllocRef vm n =
     vbind (map_option of_alloc (AllocRef (vm_alloc vm) n)) (\<lambda>(s, r). vret (vm\<lparr>vm_alloc := s\<rparr>, r))"

definition vm_FreeRef :: "actsvm \<Rightarrow> nat \<Rightarrow> actsvm vm_res" where
  "vm_FreeRef vm r = vbind (Some (of_alloc (FreeRef (vm_alloc vm) r))) (\<lambda>s. vret (vm\<lparr>vm_alloc := s\<rparr>))"

section \<open>Errors\<close>

text \<open>The members of \<^verbatim>\<open>ActScript\<close>: its offsets, and what the accessors compute from them.\<close>

definition sc_includes_count :: "actsvm \<Rightarrow> nat \<Rightarrow> nat vm_res" where "sc_includes_count vm s = mem_rd 2 vm (s + 40)"
definition sc_strings_count :: "actsvm \<Rightarrow> nat \<Rightarrow> nat vm_res" where "sc_strings_count vm s = mem_rd 2 vm (s + 42)"
definition sc_exports_count :: "actsvm \<Rightarrow> nat \<Rightarrow> nat vm_res" where "sc_exports_count vm s = mem_rd 2 vm (s + 44)"
definition sc_imports_count :: "actsvm \<Rightarrow> nat \<Rightarrow> nat vm_res" where "sc_imports_count vm s = mem_rd 2 vm (s + 46)"
definition sc_Includes :: "actsvm \<Rightarrow> nat \<Rightarrow> nat vm_res" where
  "sc_Includes vm s = vbind (mem_rd 4 vm (s + 24)) (\<lambda>o'. vret (s + o'))"
definition sc_Strings :: "actsvm \<Rightarrow> nat \<Rightarrow> nat vm_res" where
  "sc_Strings vm s = vbind (mem_rd 4 vm (s + 28)) (\<lambda>o'. vret (s + o'))"
definition sc_Exports :: "actsvm \<Rightarrow> nat \<Rightarrow> nat vm_res" where
  "sc_Exports vm s = vbind (mem_rd 4 vm (s + 32)) (\<lambda>o'. vret (s + o'))"
definition sc_Imports :: "actsvm \<Rightarrow> nat \<Rightarrow> nat vm_res" where
  "sc_Imports vm s = vbind (mem_rd 4 vm (s + 36)) (\<lambda>o'. vret (s + o'))"

definition EXPORT_SIZE :: nat where "EXPORT_SIZE = 40"

definition sc_ExportsEnd :: "actsvm \<Rightarrow> nat \<Rightarrow> nat vm_res" where
  "sc_ExportsEnd vm s = vbind (sc_Exports vm s) (\<lambda>e. vbind (sc_exports_count vm s) (\<lambda>n. vret (e + EXPORT_SIZE * n)))"

definition sc_IsInScript :: "actsvm \<Rightarrow> nat \<Rightarrow> nat \<Rightarrow> bool vm_res" where
  "sc_IsInScript vm s codePos =
     vbind (mem_rd 4 vm (s + 48)) (\<lambda>off. vbind (mem_rd 4 vm (s + 52)) (\<lambda>sz.
     vret (s + off \<le> codePos \<and> codePos < s + off + sz)))"

text \<open>The loop over the exports of a script. Its pointer is not moved, so it ends only when there are none.\<close>

partial_function (option) scan_exports :: "actsvm \<Rightarrow> nat \<Rightarrow> nat \<Rightarrow> nat \<Rightarrow> nat option \<Rightarrow> nat option vm_res" where
  "scan_exports vm e ee rloc ex =
     (if e = ee then vret ex
      else vbind (mem_rd 4 vm e) (\<lambda>adr.
        vbind (if rloc < adr then
                 (case ex of None \<Rightarrow> vret (Some e)
                  | Some x \<Rightarrow> vbind (mem_rd 4 vm x) (\<lambda>xa. vret (if adr \<le> xa then Some e else ex)))
               else vret ex)
          (\<lambda>ex'. scan_exports vm e ee rloc ex')))"

declare scan_exports.simps [code]

text \<open>Whether a function was found, the export and the script.\<close>

fun function_info :: "actsvm \<Rightarrow> nat \<Rightarrow> nat list \<Rightarrow> (bool \<times> nat option \<times> nat option) vm_res" where
  "function_info vm codePos [] = vret (False, None, None)"
| "function_info vm codePos (i # is) =
     (let script = si_script (vm_linkedScripts vm i)
      in vbind (sc_IsInScript vm script codePos) (\<lambda>inside.
         if \<not> inside then
           vbind (sc_Exports vm script) (\<lambda>e. vbind (sc_ExportsEnd vm script) (\<lambda>ee.
           vbind (scan_exports vm e ee (nat ((int codePos - int script) mod 2 ^ 32)) None) (\<lambda>ex.
           vret (ex \<noteq> None, ex, Some script))))
         else function_info vm codePos is))"

definition GetFunctionInfo :: "actsvm \<Rightarrow> nat \<Rightarrow> (bool \<times> nat option \<times> nat option) vm_res" where
  "GetFunctionInfo vm codePos = function_info vm codePos [0..<vm_linkedScriptsCount vm]"

definition vm_Error :: "string \<Rightarrow> bool \<Rightarrow> actsvm \<Rightarrow> actsvm vm_res" where
  "vm_Error msg terminate vm =
     vbind (case vm_current vm of None \<Rightarrow> vret ()
            | Some t \<Rightarrow> vbind (GetFunctionInfo vm (th_codePos (vm_threads vm t))) (\<lambda>_. vret ()))
       (\<lambda>_. if terminate then vthrow (Runtime_error msg) else vret (vm\<lparr>vm_warnings := vm_warnings vm @ [msg]\<rparr>))"

definition AssertThreadStarted :: "actsvm \<Rightarrow> nat vm_res" where
  "AssertThreadStarted vm =
     (case vm_current vm of None \<Rightarrow> vthrow (Runtime_error ''No thread started'') | Some t \<Rightarrow> vret t)"

section \<open>Threads\<close>

definition start_thread :: "nat \<Rightarrow> vmthread \<Rightarrow> vmthread" where
  "start_thread codePos th =
     th\<lparr>th_stack := (th_stack th)(0 := \<lparr>vv_type = VT_THREAD,
            vv_val = put_low 32 (of_nat (th_threadId th)) (vv_val (th_stack th 0))\<rparr>,
          1 := \<lparr>vv_type = VT_LOCATION, vv_val = 0\<rparr>),
        th_top := 2, th_waitTime := 0, th_waitFrameTime := 0, th_running := True, th_codePos := codePos,
        th_frame := Some 0\<rparr>"

text \<open>The first thread that is not running is set up; the current thread is what is returned.\<close>

definition AllocThread :: "nat \<Rightarrow> actsvm \<Rightarrow> (actsvm \<times> nat option) vm_res" where
  "AllocThread codePos vm =
     (case List.find (\<lambda>t. \<not> th_running (vm_threads vm t)) [0..<MAX_THREADS] of
        Some t \<Rightarrow> vret (upd_thread t (start_thread codePos) vm, vm_current vm)
      | None \<Rightarrow> vbind (vm_Error ''Can't alloc thread'' True vm) (\<lambda>vm. vret (vm, None)))"

section \<open>References and variables\<close>

definition is_counted :: "vm_var_type \<Rightarrow> bool" where
  "is_counted t \<longleftrightarrow> t \<in> {VT_ARRAY, VT_VECTOR, VT_STRING}"

definition IncRef :: "vmvar \<Rightarrow> actsvm \<Rightarrow> actsvm vm_res" where
  "IncRef v vm =
     (if is_counted (vv_type v)
      then let r = get_low 32 v in vbind (heap_rd 8 vm r) (\<lambda>n. heap_wr 8 r ((n + 1) mod 2 ^ 64) vm)
      else vret vm)"

text \<open>
  Releasing a variable drops a reference and frees what nobody refers to; an array releases the two
  variables of each of its nodes first. \<open>Rel_nodes\<close> is the loop over the nodes of the array, which ends with
  the array itself; a released variable in the memory of a node is overwritten there.
\<close>

datatype release_task = Rel_var vmvar | Rel_nodes nat nat

definition heap_var :: "actsvm \<Rightarrow> nat \<Rightarrow> vmvar vm_res" where
  "heap_var vm a = vbind (heap_rd 4 vm a) (\<lambda>t. vbind (heap_rd 8 vm (a + 8)) (\<lambda>v.
     vret \<lparr>vv_type = type_of_code t, vv_val = of_nat v\<rparr>))"

definition heap_clear_var :: "nat \<Rightarrow> actsvm \<Rightarrow> actsvm vm_res" where
  "heap_clear_var a vm = vbind (heap_wr 8 (a + 8) 0 vm) (heap_wr 4 a 0)"

partial_function (option) release :: "release_task \<Rightarrow> actsvm \<Rightarrow> actsvm vm_res" where
  "release task vm =
     (case task of
        Rel_var v \<Rightarrow>
          (if is_counted (vv_type v) then
             let r = get_low 32 v
             in vbind (heap_rd 8 vm r) (\<lambda>n. let n' = (n + 2 ^ 64 - 1) mod 2 ^ 64
                in vbind (heap_wr 8 r n' vm) (\<lambda>vm.
                   if n' \<noteq> 0 then vret vm
                   else if vv_type v = VT_ARRAY then vbind (heap_rd 4 vm (r + 8)) (\<lambda>start. release (Rel_nodes r start) vm)
                   else vm_FreeRef vm r))
           else vret vm)
      | Rel_nodes r node \<Rightarrow>
          (if node = 0 then vm_FreeRef vm r
           else vbind (heap_var vm node) (\<lambda>i. vbind (release (Rel_var i) vm) (\<lambda>vm. vbind (heap_clear_var node vm) (\<lambda>vm.
             vbind (heap_var vm (node + 16)) (\<lambda>x. vbind (release (Rel_var x) vm) (\<lambda>vm. vbind (heap_clear_var (node + 16) vm) (\<lambda>vm.
             vbind (heap_rd 4 vm (node + 32)) (\<lambda>nx. vbind (vm_FreeRef vm node) (\<lambda>vm. release (Rel_nodes r nx) vm))))))))))"

declare release.simps [code]

definition DecRef :: "vmvar \<Rightarrow> actsvm \<Rightarrow> actsvm vm_res" where
  "DecRef v vm = release (Rel_var v) vm"

text \<open>The caller puts \<open>no_var\<close> where the variable was.\<close>

definition ReleaseVariable :: "vmvar \<Rightarrow> actsvm \<Rightarrow> (actsvm \<times> vmvar) vm_res" where
  "ReleaseVariable v vm = vbind (DecRef v vm) (\<lambda>vm. vret (vm, no_var))"

section \<open>Fields and frames\<close>

definition fields_ok :: "nat \<Rightarrow> bool" where
  "fields_ok r \<longleftrightarrow> r < MAX_FIELDS"

definition set_field :: "nat \<Rightarrow> vmfield \<Rightarrow> actsvm \<Rightarrow> actsvm" where
  "set_field r f vm = vm\<lparr>vm_fields := (vm_fields vm)(r := f)\<rparr>"

text \<open>The value, when there is one, moves into the field: the caller clears it.\<close>

definition CreateField :: "vmvar option \<Rightarrow> actsvm \<Rightarrow> (actsvm \<times> nat) vm_res" where
  "CreateField value' vm =
     (if vm_fieldFree vm = INVALID_FIELD_REF
      then vbind (vm_Error ''Can't allocate field'' True vm) (\<lambda>vm. vret (vm, INVALID_FIELD_REF))
      else let r = vm_fieldFree vm
        in vbind (vguard (fields_ok r)) (\<lambda>_.
           let f = vm_fields vm r; vm = vm\<lparr>vm_fieldFree := unat (vf_data f AND mask 32)\<rparr>
           in vret (case value' of
                  Some v \<Rightarrow> set_field r (f\<lparr>vf_var := v\<rparr>) vm
                | None \<Rightarrow> set_field r \<lparr>vf_var = no_var, vf_data = 0\<rparr> vm, r)))"

definition ReleaseField :: "nat \<Rightarrow> actsvm \<Rightarrow> actsvm vm_res" where
  "ReleaseField r vm =
     (if r = INVALID_FIELD_REF then vret vm
      else vbind (vguard (fields_ok r)) (\<lambda>_. vbind (ReleaseVariable (vf_var (vm_fields vm r)) vm) (\<lambda>(vm, v).
        let d = put_low 32 (of_nat (vm_fieldFree vm)) (vf_data (vm_fields vm r))
        in vret ((set_field r \<lparr>vf_var = v, vf_data = d\<rparr> vm)\<lparr>vm_fieldFree := r\<rparr>))))"

fun release_fields :: "(nat \<Rightarrow> nat) \<Rightarrow> nat list \<Rightarrow> actsvm \<Rightarrow> actsvm vm_res" where
  "release_fields vf [] vm = vret vm"
| "release_fields vf (i # is) vm = vbind (ReleaseField (vf i) vm) (release_fields vf is)"

definition cur_frame :: "actsvm \<Rightarrow> (nat \<times> nat \<times> vmframe) vm_res" where
  "cur_frame vm = (case vm_current vm of None \<Rightarrow> vthrow Bad_access
     | Some t \<Rightarrow> (case th_frame (vm_threads vm t) of None \<Rightarrow> vthrow Bad_access
         | Some i \<Rightarrow> vret (t, i, th_frames (vm_threads vm t) i)))"

definition set_frame :: "nat \<Rightarrow> nat \<Rightarrow> vmframe \<Rightarrow> actsvm \<Rightarrow> actsvm" where
  "set_frame t i f = upd_thread t (\<lambda>th. th\<lparr>th_frames := (th_frames th)(i := f)\<rparr>)"

definition CleanupFrame :: "actsvm \<Rightarrow> actsvm vm_res" where
  "CleanupFrame vm = vbind (cur_frame vm) (\<lambda>(t, i, f).
     vbind (release_fields (fm_varFields f) [0..<fm_numVars f] vm) (\<lambda>vm.
     vret (set_frame t i ((th_frames (vm_threads vm t) i)\<lparr>fm_numVars := 0\<rparr>) vm)))"

definition CreateVar :: "vmvar option \<Rightarrow> actsvm \<Rightarrow> actsvm vm_res" where
  "CreateVar value' vm =
     vbind (CreateField (case value' of None \<Rightarrow> None | Some v \<Rightarrow> if vv_type v = VT_LOCATION then None else Some v) vm)
       (\<lambda>(vm, r). vbind (cur_frame vm) (\<lambda>(t, i, f). vbind (vguard (fm_numVars f < MAX_VARS)) (\<lambda>_.
          vret (set_frame t i (f\<lparr>fm_varFields := (fm_varFields f)(fm_numVars f := r), fm_numVars := fm_numVars f + 1\<rparr>) vm))))"

section \<open>Strings and references\<close>

fun heap_streq :: "actsvm \<Rightarrow> nat \<Rightarrow> cstr \<Rightarrow> bool vm_res" where
  "heap_streq vm a [] = vbind (heap_rd 1 vm a) (\<lambda>c. vret (c = 0))"
| "heap_streq vm a (x # xs) = vbind (heap_rd 1 vm a) (\<lambda>c. if c = unat x then heap_streq vm (a + 1) xs else vret False)"

text \<open>The walk along the entries of a bucket: the entry found, and the last one looked at.\<close>

partial_function (option) find_string :: "actsvm \<Rightarrow> cstr \<Rightarrow> u64 \<Rightarrow> nat \<Rightarrow> nat option \<Rightarrow> (nat option \<times> nat option) vm_res" where
  "find_string vm str h current prev =
     (if current = INVALID_STR_REF then vret (None, prev)
      else vbind (heap_rd 8 vm (current + 8)) (\<lambda>ph.
           vbind (if ph = unat h then heap_streq vm (current + 24) str else vret False) (\<lambda>same.
           if same then vret (Some current, Some current)
           else vbind (heap_rd 4 vm (current + 16)) (\<lambda>nx. find_string vm str h nx (Some current)))))"

declare find_string.simps [code]

definition CreateString :: "cstr \<Rightarrow> nat \<Rightarrow> actsvm \<Rightarrow> (actsvm \<times> nat) vm_res" where
  "CreateString s numRefs vm =
     (let str = c_chars s; h = Hash64A str FNV1A_PRIME IV_DEFAULT; idx = unat h mod STRING_BUCKETS
      in vbind (find_string vm str h (vm_stringStart vm idx) None) (\<lambda>(found, prev).
         case found of
           Some r \<Rightarrow> vbind (heap_rd 8 vm r) (\<lambda>n. vbind (heap_wr 8 r ((n + numRefs) mod 2 ^ 64) vm) (\<lambda>vm. vret (vm, r)))
         | None \<Rightarrow>
             (if numRefs = 0 then vbind (vm_Error ''Can't create string with no refs,'' False vm) (\<lambda>vm. vret (vm, INVALID_STR_REF))
              else vbind (vm_AllocRef vm (24 + (length str + 1))) (\<lambda>(vm, r).
                   let al = vm_alloc vm; vm = vm\<lparr>vm_alloc := al\<lparr>sa_data := put_list (r + 24) (str @ [0]) (sa_data al)\<rparr>\<rparr>
                   in vbind (heap_wr 8 (r + 8) (unat h) vm) (\<lambda>vm. vbind (heap_wr 8 r numRefs vm) (\<lambda>vm.
                      vbind (heap_wr 4 (r + 16) INVALID_STR_REF vm) (\<lambda>vm. vbind (heap_wr 4 (r + 20) INVALID_STR_REF vm) (\<lambda>vm.
                      vbind (case prev of None \<Rightarrow> vret vm | Some p \<Rightarrow> heap_wr 4 (p + 16) r vm) (\<lambda>vm. vret (vm, r))))))))))"

text \<open>Whether a 32-bit float is not zero: a number, an infinity or not a number, of either sign.\<close>

definition float_true :: "vmvar \<Rightarrow> bool" where
  "float_true v \<longleftrightarrow> vv_val v AND mask 31 \<noteq> 0"

definition int_var :: "u64 \<Rightarrow> vmvar" where
  "int_var i = \<lparr>vv_type = VT_INTEGER, vv_val = i\<rparr>"

text \<open>The variable is what the caller puts in its place.\<close>

definition CastToBool :: "vmvar \<Rightarrow> actsvm \<Rightarrow> (actsvm \<times> vmvar \<times> bool) vm_res" where
  "CastToBool v vm =
     (if vv_type v = VT_INTEGER then let b = vv_val v \<noteq> 0 in vret (vm, int_var (if b then 1 else 0), b)
      else if vv_type v = VT_FLOAT then let b = float_true v in vret (vm, int_var (if b then 1 else 0), b)
      else vbind (vm_Error ''Can't cast var to bool'' False vm) (\<lambda>vm. vbind (ReleaseVariable v vm) (\<lambda>(vm, v).
           vret (vm, v, False))))"

definition SetRefValue :: "nat \<Rightarrow> vmvar option \<Rightarrow> actsvm \<Rightarrow> (actsvm \<times> vmvar option) vm_res" where
  "SetRefValue r var vm =
     (if r = INVALID_FIELD_REF then vbind (vm_Error ''Invalid field ref'' False vm) (\<lambda>vm. vret (vm, var))
      else vbind (vguard (fields_ok r)) (\<lambda>_. vbind (ReleaseVariable (vf_var (vm_fields vm r)) vm) (\<lambda>(vm, _).
           case var of
             Some v \<Rightarrow> vret (set_field r ((vm_fields vm r)\<lparr>vf_var := v\<rparr>) vm, Some no_var)
           | None \<Rightarrow> vret (set_field r ((vm_fields vm r)\<lparr>vf_var := no_var\<rparr>) vm, None))))"

definition GetRefValue :: "nat \<Rightarrow> vmvar \<Rightarrow> actsvm \<Rightarrow> (actsvm \<times> vmvar) vm_res" where
  "GetRefValue r out vm =
     (if r = INVALID_FIELD_REF then vbind (vm_Error ''Invalid field ref'' False vm) (\<lambda>vm. vret (vm, out))
      else vbind (vguard (fields_ok r)) (\<lambda>_. vret (vm, vf_var (vm_fields vm r))))"

section \<open>Builtins\<close>

definition RegisterBuiltin :: "nat \<Rightarrow> u64 \<Rightarrow> nat \<Rightarrow> nat \<Rightarrow> bool \<Rightarrow> actsvm \<Rightarrow> actsvm vm_res" where
  "RegisterBuiltin callback name minArgs maxArgs isMethod vm =
     (let bc = \<lparr>bc_callback = callback, bc_minArgs = minArgs, bc_maxArgs = maxArgs, bc_name = name\<rparr>
      in if isMethod then
           (if vm_callMethodsCount vm = MAX_BUILTINS then vthrow (Runtime_error ''Can't register more function builtin'')
            else vret (vm\<lparr>vm_callMethods := (vm_callMethods vm)(vm_callMethodsCount vm := bc),
                          vm_callMethodsCount := vm_callMethodsCount vm + 1\<rparr>))
         else
           (if vm_callFuncsCount vm = MAX_BUILTINS then vthrow (Runtime_error ''Can't register more method builtin'')
            else vret (vm\<lparr>vm_callFuncs := (vm_callFuncs vm)(vm_callFuncsCount vm := bc),
                          vm_callFuncsCount := vm_callFuncsCount vm + 1\<rparr>)))"

text \<open>Whether it is a method, and its index in its array, which is not checked.\<close>

definition GetBuiltin :: "nat \<Rightarrow> (bool \<times> nat) option" where
  "GetBuiltin builtin =
     (if builtin = BAD_SCRIPTFUNC_ID then None
      else if builtin div FLAG_BUILTIN_METHOD mod 2 = 1 then Some (True, builtin - FLAG_BUILTIN_METHOD)
      else Some (False, builtin))"

definition FindBuiltinFunction :: "u64 \<Rightarrow> actsvm \<Rightarrow> nat" where
  "FindBuiltinFunction name vm = BAD_BUILTIN_ID"

definition FindBuiltinMethod :: "u64 \<Rightarrow> actsvm \<Rightarrow> nat" where
  "FindBuiltinMethod name vm =
     (case List.find (\<lambda>i. bc_name (vm_callMethods vm i) = name) [0..<vm_callMethodsCount vm] of
        Some i \<Rightarrow> i mod FLAG_BUILTIN_METHOD + FLAG_BUILTIN_METHOD
      | None \<Rightarrow> BAD_BUILTIN_ID)"

definition FindBuiltin :: "u64 \<Rightarrow> actsvm \<Rightarrow> nat" where
  "FindBuiltin name vm =
     (let i = FindBuiltinMethod name vm in if i \<noteq> BAD_BUILTIN_ID then i else FindBuiltinFunction name vm)"

section \<open>The stack\<close>

definition PushStack :: "nat \<Rightarrow> actsvm \<Rightarrow> (actsvm \<times> nat) vm_res" where
  "PushStack n vm = vbind (AssertThreadStarted vm) (\<lambda>t.
     let top = th_top (vm_threads vm t)
     in if n = 0 then vret (vm, top)
        else vbind (if STACK_SIZE < top + n then vm_Error ''Invalid push: too much data'' True vm else vret vm) (\<lambda>vm.
             vret (upd_thread t (\<lambda>th. th\<lparr>th_top := top + n\<rparr>) vm, top)))"

definition PopStack :: "nat \<Rightarrow> actsvm \<Rightarrow> actsvm vm_res" where
  "PopStack n vm = vbind (AssertThreadStarted vm) (\<lambda>t.
     let top = th_top (vm_threads vm t)
     in if n = 0 then vret vm
        else vbind (if top < n then vm_Error ''Invalid pop: not enough data'' True vm else vret vm) (\<lambda>vm.
             vret (upd_thread t (\<lambda>th. th\<lparr>th_top := top - n\<rparr>) vm)))"

definition set_slot :: "nat \<Rightarrow> nat \<Rightarrow> vmvar \<Rightarrow> actsvm \<Rightarrow> actsvm" where
  "set_slot t i v = upd_thread t (\<lambda>th. th\<lparr>th_stack := (th_stack th)(i := v)\<rparr>)"

text \<open>Push one slot of the current thread and fill it from what it held.\<close>

definition push_var :: "(vmvar \<Rightarrow> vmvar) \<Rightarrow> actsvm \<Rightarrow> (actsvm \<times> vmvar) vm_res" where
  "push_var f vm = vbind (PushStack 1 vm) (\<lambda>(vm, i). vbind (AssertThreadStarted vm) (\<lambda>t.
     let v = f (th_stack (vm_threads vm t) i) in vret (set_slot t i v vm, v)))"

definition AddInt :: "u64 \<Rightarrow> actsvm \<Rightarrow> actsvm vm_res" where
  "AddInt i vm = vbind (push_var (\<lambda>_. int_var i) vm) (\<lambda>(vm, _). vret vm)"

definition AddFloat :: "u32 \<Rightarrow> actsvm \<Rightarrow> actsvm vm_res" where
  "AddFloat f vm = vbind (push_var (\<lambda>o'. \<lparr>vv_type = VT_FLOAT, vv_val = put_low 32 (ucast f) (vv_val o')\<rparr>) vm) (\<lambda>(vm, _). vret vm)"

definition AddHash :: "u64 \<Rightarrow> actsvm \<Rightarrow> actsvm vm_res" where
  "AddHash h vm = vbind (push_var (\<lambda>_. \<lparr>vv_type = VT_HASH, vv_val = h\<rparr>) vm) (\<lambda>(vm, _). vret vm)"

definition push_ref :: "vm_var_type \<Rightarrow> nat \<Rightarrow> actsvm \<Rightarrow> actsvm vm_res" where
  "push_ref t r vm =
     vbind (push_var (\<lambda>o'. \<lparr>vv_type = t, vv_val = put_low 32 (of_nat r) (vv_val o')\<rparr>) vm) (\<lambda>(vm, v). IncRef v vm)"

definition AddArray :: "actsvm \<Rightarrow> actsvm vm_res" where
  "AddArray vm = vbind (vm_AllocRef vm 16) (\<lambda>(vm, r). push_ref VT_ARRAY r vm)"

definition AddStruct :: "actsvm \<Rightarrow> actsvm vm_res" where
  "AddStruct vm = AddArray vm"

definition AddVector :: "u32 list \<Rightarrow> actsvm \<Rightarrow> actsvm vm_res" where
  "AddVector vec vm = vbind (vm_AllocRef vm 24) (\<lambda>(vm, r).
     let al = vm_alloc vm;
         vm = vm\<lparr>vm_alloc := al\<lparr>sa_data := put_list (r + 8) (concat (map (\<lambda>f. le_bytes 4 (unat f)) (take 3 vec))) (sa_data al)\<rparr>\<rparr>
     in push_ref VT_VECTOR r vm)"

definition AddStringRef :: "nat \<Rightarrow> actsvm \<Rightarrow> actsvm vm_res" where
  "AddStringRef r vm = push_ref VT_STRING r vm"

definition AddString :: "cstr \<Rightarrow> actsvm \<Rightarrow> actsvm vm_res" where
  "AddString s vm = vbind (CreateString s 1 vm) (\<lambda>(vm, r). AddStringRef r vm)"

end
