(* ===== verification/Acts_Vm_Opcodes.thy ===== *)
theory Acts_Vm_Opcodes
  imports Acts_Vm "HOL-Library.Signed_Division"
begin

text \<open>
  The instructions of the virtual machine, \<^verbatim>\<open>src/core/vm/acts_vm_opcodes.cpp\<close>, and its main loop.

  A handler takes the index of the thread and the machine. Pushing writes the slot the top names and
  moves the top up; the other handlers take the slot the top names as the topmost value, as the code has it.
\<close>

section \<open>Operands\<close>

definition slot :: "nat \<Rightarrow> nat \<Rightarrow> actsvm \<Rightarrow> vmvar vm_res" where
  "slot t i vm = (if i < STACK_SIZE then vret (th_stack (vm_threads vm t) i) else vthrow Bad_access)"

definition put_slot :: "nat \<Rightarrow> nat \<Rightarrow> vmvar \<Rightarrow> actsvm \<Rightarrow> actsvm vm_res" where
  "put_slot t i v vm = (if i < STACK_SIZE then vret (set_slot t i v vm) else vthrow Bad_access)"

definition top_of :: "nat \<Rightarrow> actsvm \<Rightarrow> nat" where
  "top_of t vm = th_top (vm_threads vm t)"

definition set_top :: "nat \<Rightarrow> nat \<Rightarrow> actsvm \<Rightarrow> actsvm" where
  "set_top t i = upd_thread t (\<lambda>th. th\<lparr>th_top := i\<rparr>)"

text \<open>\<^verbatim>\<open>top--\<close>; below the stack is an error.\<close>

definition dec_top :: "nat \<Rightarrow> actsvm \<Rightarrow> actsvm vm_res" where
  "dec_top t vm = (if top_of t vm = 0 then vthrow Bad_access else vret (set_top t (top_of t vm - 1) vm))"

definition code_pos :: "nat \<Rightarrow> actsvm \<Rightarrow> nat" where
  "code_pos t vm = th_codePos (vm_threads vm t)"

definition set_code_pos :: "nat \<Rightarrow> nat \<Rightarrow> actsvm \<Rightarrow> actsvm" where
  "set_code_pos t a = upd_thread t (\<lambda>th. th\<lparr>th_codePos := a\<rparr>)"

text \<open>An operand of \<open>k\<close> bytes: the position is aligned to its size, and left after it.\<close>

definition fetch :: "nat \<Rightarrow> nat \<Rightarrow> actsvm \<Rightarrow> (actsvm \<times> nat) vm_res" where
  "fetch k t vm =
     (let base = align_up (code_pos t vm) k
      in vbind (mem_rd k vm base) (\<lambda>v. vret (set_code_pos t (base + k) vm, v)))"

definition fetch_byte :: "nat \<Rightarrow> actsvm \<Rightarrow> (actsvm \<times> nat) vm_res" where
  "fetch_byte t vm = vbind (mem_rd 1 vm (code_pos t vm)) (\<lambda>v. vret (set_code_pos t (code_pos t vm + 1) vm, v))"

definition fetch_delta :: "nat \<Rightarrow> actsvm \<Rightarrow> (actsvm \<times> int) vm_res" where
  "fetch_delta t vm = vbind (fetch 2 t vm) (\<lambda>(vm, v). vret (vm, sint (of_nat v :: u16)))"

definition jump :: "nat \<Rightarrow> int \<Rightarrow> actsvm \<Rightarrow> actsvm" where
  "jump t delta vm = set_code_pos t (nat ((int (code_pos t vm) + delta) mod 2 ^ 64)) vm"

text \<open>\<^verbatim>\<open>VmVar* top{ thread->top++ }\<close>, filled from what the slot held.\<close>

definition push :: "nat \<Rightarrow> (vmvar \<Rightarrow> vmvar) \<Rightarrow> actsvm \<Rightarrow> actsvm vm_res" where
  "push t f vm =
     (let i = top_of t vm
      in vbind (slot t i vm) (\<lambda>old. vbind (put_slot t i (f old) vm) (\<lambda>vm. vret (set_top t (i + 1) vm))))"

section \<open>Parameters and variables\<close>

text \<open>The do-while loop that releases what lies above the location; \<open>n\<close> is the top.\<close>

fun release_to_location :: "nat \<Rightarrow> nat \<Rightarrow> actsvm \<Rightarrow> actsvm vm_res" where
  "release_to_location t 0 vm = vthrow Bad_access"
| "release_to_location t (Suc n) vm =
     vbind (slot t (Suc n) vm) (\<lambda>v. vbind (ReleaseVariable v vm) (\<lambda>(vm, v).
     vbind (put_slot t (Suc n) v vm) (\<lambda>vm. let vm = set_top t n vm in
     vbind (slot t n vm) (\<lambda>u. if vv_type u = VT_LOCATION then vret vm else release_to_location t n vm))))"

definition drop_params :: "nat \<Rightarrow> actsvm \<Rightarrow> actsvm vm_res" where
  "drop_params t vm = vbind (slot t (top_of t vm) vm) (\<lambda>v.
     if vv_type v = VT_LOCATION then vret vm
     else vbind (release_to_location t (top_of t vm) vm)
       (vm_Error ''Called function with too many parameters'' False))"

definition ExportNoParamsHandler :: "nat \<Rightarrow> actsvm \<Rightarrow> actsvm vm_res" where
  "ExportNoParamsHandler t vm = drop_params t vm"

definition take_param :: "nat \<Rightarrow> actsvm \<Rightarrow> actsvm vm_res" where
  "take_param t vm =
     vbind (fetch 8 t vm) (\<lambda>(vm, name). let i = top_of t vm in
     vbind (slot t i vm) (\<lambda>v.
       if vv_type v = VT_LOCATION then CreateVar None vm
       else vbind (dec_top t vm) (\<lambda>vm. vbind (CreateVar (Some v) vm) (put_slot t i no_var))))"

fun take_params :: "nat \<Rightarrow> nat \<Rightarrow> actsvm \<Rightarrow> actsvm vm_res" where
  "take_params t 0 vm = vret vm"
| "take_params t (Suc n) vm = vbind (take_param t vm) (take_params t n)"

definition ExportParamsHandler :: "nat \<Rightarrow> actsvm \<Rightarrow> actsvm vm_res" where
  "ExportParamsHandler t vm =
     vbind (fetch_byte t vm) (\<lambda>(vm, vars). vbind (take_params t vars vm) (drop_params t))"

fun register_vars :: "nat \<Rightarrow> nat \<Rightarrow> actsvm \<Rightarrow> actsvm vm_res" where
  "register_vars t 0 vm = vret vm"
| "register_vars t (Suc n) vm =
     vbind (fetch 8 t vm) (\<lambda>(vm, name). vbind (CreateVar None vm) (register_vars t n))"

definition RegisterVarsHandler :: "nat \<Rightarrow> actsvm \<Rightarrow> actsvm vm_res" where
  "RegisterVarsHandler t vm = vbind (fetch_byte t vm) (\<lambda>(vm, vars). register_vars t vars vm)"

section \<open>Constants\<close>

definition GetIntHandler :: "nat \<Rightarrow> actsvm \<Rightarrow> actsvm vm_res" where
  "GetIntHandler t vm = vbind (fetch 8 t vm) (\<lambda>(vm, i). push t (\<lambda>_. int_var (of_nat i)) vm)"

definition GetFloatHandler :: "nat \<Rightarrow> actsvm \<Rightarrow> actsvm vm_res" where
  "GetFloatHandler t vm = vbind (fetch 4 t vm) (\<lambda>(vm, f).
     push t (\<lambda>old. \<lparr>vv_type = VT_FLOAT, vv_val = put_low 32 (of_nat f) (vv_val old)\<rparr>) vm)"

definition GetHashHandler :: "nat \<Rightarrow> actsvm \<Rightarrow> actsvm vm_res" where
  "GetHashHandler t vm = vbind (fetch 8 t vm) (\<lambda>(vm, h). push t (\<lambda>_. \<lparr>vv_type = VT_HASH, vv_val = of_nat h\<rparr>) vm)"

definition GetUndefinedHandler :: "nat \<Rightarrow> actsvm \<Rightarrow> actsvm vm_res" where
  "GetUndefinedHandler t vm = push t (\<lambda>_. no_var) vm"

definition GetStringHandler :: "nat \<Rightarrow> actsvm \<Rightarrow> actsvm vm_res" where
  "GetStringHandler t vm = vbind (fetch 4 t vm) (\<lambda>(vm, r). let i = top_of t vm in
     vbind (push t (\<lambda>old. \<lparr>vv_type = VT_STRING, vv_val = put_low 32 (of_nat r) (vv_val old)\<rparr>) vm) (\<lambda>vm.
     vbind (slot t i vm) (\<lambda>v. IncRef v vm)))"

definition GetBuiltinFunction :: "nat \<Rightarrow> actsvm \<Rightarrow> actsvm vm_res" where
  "GetBuiltinFunction t vm = vbind (fetch 2 t vm) (\<lambda>(vm, b).
     push t (\<lambda>old. \<lparr>vv_type = VT_BUILTIN_FUNCTION, vv_val = put_low 16 (of_nat b) (vv_val old)\<rparr>) vm)"

definition GetScriptFunction :: "nat \<Rightarrow> actsvm \<Rightarrow> actsvm vm_res" where
  "GetScriptFunction t vm = vbind (fetch 4 t vm) (\<lambda>(vm, r).
     push t (\<lambda>old. \<lparr>vv_type = VT_SCRIPT_FUNCTION, vv_val = put_low 32 (of_nat r) (vv_val old)\<rparr>) vm)"

definition PreCallHandler :: "nat \<Rightarrow> actsvm \<Rightarrow> actsvm vm_res" where
  "PreCallHandler t vm = push t (\<lambda>_. \<lparr>vv_type = VT_PRECALL, vv_val = of_nat (code_pos t vm)\<rparr>) vm"

text \<open>The type is looked at after the variable was released.\<close>

definition IsDefinedHandler :: "nat \<Rightarrow> actsvm \<Rightarrow> actsvm vm_res" where
  "IsDefinedHandler t vm = (let i = top_of t vm in
     vbind (slot t i vm) (\<lambda>v. vbind (ReleaseVariable v vm) (\<lambda>(vm, v).
     put_slot t i \<lparr>vv_type = VT_INTEGER,
       vv_val = put_low 8 (if vv_type v \<noteq> VT_UNDEFINED then 1 else 0) (vv_val v)\<rparr> vm)))"

definition DecTopHandler :: "nat \<Rightarrow> actsvm \<Rightarrow> actsvm vm_res" where
  "DecTopHandler t vm = (let i = top_of t vm in
     vbind (slot t i vm) (\<lambda>v. vbind (dec_top t vm) (\<lambda>vm. vbind (ReleaseVariable v vm) (\<lambda>(vm, v). put_slot t i v vm))))"

section \<open>Jumps\<close>

definition JumpHandler :: "nat \<Rightarrow> actsvm \<Rightarrow> actsvm vm_res" where
  "JumpHandler t vm = vbind (fetch_delta t vm) (\<lambda>(vm, delta). vret (jump t delta vm))"

definition DevBlockHandler :: "nat \<Rightarrow> actsvm \<Rightarrow> actsvm vm_res" where
  "DevBlockHandler t vm = vbind (fetch_delta t vm) (\<lambda>(vm, delta).
     if \<not> cfg_enabledDevBlocks (vm_cfg vm) then vret (jump t delta vm) else vret vm)"

definition JumpIfDefinedHandler :: "nat \<Rightarrow> actsvm \<Rightarrow> actsvm vm_res" where
  "JumpIfDefinedHandler t vm = vbind (fetch_delta t vm) (\<lambda>(vm, delta).
     vbind (slot t (top_of t vm) vm) (\<lambda>v.
     if vv_type v \<noteq> VT_UNDEFINED then vret (jump t delta vm) else dec_top t vm))"

text \<open>The top is cast in place; a plain jump drops it, an expression keeps it when it jumps.\<close>

definition cast_top :: "bool \<Rightarrow> nat \<Rightarrow> actsvm \<Rightarrow> (actsvm \<times> bool) vm_res" where
  "cast_top pop t vm = (let i = top_of t vm in
     vbind (slot t i vm) (\<lambda>v. vbind (if pop then dec_top t vm else vret vm) (\<lambda>vm.
     vbind (CastToBool v vm) (\<lambda>(vm, v, b). vbind (put_slot t i v vm) (\<lambda>vm. vret (vm, b))))))"

definition jump_if :: "bool \<Rightarrow> nat \<Rightarrow> actsvm \<Rightarrow> actsvm vm_res" where
  "jump_if b t vm = vbind (fetch_delta t vm) (\<lambda>(vm, delta). vbind (cast_top True t vm) (\<lambda>(vm, c).
     vret (if c = b then jump t delta vm else vm)))"

definition jump_if_expr :: "bool \<Rightarrow> nat \<Rightarrow> actsvm \<Rightarrow> actsvm vm_res" where
  "jump_if_expr b t vm = vbind (fetch_delta t vm) (\<lambda>(vm, delta). vbind (cast_top False t vm) (\<lambda>(vm, c).
     if c = b then vret (jump t delta vm) else dec_top t vm))"

definition JumpIfTrueHandler :: "nat \<Rightarrow> actsvm \<Rightarrow> actsvm vm_res" where
  "JumpIfTrueHandler = jump_if True"

definition JumpIfFalseHandler :: "nat \<Rightarrow> actsvm \<Rightarrow> actsvm vm_res" where
  "JumpIfFalseHandler = jump_if False"

definition JumpIfTrueExprHandler :: "nat \<Rightarrow> actsvm \<Rightarrow> actsvm vm_res" where
  "JumpIfTrueExprHandler = jump_if_expr True"

definition JumpIfFalseExprHandler :: "nat \<Rightarrow> actsvm \<Rightarrow> actsvm vm_res" where
  "JumpIfFalseExprHandler = jump_if_expr False"

section \<open>Variables\<close>

definition GetVarRefHandler :: "nat \<Rightarrow> actsvm \<Rightarrow> actsvm vm_res" where
  "GetVarRefHandler t vm = vbind (fetch 1 t vm) (\<lambda>(vm, i).
     case th_frame (vm_threads vm t) of None \<Rightarrow> vthrow Bad_access
     | Some f \<Rightarrow> vret (upd_thread t (\<lambda>th. th\<lparr>th_field := fm_varFields (th_frames th f) i\<rparr>) vm))"

definition GetVarHandler :: "nat \<Rightarrow> actsvm \<Rightarrow> actsvm vm_res" where
  "GetVarHandler t vm = vbind (GetVarRefHandler t vm) (\<lambda>vm. let i = top_of t vm in
     vbind (push t (\<lambda>_. no_var) vm) (\<lambda>vm.
     vbind (GetRefValue (th_field (vm_threads vm t)) no_var vm) (\<lambda>(vm, v). put_slot t i v vm)))"

definition SetRefValueHandler :: "nat \<Rightarrow> actsvm \<Rightarrow> actsvm vm_res" where
  "SetRefValueHandler t vm = (let i = top_of t vm in
     vbind (slot t i vm) (\<lambda>v. vbind (dec_top t vm) (\<lambda>vm.
     vbind (SetRefValue (th_field (vm_threads vm t)) (Some v) vm) (\<lambda>(vm, v').
     case v' of None \<Rightarrow> vret vm | Some u \<Rightarrow> put_slot t i u vm))))"

section \<open>Operators\<close>

definition NotHandler :: "nat \<Rightarrow> actsvm \<Rightarrow> actsvm vm_res" where
  "NotHandler t vm = (let i = top_of t vm in
     vbind (slot t i vm) (\<lambda>a.
       if vv_type a = VT_INTEGER then put_slot t i (int_var (if vv_val a \<noteq> 0 then 0 else 1)) vm
       else if vv_type a = VT_FLOAT then put_slot t i (int_var (if float_true a then 0 else 1)) vm
       else vbind (vm_Error ''NotHandler: Invalid type'' False vm) (\<lambda>vm. vbind (ReleaseVariable a vm) (\<lambda>(vm, _).
         put_slot t i (int_var 0) vm))))"

definition BitNotHandler :: "nat \<Rightarrow> actsvm \<Rightarrow> actsvm vm_res" where
  "BitNotHandler t vm = (let i = top_of t vm in
     vbind (slot t i vm) (\<lambda>a.
       if vv_type a = VT_INTEGER then put_slot t i (int_var (NOT (vv_val a))) vm
       else vbind (vm_Error ''BitNotHandler: Invalid type'' False vm) (\<lambda>vm. vbind (ReleaseVariable a vm) (\<lambda>(vm, _).
         put_slot t i (int_var 0) vm))))"

text \<open>
  The shape the binary operators share: \<open>b\<close> is the top, \<open>a\<close> the slot below, which takes the result. \<open>f\<close> gives the
  result of two integers, \<open>Some None\<close> a warning (both become the integer 0, as for other types) and
  \<open>None\<close> that the operation is undefined.
\<close>

definition binary_op :: "string \<Rightarrow> (u64 \<Rightarrow> u64 \<Rightarrow> u64 option option) \<Rightarrow> nat \<Rightarrow> actsvm \<Rightarrow> actsvm vm_res" where
  "binary_op msg f t vm = (let i = top_of t vm in
     vbind (slot t i vm) (\<lambda>b. vbind (dec_top t vm) (\<lambda>vm. vbind (slot t (i - 1) vm) (\<lambda>a.
     let failed = vbind (vm_Error msg False vm) (\<lambda>vm. vbind (ReleaseVariable a vm) (\<lambda>(vm, _).
           vbind (ReleaseVariable b vm) (\<lambda>(vm, _). vbind (put_slot t (i - 1) (int_var 0) vm) (put_slot t i (int_var 0)))))
     in if vv_type a = VT_INTEGER \<and> vv_type b = VT_INTEGER then
          (case f (vv_val a) (vv_val b) of None \<Rightarrow> vthrow Bad_operand
           | Some None \<Rightarrow> failed
           | Some (Some r) \<Rightarrow> put_slot t (i - 1) (int_var r) vm)
        else failed))))"

definition BitXorHandler :: "nat \<Rightarrow> actsvm \<Rightarrow> actsvm vm_res" where
  "BitXorHandler = binary_op ''BitXorHandler: Invalid type'' (\<lambda>a b. Some (Some (a XOR b)))"

definition BitOrHandler :: "nat \<Rightarrow> actsvm \<Rightarrow> actsvm vm_res" where
  "BitOrHandler = binary_op ''BitOrHandler: Invalid type'' (\<lambda>a b. Some (Some (a OR b)))"

definition BitAndHandler :: "nat \<Rightarrow> actsvm \<Rightarrow> actsvm vm_res" where
  "BitAndHandler = binary_op ''BitAndHandler: Invalid type'' (\<lambda>a b. Some (Some (a AND b)))"

definition shift_left :: "u64 \<Rightarrow> u64 \<Rightarrow> u64 option option" where
  "shift_left a b = (if b < 64 then Some (Some (push_bit (unat b) a)) else None)"

definition BitShiftLeftHandler :: "nat \<Rightarrow> actsvm \<Rightarrow> actsvm vm_res" where
  "BitShiftLeftHandler = binary_op ''BitShiftLeftHandler: Invalid type'' shift_left"

definition shift_right :: "u64 \<Rightarrow> u64 \<Rightarrow> u64 option option" where
  "shift_right a b = (if b < 64 then Some (Some (signed_drop_bit (unat b) a)) else None)"

definition BitShiftRightHandler :: "nat \<Rightarrow> actsvm \<Rightarrow> actsvm vm_res" where
  "BitShiftRightHandler = binary_op ''BitShiftRightHandler: Invalid type'' shift_right"

definition modulus :: "u64 \<Rightarrow> u64 \<Rightarrow> u64 option option" where
  "modulus a b =
     (if b = 0 then Some None
      else if sint a = - (2 ^ 63) \<and> sint b = - 1 then None
      else Some (Some (word_of_int (sint a smod sint b))))"

definition ModulusHandler :: "nat \<Rightarrow> actsvm \<Rightarrow> actsvm vm_res" where
  "ModulusHandler = binary_op ''ModulusHandler'' modulus"

section \<open>Dispatch and the main loop\<close>

datatype (plugins only: code) opcode_id =
  OPCODE_ABORT | OPCODE_NOP | OPCODE_EXPORT_NO_PARAMS | OPCODE_EXPORT_PARAMS | OPCODE_END | OPCODE_RETURN
  | OPCODE_IS_DEFINED | OPCODE_DEC_TOP | OPCODE_GET_FUNCTION | OPCODE_GET_BUILTIN_FUNCTION
  | OPCODE_CALL_FUNCTION | OPCODE_CALL_METHOD | OPCODE_CALL_BUILTIN_FUNCTION | OPCODE_CALL_BUILTIN_METHOD
  | OPCODE_PRE_CALL | OPCODE_REGISTER_VARS | OPCODE_JUMP | OPCODE_DEV_BLOCK | OPCODE_JUMP_IF_TRUE
  | OPCODE_JUMP_IF_FALSE | OPCODE_JUMP_IF_TRUE_EXPR | OPCODE_JUMP_IF_FALSE_EXPR | OPCODE_JUMP_IF_DEFINED
  | OPCODE_GET_INT | OPCODE_GET_FLOAT | OPCODE_GET_HASH | OPCODE_GET_UNDEFINED | OPCODE_GET_STRING
  | OPCODE_GET_VAR | OPCODE_GET_VAR_REF | OPCODE_SET_REF_VALUE | OPCODE_OP_PLUS | OPCODE_OP_MINUS
  | OPCODE_OP_NOT | OPCODE_OP_MULTIPLY | OPCODE_OP_DIVIDE | OPCODE_OP_MODULUS | OPCODE_OP_BIT_XOR
  | OPCODE_OP_BIT_OR | OPCODE_OP_BIT_AND | OPCODE_OP_BIT_NOT | OPCODE_OP_BIT_SHIFT_LEFT
  | OPCODE_OP_BIT_SHIFT_RIGHT | OPCODE_OP_LOWER_THAN | OPCODE_OP_GREATER_THAN
  | OPCODE_OP_LOWER_OR_EQUAL_THAN | OPCODE_OP_GREATER_OR_EQUAL_THAN | OPCODE_OP_LOWER_OR_SUPER_EQUAL_THAN
  | OPCODE_OP_GREATER_OR_SUPER_EQUAL_THAN | OPCODE_OP_EQUAL | OPCODE_OP_NOT_EQUAL | OPCODE_OP_SUPER_EQUAL
  | OPCODE_OP_SUPER_NOT_EQUAL

definition OpCodeId :: "(nat \<times> opcode_id) list" where
  "OpCodeId = [
     (0, OPCODE_ABORT), (1, OPCODE_NOP), (0x10, OPCODE_EXPORT_NO_PARAMS), (0x11, OPCODE_EXPORT_PARAMS),
     (0x12, OPCODE_END), (0x13, OPCODE_RETURN), (0x14, OPCODE_IS_DEFINED), (0x15, OPCODE_DEC_TOP), (0x16,
     OPCODE_GET_FUNCTION), (0x17, OPCODE_GET_BUILTIN_FUNCTION), (0x18, OPCODE_CALL_FUNCTION), (0x19,
     OPCODE_CALL_METHOD), (0x1a, OPCODE_CALL_BUILTIN_FUNCTION), (0x1b, OPCODE_CALL_BUILTIN_METHOD),
     (0x1c, OPCODE_PRE_CALL), (0x1d, OPCODE_REGISTER_VARS), (0x20, OPCODE_JUMP), (0x21,
     OPCODE_DEV_BLOCK), (0x22, OPCODE_JUMP_IF_TRUE), (0x23, OPCODE_JUMP_IF_FALSE), (0x24,
     OPCODE_JUMP_IF_TRUE_EXPR), (0x25, OPCODE_JUMP_IF_FALSE_EXPR), (0x26, OPCODE_JUMP_IF_DEFINED), (0x30,
     OPCODE_GET_INT), (0x31, OPCODE_GET_FLOAT), (0x32, OPCODE_GET_HASH), (0x33, OPCODE_GET_UNDEFINED),
     (0x35, OPCODE_GET_STRING), (0x36, OPCODE_GET_VAR), (0x37, OPCODE_GET_VAR_REF), (0x38,
     OPCODE_SET_REF_VALUE), (0x50, OPCODE_OP_PLUS), (0x51, OPCODE_OP_MINUS), (0x52, OPCODE_OP_NOT),
     (0x53, OPCODE_OP_MULTIPLY), (0x54, OPCODE_OP_DIVIDE), (0x55, OPCODE_OP_MODULUS), (0x56,
     OPCODE_OP_BIT_XOR), (0x57, OPCODE_OP_BIT_OR), (0x58, OPCODE_OP_BIT_AND), (0x59, OPCODE_OP_BIT_NOT),
     (0x5a, OPCODE_OP_BIT_SHIFT_LEFT), (0x5b, OPCODE_OP_BIT_SHIFT_RIGHT), (0x5c, OPCODE_OP_LOWER_THAN),
     (0x5d, OPCODE_OP_GREATER_THAN), (0x5e, OPCODE_OP_LOWER_OR_EQUAL_THAN), (0x5f,
     OPCODE_OP_GREATER_OR_EQUAL_THAN), (0x60, OPCODE_OP_LOWER_OR_SUPER_EQUAL_THAN), (0x61,
     OPCODE_OP_GREATER_OR_SUPER_EQUAL_THAN), (0x62, OPCODE_OP_EQUAL), (0x63, OPCODE_OP_NOT_EQUAL), (0x64,
     OPCODE_OP_SUPER_EQUAL), (0x65, OPCODE_OP_SUPER_NOT_EQUAL)]"

text \<open>The handler of an instruction; the others, and the numbers that name none, are invalid.\<close>

definition handler_of :: "opcode_id \<Rightarrow> nat \<Rightarrow> (actsvm \<Rightarrow> actsvm vm_res) option" where
  "handler_of op t =
    (case op of
       OPCODE_NOP \<Rightarrow> Some (\<lambda>vm. vret vm)
     | OPCODE_EXPORT_NO_PARAMS \<Rightarrow> Some (ExportNoParamsHandler t)
     | OPCODE_EXPORT_PARAMS \<Rightarrow> Some (ExportParamsHandler t)
     | OPCODE_REGISTER_VARS \<Rightarrow> Some (RegisterVarsHandler t)
     | OPCODE_GET_INT \<Rightarrow> Some (GetIntHandler t)
     | OPCODE_GET_FLOAT \<Rightarrow> Some (GetFloatHandler t)
     | OPCODE_GET_HASH \<Rightarrow> Some (GetHashHandler t)
     | OPCODE_GET_UNDEFINED \<Rightarrow> Some (GetUndefinedHandler t)
     | OPCODE_GET_STRING \<Rightarrow> Some (GetStringHandler t)
     | OPCODE_IS_DEFINED \<Rightarrow> Some (IsDefinedHandler t)
     | OPCODE_DEC_TOP \<Rightarrow> Some (DecTopHandler t)
     | OPCODE_PRE_CALL \<Rightarrow> Some (PreCallHandler t)
     | OPCODE_JUMP \<Rightarrow> Some (JumpHandler t)
     | OPCODE_DEV_BLOCK \<Rightarrow> Some (DevBlockHandler t)
     | OPCODE_JUMP_IF_TRUE \<Rightarrow> Some (JumpIfTrueHandler t)
     | OPCODE_JUMP_IF_FALSE \<Rightarrow> Some (JumpIfFalseHandler t)
     | OPCODE_JUMP_IF_TRUE_EXPR \<Rightarrow> Some (JumpIfTrueExprHandler t)
     | OPCODE_JUMP_IF_FALSE_EXPR \<Rightarrow> Some (JumpIfFalseExprHandler t)
     | OPCODE_JUMP_IF_DEFINED \<Rightarrow> Some (JumpIfDefinedHandler t)
     | OPCODE_GET_VAR \<Rightarrow> Some (GetVarHandler t)
     | OPCODE_GET_VAR_REF \<Rightarrow> Some (GetVarRefHandler t)
     | OPCODE_SET_REF_VALUE \<Rightarrow> Some (SetRefValueHandler t)
     | OPCODE_OP_NOT \<Rightarrow> Some (NotHandler t)
     | OPCODE_OP_BIT_XOR \<Rightarrow> Some (BitXorHandler t)
     | OPCODE_OP_BIT_OR \<Rightarrow> Some (BitOrHandler t)
     | OPCODE_OP_BIT_AND \<Rightarrow> Some (BitAndHandler t)
     | OPCODE_OP_BIT_NOT \<Rightarrow> Some (BitNotHandler t)
     | OPCODE_OP_BIT_SHIFT_LEFT \<Rightarrow> Some (BitShiftLeftHandler t)
     | OPCODE_OP_BIT_SHIFT_RIGHT \<Rightarrow> Some (BitShiftRightHandler t)
     | OPCODE_OP_MODULUS \<Rightarrow> Some (ModulusHandler t)
     | OPCODE_GET_BUILTIN_FUNCTION \<Rightarrow> Some (GetBuiltinFunction t)
     | OPCODE_GET_FUNCTION \<Rightarrow> Some (GetScriptFunction t)
     | _ \<Rightarrow> None)"

text \<open>The handlers leave \<^verbatim>\<open>terminated\<close> as it is, but for the one of an invalid instruction, which then throws.\<close>

definition InvalidOpCodeHandler :: "actsvm \<Rightarrow> (actsvm \<times> bool) vm_res" where
  "InvalidOpCodeHandler vm = vbind (vm_Error ''Invalid opcode'' True vm) (\<lambda>vm. vret (vm, True))"

definition HandleOpCode :: "nat \<Rightarrow> nat \<Rightarrow> actsvm \<Rightarrow> (actsvm \<times> bool) vm_res" where
  "HandleOpCode code t vm =
     (case map_of OpCodeId code of
        Some op \<Rightarrow> (case handler_of op t of
            Some f \<Rightarrow> vbind (f vm) (\<lambda>vm. vret (vm, False))
          | None \<Rightarrow> InvalidOpCodeHandler vm)
      | None \<Rightarrow> InvalidOpCodeHandler vm)"

partial_function (option) execute_loop :: "nat \<Rightarrow> actsvm \<Rightarrow> actsvm vm_res" where
  "execute_loop t vm =
     vbind (fetch 1 t vm) (\<lambda>(vm, code). vbind (HandleOpCode code t vm) (\<lambda>(vm, terminated).
       if terminated then vret vm else execute_loop t vm))"

declare execute_loop.simps [code]

definition set_wait :: "nat \<Rightarrow> int \<Rightarrow> actsvm \<Rightarrow> actsvm" where
  "set_wait t w = upd_thread t (\<lambda>th. th\<lparr>th_waitFrameTime := w\<rparr>)"

text \<open>\<open>now\<close> is the time in milliseconds.\<close>

definition Execute :: "int \<Rightarrow> actsvm \<Rightarrow> actsvm vm_res" where
  "Execute now vm = vbind (AssertThreadStarted vm) (\<lambda>t.
     let w = th_waitFrameTime (vm_threads vm t)
     in if 0 < w then
          (let vm = set_wait t (w - 1) vm in if w - 1 \<noteq> 0 then vret vm else execute_loop t vm)
        else if w \<noteq> 0 then
          (if w \<le> now then vret vm else execute_loop t (set_wait t 0 vm))
        else execute_loop t vm)"

end
