(* ===== verification/Acts_Vm_Link.thy ===== *)
theory Acts_Vm_Link
  imports Acts_Vm_Opcodes
begin

text \<open>
  The linking and loading of scripts of \<^verbatim>\<open>src/core/vm/acts_vm.cpp\<close>.

  \<^verbatim>\<open>LinkActsScript\<close> links the includes of a script and asks for their exports through \<^verbatim>\<open>LinkScript\<close>, which calls
  it again. The loops take that call as their argument \<open>lk\<close>, and \<open>LinkScript\<close> is the partial function that
  closes the circle. The counts of a script are read in every round, as the code does; the bound
  \<open>2 ^ 16\<close> of the loops is above every count of 16 bits, so it never ends one.
\<close>

type_synonym linker = "cstr \<Rightarrow> actsvm \<Rightarrow> (int \<times> nat option \<times> actsvm) vm_res"

definition VMLO_CANT_FIND :: int where "VMLO_CANT_FIND = - 1"
definition VMLO_ERROR_INCLUDES :: int where "VMLO_ERROR_INCLUDES = - 2"
definition VMLO_ERROR_TOO_MANY :: int where "VMLO_ERROR_TOO_MANY = - 3"

section \<open>Finding exports\<close>

definition GetScriptInfoId :: "nat \<Rightarrow> nat" where
  "GetScriptInfoId i = i"

definition export_ref :: "nat \<Rightarrow> nat \<Rightarrow> nat" where
  "export_ref si i = (GetScriptInfoId si * 2 ^ 16 + i) mod 2 ^ 32"

definition ex_name :: "actsvm \<Rightarrow> nat \<Rightarrow> nat vm_res" where "ex_name vm e = mem_rd 8 vm (e + 8)"
definition ex_name_space :: "actsvm \<Rightarrow> nat \<Rightarrow> nat vm_res" where "ex_name_space vm e = mem_rd 8 vm (e + 16)"
definition ex_flags :: "actsvm \<Rightarrow> nat \<Rightarrow> nat vm_res" where "ex_flags vm e = mem_rd 1 vm (e + 33)"

definition SEF_AUTOEXEC :: nat where "SEF_AUTOEXEC = 1"
definition SEF_PRIVATE :: nat where "SEF_PRIVATE = 2"

definition has_flag :: "nat \<Rightarrow> nat \<Rightarrow> bool" where
  "has_flag f b \<longleftrightarrow> f div b mod 2 = 1"

fun public_export :: "actsvm \<Rightarrow> nat \<Rightarrow> nat \<Rightarrow> nat \<Rightarrow> nat list \<Rightarrow> nat option vm_res" where
  "public_export vm exps ns name [] = vret None"
| "public_export vm exps ns name (i # is) =
     (let e = exps + EXPORT_SIZE * i
      in vbind (ex_flags vm e) (\<lambda>f.
         if has_flag f SEF_PRIVATE then public_export vm exps ns name is
         else vbind (ex_name_space vm e) (\<lambda>n. if n \<noteq> ns then public_export vm exps ns name is
         else vbind (ex_name vm e) (\<lambda>n. if n \<noteq> name then public_export vm exps ns name is else vret (Some i)))))"

definition FindScriptFunction :: "linker \<Rightarrow> cstr \<Rightarrow> nat \<Rightarrow> nat \<Rightarrow> actsvm \<Rightarrow> (actsvm \<times> nat) vm_res" where
  "FindScriptFunction lk file ns name vm =
     vbind (lk file vm) (\<lambda>(code, si, vm).
       if code < 0 then vret (vm, BAD_SCRIPTFUNC_ID)
       else case si of None \<Rightarrow> vthrow Bad_access
       | Some si \<Rightarrow> (let script = si_script (vm_linkedScripts vm si)
           in vbind (sc_Exports vm script) (\<lambda>exps. vbind (sc_exports_count vm script) (\<lambda>n.
              vbind (public_export vm exps ns name [0..<n]) (\<lambda>r.
              vret (vm, case r of Some i \<Rightarrow> export_ref si i | None \<Rightarrow> BAD_SCRIPTFUNC_ID))))))"

text \<open>The loop over the exports of the script itself, whose pointer is not moved.\<close>

fun own_export :: "actsvm \<Rightarrow> nat \<Rightarrow> nat \<Rightarrow> nat \<Rightarrow> nat list \<Rightarrow> nat option vm_res" where
  "own_export vm e ns name [] = vret None"
| "own_export vm e ns name (i # is) =
     vbind (ex_name vm e) (\<lambda>n. if n \<noteq> name then own_export vm e ns name is
     else vbind (ex_name_space vm e) (\<lambda>n. if n \<noteq> ns then own_export vm e ns name is else vret (Some i)))"

definition include_name :: "nat \<Rightarrow> nat \<Rightarrow> nat \<Rightarrow> actsvm \<Rightarrow> cstr vm_res" where
  "include_name script incs i vm = vbind (mem_rd 4 vm (incs + 4 * i)) (\<lambda>o'. mem_str vm (script + o'))"

function included_export :: "linker \<Rightarrow> nat \<Rightarrow> nat \<Rightarrow> nat \<Rightarrow> nat \<Rightarrow> nat \<Rightarrow> actsvm \<Rightarrow> (actsvm \<times> nat) vm_res" where
  "included_export lk script incs ns name i vm =
     vbind (sc_includes_count vm script) (\<lambda>n.
       if i < n \<and> i < 2 ^ 16 then
         vbind (include_name script incs i vm) (\<lambda>file. vbind (FindScriptFunction lk file ns name vm) (\<lambda>(vm, r).
         if r \<noteq> BAD_SCRIPTFUNC_ID then vret (vm, r) else included_export lk script incs ns name (i + 1) vm))
       else vret (vm, BAD_SCRIPTFUNC_ID))"
  by auto
termination by (relation "measure (\<lambda>(lk, script, incs, ns, name, i, vm). 2 ^ 16 - i)") auto

definition GetScriptExport :: "linker \<Rightarrow> nat \<Rightarrow> nat \<Rightarrow> nat \<Rightarrow> actsvm \<Rightarrow> (actsvm \<times> nat) vm_res" where
  "GetScriptExport lk origin ns name vm =
     (let script = si_script (vm_linkedScripts vm origin)
      in vbind (sc_Exports vm script) (\<lambda>e. vbind (sc_exports_count vm script) (\<lambda>n.
         vbind (own_export vm e ns name [0..<n]) (\<lambda>r.
         case r of Some i \<Rightarrow> vret (vm, export_ref origin i)
         | None \<Rightarrow> vbind (sc_Includes vm script) (\<lambda>incs. included_export lk script incs ns name 0 vm)))))"

section \<open>Linking\<close>

text \<open>Writing a value of \<open>k\<close> bytes at the \<open>num_address\<close> offsets of a table, the count itself \<open>cw\<close> bytes at \<open>ca\<close>.\<close>

function patch_refs :: "nat \<Rightarrow> nat \<Rightarrow> nat \<Rightarrow> nat \<Rightarrow> nat \<Rightarrow> nat \<Rightarrow> nat \<Rightarrow> actsvm \<Rightarrow> actsvm vm_res" where
  "patch_refs k cw ca script refs v j vm =
     vbind (mem_rd cw vm ca) (\<lambda>n.
       if j < n \<and> j < 2 ^ 16 then
         vbind (mem_rd 4 vm (refs + 4 * j)) (\<lambda>o'. vbind (mem_wr k (script + o') v vm) (\<lambda>vm.
         patch_refs k cw ca script refs v (j + 1) vm))
       else vret vm)"
  by auto
termination by (relation "measure (\<lambda>(k, cw, ca, script, refs, v, j, vm). 2 ^ 16 - j)") auto

function link_includes :: "linker \<Rightarrow> nat \<Rightarrow> nat \<Rightarrow> nat \<Rightarrow> actsvm \<Rightarrow> (bool \<times> actsvm) vm_res" where
  "link_includes lk script incs i vm =
     vbind (sc_includes_count vm script) (\<lambda>n.
       if i < n \<and> i < 2 ^ 16 then
         vbind (include_name script incs i vm) (\<lambda>file. vbind (lk file vm) (\<lambda>(code, _, vm).
         if code < 0 then vret (False, vm) else link_includes lk script incs (i + 1) vm))
       else vret (True, vm))"
  by auto
termination by (relation "measure (\<lambda>(lk, script, incs, i, vm). 2 ^ 16 - i)") auto

function link_strings :: "nat \<Rightarrow> nat \<Rightarrow> nat \<Rightarrow> actsvm \<Rightarrow> actsvm vm_res" where
  "link_strings script entry i vm =
     vbind (sc_strings_count vm script) (\<lambda>n.
       if i < n \<and> i < 2 ^ 16 then
         vbind (mem_rd 4 vm entry) (\<lambda>address. vbind (mem_str vm (script + address)) (\<lambda>str.
         vbind (mem_rd 1 vm (entry + 4)) (\<lambda>num. vbind (CreateString str num vm) (\<lambda>(vm, r).
         vbind (patch_refs 4 1 (entry + 4) script (entry + 8) r 0 vm) (\<lambda>vm.
         vbind (mem_rd 1 vm (entry + 4)) (\<lambda>num. link_strings script (entry + 8 + 4 * num) (i + 1) vm))))))
       else vret vm)"
  by auto
termination by (relation "measure (\<lambda>(script, entry, i, vm). 2 ^ 16 - i)") auto

datatype import_kind = Import_script | Import_builtin | Import_builtin_function | Import_builtin_method | Import_bad

definition SIF_TYPE_MASK :: nat where "SIF_TYPE_MASK = 0xf"

text \<open>The cases of the switch over \<^verbatim>\<open>flags & SIF_TYPE_MASK\<close>.\<close>

definition import_kind_of :: "nat \<Rightarrow> import_kind" where
  "import_kind_of flags =
     (let f = flags mod (SIF_TYPE_MASK + 1)
      in if f \<in> {1, 3, 5, 6, 7, 9, 0xa} then Import_script
         else if f = 2 then Import_builtin
         else if f = 4 then Import_builtin_function
         else if f = 8 then Import_builtin_method
         else Import_bad)"

definition builtin_import :: "string \<Rightarrow> nat \<Rightarrow> actsvm \<Rightarrow> (actsvm \<times> nat \<times> nat) vm_res" where
  "builtin_import msg r vm =
     vbind (if r = BAD_BUILTIN_ID then vm_Error msg True vm else vret vm) (\<lambda>vm. vret (vm, 2, r))"

text \<open>What is written for an import, and in how many bytes.\<close>

definition resolve_import :: "linker \<Rightarrow> nat \<Rightarrow> nat \<Rightarrow> actsvm \<Rightarrow> (actsvm \<times> nat \<times> nat) vm_res" where
  "resolve_import lk origin imp vm =
     vbind (mem_rd 1 vm (imp + 19)) (\<lambda>flags. vbind (mem_rd 8 vm imp) (\<lambda>name. vbind (mem_rd 8 vm (imp + 8)) (\<lambda>ns.
       case import_kind_of flags of
         Import_script \<Rightarrow>
           vbind (GetScriptExport lk origin ns name vm) (\<lambda>(vm, r).
           vbind (if r = BAD_SCRIPTFUNC_ID then vm_Error ''Can't find script export'' True vm else vret vm) (\<lambda>vm.
           vret (vm, 4, r)))
       | Import_builtin \<Rightarrow> builtin_import ''Can't find builtin'' (FindBuiltin (of_nat name) vm) vm
       | Import_builtin_function \<Rightarrow> builtin_import ''Can't find builtin function'' (FindBuiltinFunction (of_nat name) vm) vm
       | Import_builtin_method \<Rightarrow> builtin_import ''Can't find builtin method'' (FindBuiltinMethod (of_nat name) vm) vm
       | Import_bad \<Rightarrow> vbind (vm_Error ''Can't link import with bad flags'' True vm) (\<lambda>vm. vret (vm, 0, 0)))))"

function link_imports :: "linker \<Rightarrow> nat \<Rightarrow> nat \<Rightarrow> nat \<Rightarrow> nat \<Rightarrow> actsvm \<Rightarrow> actsvm vm_res" where
  "link_imports lk origin script imp i vm =
     vbind (sc_imports_count vm script) (\<lambda>n.
       if i < n \<and> i < 2 ^ 16 then
         vbind (resolve_import lk origin imp vm) (\<lambda>(vm, k, r).
         vbind (patch_refs k 2 (imp + 16) script (imp + 24) r 0 vm) (\<lambda>vm.
         vbind (mem_rd 2 vm (imp + 16)) (\<lambda>num. link_imports lk origin script (imp + 24 + 4 * num) (i + 1) vm)))
       else vret vm)"
  by auto
termination by (relation "measure (\<lambda>(lk, origin, script, imp, i, vm). 2 ^ 16 - i)") auto

definition LinkActsScript :: "linker \<Rightarrow> nat \<Rightarrow> actsvm \<Rightarrow> (int \<times> nat option \<times> actsvm) vm_res" where
  "LinkActsScript lk script vm =
     vbind (mem_rd 8 vm script) (\<lambda>magic.
     if magic \<noteq> ACTSCRIPT_MAGIC then vret (VMLO_CANT_FIND, None, vm)
     else case List.find (\<lambda>i. si_script (vm_linkedScripts vm i) = script) [0..<vm_linkedScriptsCount vm] of
       Some i \<Rightarrow> vret (0, Some i, vm)
     | None \<Rightarrow>
         if vm_linkedScriptsCount vm = MAX_LINKED then vret (VMLO_ERROR_TOO_MANY, None, vm)
         else let si = vm_linkedScriptsCount vm;
                  vm = vm\<lparr>vm_linkedScripts := (vm_linkedScripts vm)(si := \<lparr>si_script = script, si_group = vm_linkGroup vm\<rparr>),
                          vm_linkedScriptsCount := si + 1\<rparr>
           in vbind (sc_Includes vm script) (\<lambda>incs. vbind (link_includes lk script incs 0 vm) (\<lambda>(ok, vm).
              if \<not> ok then vret (VMLO_ERROR_INCLUDES, Some si, vm)
              else vbind (sc_Strings vm script) (\<lambda>strs. vbind (link_strings script strs 0 vm) (\<lambda>vm.
                   vbind (sc_Imports vm script) (\<lambda>imps. vbind (link_imports lk si script imps 0 vm) (\<lambda>vm.
                   vbind (sc_includes_count vm script) (\<lambda>n. vret (1 + int n, Some si, vm)))))))))"

definition GetActsScript :: "cstr \<Rightarrow> actsvm \<Rightarrow> (actsvm \<times> nat) vm_res" where
  "GetActsScript name vm =
     (case cfg_getter (vm_cfg vm) name of
        Some s \<Rightarrow> vret (vm, s)
      | None \<Rightarrow> vbind (vm_Error ''Can't find script'' True vm) (\<lambda>vm. vret (vm, 0)))"

declare included_export.simps [simp del] patch_refs.simps [simp del] link_includes.simps [simp del]
  link_strings.simps [simp del] link_imports.simps [simp del]

text \<open>What takes the linker as an argument is monotone in it, so that the recursion below is one.\<close>

lemma case_mono [partial_function_mono]:
  "mono_option A \<Longrightarrow> (\<And>x. mono_option (\<lambda>f. B f x)) \<Longrightarrow> mono_option (\<lambda>f. case y of None \<Rightarrow> A f | Some x \<Rightarrow> B f x)"
  by (cases y) simp_all

lemma pair_mono [partial_function_mono]:
  "(\<And>a b. mono_option (\<lambda>f. B f a b)) \<Longrightarrow> mono_option (\<lambda>f. case y of (a, b) \<Rightarrow> B f a b)"
  by (cases y) simp

lemma import_kind_mono [partial_function_mono]:
  "mono_option A \<Longrightarrow> mono_option (\<lambda>f. case k of Import_script \<Rightarrow> A f | Import_builtin \<Rightarrow> b
     | Import_builtin_function \<Rightarrow> c | Import_builtin_method \<Rightarrow> d | Import_bad \<Rightarrow> e)"
  by (cases k) (simp_all add: partial_function_mono)

lemma FindScriptFunction_mono [partial_function_mono]:
  assumes [partial_function_mono]: "\<And>file vm. mono_option (\<lambda>f. lk f file vm)"
  shows "mono_option (\<lambda>f. FindScriptFunction (lk f) file ns name vm)"
  unfolding FindScriptFunction_def
  by (intro partial_function_mono)

lemma included_export_mono [partial_function_mono]:
  assumes [partial_function_mono]: "\<And>file vm. mono_option (\<lambda>f. lk f file vm)"
  shows "mono_option (\<lambda>f. included_export (lk f) script incs ns name i vm)"
proof (induction "2 ^ 16 - i :: nat" arbitrary: i vm rule: less_induct)
  case less
  show ?case
  proof (cases "i < 2 ^ 16")
    case True
    then have "mono_option (\<lambda>f. included_export (lk f) script incs ns name (i + 1) vm)" for vm
      by (intro less) simp
    then show ?thesis
      by (subst included_export.simps) (use True in \<open>auto intro!: partial_function_mono\<close>)
  next
    case False
    then show ?thesis by (subst included_export.simps) (auto intro!: partial_function_mono)
  qed
qed

lemma GetScriptExport_mono [partial_function_mono]:
  assumes [partial_function_mono]: "\<And>file vm. mono_option (\<lambda>f. lk f file vm)"
  shows "mono_option (\<lambda>f. GetScriptExport (lk f) origin ns name vm)"
  unfolding GetScriptExport_def Let_def by (intro partial_function_mono)

lemma resolve_import_mono [partial_function_mono]:
  assumes [partial_function_mono]: "\<And>file vm. mono_option (\<lambda>f. lk f file vm)"
  shows "mono_option (\<lambda>f. resolve_import (lk f) origin imp vm)"
  unfolding resolve_import_def by (intro partial_function_mono)

lemma link_includes_mono [partial_function_mono]:
  assumes [partial_function_mono]: "\<And>file vm. mono_option (\<lambda>f. lk f file vm)"
  shows "mono_option (\<lambda>f. link_includes (lk f) script incs i vm)"
proof (induction "2 ^ 16 - i :: nat" arbitrary: i vm rule: less_induct)
  case less
  show ?case
  proof (cases "i < 2 ^ 16")
    case True
    then have "mono_option (\<lambda>f. link_includes (lk f) script incs (i + 1) vm)" for vm
      by (intro less) simp
    then show ?thesis
      by (subst link_includes.simps) (use True in \<open>auto intro!: partial_function_mono\<close>)
  next
    case False
    then show ?thesis by (subst link_includes.simps) (auto intro!: partial_function_mono)
  qed
qed

lemma link_imports_mono [partial_function_mono]:
  assumes [partial_function_mono]: "\<And>file vm. mono_option (\<lambda>f. lk f file vm)"
  shows "mono_option (\<lambda>f. link_imports (lk f) origin script imp i vm)"
proof (induction "2 ^ 16 - i :: nat" arbitrary: imp i vm rule: less_induct)
  case less
  show ?case
  proof (cases "i < 2 ^ 16")
    case True
    then have "mono_option (\<lambda>f. link_imports (lk f) origin script imp (i + 1) vm)" for imp vm
      by (intro less) simp
    then show ?thesis
      by (subst link_imports.simps) (use True in \<open>auto intro!: partial_function_mono\<close>)
  next
    case False
    then show ?thesis by (subst link_imports.simps) (auto intro!: partial_function_mono)
  qed
qed

lemma LinkActsScript_mono [partial_function_mono]:
  assumes [partial_function_mono]: "\<And>file vm. mono_option (\<lambda>f. lk f file vm)"
  shows "mono_option (\<lambda>f. LinkActsScript (lk f) script vm)"
  unfolding LinkActsScript_def Let_def
  by (intro partial_function_mono)

partial_function (option) LinkScript :: "cstr \<Rightarrow> actsvm \<Rightarrow> (int \<times> nat option \<times> actsvm) vm_res" where
  "LinkScript name vm =
     vbind (GetActsScript name vm) (\<lambda>(vm, script). LinkActsScript (\<lambda>file vm. LinkScript file vm) script vm)"

declare LinkScript.simps [code]

section \<open>Loading\<close>

text \<open>The loop over the exports of a linked script. Its pointer is not moved.\<close>

partial_function (option) run_exports :: "int \<Rightarrow> nat \<Rightarrow> nat \<Rightarrow> actsvm \<Rightarrow> actsvm vm_res" where
  "run_exports now script e vm =
     vbind (sc_ExportsEnd vm script) (\<lambda>ee.
     if e = ee then vret vm
     else vbind (ex_flags vm e) (\<lambda>f. vbind (if has_flag f SEF_AUTOEXEC then
              vbind (mem_rd 4 vm e) (\<lambda>address. vbind (AllocThread (script + address) vm) (\<lambda>(vm, t).
              Execute now (vm\<lparr>vm_current := t\<rparr>)))
            else vret vm)
          (\<lambda>vm. run_exports now script e vm)))"

partial_function (option) load_loop :: "int \<Rightarrow> actsvm \<Rightarrow> actsvm vm_res" where
  "load_loop now vm =
     (if vm_topScripts vm < vm_linkedScriptsCount vm
      then let script = si_script (vm_linkedScripts vm (vm_topScripts vm)); vm = vm\<lparr>vm_topScripts := vm_topScripts vm + 1\<rparr>
        in vbind (sc_Exports vm script) (\<lambda>e. vbind (run_exports now script e vm) (\<lambda>vm. load_loop now vm))
      else vret vm)"

declare run_exports.simps [code] load_loop.simps [code]

definition LoadScript :: "int \<Rightarrow> cstr \<Rightarrow> actsvm \<Rightarrow> actsvm vm_res" where
  "LoadScript now name vm =
     vbind (LinkScript name (vm\<lparr>vm_linkGroup := vm_linkGroup vm + 1\<rparr>)) (\<lambda>(code, _, vm).
       if code < 0 then vthrow (Runtime_error ''Can't load script'') else load_loop now vm)"

end
