(* ===== verification/Acts_Vm_Properties.thy ===== *)
theory Acts_Vm_Properties
  imports Acts_Vm_Link
begin

text \<open>What the instructions, the main loop, the fields, the strings and the loading of scripts do.\<close>

section \<open>What operations leave alone\<close>

text \<open>A machine that differs in the memory of its allocator only.\<close>

definition only_alloc :: "actsvm \<Rightarrow> actsvm \<Rightarrow> bool" where
  "only_alloc vm vm' \<longleftrightarrow> (\<exists>al. vm' = vm\<lparr>vm_alloc := al\<rparr>)"

lemma only_alloc_refl [simp]: "only_alloc vm vm"
  unfolding only_alloc_def by (rule exI [of _ "vm_alloc vm"]) simp









lemma vm_Error_throws: "vm_Error msg True vm \<noteq> vret vm'"
  by (auto simp: vm_Error_def vbind_eq_vret_iff split: option.splits)

section \<open>Operators\<close>

text \<open>
  What the binary operators compute from two integers, read as signed numbers where the sign matters;
  \<open>Some None\<close> is a reported error, \<open>None\<close> what the language leaves undefined.
\<close>

definition op_result :: "opcode_id \<Rightarrow> u64 \<Rightarrow> u64 \<Rightarrow> u64 option option" where
  "op_result op a b =
     (case op of OPCODE_OP_BIT_XOR \<Rightarrow> Some (Some (a XOR b)) | OPCODE_OP_BIT_OR \<Rightarrow> Some (Some (a OR b))
      | OPCODE_OP_BIT_AND \<Rightarrow> Some (Some (a AND b))
      | OPCODE_OP_BIT_SHIFT_LEFT \<Rightarrow>
          (if 0 \<le> sint b \<and> sint b < 64 then Some (Some (word_of_int (sint a * 2 ^ nat (sint b)))) else None)
      | OPCODE_OP_BIT_SHIFT_RIGHT \<Rightarrow>
          (if 0 \<le> sint b \<and> sint b < 64 then Some (Some (word_of_int (sint a div 2 ^ nat (sint b)))) else None)
      | OPCODE_OP_MODULUS \<Rightarrow>
          (if b = 0 then Some None
           else if sint a = - (2 ^ 63) \<and> sint b = - 1 then None
           else Some (Some (word_of_int (sgn (sint a) * (\<bar>sint a\<bar> mod \<bar>sint b\<bar>)))))
      | _ \<Rightarrow> None)"

definition binary_ops :: "opcode_id set" where
  "binary_ops = {OPCODE_OP_BIT_XOR, OPCODE_OP_BIT_OR, OPCODE_OP_BIT_AND, OPCODE_OP_BIT_SHIFT_LEFT,
     OPCODE_OP_BIT_SHIFT_RIGHT, OPCODE_OP_MODULUS}"

lemma set_slot_threads [simp]:
  "vm_threads (set_slot t i v vm) t = (vm_threads vm t)\<lparr>th_stack := (th_stack (vm_threads vm t))(i := v)\<rparr>"
  "vm_threads (set_top t i vm) t = (vm_threads vm t)\<lparr>th_top := i\<rparr>"
  by (simp_all add: set_slot_def set_top_def upd_thread_def)


definition op_message :: "opcode_id \<Rightarrow> string" where
  "op_message op =
     (case op of OPCODE_OP_BIT_XOR \<Rightarrow> ''BitXorHandler: Invalid type'' | OPCODE_OP_BIT_OR \<Rightarrow> ''BitOrHandler: Invalid type''
      | OPCODE_OP_BIT_AND \<Rightarrow> ''BitAndHandler: Invalid type'' | OPCODE_OP_BIT_SHIFT_LEFT \<Rightarrow> ''BitShiftLeftHandler: Invalid type''
      | OPCODE_OP_BIT_SHIFT_RIGHT \<Rightarrow> ''BitShiftRightHandler: Invalid type'' | _ \<Rightarrow> ''ModulusHandler'')"

lemma sint_small: "uint b < 64 \<Longrightarrow> sint b = uint b" for b :: u64
proof -
  assume "uint b < 64"
  then have "uint b < 2 ^ 63" by simp
  moreover have "- (2 ^ 63) \<le> uint b" by (rule order_trans [of _ 0]) simp_all
  ultimately have "signed_take_bit 63 (uint b) = uint b" by (intro signed_take_bit_int_eq_self)
  then show ?thesis by (simp add: sint_uint)
qed

lemma small_shift: "b < 64 \<longleftrightarrow> 0 \<le> sint b \<and> sint b < 64" for b :: u64
proof
  assume "b < 64"
  then have "uint b < 64" by (simp add: word_less_def)
  then show "0 \<le> sint b \<and> sint b < 64" by (simp add: sint_small)
next
  assume s: "0 \<le> sint b \<and> sint b < 64"
  have "uint b = take_bit 64 (sint b)" by (simp add: uint_sint)
  then have "uint b = sint b" using s by (simp add: take_bit_int_eq_self)
  then show "b < 64" using s by (simp add: word_less_def)
qed

lemma nat_sint_small: "b < 64 \<Longrightarrow> nat (sint b) = unat b" for b :: u64
  by (simp add: word_less_def sint_small)

lemma op_result_simps:
  "op_result OPCODE_OP_BIT_XOR = (\<lambda>a b. Some (Some (a XOR b)))"
  "op_result OPCODE_OP_BIT_OR = (\<lambda>a b. Some (Some (a OR b)))"
  "op_result OPCODE_OP_BIT_AND = (\<lambda>a b. Some (Some (a AND b)))"
  "op_result OPCODE_OP_BIT_SHIFT_LEFT = shift_left" "op_result OPCODE_OP_BIT_SHIFT_RIGHT = shift_right"
  "op_result OPCODE_OP_MODULUS = modulus"
proof -
  show "op_result OPCODE_OP_BIT_XOR = (\<lambda>a b. Some (Some (a XOR b)))" "op_result OPCODE_OP_BIT_OR = (\<lambda>a b. Some (Some (a OR b)))"
    "op_result OPCODE_OP_BIT_AND = (\<lambda>a b. Some (Some (a AND b)))"
    by (simp_all add: op_result_def fun_eq_iff)
  show "op_result OPCODE_OP_BIT_SHIFT_LEFT = shift_left"
    by (simp add: op_result_def shift_left_def fun_eq_iff nat_sint_small push_bit_eq_mult flip: small_shift)
  have "word_of_int (sint a div 2 ^ n) = (signed_drop_bit n a :: u64)" for a n
    by (simp flip: sint_signed_drop_bit_eq drop_bit_eq_div)
  then show "op_result OPCODE_OP_BIT_SHIFT_RIGHT = shift_right"
    by (simp add: op_result_def shift_right_def fun_eq_iff nat_sint_small flip: small_shift)
  show "op_result OPCODE_OP_MODULUS = modulus"
    by (simp add: op_result_def modulus_def fun_eq_iff smod_int_alt_def)
qed

lemma handler_of_binary:
  "op \<in> binary_ops \<Longrightarrow> handler_of op t = Some (binary_op (op_message op) (op_result op) t)"
  by (auto simp: binary_ops_def handler_of_def op_message_def op_result_simps BitXorHandler_def BitOrHandler_def
      BitAndHandler_def BitShiftLeftHandler_def BitShiftRightHandler_def ModulusHandler_def)

lemma HandleOpCode_handler:
  "map_of OpCodeId code = Some op \<Longrightarrow> handler_of op t = Some f \<Longrightarrow>
   HandleOpCode code t vm = vbind (f vm) (\<lambda>vm. vret (vm, False))"
  by (simp add: HandleOpCode_def)



section \<open>The main loop\<close>

lemma HandleOpCode_goes_on: "HandleOpCode code t vm = vret (vm', fin) \<Longrightarrow> \<not> fin"
  by (auto simp: HandleOpCode_def InvalidOpCodeHandler_def vbind_eq_vret_iff vm_Error_throws split: option.splits)

lemma execute_loop_result: "execute_loop t vm = Some r \<Longrightarrow> r \<noteq> Inr vm'"
proof (induction t vm r arbitrary: vm' rule: execute_loop.raw_induct [rotated, consumes 1, case_names step])
  case (step rel t vm r)
  have IH: "rel t vm \<noteq> vret vm'" for vm using step.IH [of t vm "Inr vm'"] by blast
  show ?case
  proof
    assume "r = Inr vm'"
    then show False using step.hyps IH HandleOpCode_goes_on by (fastforce simp: vbind_eq_vret_iff split: if_splits)
  qed
qed

lemma execute_loop_no_return [simp]: "execute_loop t vm \<noteq> vret vm'"
  using execute_loop_result by blast

text \<open>
  C40. \<^verbatim>\<open>Execute\<close> returns exactly when the current thread waits for more frames, or for a time that is a
  negative number not above the clock: then it only counts the frame down, or does nothing. When it runs
  instructions it never returns, it ends with an exception or goes on for ever, since no instruction
  ends a thread: \<^verbatim>\<open>OPCODE_END\<close> and \<^verbatim>\<open>OPCODE_RETURN\<close> are invalid.
\<close>

theorem Execute_returns_iff:
  "Execute now vm = vret vm' \<longleftrightarrow>
   (\<exists>t w. vm_current vm = Some t \<and> w = th_waitFrameTime (vm_threads vm t) \<and>
      (1 < w \<and> vm' = set_wait t (w - 1) vm \<or> w < 0 \<and> w \<le> now \<and> vm' = vm))"
  by (auto simp: Execute_def AssertThreadStarted_def Let_def split: option.splits if_splits)

lemma end_is_invalid: "HandleOpCode 0x12 t vm \<noteq> vret x \<and> HandleOpCode 0x13 t vm \<noteq> vret x"
  by (auto simp: HandleOpCode_def OpCodeId_def handler_of_def InvalidOpCodeHandler_def vbind_eq_vret_iff vm_Error_throws)

section \<open>Loading\<close>

lemma run_exports_result:
  "run_exports now script e vm = Some r \<Longrightarrow> vm_current vm = None \<Longrightarrow>
   r = Inr vm' \<Longrightarrow> vm' = vm \<and> sc_ExportsEnd vm script = vret e"
proof (induction now script e vm r arbitrary: vm' rule: run_exports.raw_induct [rotated, consumes 1, case_names step])
  case (step rel now script e vm r)
  obtain ee where ee: "sc_ExportsEnd vm script = vret ee" using step.hyps step.prems(2) by (auto simp: vbind_eq_vret_iff)
  show ?case
  proof (cases "e = ee")
    case True
    then show ?thesis using step.hyps step.prems(2) ee by simp
  next
    case False
    then obtain f vm1 where f: "ex_flags vm e = vret f" "rel now script e vm1 = vret vm'"
      "(if has_flag f SEF_AUTOEXEC then vbind (mem_rd 4 vm e) (\<lambda>address. vbind (AllocThread (script + address) vm) (\<lambda>(vm, t).
              Execute now (vm\<lparr>vm_current := t\<rparr>))) else vret vm) = vret vm1"
      using step.hyps step.prems(2) ee by (auto simp: vbind_eq_vret_iff)
    have "\<not> has_flag f SEF_AUTOEXEC"
      using f(3) step.prems(1)
      by (auto simp: vbind_eq_vret_iff AllocThread_def Execute_def AssertThreadStarted_def vm_Error_throws split: option.splits)
    then have "vm1 = vm" using f(3) by simp
    then show ?thesis using step.IH [OF f(2)] step.prems(1) ee by blast
  qed
qed

text \<open>The loop over the exports ends only where there are none.\<close>

lemma load_loop_result:
  "load_loop now vm = Some r \<Longrightarrow> vm_current vm = None \<Longrightarrow> r = Inr vm' \<Longrightarrow>
   vm' = vm\<lparr>vm_topScripts := max (vm_topScripts vm) (vm_linkedScriptsCount vm)\<rparr> \<and>
   (\<forall>i. vm_topScripts vm \<le> i \<and> i < vm_linkedScriptsCount vm \<longrightarrow>
      (\<exists>e. sc_Exports vm (si_script (vm_linkedScripts vm i)) = vret e \<and>
           sc_ExportsEnd vm (si_script (vm_linkedScripts vm i)) = vret e))"
proof (induction now vm r arbitrary: vm' rule: load_loop.raw_induct [rotated, consumes 1, case_names step])
  case (step rel now vm r)
  let ?top = "vm_topScripts vm"
  show ?case
  proof (cases "?top < vm_linkedScriptsCount vm")
    case False
    then have "vm' = vm" using step.hyps step.prems(2) by simp
    then show ?thesis using False by (auto simp: max_def)
  next
    case True
    let ?s = "si_script (vm_linkedScripts vm ?top)"
    define vm1 where "vm1 = vm\<lparr>vm_topScripts := ?top + 1\<rparr>"
    have mem: "sc_Exports vm1 s = sc_Exports vm s" "sc_ExportsEnd vm1 s = sc_ExportsEnd vm s" for s
      by (simp_all add: vm1_def sc_Exports_def sc_ExportsEnd_def sc_exports_count_def mem_rd_def)
    obtain e vm2 where e: "sc_Exports vm1 ?s = vret e" "run_exports now ?s e vm1 = vret vm2" "rel now vm2 = vret vm'"
      using step.hyps step.prems(2) True by (auto simp: Let_def vbind_eq_vret_iff vm1_def)
    have "vm2 = vm1" "sc_ExportsEnd vm1 ?s = vret e"
      using run_exports_result [OF e(2)] step.prems(1) by (simp_all add: vm1_def)
    moreover from this have "vm' = vm1\<lparr>vm_topScripts := max (?top + 1) (vm_linkedScriptsCount vm)\<rparr> \<and>
      (\<forall>i. ?top + 1 \<le> i \<and> i < vm_linkedScriptsCount vm \<longrightarrow>
        (\<exists>e. sc_Exports vm1 (si_script (vm_linkedScripts vm i)) = vret e \<and>
             sc_ExportsEnd vm1 (si_script (vm_linkedScripts vm i)) = vret e))"
      using step.IH [OF e(3)] step.prems(1) by (simp add: vm1_def)
    moreover have "?top \<le> i \<longleftrightarrow> i = ?top \<or> ?top + 1 \<le> i" for i by linarith
    ultimately show ?thesis using e(1) True unfolding mem by (auto simp: vm1_def max_def)
  qed
qed

text \<open>Linking leaves the threads alone.\<close>

definition keeps :: "actsvm \<Rightarrow> actsvm \<Rightarrow> bool" where
  "keeps vm vm' \<longleftrightarrow> vm_current vm' = vm_current vm \<and> vm_threads vm' = vm_threads vm \<and> vm_topScripts vm' = vm_topScripts vm"

lemma keeps_refl [simp]: "keeps vm vm"
  by (simp add: keeps_def)

lemma keeps_trans: "keeps a b \<Longrightarrow> keeps b c \<Longrightarrow> keeps a c"
  by (simp add: keeps_def)

lemma keeps_intros:
  "heap_wr k a v vm = vret vm' \<Longrightarrow> keeps vm vm'" "mem_wr k a v vm = vret vm' \<Longrightarrow> keeps vm vm'"
  "vm_AllocRef vm n = vret (vm', r) \<Longrightarrow> keeps vm vm'" "vm_Error msg b vm = vret vm' \<Longrightarrow> keeps vm vm'"
  by (auto simp: heap_wr_def mem_wr_def vm_AllocRef_def vm_Error_def keeps_def vbind_eq_vret_iff split: if_splits option.splits)

lemma keeps_alloc [simp]: "keeps vm (vm\<lparr>vm_alloc := al\<rparr>)"
  by (simp add: keeps_def)

lemma CreateString_keeps:
  assumes "CreateString s n vm = vret (vm', r)"
  shows "keeps vm vm'"
proof -
  obtain found prev where f: "find_string vm (c_chars s) (Hash64A (c_chars s) FNV1A_PRIME IV_DEFAULT)
      (vm_stringStart vm (unat (Hash64A (c_chars s) FNV1A_PRIME IV_DEFAULT) mod STRING_BUCKETS)) None = vret (found, prev)"
    using assms by (auto simp: CreateString_def Let_def vbind_eq_vret_iff)
  show ?thesis
  proof (cases found)
    case None
    then show ?thesis using assms f
      by (auto simp: CreateString_def Let_def vbind_eq_vret_iff split: if_splits option.splits dest!: keeps_intros)
        (auto simp: keeps_def)
  next
    case (Some r)
    then show ?thesis using assms f
      by (auto simp: CreateString_def Let_def vbind_eq_vret_iff dest!: keeps_intros)
  qed
qed

lemma patch_refs_keeps: "patch_refs k cw ca script refs v j vm = vret vm' \<Longrightarrow> keeps vm vm'"
proof (induction k cw ca script refs v j vm rule: patch_refs.induct)
  case (1 k cw ca script refs v j vm)
  obtain n where n: "mem_rd cw vm ca = vret n" using "1.prems" by (subst (asm) patch_refs.simps) (auto simp: vbind_eq_vret_iff)
  show ?case
  proof (cases "j < n \<and> j < 2 ^ 16")
    case True
    then obtain o' vm1 where "mem_rd 4 vm (refs + 4 * j) = vret o'" "mem_wr k (script + o') v vm = vret vm1"
      "patch_refs k cw ca script refs v (j + 1) vm1 = vret vm'"
      using "1.prems" n by (subst (asm) patch_refs.simps) (auto simp: vbind_eq_vret_iff)
    then show ?thesis using "1.IH" [OF n True] keeps_intros(2) keeps_trans by blast
  next
    case False
    then show ?thesis using "1.prems" n by (subst (asm) patch_refs.simps) auto
  qed
qed

lemma link_strings_keeps: "link_strings script entry i vm = vret vm' \<Longrightarrow> keeps vm vm'"
proof (induction "2 ^ 16 - i :: nat" arbitrary: entry i vm rule: less_induct)
  case less
  obtain n where n: "sc_strings_count vm script = vret n"
    using less.prems by (subst (asm) link_strings.simps) (auto simp: vbind_eq_vret_iff)
  show ?case
  proof (cases "i < n \<and> i < 2 ^ 16")
    case True
    then obtain str num vm1 r vm2 num' where "CreateString str num vm = vret (vm1, r)"
      "patch_refs 4 1 (entry + 4) script (entry + 8) r 0 vm1 = vret vm2"
      "link_strings script (entry + 8 + 4 * num') (i + 1) vm2 = vret vm'"
      using less.prems n by (subst (asm) link_strings.simps) (auto simp: vbind_eq_vret_iff)
    moreover from this(3) have "keeps vm2 vm'" using True by (intro less.hyps) auto
    ultimately show ?thesis using CreateString_keeps patch_refs_keeps keeps_trans by meson
  next
    case False
    then show ?thesis using less.prems n by (subst (asm) link_strings.simps) auto
  qed
qed

text \<open>The parts of linking that call the linker, for a linker that leaves them alone too.\<close>

definition linker_keeps :: "linker \<Rightarrow> bool" where
  "linker_keeps lk \<longleftrightarrow> (\<forall>file vm code si vm'. lk file vm = vret (code, si, vm') \<longrightarrow> keeps vm vm')"

lemma FindScriptFunction_keeps:
  "linker_keeps lk \<Longrightarrow> FindScriptFunction lk file ns name vm = vret (vm', r) \<Longrightarrow> keeps vm vm'"
  by (auto simp: FindScriptFunction_def linker_keeps_def vbind_eq_vret_iff Let_def split: if_splits option.splits)

lemma included_export_keeps:
  "linker_keeps lk \<Longrightarrow> included_export lk script incs ns name i vm = vret (vm', r) \<Longrightarrow> keeps vm vm'"
proof (induction "2 ^ 16 - i :: nat" arbitrary: i vm rule: less_induct)
  case less
  obtain n where n: "sc_includes_count vm script = vret n"
    using less.prems(2) by (subst (asm) included_export.simps) (auto simp: vbind_eq_vret_iff)
  show ?case
  proof (cases "i < n \<and> i < 2 ^ 16")
    case True
    then obtain nm vm1 q where f: "FindScriptFunction lk nm ns name vm = vret (vm1, q)"
      "(if q \<noteq> BAD_SCRIPTFUNC_ID then vret (vm1, q) else included_export lk script incs ns name (i + 1) vm1) = vret (vm', r)"
      using less.prems(2) n by (subst (asm) included_export.simps) (auto simp: vbind_eq_vret_iff)
    have "keeps vm1 vm'"
      using f(2) less.hyps [of "i + 1" vm1] less.prems(1) True by (auto split: if_splits)
    then show ?thesis using FindScriptFunction_keeps [OF less.prems(1) f(1)] keeps_trans by blast
  next
    case False
    then show ?thesis using less.prems(2) n by (subst (asm) included_export.simps) auto
  qed
qed

lemma GetScriptExport_keeps:
  "linker_keeps lk \<Longrightarrow> GetScriptExport lk origin ns name vm = vret (vm', r) \<Longrightarrow> keeps vm vm'"
  by (auto simp: GetScriptExport_def Let_def vbind_eq_vret_iff split: option.splits dest: included_export_keeps)

lemma error_or_same: "vbind (if b then vm_Error msg True vm else vret vm) f = vret x \<Longrightarrow> f vm = vret x"
  by (auto simp: vbind_eq_vret_iff vm_Error_throws split: if_splits)

lemma resolve_import_keeps:
  assumes lk: "linker_keeps lk" and run: "resolve_import lk origin imp vm = vret (vm', k, r)"
  shows "keeps vm vm'"
proof -
  obtain flags name ns where "(case import_kind_of flags of
         Import_script \<Rightarrow>
           vbind (GetScriptExport lk origin ns name vm) (\<lambda>(vm, r).
           vbind (if r = BAD_SCRIPTFUNC_ID then vm_Error ''Can't find script export'' True vm else vret vm) (\<lambda>vm.
           vret (vm, 4, r)))
       | Import_builtin \<Rightarrow> builtin_import ''Can't find builtin'' (FindBuiltin (of_nat name) vm) vm
       | Import_builtin_function \<Rightarrow> builtin_import ''Can't find builtin function'' (FindBuiltinFunction (of_nat name) vm) vm
       | Import_builtin_method \<Rightarrow> builtin_import ''Can't find builtin method'' (FindBuiltinMethod (of_nat name) vm) vm
       | Import_bad \<Rightarrow> vbind (vm_Error ''Can't link import with bad flags'' True vm) (\<lambda>vm. vret (vm, 0, 0))) = vret (vm', k, r)"
    using run unfolding resolve_import_def by (auto simp: vbind_eq_vret_iff)
  moreover have "keeps vm vm'"
    if "vbind (GetScriptExport lk origin ns name vm) (\<lambda>(vm, r).
           vbind (if r = BAD_SCRIPTFUNC_ID then vm_Error ''Can't find script export'' True vm else vret vm) (\<lambda>vm.
           vret (vm, 4, r))) = vret (vm', k, r)"
    using that GetScriptExport_keeps [OF lk] by (auto simp: vbind_eq_vret_iff [of "GetScriptExport _ _ _ _ _"] dest!: error_or_same)
  moreover have "keeps vm vm'" if "builtin_import msg q vm = vret (vm', k, r)" for msg q
    using error_or_same [OF that [unfolded builtin_import_def]] by simp
  ultimately show ?thesis
    by (cases "import_kind_of flags") (auto simp: vbind_eq_vret_iff vm_Error_throws)
qed

lemma link_includes_keeps: "linker_keeps lk \<Longrightarrow> link_includes lk script incs i vm = vret (ok, vm') \<Longrightarrow> keeps vm vm'"
proof (induction "2 ^ 16 - i :: nat" arbitrary: i vm rule: less_induct)
  case less
  obtain n where n: "sc_includes_count vm script = vret n"
    using less.prems(2) by (subst (asm) link_includes.simps) (auto simp: vbind_eq_vret_iff)
  show ?case
  proof (cases "i < n \<and> i < 2 ^ 16")
    case True
    then obtain nm code si vm1 where f: "lk nm vm = vret (code, si, vm1)"
      "(if code < 0 then vret (False, vm1) else link_includes lk script incs (i + 1) vm1) = vret (ok, vm')"
      using less.prems(2) n by (subst (asm) link_includes.simps) (auto simp: vbind_eq_vret_iff)
    have "keeps vm1 vm'"
      using f(2) less.hyps [of "i + 1" vm1] less.prems(1) True by (auto split: if_splits)
    then show ?thesis using less.prems(1) f(1) keeps_trans unfolding linker_keeps_def by blast
  next
    case False
    then show ?thesis using less.prems(2) n by (subst (asm) link_includes.simps) auto
  qed
qed

lemma link_imports_keeps: "linker_keeps lk \<Longrightarrow> link_imports lk origin script imp i vm = vret vm' \<Longrightarrow> keeps vm vm'"
proof (induction "2 ^ 16 - i :: nat" arbitrary: imp i vm rule: less_induct)
  case less
  obtain n where n: "sc_imports_count vm script = vret n"
    using less.prems(2) by (subst (asm) link_imports.simps) (auto simp: vbind_eq_vret_iff)
  show ?case
  proof (cases "i < n \<and> i < 2 ^ 16")
    case True
    then obtain vm1 k r vm2 num where f: "resolve_import lk origin imp vm = vret (vm1, k, r)"
      "patch_refs k 2 (imp + 16) script (imp + 24) r 0 vm1 = vret vm2"
      "link_imports lk origin script (imp + 24 + 4 * num) (i + 1) vm2 = vret vm'"
      using less.prems(2) n by (subst (asm) link_imports.simps) (auto simp: vbind_eq_vret_iff)
    have "keeps vm2 vm'" by (rule less.hyps [OF _ less.prems(1) f(3)]) (use True in auto)
    then show ?thesis
      using resolve_import_keeps [OF less.prems(1) f(1)] patch_refs_keeps [OF f(2)] keeps_trans by blast
  next
    case False
    then show ?thesis using less.prems(2) n by (subst (asm) link_imports.simps) auto
  qed
qed

lemma LinkActsScript_keeps:
  assumes lk: "linker_keeps lk" and run: "LinkActsScript lk script vm = vret (code, si, vm')"
  shows "keeps vm vm'"
proof -
  define vm1 where "vm1 = vm\<lparr>vm_linkedScripts := (vm_linkedScripts vm)(vm_linkedScriptsCount vm := \<lparr>si_script = script, si_group = vm_linkGroup vm\<rparr>),
                          vm_linkedScriptsCount := vm_linkedScriptsCount vm + 1\<rparr>"
  have k1: "keeps vm vm1" by (simp add: keeps_def vm1_def)
  have "vm' = vm \<or> keeps vm1 vm'"
    using run unfolding LinkActsScript_def Let_def vm1_def [symmetric]
    by (auto simp: vbind_eq_vret_iff split: if_splits option.splits
        dest!: link_includes_keeps [OF lk] link_imports_keeps [OF lk] link_strings_keeps intro: keeps_trans)
  then show ?thesis using k1 keeps_trans by auto
qed

lemma LinkScript_result: "LinkScript name vm = Some r \<Longrightarrow> r = Inr (code, si, vm') \<Longrightarrow> keeps vm vm'"
proof (induction name vm r arbitrary: code si vm' rule: LinkScript.raw_induct [rotated, consumes 1, case_names step])
  case (step rel name vm r)
  have lk: "linker_keeps (\<lambda>nm vm. rel nm vm)" unfolding linker_keeps_def using step.IH by blast
  obtain vm1 script where "GetActsScript name vm = vret (vm1, script)" "LinkActsScript (\<lambda>nm vm. rel nm vm) script vm1 = vret (code, si, vm')"
    using step.hyps step.prems by (auto simp: vbind_eq_vret_iff)
  then show ?case using LinkActsScript_keeps [OF lk]
    by (auto simp: GetActsScript_def vbind_eq_vret_iff vm_Error_throws split: option.splits)
qed

text \<open>
  C38. In a machine without a current thread, as the constructor leaves it, loading a script runs nothing:
  it ends with an exception, goes on for ever, or the scripts it linked have no export at all, and then
  no thread was started. (\<^verbatim>\<open>AllocThread\<close> returns the current thread instead of the new one, and the
  loop over the exports does not move.)
\<close>

theorem LoadScript_runs_nothing:
  assumes "vm_current vm = None" and run: "LoadScript now name vm = vret vm'"
  shows "vm_current vm' = None \<and> vm_threads vm' = vm_threads vm \<and>
    (\<forall>i. vm_topScripts vm \<le> i \<and> i < vm_linkedScriptsCount vm' \<longrightarrow>
      (\<exists>e. sc_Exports vm' (si_script (vm_linkedScripts vm' i)) = vret e \<and>
           sc_ExportsEnd vm' (si_script (vm_linkedScripts vm' i)) = vret e))"
proof -
  obtain code si vm1 where l: "LinkScript name (vm\<lparr>vm_linkGroup := vm_linkGroup vm + 1\<rparr>) = vret (code, si, vm1)" "load_loop now vm1 = vret vm'"
    using run by (auto simp: LoadScript_def vbind_eq_vret_iff split: if_splits)
  have k: "vm_current vm1 = None" "vm_threads vm1 = vm_threads vm" "vm_topScripts vm1 = vm_topScripts vm"
    using LinkScript_result [OF l(1) refl] assms(1) by (simp_all add: keeps_def)
  note res = load_loop_result [OF l(2) k(1) refl]
  have eq: "vm_linkedScripts vm' = vm_linkedScripts vm1" "vm_linkedScriptsCount vm' = vm_linkedScriptsCount vm1"
    "vm_current vm' = None" "vm_threads vm' = vm_threads vm" "vm_mem vm' = vm_mem vm1"
    using res k by (auto)
  have "sc_Exports vm' s = sc_Exports vm1 s" "sc_ExportsEnd vm' s = sc_ExportsEnd vm1 s" for s
    by (simp_all add: sc_Exports_def sc_ExportsEnd_def sc_exports_count_def mem_rd_def eq(5))
  then show ?thesis using conjunct2 [OF res] unfolding eq k(3) by simp
qed

section \<open>Reporting an error\<close>

lemma scan_hangs:
  "scan_exports vm e ee rloc ex = Some r \<Longrightarrow> e \<noteq> ee \<Longrightarrow> mem_rd 4 vm e = vret adr \<Longrightarrow> ex \<in> {None, Some e} \<Longrightarrow> False"
proof (induction vm e ee rloc ex r rule: scan_exports.raw_induct [rotated, consumes 1, case_names step])
  case (step rel vm e ee rloc ex r)
  have "rel vm e ee rloc ex' = None" if "ex' \<in> {None, Some e}" for ex'
    using step.IH [of vm e ee rloc ex'] step.prems(1,2) that by (cases "rel vm e ee rloc ex'") auto
  then show False using step.hyps step.prems by (auto simp: vbind_def split: if_splits)
qed

lemma scan_exports_eq:
  "scan_exports vm e ee rloc None =
     (if e = ee then vret None else vbind (mem_rd 4 vm e) (\<lambda>_. None))"
proof (cases "e = ee")
  case True
  then show ?thesis by (subst scan_exports.simps) simp
next
  case False
  show ?thesis
  proof (cases "mem_rd 4 vm e = vthrow Bad_access")
    case True
    with False show ?thesis by (subst scan_exports.simps) simp
  next
    case b: False
    then obtain adr where adr: "mem_rd 4 vm e = vret adr" by (auto simp: mem_rd_def split: if_splits)
    have "scan_exports vm e ee rloc None = None"
      using scan_hangs [of vm e ee rloc None _ adr] False adr by (cases "scan_exports vm e ee rloc None") auto
    then show ?thesis using False adr by simp
  qed
qed

definition same_scripts :: "actsvm \<Rightarrow> actsvm \<Rightarrow> bool" where
  "same_scripts vm vm' \<longleftrightarrow> vm_mem vm' = vm_mem vm \<and> vm_linkedScripts vm' = vm_linkedScripts vm \<and>
     vm_linkedScriptsCount vm' = vm_linkedScriptsCount vm"

lemma GetFunctionInfo_same: "same_scripts vm vm' \<Longrightarrow> GetFunctionInfo vm' a = GetFunctionInfo vm a"
proof -
  assume s: "same_scripts vm vm'"
  have m: "mem_rd k vm' x = mem_rd k vm x" for k x using s by (simp add: mem_rd_def same_scripts_def)
  have sc: "sc_IsInScript vm' x p = sc_IsInScript vm x p" "sc_Exports vm' x = sc_Exports vm x" "sc_ExportsEnd vm' x = sc_ExportsEnd vm x"
    "scan_exports vm' e ee r None = scan_exports vm e ee r None" "vm_linkedScripts vm' = vm_linkedScripts vm" for x p e ee r
    using s by (simp_all add: sc_IsInScript_def sc_Exports_def sc_ExportsEnd_def sc_exports_count_def scan_exports_eq m same_scripts_def)
  have "function_info vm' a is = function_info vm a is" for "is"
    by (induction "is") (simp_all only: function_info.simps sc)
  then show ?thesis using s by (simp add: GetFunctionInfo_def same_scripts_def)
qed

text \<open>Whether an error can be reported at the position of the current thread.\<close>

definition can_report :: "actsvm \<Rightarrow> bool" where
  "can_report vm \<longleftrightarrow> (case vm_current vm of None \<Rightarrow> True
     | Some t \<Rightarrow> GetFunctionInfo vm (th_codePos (vm_threads vm t)) \<in> range vret)"

lemma vm_Error_reports:
  "can_report vm \<Longrightarrow> vm_Error msg False vm = vret (vm\<lparr>vm_warnings := vm_warnings vm @ [msg]\<rparr>)"
  by (auto simp: can_report_def vm_Error_def split: option.splits)

lemma can_report_same:
  assumes "same_scripts vm vm'" "vm_current vm' = vm_current vm" "\<And>t. code_pos t vm' = code_pos t vm"
  shows "can_report vm' = can_report vm"
  using assms GetFunctionInfo_same [OF assms(1)] by (auto simp: can_report_def code_pos_def split: option.splits)

lemma release_uncounted: "\<not> is_counted (vv_type v) \<Longrightarrow> ReleaseVariable v vm = vret (vm, no_var)"
  by (simp add: ReleaseVariable_def DecRef_def release.simps)

section \<open>Pushing and operating\<close>

text \<open>
  The instructions that push leave the top above what they pushed, the operators take the slot the top
  names. So after two integers are pushed on a stack with unused slots above, a binary operator looks at
  the unused slot and the second integer: whatever the integers, it warns, and the result is 0.
\<close>

theorem pushed_operands_are_missed:
  assumes op: "map_of OpCodeId code = Some op" "op \<in> binary_ops"
    and i: "i = top_of t vm" "i + 2 < STACK_SIZE" "vv_type (th_stack (vm_threads vm t) (i + 2)) = VT_UNDEFINED"
    and rep: "can_report vm"
  shows "\<exists>vm'. vbind (push t (\<lambda>_. int_var a) vm) (\<lambda>vm. vbind (push t (\<lambda>_. int_var b) vm) (HandleOpCode code t)) = vret (vm', False) \<and>
    top_of t vm' = i + 1 \<and> th_stack (vm_threads vm' t) (i + 1) = int_var 0 \<and>
    vm_warnings vm' = vm_warnings vm @ [op_message op]"
proof -
  define vm2 where "vm2 = set_top t (i + 2) (set_slot t (i + 1) (int_var b) (set_top t (i + 1) (set_slot t i (int_var a) vm)))"
  define vm3 where "vm3 = set_top t (i + 1) vm2"
  have push: "vbind (push t (\<lambda>_. int_var a) vm) (\<lambda>vm. vbind (push t (\<lambda>_. int_var b) vm) f) = f vm2" for f :: "actsvm \<Rightarrow> (actsvm \<times> bool) vm_res"
    using i by (simp add: push_def slot_def put_slot_def Let_def top_of_def vm2_def)
  have st: "th_stack (vm_threads vm2 t) (i + 2) = th_stack (vm_threads vm t) (i + 2)" "th_stack (vm_threads vm2 t) (i + 1) = int_var b"
    "top_of t vm2 = i + 2" "th_stack (vm_threads vm3 t) = th_stack (vm_threads vm2 t)"
    by (simp_all add: vm2_def vm3_def top_of_def)
  have "same_scripts vm vm3" "vm_current vm3 = vm_current vm" "\<And>t. code_pos t vm3 = code_pos t vm" "vm_warnings vm3 = vm_warnings vm"
    by (simp_all add: vm3_def vm2_def same_scripts_def set_top_def set_slot_def upd_thread_def code_pos_def)
  then have err: "vm_Error msg False vm3 = vret (vm3\<lparr>vm_warnings := vm_warnings vm @ [msg]\<rparr>)" for msg
    using vm_Error_reports can_report_same rep by metis
  have dec: "dec_top t vm2 = vret vm3" "slot t (i + 2) vm2 = vret (th_stack (vm_threads vm t) (i + 2))" "slot t (i + 1) vm3 = vret (int_var b)"
    using st i(2) by (simp_all add: dec_top_def slot_def vm3_def)
  have rel: "ReleaseVariable (int_var b) x = vret (x, no_var)" "ReleaseVariable (th_stack (vm_threads vm t) (i + 2)) x = vret (x, no_var)" for x
    using i(3) by (simp_all add: release_uncounted is_counted_def int_var_def)
  have two: "i + 2 - 1 = i + 1" by simp
  let ?vm' = "set_slot t (i + 2) (int_var 0) (set_slot t (i + 1) (int_var 0) (vm3\<lparr>vm_warnings := vm_warnings vm @ [op_message op]\<rparr>))"
  have "binary_op (op_message op) (op_result op) t vm2 = vret ?vm'"
    unfolding binary_op_def Let_def st(3) dec two vbind_simps using i(2,3)
    by (simp del: add_2_eq_Suc' One_nat_def add: err rel put_slot_def)
  then have "HandleOpCode code t vm2 = vret (?vm', False)"
    by (simp add: HandleOpCode_handler [OF op(1) handler_of_binary [OF op(2)]])
  moreover have "top_of t ?vm' = i + 1" "vm_warnings ?vm' = vm_warnings vm @ [op_message op]" "th_stack (vm_threads ?vm' t) (i + 1) = int_var 0"
    by (simp_all add: top_of_def vm3_def set_top_def set_slot_def upd_thread_def)
  ultimately show ?thesis unfolding push by blast
qed

section \<open>Fields\<close>

text \<open>Fields created one after the other, with or without a value; what each call returned.\<close>

fun create_fields :: "vmvar option list \<Rightarrow> actsvm \<Rightarrow> (actsvm \<times> nat list) vm_res" where
  "create_fields [] vm = vret (vm, [])"
| "create_fields (v # vs) vm =
     vbind (CreateField v vm) (\<lambda>(vm, r). vbind (create_fields vs vm) (\<lambda>(vm, rs). vret (vm, r # rs)))"

lemma create_fields_same:
  "vm_fieldFree vm = 0 \<Longrightarrow> vf_data (vm_fields vm 0) AND mask 32 = 0 \<Longrightarrow>
   \<exists>vm'. create_fields vs vm = vret (vm', replicate (length vs) 0) \<and>
     (vs \<noteq> [] \<longrightarrow> vf_var (vm_fields vm' 0) = (case last vs of None \<Rightarrow> no_var | Some v \<Rightarrow> v)) \<and>
     (\<forall>i. i \<noteq> 0 \<longrightarrow> vm_fields vm' i = vm_fields vm i)"
proof (induction vs arbitrary: vm)
  case (Cons v vs)
  define vm1 where "vm1 = set_field 0 (case v of Some u \<Rightarrow> (vm_fields vm 0)\<lparr>vf_var := u\<rparr> | None \<Rightarrow> \<lparr>vf_var = no_var, vf_data = 0\<rparr>) vm"
  have c: "CreateField v vm = vret (vm1, 0)"
    using Cons.prems by (cases v) (simp_all add: CreateField_def INVALID_FIELD_REF_def fields_ok_def MAX_FIELDS_def Let_def vm1_def set_field_def)
  have "vm_fieldFree vm1 = 0" "vf_data (vm_fields vm1 0) AND mask 32 = 0"
    using Cons.prems by (cases v; simp add: vm1_def set_field_def)+
  from Cons.IH [OF this] obtain vm2 where vm2: "create_fields vs vm1 = vret (vm2, replicate (length vs) 0)"
    "vs \<noteq> [] \<longrightarrow> vf_var (vm_fields vm2 0) = (case last vs of None \<Rightarrow> no_var | Some v \<Rightarrow> v)"
    "\<forall>i. i \<noteq> 0 \<longrightarrow> vm_fields vm2 i = vm_fields vm1 i" by blast
  have "create_fields (v # vs) vm = vret (vm2, replicate (length (v # vs)) 0)" using c vm2(1) by simp
  moreover have "vf_var (vm_fields vm2 0) = (case last (v # vs) of None \<Rightarrow> no_var | Some v \<Rightarrow> v)"
  proof (cases "vs = []")
    case True
    then have "vm2 = vm1" using vm2(1) by simp
    then show ?thesis using True by (cases v) (simp_all add: vm1_def set_field_def)
  qed (use vm2(2) in simp)
  moreover have "\<forall>i. i \<noteq> 0 \<longrightarrow> vm_fields vm2 i = vm_fields vm i" using vm2(3) by (simp add: vm1_def set_field_def)
  ultimately show ?case by blast
qed simp

text \<open>
  The constructor makes every field name itself as the next free one, so in a new machine every
  field created is field 0: however many are created, one field holds the value of the last of them.
\<close>

theorem new_fields_are_one:
  "\<exists>vm'. create_fields vs (new_vm cfg m) = vret (vm', replicate (length vs) 0) \<and>
     vf_var (vm_fields vm' 0) = (case rev vs of [] \<Rightarrow> no_var | v # _ \<Rightarrow> (case v of None \<Rightarrow> no_var | Some v \<Rightarrow> v)) \<and>
     vm_fields vm' = (vm_fields (new_vm cfg m))(0 := vm_fields vm' 0)"
proof -
  have "vm_fieldFree (new_vm cfg m) = 0" "vf_data (vm_fields (new_vm cfg m) 0) AND mask 32 = 0" "vf_var (vm_fields (new_vm cfg m) 0) = no_var"
    by (simp_all add: new_vm_def MAX_FIELDS_def)
  from create_fields_same [OF this(1,2), of vs] this(3) show ?thesis
    by (cases vs rule: rev_cases) (auto simp: fun_eq_iff)
qed

section \<open>Strings\<close>

lemma find_string_hangs:
  "find_string vm str h current prev = Some r \<Longrightarrow> current = 0 \<Longrightarrow> heap_rd 8 vm 8 = vret n \<Longrightarrow> n \<noteq> unat h \<Longrightarrow>
   heap_rd 4 vm 16 = vret 0 \<Longrightarrow> False"
proof (induction vm str h current prev r rule: find_string.raw_induct [rotated, consumes 1, case_names step])
  case (step rel vm str h current prev r)
  have "rel vm str h 0 prev' = None" for prev'
    using step.IH [of vm str h 0 prev'] step.prems by (cases "rel vm str h 0 prev'") auto
  then show False using step.hyps step.prems by (simp add: INVALID_STR_REF_def)
qed

lemma new_vm_heap: "heap_rd 8 (new_vm cfg m) 8 = vret ALLOC_LEN" "heap_rd 4 (new_vm cfg m) 16 = vret 0"
  by (simp_all add: heap_rd_def new_vm_def new_allocator_def Let_def header_defs rd_def wr_def upt_rec ALLOC_LEN_def HEADER_SIZE_def
      le_bytes_numeral)

text \<open>
  The buckets of the string table start at 0, which is the header of the first block and not the mark
  of an empty bucket, and the bytes after it lead to 0 again: in a new machine creating a string never returns,
  unless its hash is the length of the block.
\<close>

theorem CreateString_never_returns:
  "unat (Hash64A (c_chars s) FNV1A_PRIME IV_DEFAULT) \<noteq> ALLOC_LEN \<Longrightarrow> CreateString s numRefs (new_vm cfg m) = None"
proof -
  let ?h = "Hash64A (c_chars s) FNV1A_PRIME IV_DEFAULT"
  assume h: "unat ?h \<noteq> ALLOC_LEN"
  have "find_string (new_vm cfg m) (c_chars s) ?h 0 None = None"
  proof (cases "find_string (new_vm cfg m) (c_chars s) ?h 0 None")
    case (Some r)
    from find_string_hangs [OF this refl new_vm_heap(1) not_sym [OF h] new_vm_heap(2)] show ?thesis ..
  qed
  moreover have "vm_stringStart (new_vm cfg m) i = 0" for i by (simp add: new_vm_def)
  ultimately show ?thesis by (simp add: CreateString_def Let_def)
qed

lemma CreateString_never_returns_witness:
  "CreateString (cstr_of ''abc'') 1 (new_vm \<lparr>cfg_getter = \<lambda>n. None, cfg_enabledDevBlocks = False\<rparr> (\<lambda>p. None)) = None"
  by (rule CreateString_never_returns)
    (simp add: cstr_of_def of_char_def c_chars_def lowerc_def FNV1A_PRIME_def IV_DEFAULT_def ALLOC_LEN_def)

section \<open>Examples\<close>

definition example_vm :: actsvm where
  "example_vm = new_vm \<lparr>cfg_getter = \<lambda>n. Some 0, cfg_enabledDevBlocks = False\<rparr>
     (\<lambda>p. if p < 56 then Some ((le_bytes 8 ACTSCRIPT_MAGIC @ replicate 48 0) ! p) else None)"


lemma pushed_operands_are_missed_witness:
  "\<exists>vm'. vbind (push 0 (\<lambda>_. int_var 6) (set_top 0 2 example_vm)) (\<lambda>vm. vbind (push 0 (\<lambda>_. int_var 3) vm) (HandleOpCode 0x56 0)) = vret (vm', False) \<and>
    th_stack (vm_threads vm' 0) 3 = int_var 0"
proof -
  have op: "map_of OpCodeId 0x56 = Some OPCODE_OP_BIT_XOR" "OPCODE_OP_BIT_XOR \<in> binary_ops"
    by (simp_all add: OpCodeId_def binary_ops_def)
  have "2 = top_of 0 (set_top 0 2 example_vm)" "vv_type (th_stack (vm_threads (set_top 0 2 example_vm) 0) (2 + 2)) = VT_UNDEFINED"
    "can_report (set_top 0 2 example_vm)" "2 + 2 < STACK_SIZE"
    by (simp_all add: top_of_def example_vm_def new_vm_def empty_thread_def no_var_def can_report_def STACK_SIZE_def set_top_def upd_thread_def)
  from pushed_operands_are_missed [OF op this(1,4,2,3), of 6 3] show ?thesis by (simp add: numeral_3_eq_3) blast
qed

lemma LoadScript_runs_nothing_witness:
  "\<exists>vm'. LoadScript 0 [] example_vm = vret vm' \<and> vm_linkedScriptsCount vm' = 1 \<and>
     vm_current vm' = None \<and> vm_threads vm' = vm_threads example_vm"
proof -
  have mem: "vm_mem example_vm p = (if p < 56 then Some ((le_bytes 8 ACTSCRIPT_MAGIC @ replicate 48 0) ! p) else None)" for p
    by (simp add: example_vm_def new_vm_def)
  have zero: "mem_rd k vm a = vret 0" if "vm_mem vm = vm_mem example_vm" "8 \<le> a" "a + k \<le> 56" for k a vm
  proof -
    have "map (\<lambda>p. the (vm_mem vm p)) [a..<a + k] = replicate k 0"
      using that by (intro nth_equalityI) (simp_all add: mem nth_append)
    moreover have "le_nat (replicate k 0) = 0" by (induction k) simp_all
    ultimately show ?thesis using that by (auto simp: mem_rd_def rd_def mem list_all_iff)
  qed
  have magic: "mem_rd 8 vm 0 = vret ACTSCRIPT_MAGIC" if "vm_mem vm = vm_mem example_vm" for vm
  proof -
    have "map (\<lambda>p. the (vm_mem vm p)) [0..<8] = le_bytes 8 ACTSCRIPT_MAGIC"
      using that by (intro nth_equalityI) (simp_all add: mem nth_append)
    then show ?thesis using that by (simp add: mem_rd_def rd_def mem list_all_iff le_nat_le_bytes ACTSCRIPT_MAGIC_def)
  qed
  have vm: "vm_linkedScriptsCount example_vm = 0" "cfg_getter (vm_cfg example_vm) [] = Some 0" "vm_current example_vm = None"
    "vm_topScripts example_vm = 0"
    by (simp_all add: example_vm_def new_vm_def)
  let ?vm1 = "example_vm\<lparr>vm_linkGroup := vm_linkGroup example_vm + 1,
    vm_linkedScripts := (vm_linkedScripts example_vm)(0 := \<lparr>si_script = 0, si_group = vm_linkGroup example_vm + 1\<rparr>), vm_linkedScriptsCount := 1\<rparr>"
  have link: "LinkScript [] (example_vm\<lparr>vm_linkGroup := vm_linkGroup example_vm + 1\<rparr>) = vret (1, Some 0, ?vm1)"
    by (subst LinkScript.simps)
      (simp add: GetActsScript_def LinkActsScript_def Let_def vm magic MAX_LINKED_def sc_Includes_def sc_Strings_def sc_Imports_def zero
        link_includes.simps link_strings.simps link_imports.simps sc_includes_count_def sc_strings_count_def sc_imports_count_def)
  let ?vm2 = "?vm1\<lparr>vm_topScripts := 1\<rparr>"
  have "load_loop 0 ?vm1 = vret ?vm2"
    by (subst load_loop.simps)
      (simp add: Let_def vm sc_Exports_def zero run_exports.simps sc_ExportsEnd_def sc_exports_count_def load_loop.simps)
  then have run: "LoadScript 0 [] example_vm = vret ?vm2" unfolding LoadScript_def link by simp
  from LoadScript_runs_nothing [OF vm(3) run] run show ?thesis by simp
qed

end
