(* ===== verification/Ff_Flexible.thy ===== *)
theory Ff_Flexible
  imports Byte_Reader
begin

text \<open>
  Flexible fast file headers, \<^verbatim>\<open>src/core/acts/tools/fastfile/fastfile_flexible.hpp\<close> and
  \<^verbatim>\<open>.cpp\<close>: up to sixteen typed chunks behind a magic and a count, in a second version with a
  signature. The writer fills a vector in two passes, the reader walks a \<^verbatim>\<open>ByteBuffer\<close>.

  SHA-256 is third-party code: \<open>sha\<close> maps the bytes that were added to the digest. A chunk of the
  reader holds the offset of its bytes in the buffer, a chunk of the writer the address its bytes
  will be copied from; the memory at those addresses is an argument of \<open>FlexWriteEnd\<close>, which reads it.
\<close>

section \<open>Data\<close>

definition FLEX_MAGIC :: u32 where "FLEX_MAGIC = 0x46464154"

definition FLEX_MAGIC_V2 :: u32 where "FLEX_MAGIC_V2 = 0x41464154"

definition IsFlexibleDataMagic :: "u32 \<Rightarrow> bool" where
  "IsFlexibleDataMagic m \<longleftrightarrow> m = FLEX_MAGIC \<or> m = FLEX_MAGIC_V2"

text \<open>The sizes of \<^verbatim>\<open>TAFASignature\<close> (a magic, a hash and a signature) and of the chunk arrays.\<close>

definition SIGNATURE_SIZE :: nat where "SIGNATURE_SIZE = 0x124"

definition MAX_CHUNKS :: nat where "MAX_CHUNKS = 0x10"

definition ST_VERSION :: u32 where "ST_VERSION = 0x39CB44F1"

definition ST_BLOCK_SIZES :: u32 where "ST_BLOCK_SIZES = 0x66C65056"

text \<open>The exceptions; \<open>Buffer\<close> carries those of the reader's buffer and accesses out of bounds.\<close>

datatype flex_error =
    Buffer bb_error
  | InvalidFlexMagic u32 | TooManyChunks | InvalidSignatureMagic | InvalidHash
  | MissingSection u32 | SectionTooSmall u32
  | TooManyWritten

record flex_chunk =
  fc_type :: u32
  fc_size :: u64
  fc_buffer :: u64

text \<open>The reader: all sixteen slots of its array, used or not, and the count.\<close>

record flex_reader =
  fx_chunks :: "flex_chunk list"
  fx_count :: u64

text \<open>The writer: the vector it appends to and the used part of its array.\<close>

record flex_wchunk =
  wc_type :: u32
  wc_offset :: nat
  wc_buffer :: u64
  wc_size :: u32

record flex_writer =
  fw_magic :: u32
  fw_data :: "u8 list"
  fw_chunks :: "flex_wchunk list"
  fw_hashOffset :: nat

section \<open>The reader\<close>

text \<open>
  The loop of \<open>ReadHeader\<close>: \<open>n\<close> chunks from slot \<open>i\<close> on. The slots are assigned field by field, and
  keep what was assigned when a read throws.
\<close>

fun ReadChunks ::
  "nat \<Rightarrow> nat \<Rightarrow> byte_buffer abuf \<Rightarrow> flex_chunk list \<Rightarrow> (bb_error + byte_buffer abuf) \<times> flex_chunk list" where
  "ReadChunks i 0 a cs = (Inr a, cs)"
| "ReadChunks i (Suc n) a cs =
     (case ReadT bb_vt 4 a of
        Inl e \<Rightarrow> (Inl e, cs)
      | Inr (t, a1) \<Rightarrow>
          let cs1 = cs[i := (cs ! i)\<lparr>fc_type := of_nat (le_nat t)\<rparr>]
          in case ReadT bb_vt 4 a1 of
               Inl e \<Rightarrow> (Inl e, cs1)
             | Inr (s, a2) \<Rightarrow>
                 let cs2 = cs1[i := (cs1 ! i)\<lparr>fc_size := of_nat (le_nat s)\<rparr>]
                 in case ReadPtr 1 (impl a2) (fc_size (cs2 ! i)) of
                      Inl e \<Rightarrow> (Inl e, cs2)
                    | Inr (p, b) \<Rightarrow>
                        ReadChunks (i + 1) n (a2\<lparr>impl := b\<rparr>) (cs2[i := (cs2 ! i)\<lparr>fc_buffer := p\<rparr>]))"

text \<open>\<^verbatim>\<open>fnv.find("ffotd")\<close>, and the part of the file name that is hashed: up to the prefix, or all.\<close>

fun find_sub :: "u8 list \<Rightarrow> u8 list \<Rightarrow> nat option" where
  "find_sub pat [] = (if pat = [] then Some 0 else None)"
| "find_sub pat (c # s) = (if take (length pat) (c # s) = pat then Some 0 else map_option Suc (find_sub pat s))"

definition hashed_name :: "cstr \<Rightarrow> cstr" where
  "hashed_name name =
     (let fnv = c_chars name
      in case find_sub (cstr_of ''ffotd'') fnv of Some f \<Rightarrow> take (f + 5) fnv | None \<Rightarrow> fnv)"

text \<open>The bytes hashed for the chunks: type, low half of the size, and the content.\<close>

fun chunk_hash_bytes :: "byte_buffer \<Rightarrow> flex_chunk list \<Rightarrow> bb_error + u8 list" where
  "chunk_hash_bytes b [] = Inr []"
| "chunk_hash_bytes b (c # cs) =
     (case bb_mem b (unat (fc_buffer c)) (unat (fc_size c)) of
        None \<Rightarrow> Inl OutOfBounds
      | Some m \<Rightarrow>
          ebind (chunk_hash_bytes b cs) (\<lambda>r.
            Inr (le_bytes 4 (unat (fc_type c)) @ le_bytes 4 (unat (ucast (fc_size c) :: u32)) @ m @ r)))"

text \<open>The part after the chunks, for the second version: the signature, and its check.\<close>

definition ReadSignature ::
  "(u8 list \<Rightarrow> u8 list) \<Rightarrow> cstr option \<Rightarrow> u32 \<Rightarrow> flex_reader \<Rightarrow> byte_buffer abuf \<Rightarrow> flex_error + byte_buffer abuf" where
  "ReadSignature sha secureInfo magic r a =
     (case ReadPtr (of_nat SIGNATURE_SIZE) (impl a) 1 of
        Inl e \<Rightarrow> Inl (Buffer e)
      | Inr (p, b) \<Rightarrow>
          let endData = take SIGNATURE_SIZE (drop (unat p) (bb_buffer b)); a' = a\<lparr>impl := b\<rparr>
          in if length endData < SIGNATURE_SIZE then Inl (Buffer OutOfBounds)
             else if of_nat (le_nat (take 4 endData)) \<noteq> FLEX_MAGIC_V2 then Inl InvalidSignatureMagic
             else case secureInfo of
                    None \<Rightarrow> Inr a'
                  | Some name \<Rightarrow>
                      (case chunk_hash_bytes b (take (unat (fx_count r)) (fx_chunks r)) of
                         Inl e \<Rightarrow> Inl (Buffer e)
                       | Inr content \<Rightarrow>
                           if sha (hashed_name name @ le_bytes 4 (unat magic) @
                                   le_bytes 4 (unat (ucast (fx_count r) :: u32)) @ content)
                              \<noteq> take 32 (drop 4 endData)
                           then Inl InvalidHash else Inr a'))"

definition FlexReadHeader ::
  "(u8 list \<Rightarrow> u8 list) \<Rightarrow> cstr option \<Rightarrow> flex_reader \<Rightarrow> byte_buffer abuf \<Rightarrow>
     (flex_error + byte_buffer abuf) \<times> flex_reader" where
  "FlexReadHeader sha secureInfo r a =
     (case ReadT bb_vt 4 a of
        Inl e \<Rightarrow> (Inl (Buffer e), r)
      | Inr (m, a1) \<Rightarrow>
          let magic = of_nat (le_nat m) :: u32
          in if \<not> IsFlexibleDataMagic magic then (Inl (InvalidFlexMagic magic), r)
             else case ReadT bb_vt 4 a1 of
                    Inl e \<Rightarrow> (Inl (Buffer e), r)
                  | Inr (c, a2) \<Rightarrow>
                      let r1 = r\<lparr>fx_count := of_nat (le_nat c)\<rparr>
                      in if fx_count r1 = 0 then (Inr a2, r1)
                         else if of_nat MAX_CHUNKS < fx_count r1 then (Inl TooManyChunks, r1)
                         else case ReadChunks 0 (unat (fx_count r1)) a2 (fx_chunks r1) of
                                (Inl e, cs) \<Rightarrow> (Inl (Buffer e), r1\<lparr>fx_chunks := cs\<rparr>)
                              | (Inr a3, cs) \<Rightarrow>
                                  let r2 = r1\<lparr>fx_chunks := cs\<rparr>
                                  in if magic = FLEX_MAGIC_V2
                                     then (ReadSignature sha secureInfo magic r2 a3, r2)
                                     else (Inr a3, r2))"

text \<open>\<^verbatim>\<open>GetChunk\<close>: the slot of the chunk; the loop is bounded by the count, not by the array.\<close>

function GetChunk_loop :: "flex_reader \<Rightarrow> u32 \<Rightarrow> nat \<Rightarrow> flex_error + nat option" where
  "GetChunk_loop r t i =
     (if i < unat (fx_count r)
      then if length (fx_chunks r) \<le> i then Inl (Buffer OutOfBounds)
           else if fc_type (fx_chunks r ! i) = t then Inr (Some i)
           else GetChunk_loop r t (i + 1)
      else Inr None)"
  by pat_completeness auto
termination by (relation "measure (\<lambda>(r, t, i). unat (fx_count r) - i)") auto

declare GetChunk_loop.simps [simp del]

definition GetChunk :: "flex_reader \<Rightarrow> u32 \<Rightarrow> bool \<Rightarrow> flex_error + nat option" where
  "GetChunk r t failMissing =
     ebind (GetChunk_loop r t 0) (\<lambda>c.
       case c of
         Some i \<Rightarrow> Inr (Some i)
       | None \<Rightarrow> if failMissing then Inl (MissingSection t) else Inr None)"

definition flex_Clear :: "flex_reader \<Rightarrow> flex_reader" where
  "flex_Clear r = r\<lparr>fx_count := 0\<rparr>"

text \<open>\<^verbatim>\<open>GetPtr<T>\<close>, \<^verbatim>\<open>GetChunkVal<T>\<close> and the named chunks: offsets in the buffer.\<close>

definition flex_GetPtr :: "u64 \<Rightarrow> flex_chunk \<Rightarrow> flex_error + u64" where
  "flex_GetPtr sizeof_T c = (if fc_size c < sizeof_T then Inl (SectionTooSmall (fc_type c)) else Inr (fc_buffer c))"

definition GetChunkVal :: "u64 \<Rightarrow> flex_reader \<Rightarrow> u32 \<Rightarrow> bool \<Rightarrow> flex_error + u64 option" where
  "GetChunkVal sizeof_T r t failMissing =
     ebind (GetChunk r t failMissing) (\<lambda>c.
       case c of
         None \<Rightarrow> Inr None
       | Some i \<Rightarrow> ebind (flex_GetPtr sizeof_T (fx_chunks r ! i)) (\<lambda>p. Inr (Some p)))"

definition GetTrXBlocks :: "flex_reader \<Rightarrow> flex_error + u64 option" where
  "GetTrXBlocks r = GetChunkVal 8 r ST_BLOCK_SIZES True"

definition GetTrXBlocksCount :: "flex_reader \<Rightarrow> flex_error + u64" where
  "GetTrXBlocksCount r =
     ebind (GetChunk r ST_BLOCK_SIZES True) (\<lambda>c.
       case c of
         Some i \<Rightarrow> Inr (fc_size (fx_chunks r ! i) div 8)
       | None \<Rightarrow> Inl (Buffer OutOfBounds))"

definition GetTrVersion :: "byte_buffer \<Rightarrow> flex_reader \<Rightarrow> flex_error + u32" where
  "GetTrVersion b r =
     ebind (GetChunkVal 4 r ST_VERSION True) (\<lambda>p.
       case p of
         None \<Rightarrow> Inl (Buffer OutOfBounds)
       | Some p \<Rightarrow>
           (case bb_mem b (unat p) 4 of
              None \<Rightarrow> Inl (Buffer OutOfBounds) | Some m \<Rightarrow> Inr (of_nat (le_nat m))))"

section \<open>The writer\<close>

text \<open>\<^verbatim>\<open>utils::WriteValue\<close> and \<^verbatim>\<open>utils::Allocate\<close> on a vector: the location before, and the vector.\<close>

definition vec_WriteValue :: "nat \<Rightarrow> nat \<Rightarrow> u8 list \<Rightarrow> nat \<times> u8 list" where
  "vec_WriteValue sizeof_T v data = (length data, data @ le_bytes sizeof_T v)"

definition vec_Allocate :: "nat \<Rightarrow> u8 list \<Rightarrow> nat \<times> u8 list" where
  "vec_Allocate len data = (length data, data @ replicate len 0)"

definition new_flex_writer :: "u8 list \<Rightarrow> u32 \<Rightarrow> flex_writer" where
  "new_flex_writer data magic =
     (let (_, data) = vec_Allocate 8 data;
          (hashOffset, data) = (if magic = FLEX_MAGIC_V2 then vec_Allocate SIGNATURE_SIZE data else (0, data))
      in \<lparr>fw_magic = magic, fw_data = data, fw_chunks = [], fw_hashOffset = hashOffset\<rparr>)"

text \<open>\<^verbatim>\<open>AddBlock\<close>: the vector has grown when the exception is thrown.\<close>

definition AddBlock :: "u32 \<Rightarrow> u64 \<Rightarrow> u32 \<Rightarrow> flex_writer \<Rightarrow> (flex_error + unit) \<times> flex_writer" where
  "AddBlock t ptr len w =
     (let (_, data) = vec_WriteValue 4 (unat t) (fw_data w);
          (_, data) = vec_WriteValue 4 (unat len) data;
          (off, data) = vec_Allocate (unat len) data;
          w = w\<lparr>fw_data := data\<rparr>
      in if length (fw_chunks w) = MAX_CHUNKS then (Inl TooManyWritten, w)
         else (Inr (), w\<lparr>fw_chunks := fw_chunks w @
                 [\<lparr>wc_type = t, wc_offset = off, wc_buffer = ptr, wc_size = len\<rparr>]\<rparr>))"

text \<open>\<^verbatim>\<open>memcpy\<close> into the vector, out of a memory.\<close>

definition mem_bytes :: "(u64 \<Rightarrow> u8) \<Rightarrow> u64 \<Rightarrow> nat \<Rightarrow> u8 list" where
  "mem_bytes mem p n = map (\<lambda>i. mem (p + of_nat i)) [0..<n]"

definition vec_put :: "nat \<Rightarrow> u8 list \<Rightarrow> u8 list \<Rightarrow> u8 list" where
  "vec_put off bs data = take off data @ bs @ drop (off + length bs) data"

fun WriteChunks :: "(u64 \<Rightarrow> u8) \<Rightarrow> flex_wchunk list \<Rightarrow> u8 list \<Rightarrow> u8 list" where
  "WriteChunks mem [] data = data"
| "WriteChunks mem (c # cs) data =
     WriteChunks mem cs (vec_put (wc_offset c) (mem_bytes mem (wc_buffer c) (unat (wc_size c))) data)"

definition FlexWriteEnd :: "(u8 list \<Rightarrow> u8 list) \<Rightarrow> (u64 \<Rightarrow> u8) \<Rightarrow> cstr option \<Rightarrow> flex_writer \<Rightarrow> flex_writer" where
  "FlexWriteEnd sha mem secureInfo w =
     (let data = vec_put 0 (le_bytes 4 (unat (fw_magic w)) @ le_bytes 4 (length (fw_chunks w))) (fw_data w);
          data = WriteChunks mem (fw_chunks w) data
      in w\<lparr>fw_data :=
           (if fw_hashOffset w \<noteq> 0
            then case secureInfo of
                   None \<Rightarrow> data
                 | Some name \<Rightarrow>
                     vec_put (fw_hashOffset w + 4)
                       (sha (c_chars name @ take 8 data @
                             concat (map (\<lambda>c. le_bytes 4 (unat (wc_type c)) @ le_bytes 4 (unat (wc_size c)) @
                                         mem_bytes mem (wc_buffer c) (unat (wc_size c))) (fw_chunks w))))
                       (vec_put (fw_hashOffset w) (le_bytes 4 (unat (fw_magic w))) data)
            else data)\<rparr>)"

text \<open>A whole run of the writer.\<close>

fun AddBlocks :: "(u32 \<times> u64 \<times> u32) list \<Rightarrow> flex_writer \<Rightarrow> (flex_error + unit) \<times> flex_writer" where
  "AddBlocks [] w = (Inr (), w)"
| "AddBlocks ((t, p, l) # bs) w =
     (case AddBlock t p l w of
        (Inl e, w) \<Rightarrow> (Inl e, w)
      | (Inr _, w) \<Rightarrow> AddBlocks bs w)"

definition write_flexible ::
  "(u8 list \<Rightarrow> u8 list) \<Rightarrow> (u64 \<Rightarrow> u8) \<Rightarrow> cstr option \<Rightarrow> u32 \<Rightarrow> (u32 \<times> u64 \<times> u32) list \<Rightarrow> flex_error + u8 list" where
  "write_flexible sha mem secureInfo magic bs =
     (case AddBlocks bs (new_flex_writer [] magic) of
        (Inl e, _) \<Rightarrow> Inl e
      | (Inr _, w) \<Rightarrow> Inr (fw_data (FlexWriteEnd sha mem secureInfo w)))"

end
