(* ===== verification/Ff_Flexible_Properties.thy ===== *)
theory Ff_Flexible_Properties
  imports Ff_Flexible
begin

text \<open>
  What the flexible headers guarantee: the first version is read back as it was written, the second
  one is not, and when looking a chunk up stays inside the array.
\<close>

section \<open>Pointers into the buffer\<close>

lemma ReadPtr_ok:
  assumes "buf.ok a" and "unat n \<le> length (buf.view a)"
  obtains b where "ReadPtr 1 (impl a) n = Inr (bb_pointer (impl a), b)"
    and "buf.moves a (unat n) (a\<lparr>impl := b\<rparr>)" and "bb_buffer b = bb_buffer (impl a)"
proof -
  let ?b = "(impl a)\<lparr>bb_pointer := bb_pointer (impl a) + n\<rparr>"
  have wf: "bb_wf (impl a)" using assms(1) by (simp add: buf.ok_def)
  have l: "unat (bb_pointer (impl a)) + unat n \<le> length (bb_buffer (impl a))" "length (bb_buffer (impl a)) < 2 ^ 63"
    using assms(2) bb_wf_pos [OF wf] wf by (auto simp: buf.view_def bb_wf_def)
  then have c: "bb_CanRead (impl a) n" by (subst bb_CanRead_iff [OF wf]) auto
  have u: "unat (bb_pointer (impl a) + n) = unat (bb_pointer (impl a)) + unat n"
    using l by (simp add: unat_word_ariths)
  have "bb_wf ?b" using wf l u by (simp add: bb_wf_def word_le_nat_alt)
  with c u show ?thesis
    by (intro that [of ?b]) (simp_all add: ReadPtr_def buf.moves_def buf.ok_def)
qed

section \<open>Reading chunks\<close>

text \<open>A chunk in the file.\<close>

definition chunk_bytes :: "u32 \<times> u8 list \<Rightarrow> u8 list" where
  "chunk_bytes = (\<lambda>(t, bs). le_bytes 4 (unat t) @ le_bytes 4 (length bs) @ bs)"

text \<open>What the reader holds of a chunk: its type and the bytes it points to.\<close>

definition chunk_of :: "u8 list \<Rightarrow> flex_chunk \<Rightarrow> u32 \<times> u8 list" where
  "chunk_of data c = (fc_type c, take (unat (fc_size c)) (drop (unat (fc_buffer c)) data))"

lemma le_u32 [simp]: "of_nat (le_nat (le_bytes 4 (unat (m :: u32)))) = m"
proof -
  have "unat m < 2 ^ 32" using unat_bound [of m] by simp
  then show ?thesis by (simp add: le_nat_le_bytes)
qed

lemma Read_u32:
  assumes "buf.ok a" and "buf.view a = le_bytes 4 v @ rest" and "v < 2 ^ 32"
  obtains a' where "ReadT bb_vt 4 a = Inr (le_bytes 4 v, a')" and "buf.moves a 4 a'"
    and "buf.view a' = rest" and "buf.ok a'" and "le_nat (le_bytes 4 v) = v"
proof -
  obtain a' where a': "ReadT bb_vt 4 a = Inr (take (unat (4 :: u64)) (buf.view a), a')"
      "buf.moves a (unat (4 :: u64)) a'"
    using buf.ReadT_ok [of a 4] assms(1,2) by auto
  then have m: "buf.moves a 4 a'" by simp
  show ?thesis
    by (rule that [of a'])
      (use a' m assms buf.moves_view [OF m] buf.moves_ok [OF m] in \<open>simp_all add: le_nat_le_bytes\<close>)
qed

lemma ReadChunks_ok:
  assumes "buf.ok a" and "buf.view a = concat (map chunk_bytes bs) @ rest" and "i + length bs \<le> length cs"
    and "\<forall>(t, m) \<in> set bs. length m < 2 ^ 32"
  shows "\<exists>a' cs'. ReadChunks i (length bs) a cs = (Inr a', cs') \<and>
    buf.moves a (length (concat (map chunk_bytes bs))) a' \<and>
    length cs' = length cs \<and> take i cs' = take i cs \<and>
    map (chunk_of (bb_buffer (impl a))) (take (length bs) (drop i cs')) = bs"
  using assms
proof (induction bs arbitrary: i a cs)
  case Nil
  then show ?case by (simp add: buf.moves_refl)
next
  case (Cons b bs)
  obtain t m where b: "b = (t, m)" by (cases b)
  have lm: "length m < 2 ^ 32" using Cons.prems(4) b by simp
  have i: "i < length cs" using Cons.prems(3) by simp
  have ut: "unat t < 2 ^ 32" using unat_bound [of t] by simp
  let ?r = "concat (map chunk_bytes bs) @ rest"
  obtain a1 where a1: "ReadT bb_vt 4 a = Inr (le_bytes 4 (unat t), a1)" "buf.moves a 4 a1"
      "buf.view a1 = le_bytes 4 (length m) @ m @ ?r" "buf.ok a1"
    using Read_u32 [OF Cons.prems(1), of "unat t" "le_bytes 4 (length m) @ m @ ?r"] Cons.prems(2) ut
    by (auto simp: b chunk_bytes_def)
  obtain a2 where a2: "ReadT bb_vt 4 a1 = Inr (le_bytes 4 (length m), a2)" "buf.moves a1 4 a2"
      "buf.view a2 = m @ ?r" "buf.ok a2"
    using Read_u32 [OF a1(4,3) lm] by auto
  let ?n = "of_nat (length m) :: u64"
  have un: "unat ?n = length m" using lm by (simp add: unat_of_nat_u64 del: of_nat_unat)
  obtain b' where b': "ReadPtr 1 (impl a2) ?n = Inr (bb_pointer (impl a2), b')"
      "buf.moves a2 (length m) (a2\<lparr>impl := b'\<rparr>)"
    using ReadPtr_ok [OF a2(4), of ?n] un a2(3) by auto
  let ?a3 = "a2\<lparr>impl := b'\<rparr>" and ?c = "\<lparr>fc_type = t, fc_size = ?n, fc_buffer = bb_pointer (impl a2)\<rparr>"
  let ?cs = "cs[i := ?c]"
  have v3: "buf.view ?a3 = ?r" using buf.moves_view [OF b'(2)] a2(3) by simp
  have m3: "buf.moves a (8 + length m) ?a3"
    using buf.moves_trans [OF buf.moves_trans [OF a1(2) a2(2)] b'(2)] by simp
  then have bb: "bb_buffer (impl ?a3) = bb_buffer (impl a)" "bb_buffer (impl a2) = bb_buffer (impl a)"
    using buf.moves_trans [OF a1(2) a2(2)] by (simp_all add: buf.moves_def)
  have tn: "of_nat (le_nat (le_bytes 4 (length m))) = ?n"
    using lm by (simp add: le_nat_le_bytes)
  obtain a' cs' where IH: "ReadChunks (i + 1) (length bs) ?a3 ?cs = (Inr a', cs')"
      "buf.moves ?a3 (length (concat (map chunk_bytes bs))) a'" "length cs' = length ?cs"
      "take (i + 1) cs' = take (i + 1) ?cs"
      "map (chunk_of (bb_buffer (impl ?a3))) (take (length bs) (drop (i + 1) cs')) = bs"
    using Cons.IH [OF buf.moves_ok [OF m3] v3, of "i + 1" ?cs] Cons.prems(3,4) by auto
  have ce: "(cs ! i)\<lparr>fc_type := t, fc_size := ?n, fc_buffer := bb_pointer (impl a2)\<rparr> = ?c"
    by (cases "cs ! i") simp
  have step: "ReadChunks i (length (b # bs)) a cs = (Inr a', cs')"
    using a1(1) a2(1) b'(1) IH(1) i by (simp add: Let_def tn ce del: of_nat_unat)
  have "cs' ! i = take (i + 1) cs' ! i" by simp
  also have "\<dots> = ?c" unfolding IH(4) using i by simp
  finally have ci: "cs' ! i = ?c" .
  have "take i cs' = take i (take (i + 1) cs')" by simp
  also have "\<dots> = take i cs" unfolding IH(4) by simp
  finally have ti: "take i cs' = take i cs" .
  have "buf.view a2 = drop (unat (bb_pointer (impl a2))) (bb_buffer (impl a))"
    using bb(2) by (simp add: buf.view_def)
  then have d: "drop (unat (bb_pointer (impl a2))) (bb_buffer (impl a)) = m @ ?r" using a2(3) by simp
  have co: "chunk_of (bb_buffer (impl a)) ?c = b"
    by (simp add: chunk_of_def b d un)
  have "drop i cs' = cs' ! i # drop (i + 1) cs'"
    using i IH(3) by (simp add: Cons_nth_drop_Suc)
  then have "map (chunk_of (bb_buffer (impl a))) (take (length (b # bs)) (drop i cs')) = b # bs"
    using ci co IH(5) bb(1) by simp
  moreover have "buf.moves a (length (concat (map chunk_bytes (b # bs)))) a'"
    using buf.moves_trans [OF m3 IH(2)] by (simp add: b chunk_bytes_def add.assoc)
  ultimately show ?case using step IH(3) ti by auto
qed

section \<open>What the writer leaves\<close>

text \<open>The bytes added for blocks, before and after their contents are copied.\<close>

definition blank_block :: "u32 \<times> u64 \<times> u32 \<Rightarrow> u32 \<times> u8 list" where
  "blank_block = (\<lambda>(t, p, l). (t, replicate (unat l) 0))"

definition full_block :: "(u64 \<Rightarrow> u8) \<Rightarrow> u32 \<times> u64 \<times> u32 \<Rightarrow> u32 \<times> u8 list" where
  "full_block mem = (\<lambda>(t, p, l). (t, mem_bytes mem p (unat l)))"

lemma block_bytes [simp]:
  "chunk_bytes (blank_block (t, p, l)) = le_bytes 4 (unat t) @ le_bytes 4 (unat l) @ replicate (unat l) 0"
  "chunk_bytes (full_block mem (t, p, l)) = le_bytes 4 (unat t) @ le_bytes 4 (unat l) @ mem_bytes mem p (unat l)"
  by (simp_all add: chunk_bytes_def blank_block_def full_block_def mem_bytes_def)

lemma length_mem_bytes [simp]: "length (mem_bytes mem p n) = n"
  by (simp add: mem_bytes_def)

text \<open>The chunks the writer keeps for blocks that start at an offset.\<close>

fun wchunks :: "nat \<Rightarrow> (u32 \<times> u64 \<times> u32) list \<Rightarrow> flex_wchunk list" where
  "wchunks off [] = []"
| "wchunks off ((t, p, l) # bs) =
     \<lparr>wc_type = t, wc_offset = off + 8, wc_buffer = p, wc_size = l\<rparr> # wchunks (off + 8 + unat l) bs"

lemma length_wchunks [simp]: "length (wchunks off bs) = length bs"
  by (induction off bs rule: wchunks.induct) auto

lemma AddBlock_eq:
  "AddBlock t p l w =
     (let w' = w\<lparr>fw_data := fw_data w @ chunk_bytes (blank_block (t, p, l))\<rparr>
      in if length (fw_chunks w) = MAX_CHUNKS then (Inl TooManyWritten, w')
         else (Inr (), w'\<lparr>fw_chunks := fw_chunks w @ wchunks (length (fw_data w)) [(t, p, l)]\<rparr>))"
  by (simp add: AddBlock_def vec_WriteValue_def vec_Allocate_def Let_def)

lemma AddBlocks_eq:
  "length (fw_chunks w) + length bs \<le> MAX_CHUNKS \<Longrightarrow>
   AddBlocks bs w = (Inr (), w\<lparr>fw_data := fw_data w @ concat (map (\<lambda>b. chunk_bytes (blank_block b)) bs),
                              fw_chunks := fw_chunks w @ wchunks (length (fw_data w)) bs\<rparr>)"
proof (induction bs w rule: AddBlocks.induct)
  case (2 t p l bs w)
  let ?w = "w\<lparr>fw_data := fw_data w @ chunk_bytes (blank_block (t, p, l)),
              fw_chunks := fw_chunks w @ wchunks (length (fw_data w)) [(t, p, l)]\<rparr>"
  have s: "AddBlock t p l w = (Inr (), ?w)" using "2.prems" by (simp add: AddBlock_eq Let_def)
  have "length (fw_chunks ?w) + length bs \<le> MAX_CHUNKS" using "2.prems" by (simp del: block_bytes)
  from "2.IH" [OF s [symmetric] refl this] s show ?case
    by (simp add: add.commute add.left_commute)
qed simp

lemma AddBlocks_err:
  "length (fw_chunks w) \<le> MAX_CHUNKS \<Longrightarrow> MAX_CHUNKS < length (fw_chunks w) + length bs \<Longrightarrow>
   \<exists>w'. AddBlocks bs w = (Inl TooManyWritten, w')"
proof (induction bs w rule: AddBlocks.induct)
  case (2 t p l bs w)
  show ?case
  proof (cases "length (fw_chunks w) = MAX_CHUNKS")
    case False
    let ?w = "w\<lparr>fw_data := fw_data w @ chunk_bytes (blank_block (t, p, l)),
                fw_chunks := fw_chunks w @ wchunks (length (fw_data w)) [(t, p, l)]\<rparr>"
    have s: "AddBlock t p l w = (Inr (), ?w)" using False by (simp add: AddBlock_eq Let_def)
    from "2.IH" [OF s [symmetric] refl] "2.prems" False s show ?thesis by simp
  qed (simp add: AddBlock_eq Let_def)
qed simp

lemma vec_put_mid: "length bs = length old \<Longrightarrow> vec_put (length pre) bs (pre @ old @ post) = pre @ bs @ post"
  by (simp add: vec_put_def)

lemma WriteChunks_eq:
  "WriteChunks mem (wchunks (length pre) bs) (pre @ concat (map (\<lambda>b. chunk_bytes (blank_block b)) bs)) =
     pre @ concat (map (\<lambda>b. chunk_bytes (full_block mem b)) bs)"
proof (induction bs arbitrary: pre)
  case (Cons b bs)
  obtain t p l where b: "b = (t, p, l)" by (cases b)
  let ?h = "le_bytes 4 (unat t) @ le_bytes 4 (unat l)" and ?m = "mem_bytes mem p (unat l)"
  have "vec_put (length pre + 8) ?m ((pre @ ?h) @ replicate (unat l) 0 @ concat (map (\<lambda>b. chunk_bytes (blank_block b)) bs))
      = (pre @ ?h) @ ?m @ concat (map (\<lambda>b. chunk_bytes (blank_block b)) bs)"
    using vec_put_mid [of ?m "replicate (unat l) 0" "pre @ ?h"] by simp
  then show ?case
    using Cons.IH [of "pre @ ?h @ ?m"] by (simp add: b add.commute add.left_commute)
qed simp


text \<open>The bytes of the chunks, and the file, stay far below the sizes that wrap.\<close>

lemma length_blocks:
  "length (concat (map (\<lambda>b. chunk_bytes (full_block mem b)) bs)) \<le> length bs * 2 ^ 33"
proof (induction bs)
  case (Cons b bs)
  obtain t p l where b: "b = (t, p, l)" by (cases b)
  have "unat l < 2 ^ 32" using unat_bound [of l] by simp
  with Cons show ?case by (simp add: b)
qed simp


lemma new_buffer:
  "length d < 2 ^ 63 \<Longrightarrow> buf.ok (new_abuf (new_ByteBuffer d)) \<and> buf.view (new_abuf (new_ByteBuffer d)) = d"
  by (simp add: buf.ok_def buf.view_def new_abuf_def new_ByteBuffer_def bb_wf_def unat_of_nat_u64
      del: of_nat_unat)

text \<open>The reader on a file with a good header, up to the signature.\<close>

lemma FlexReadHeader_chunks:
  assumes d: "d = le_bytes 4 (unat m) @ le_bytes 4 n @ body" and l: "length d < 2 ^ 63"
    and m: "IsFlexibleDataMagic m" and n: "0 < n" "n \<le> MAX_CHUNKS"
    and a: "a = new_abuf (new_ByteBuffer d)"
  obtains a2 where "buf.moves a 8 a2" and "buf.view a2 = body"
    and "FlexReadHeader sha si r a =
      (case ReadChunks 0 n a2 (fx_chunks r) of
         (Inl e, cs) \<Rightarrow> (Inl (Buffer e), r\<lparr>fx_count := of_nat n, fx_chunks := cs\<rparr>)
       | (Inr a3, cs) \<Rightarrow>
           let r2 = r\<lparr>fx_count := of_nat n, fx_chunks := cs\<rparr>
           in if m = FLEX_MAGIC_V2 then (ReadSignature sha si m r2 a3, r2) else (Inr a3, r2))"
proof -
  have um: "unat m < 2 ^ 32" using unat_bound [of m] by simp
  have nn: "n < 2 ^ 32" "unat (of_nat n :: u64) = n" "(of_nat n :: u64) \<noteq> 0"
      "\<not> of_nat MAX_CHUNKS < (of_nat n :: u64)"
    using n by (auto simp: MAX_CHUNKS_def unat_of_nat_u64 word_less_nat_alt word_unat_eq_iff simp del: of_nat_unat)
  obtain a1 where a1: "ReadT bb_vt 4 a = Inr (le_bytes 4 (unat m), a1)" "buf.moves a 4 a1"
      "buf.view a1 = le_bytes 4 n @ body" "buf.ok a1"
    using Read_u32 [of a "unat m" "le_bytes 4 n @ body"] new_buffer [OF l] um by (auto simp: a d)
  obtain a2 where a2: "ReadT bb_vt 4 a1 = Inr (le_bytes 4 n, a2)" "buf.moves a1 4 a2" "buf.view a2 = body"
    using Read_u32 [OF a1(4,3) nn(1)] by auto
  have "le_nat (le_bytes 4 n) = n"
    using nn(1) by (simp_all add: le_nat_le_bytes)
  moreover have "buf.moves a 8 a2" using buf.moves_trans [OF a1(2) a2(2)] by simp
  ultimately show ?thesis
    by (intro that [of a2]) (use a1 a2 m nn in \<open>simp_all add: FlexReadHeader_def Let_def del: of_nat_unat
      split: sum.split prod.split\<close>)
qed






section \<open>The second version\<close>

lemma write_flexible_v2:
  assumes "length bs \<le> MAX_CHUNKS"
  shows "write_flexible sha mem si FLEX_MAGIC_V2 bs =
    Inr (let body = concat (map (\<lambda>b. chunk_bytes (full_block mem b)) bs);
             d = le_bytes 4 (unat FLEX_MAGIC_V2) @ le_bytes 4 (length bs) @ replicate SIGNATURE_SIZE 0 @ body
         in case si of
              None \<Rightarrow> d
            | Some name \<Rightarrow>
                vec_put 12
                  (sha (c_chars name @ take 8 d @
                     concat (map (\<lambda>c. le_bytes 4 (unat (wc_type c)) @ le_bytes 4 (unat (wc_size c)) @
                       mem_bytes mem (wc_buffer c) (unat (wc_size c))) (wchunks 300 bs))))
                  (vec_put 8 (le_bytes 4 (unat FLEX_MAGIC_V2)) d))"
proof -
  let ?h = "le_bytes 4 (unat FLEX_MAGIC_V2) @ le_bytes 4 (length bs)"
  let ?p = "?h @ replicate SIGNATURE_SIZE 0" and ?b = "concat (map (\<lambda>b. chunk_bytes (blank_block b)) bs)"
  have p: "vec_put 0 ?h (replicate 8 0 @ replicate SIGNATURE_SIZE 0 @ ?b) = ?p @ ?b"
    by (simp add: vec_put_def)
  have lp: "length ?p = 300" by (simp add: SIGNATURE_SIZE_def)
  show ?thesis
    using assms WriteChunks_eq [of mem ?p bs] p unfolding lp
    by (simp add: write_flexible_def new_flex_writer_def AddBlocks_eq vec_Allocate_def FlexWriteEnd_def
        SIGNATURE_SIZE_def Let_def split: option.split)
qed

text \<open>The signature comes before the chunks, so its first four bytes are the type of a chunk.\<close>

lemma ReadChunks_keeps: "j < i \<Longrightarrow> snd (ReadChunks i n a cs) ! j = cs ! j"
  by (induction i n a cs rule: ReadChunks.induct) (simp_all add: Let_def split: sum.split prod.split)

lemma length_ReadChunks [simp]: "length (snd (ReadChunks i n a cs)) = length cs"
  by (induction i n a cs rule: ReadChunks.induct) (simp_all add: Let_def split: sum.split prod.split)

lemma ReadChunks_first:
  "ReadT bb_vt 4 a = Inr (t, a1) \<Longrightarrow> i < length cs \<Longrightarrow>
   fc_type (snd (ReadChunks i (Suc n) a cs) ! i) = of_nat (le_nat t)"
  by (simp add: ReadChunks_keeps Let_def del: of_nat_unat split: sum.split prod.split)

text \<open>A signature made of zeros is refused.\<close>

lemma zero_signature:
  assumes "take 4 (drop (unat (bb_pointer (impl a))) (bb_buffer (impl a))) = replicate 4 0"
  shows "\<exists>e. ReadSignature sha si m r a = Inl e"
proof -
  have "le_nat (replicate k 0) = 0" for k by (induction k) simp_all
  then have "(of_nat (le_nat (replicate 4 0)) :: u32) \<noteq> FLEX_MAGIC_V2" by (simp only:) (simp add: FLEX_MAGIC_V2_def)
  moreover have "take 4 (take SIGNATURE_SIZE xs) = take 4 xs" for xs :: "u8 list" by (simp add: SIGNATURE_SIZE_def)
  ultimately show ?thesis
    using assms by (simp add: ReadSignature_def ReadPtr_def Let_def del: of_nat_unat)
qed

lemma zero_chunks:
  "n \<le> 36 \<Longrightarrow> replicate SIGNATURE_SIZE 0 = concat (map chunk_bytes (replicate n (0, []))) @ replicate (SIGNATURE_SIZE - 8 * n) 0"
proof -
  assume n: "n \<le> 36"
  have "le_bytes k 0 = replicate k 0" for k by (induction k) simp_all
  then have "chunk_bytes (0, []) = replicate 8 0"
    by (simp add: chunk_bytes_def flip: replicate_add)
  then have "concat (map chunk_bytes (replicate n (0, []))) = replicate (8 * n) 0"
    by (induction n) (simp_all flip: replicate_add)
  moreover have "8 * n + (SIGNATURE_SIZE - 8 * n) = SIGNATURE_SIZE"
    using n by (simp add: SIGNATURE_SIZE_def)
  ultimately show ?thesis by (simp flip: replicate_add)
qed

lemma v2_magic [simp]: "IsFlexibleDataMagic FLEX_MAGIC_V2"
  by (simp add: IsFlexibleDataMagic_def)

lemma v2_unsigned_refused:
  assumes d: "d = le_bytes 4 (unat FLEX_MAGIC_V2) @ le_bytes 4 n @ replicate SIGNATURE_SIZE 0 @ body"
    and l: "length d < 2 ^ 63" and n: "0 < n" "n \<le> MAX_CHUNKS" and r: "length (fx_chunks r) = 16"
  shows "\<exists>e. fst (FlexReadHeader sha si r (new_abuf (new_ByteBuffer d))) = Inl e"
proof -
  let ?a = "new_abuf (new_ByteBuffer d)" and ?z = "concat (map chunk_bytes (replicate n (0, [])))"
  let ?rest = "replicate (SIGNATURE_SIZE - 8 * n) 0 @ body"
  have n36: "n \<le> 36" "length (replicate n (0 :: u32, [] :: u8 list)) = n"
      "0 + length (replicate n (0 :: u32, [] :: u8 list)) \<le> length (fx_chunks r)"
    using n r by (simp_all add: MAX_CHUNKS_def)
  obtain a2 where a2: "buf.moves ?a 8 a2" "buf.view a2 = replicate SIGNATURE_SIZE 0 @ body"
    and R: "FlexReadHeader sha si r ?a =
      (case ReadChunks 0 n a2 (fx_chunks r) of
         (Inl e, cs) \<Rightarrow> (Inl (Buffer e), r\<lparr>fx_count := of_nat n, fx_chunks := cs\<rparr>)
       | (Inr a3, cs) \<Rightarrow>
           let r2 = r\<lparr>fx_count := of_nat n, fx_chunks := cs\<rparr>
           in if FLEX_MAGIC_V2 = FLEX_MAGIC_V2 then (ReadSignature sha si FLEX_MAGIC_V2 r2 a3, r2) else (Inr a3, r2))"
    by (rule FlexReadHeader_chunks [OF d l v2_magic n refl])
  have v: "buf.view a2 = ?z @ ?rest" using a2(2) zero_chunks [OF n36(1)] by simp
  obtain a3 cs where a3: "ReadChunks 0 n a2 (fx_chunks r) = (Inr a3, cs)" "buf.moves a2 (length ?z) a3"
    using ReadChunks_ok [OF buf.moves_ok [OF a2(1)] v n36(3)] by auto
  have "4 \<le> SIGNATURE_SIZE - 8 * n" using n by (simp add: SIGNATURE_SIZE_def MAX_CHUNKS_def)
  moreover have "buf.view a3 = ?rest" using buf.moves_view [OF a3(2)] v by simp
  ultimately have "take 4 (buf.view a3) = replicate 4 0" by (simp add: min_absorb1)
  then have "\<exists>e. ReadSignature sha si FLEX_MAGIC_V2 r2 a3 = Inl e" for r2
    using zero_signature [of a3] by (simp add: buf.view_def)
  with R a3(1) show ?thesis by (simp add: Let_def)
qed

lemma v2_signed_first:
  assumes d: "d = le_bytes 4 (unat FLEX_MAGIC_V2) @ le_bytes 4 n @ le_bytes 4 (unat FLEX_MAGIC_V2) @ body"
    and l: "length d < 2 ^ 63" and n: "0 < n" "n \<le> MAX_CHUNKS" and r: "length (fx_chunks r) = 16"
  shows "fc_type (fx_chunks (snd (FlexReadHeader sha si r (new_abuf (new_ByteBuffer d)))) ! 0) = FLEX_MAGIC_V2"
proof -
  let ?a = "new_abuf (new_ByteBuffer d)"
  obtain a2 where a2: "buf.moves ?a 8 a2" "buf.view a2 = le_bytes 4 (unat FLEX_MAGIC_V2) @ body"
    and R: "FlexReadHeader sha si r ?a =
      (case ReadChunks 0 n a2 (fx_chunks r) of
         (Inl e, cs) \<Rightarrow> (Inl (Buffer e), r\<lparr>fx_count := of_nat n, fx_chunks := cs\<rparr>)
       | (Inr a3, cs) \<Rightarrow>
           let r2 = r\<lparr>fx_count := of_nat n, fx_chunks := cs\<rparr>
           in if FLEX_MAGIC_V2 = FLEX_MAGIC_V2 then (ReadSignature sha si FLEX_MAGIC_V2 r2 a3, r2) else (Inr a3, r2))"
    by (rule FlexReadHeader_chunks [OF d l v2_magic n refl])
  obtain a3 where "ReadT bb_vt 4 a2 = Inr (le_bytes 4 (unat FLEX_MAGIC_V2), a3)"
    using Read_u32 [OF buf.moves_ok [OF a2(1)] a2(2)] unat_bound [of FLEX_MAGIC_V2] by auto
  moreover obtain k where "n = Suc k" using n(1) by (cases n) auto
  ultimately have "fc_type (snd (ReadChunks 0 n a2 (fx_chunks r)) ! 0) = FLEX_MAGIC_V2"
    using ReadChunks_first r by (simp del: ReadChunks.simps)
  with R show ?thesis by (simp add: Let_def split: prod.splits sum.splits)
qed

text \<open>
  A header of the second version is not read back: without secure information the reader throws on
  every non-empty header the writer makes, and with it the first chunk it reads is the signature, whose
  magic it takes for a type.
\<close>

theorem second_version_misread:
  assumes "write_flexible sha mem si FLEX_MAGIC_V2 bs = Inr data" and "bs \<noteq> []"
    and "length (fx_chunks r) = 16" and "\<forall>x. length (sha x) = 32"
    and "FlexReadHeader sha si' r (new_abuf (new_ByteBuffer data)) = (res, r')"
  shows "case si of None \<Rightarrow> \<exists>e. res = Inl e | Some name \<Rightarrow> fc_type (fx_chunks r' ! 0) = FLEX_MAGIC_V2"
proof -
  let ?w = "new_flex_writer [] FLEX_MAGIC_V2" and ?c = "concat (map (\<lambda>b. chunk_bytes (full_block mem b)) bs)"
  have "fw_chunks ?w = []" by (simp add: new_flex_writer_def Let_def split: prod.splits)
  then have n: "length bs \<le> MAX_CHUNKS"
    using AddBlocks_err [of ?w bs] assms(1) by (cases "MAX_CHUNKS < length bs") (auto simp: write_flexible_def)
  have lc: "length ?c \<le> 16 * 2 ^ 33" using length_blocks [of mem bs] n by (simp add: MAX_CHUNKS_def)
  note w = write_flexible_v2 [OF n, of sha mem si] and p = assms(2) [folded length_greater_0_conv]
  show ?thesis
  proof (cases si)
    case None
    then have "data = le_bytes 4 (unat FLEX_MAGIC_V2) @ le_bytes 4 (length bs) @ replicate SIGNATURE_SIZE 0 @ ?c"
      using w assms(1) by (simp add: Let_def)
    note d = this
    have "length data < 2 ^ 63" using lc by (simp add: d SIGNATURE_SIZE_def)
    from v2_unsigned_refused [OF d this p n assms(3), of sha si'] None assms(5) show ?thesis by simp
  next
    case (Some name)
    define x where "x = sha (c_chars name @ take 8 (le_bytes 4 (unat FLEX_MAGIC_V2) @ le_bytes 4 (length bs) @
        replicate SIGNATURE_SIZE 0 @ ?c) @ concat (map (\<lambda>c. le_bytes 4 (unat (wc_type c)) @
        le_bytes 4 (unat (wc_size c)) @ mem_bytes mem (wc_buffer c) (unat (wc_size c))) (wchunks 300 bs)))"
    have x: "length x = 32" using assms(4) by (simp add: x_def)
    have "data = vec_put 12 x (vec_put 8 (le_bytes 4 (unat FLEX_MAGIC_V2))
        (le_bytes 4 (unat FLEX_MAGIC_V2) @ le_bytes 4 (length bs) @ replicate SIGNATURE_SIZE 0 @ ?c))"
      using w assms(1) Some by (simp add: Let_def x_def)
    then have "data = le_bytes 4 (unat FLEX_MAGIC_V2) @ le_bytes 4 (length bs) @
        le_bytes 4 (unat FLEX_MAGIC_V2) @ x @ drop 36 (replicate SIGNATURE_SIZE 0 @ ?c)"
      by (simp add: vec_put_def SIGNATURE_SIZE_def x)
    note d = this
    have "length data < 2 ^ 63" using lc x by (simp add: d SIGNATURE_SIZE_def)
    from v2_signed_first [OF d this p n assms(3), of sha si'] Some assms(5) show ?thesis by simp
  qed
qed

lemma second_version_misread_witness:
  "\<exists>data e. write_flexible (\<lambda>_. replicate 32 7) ucast None FLEX_MAGIC_V2 [(7, 0x102, 3)] = Inr data \<and>
      fst (FlexReadHeader (\<lambda>_. replicate 32 7) None
        \<lparr>fx_chunks = replicate 16 \<lparr>fc_type = 0, fc_size = 0, fc_buffer = 0\<rparr>, fx_count = 0\<rparr>
        (new_abuf (new_ByteBuffer data))) = Inl e"
proof -
  define R where "R = \<lparr>fx_chunks = replicate 16 \<lparr>fc_type = 0, fc_size = 0, fc_buffer = 0\<rparr>, fx_count = 0\<rparr>"
  obtain data where d: "write_flexible (\<lambda>_. replicate 32 7) ucast None FLEX_MAGIC_V2 [(7, 0x102, 3)] = Inr data"
    using write_flexible_v2 [of "[(7, 0x102, 3)]"] by (auto simp: MAX_CHUNKS_def simp del: length_le_bytes)
  obtain res r' where f: "FlexReadHeader (\<lambda>_. replicate 32 7) None R (new_abuf (new_ByteBuffer data)) = (res, r')"
    by (cases "FlexReadHeader (\<lambda>_. replicate 32 7) None R (new_abuf (new_ByteBuffer data))")
  have "length (fx_chunks R) = 16" "\<forall>x :: u8 list. length (replicate 32 (7 :: u8)) = 32" "[(7, 0x102, 3)] \<noteq> []"
    by (simp_all add: R_def)
  from second_version_misread [OF d this(3,1,2) f] d f show ?thesis by (auto simp: R_def)
qed

section \<open>Looking a chunk up\<close>

lemma GetChunk_loop_out:
  "i \<le> length (fx_chunks r) \<Longrightarrow> GetChunk_loop r t i = Inl (Buffer OutOfBounds) \<longleftrightarrow>
     length (fx_chunks r) < unat (fx_count r) \<and> t \<notin> fc_type ` set (drop i (fx_chunks r))"
proof (induction r t i rule: GetChunk_loop.induct)
  case (1 r t i)
  show ?case
  proof (cases "i < unat (fx_count r) \<and> i < length (fx_chunks r)")
    case True
    then have d: "drop i (fx_chunks r) = fx_chunks r ! i # drop (i + 1) (fx_chunks r)"
      by (simp add: Cons_nth_drop_Suc)
    with 1 True show ?thesis by (subst GetChunk_loop.simps) (auto simp: not_le)
  next
    case False
    with "1.prems" show ?thesis by (subst GetChunk_loop.simps) auto
  qed
qed

lemma GetChunk_loop_errors: "GetChunk_loop r t i = Inl e \<Longrightarrow> e = Buffer OutOfBounds"
  by (induction r t i rule: GetChunk_loop.induct) (subst (asm) (2) GetChunk_loop.simps, simp split: if_splits)

lemma GetChunk_out:
  "GetChunk r t f = Inl (Buffer OutOfBounds) \<longleftrightarrow>
     length (fx_chunks r) < unat (fx_count r) \<and> t \<notin> fc_type ` set (fx_chunks r)"
  using GetChunk_loop_out [of 0 r t] by (auto simp: GetChunk_def ebind_eq_Inl_iff split: option.splits)

lemma not_many: "of_nat MAX_CHUNKS < (c :: u64) \<longleftrightarrow> 16 < unat c"
  by (simp add: MAX_CHUNKS_def word_less_nat_alt)

lemma FlexReadHeader_many:
  assumes d: "d = le_bytes 4 (unat m) @ le_bytes 4 n @ body" and l: "length d < 2 ^ 63"
    and m: "IsFlexibleDataMagic m" and n: "16 < n" "n < 2 ^ 32"
  shows "FlexReadHeader sha si r (new_abuf (new_ByteBuffer d)) = (Inl TooManyChunks, r\<lparr>fx_count := of_nat n\<rparr>)"
proof -
  let ?a = "new_abuf (new_ByteBuffer d)"
  have um: "unat m < 2 ^ 32" using unat_bound [of m] by simp
  obtain a1 where a1: "ReadT bb_vt 4 ?a = Inr (le_bytes 4 (unat m), a1)" "buf.view a1 = le_bytes 4 n @ body" "buf.ok a1"
    using Read_u32 [of ?a "unat m" "le_bytes 4 n @ body"] new_buffer [OF l] um by (auto simp: d)
  obtain a2 where "ReadT bb_vt 4 a1 = Inr (le_bytes 4 n, a2)"
    using Read_u32 [OF a1(3,2) n(2)] by auto
  moreover have "le_nat (le_bytes 4 n) = n" using n(2) by (simp add: le_nat_le_bytes)
  moreover have "unat (of_nat n :: u64) = n" using n(2) by (simp add: unat_of_nat_u64 del: of_nat_unat)
  moreover have "(of_nat n :: u64) \<noteq> 0" using n(1) \<open>unat (of_nat n :: u64) = n\<close> by (metis unat_0 not_less0)
  ultimately show ?thesis
    using a1(1) m n(1) by (simp add: FlexReadHeader_def not_many Let_def del: of_nat_unat)
qed

lemma FlexReadHeader_count:
  assumes "FlexReadHeader sha si r a = (res, r')"
  shows "length (fx_chunks r') = length (fx_chunks r) \<and>
    (if res = Inl TooManyChunks then 16 < unat (fx_count r') else r' = r \<or> unat (fx_count r') \<le> 16)"
proof -
  have len: "ReadChunks i n b cs = (x, cs') \<Longrightarrow> length cs' = length cs" for i n b cs x cs'
    using length_ReadChunks [of i n b cs] by simp
  have sig: "ReadSignature sha si m r2 a3 \<noteq> Inl TooManyChunks" for m r2 a3
    by (simp add: ReadSignature_def Let_def split: sum.split option.split)
  show ?thesis
    using assms sig not_many
    by (auto simp: FlexReadHeader_def Let_def dest: len split: sum.splits prod.splits if_splits)
qed

text \<open>
  C33. The sixteen slots stay sixteen, and looking a chunk up leaves them exactly when the count is
  larger and no slot has the type. Reading a header makes that possible in one way only: when it
  throws because the file declares too many chunks, for the count is stored before it is checked.
\<close>

theorem lookup_stays_inside:
  assumes "FlexReadHeader sha si r a = (res, r')" and "length (fx_chunks r) = 16"
  shows "length (fx_chunks r') = 16 \<and>
    (GetChunk r' t f = Inl (Buffer OutOfBounds) \<longleftrightarrow>
       16 < unat (fx_count r') \<and> t \<notin> fc_type ` set (fx_chunks r')) \<and>
    (if res = Inl TooManyChunks then 16 < unat (fx_count r') else r' = r \<or> unat (fx_count r') \<le> 16)"
  using FlexReadHeader_count [OF assms(1)] GetChunk_out [of r' t f] assms(2) by simp

text \<open>A file of eight bytes that declares seventeen chunks.\<close>

lemma lookup_stays_inside_witness:
  "\<exists>r'. FlexReadHeader (\<lambda>_. []) None
        \<lparr>fx_chunks = replicate 16 \<lparr>fc_type = 0, fc_size = 0, fc_buffer = 0\<rparr>, fx_count = 0\<rparr>
        (new_abuf (new_ByteBuffer (le_bytes 4 (unat FLEX_MAGIC) @ le_bytes 4 17))) = (Inl TooManyChunks, r') \<and>
      GetChunk r' ST_VERSION False = Inl (Buffer OutOfBounds)"
proof -
  define R where "R = \<lparr>fx_chunks = replicate 16 \<lparr>fc_type = 0, fc_size = 0, fc_buffer = 0\<rparr>, fx_count = 0\<rparr>"
  let ?a = "new_abuf (new_ByteBuffer (le_bytes 4 (unat FLEX_MAGIC) @ le_bytes 4 17))"
  have f: "FlexReadHeader (\<lambda>_. []) None R ?a = (Inl TooManyChunks, R\<lparr>fx_count := of_nat 17\<rparr>)"
  proof (rule FlexReadHeader_many)
    show "IsFlexibleDataMagic FLEX_MAGIC" by (simp add: IsFlexibleDataMagic_def)
  qed (simp_all del: le_bytes.simps)
  have "length (fx_chunks R) = 16" "ST_VERSION \<notin> fc_type ` set (fx_chunks R)"
    by (simp_all add: R_def ST_VERSION_def)
  with lookup_stays_inside [OF f, of ST_VERSION False] f show ?thesis by (simp add: R_def)
qed

end
