(* ===== verification/Rdf_Parser.thy ===== *)
theory Rdf_Parser
  imports Lib_Io C_Library Raio
begin

text \<open>
  The parser of RDF triples, \<^verbatim>\<open>src/core/lib/actslib/rdf/parser.hpp\<close> and \<^verbatim>\<open>parser.cpp\<close>: one triple a
  line, found by moving two indices over the line.

  A component is an offset and a length in the line buffer. The indices are \<^verbatim>\<open>size_t\<close> values inside
  the line; where the code subtracts below zero the sum of both operations is what is stored.
\<close>

section \<open>The parser\<close>

record ntparser =
  nt_is :: istream
  nt_s :: "nat \<times> nat"
  nt_p :: "nat \<times> nat"
  nt_o :: "nat \<times> nat"
  nt_loaded :: bool
  nt_line :: cstr

definition RDFParserNTriple :: "istream \<Rightarrow> ntparser" where
  "RDFParserNTriple i =
     \<lparr>nt_is = i, nt_s = (0, 0), nt_p = (0, 0), nt_o = (0, 0), nt_loaded = False, nt_line = []\<rparr>"

text \<open>A space of the line, and the loops over its indices.\<close>

function FindNextSpace :: "cstr \<Rightarrow> nat \<Rightarrow> nat \<Rightarrow> nat option" where
  "FindNextSpace str i end' =
     (if i < end' then if c_isspace (str ! i) then Some i else FindNextSpace str (i + 1) end' else None)"
  by pat_completeness auto
termination by (relation "measure (\<lambda>(str, i, end'). end' - i)") auto

function nt_skip_spaces :: "cstr \<Rightarrow> nat \<Rightarrow> nat \<Rightarrow> nat" where
  "nt_skip_spaces str start end' =
     (if start < end' \<and> c_isspace (str ! start) then nt_skip_spaces str (start + 1) end' else start)"
  by pat_completeness auto
termination by (relation "measure (\<lambda>(str, start, end'). end' - start)") auto

text \<open>
  \<^verbatim>\<open>while (isspace(lineBuffer[end])) end--\<close>: it is called when the line has a character that is no
  space, so it ends before the index is zero.
\<close>

fun trim_end :: "cstr \<Rightarrow> nat \<Rightarrow> nat" where
  "trim_end str 0 = 0"
| "trim_end str (Suc e) = (if c_isspace (str ! Suc e) then trim_end str e else Suc e)"

text \<open>\<^verbatim>\<open>while (start < end && isspace(lineBuffer[--end]))\<close>\<close>

fun back_to :: "cstr \<Rightarrow> nat \<Rightarrow> nat \<Rightarrow> nat" where
  "back_to str start 0 = 0"
| "back_to str start (Suc e) =
     (if start < Suc e then if c_isspace (str ! e) then back_to str start e else e else Suc e)"

declare FindNextSpace.simps [simp del] nt_skip_spaces.simps [simp del]

text \<open>The bounds of a component without the brackets of an IRI, the second one exclusive.\<close>

definition match_IRI :: "cstr \<Rightarrow> nat \<Rightarrow> nat \<Rightarrow> nat \<times> nat" where
  "match_IRI str b1 b2 =
     (if str ! b1 = 60 then if str ! (b2 - 1) = 62 then (b1 + 1, b2 - 1) else (b1 + 1, b2) else (b1, b2))"

text \<open>One line: the parser with its components assigned, loaded when the line is a triple.\<close>

definition parse_line :: "ntparser \<Rightarrow> ntparser" where
  "parse_line q =
     (let str = nt_line q; start = nt_skip_spaces str 0 (length str)
      in if start = length str \<or> str ! start = 35 then q
         else let end' = trim_end str (length str - 1)
         in if str ! end' \<noteq> 46 then q
         else let end' = back_to str start end'
         in if start = end' then q
         else case FindNextSpace str start end' of
           None \<Rightarrow> q
         | Some b2 \<Rightarrow>
           let (b1, b2) = match_IRI str start b2;
               q = q\<lparr>nt_s := (b1, b2 - b1)\<rparr>;
               start = nt_skip_spaces str (b2 + 1) end'
           in if start = end' then q
           else case FindNextSpace str start end' of
             None \<Rightarrow> q
           | Some b2 \<Rightarrow>
             let (b1, b2) = match_IRI str start b2;
                 q = q\<lparr>nt_p := (b1, b2 - b1)\<rparr>;
                 start = nt_skip_spaces str (b2 + 1) end'
             in if start = end' then q
             else let (start, end') =
                 (if str ! start = 60 then if str ! end' = 62 then (start + 1, end' - 1) else (start + 1, end')
                  else (start, end'))
               in q\<lparr>nt_o := (start, end' + 1 - start), nt_loaded := True\<rparr>)"

lemma parse_line_is [simp]: "nt_is (parse_line q) = nt_is q"
  by (simp add: parse_line_def Let_def split: option.split prod.split)

text \<open>\<^verbatim>\<open>operator bool\<close>: lines are read until one is a triple or the stream ends.\<close>

definition stream_left :: "istream \<Rightarrow> nat" where
  "stream_left i = length (is_rest i) + (if is_good i then 1 else 0)"

lemma is_getline_left:
  "is_getline d i = (l, i') \<Longrightarrow> \<not> is_fail i' \<Longrightarrow> stream_left i' < stream_left i \<and> l \<noteq> None"
proof -
  assume g: "is_getline d i = (l, i')" and f: "\<not> is_fail i'"
  have good: "is_good i" using g f by (auto simp: is_getline_def split: if_splits)
  let ?l = "takeWhile (\<lambda>c. c \<noteq> d) (is_rest i)"
  show ?thesis
  proof (cases "length ?l = length (is_rest i)")
    case True
    then show ?thesis using g f good by (auto simp: is_getline_def stream_left_def is_good_def Let_def)
  next
    case False
    then have "length ?l < length (is_rest i)" using length_takeWhile_le [of _ "is_rest i"] by (simp add: le_neq_implies_less)
    then have "is_rest i \<noteq> []" by auto
    with False show ?thesis using g good by (auto simp: is_getline_def stream_left_def is_good_def Let_def)
  qed
qed

function nt_bool :: "ntparser \<Rightarrow> bool \<times> ntparser" where
  "nt_bool q =
     (if nt_loaded q then (True, q)
      else if is_fail (nt_is q) then (False, q)
      else let (l, i') = is_getline 10 (nt_is q);
               q' = q\<lparr>nt_is := i', nt_line := (case l of None \<Rightarrow> nt_line q | Some l \<Rightarrow> l)\<rparr>
           in if is_fail i' then (False, q') else nt_bool (parse_line q'))"
  by pat_completeness auto

termination
  by (relation "measure (\<lambda>q. stream_left (nt_is q))") (auto dest: is_getline_left [OF sym])

declare nt_bool.simps [simp del]

text \<open>\<^verbatim>\<open>operator*\<close> with the bytes of the components, and \<^verbatim>\<open>operator++\<close>.\<close>

definition nt_component :: "cstr \<Rightarrow> nat \<times> nat \<Rightarrow> cstr" where
  "nt_component str c = take (snd c) (drop (fst c) str)"

definition nt_triple :: "ntparser \<Rightarrow> triple" where
  "nt_triple q = (\<lambda>t. nt_component (nt_line q)
     (case t of RDF_SUBJECT \<Rightarrow> nt_s q | RDF_PREDICATE \<Rightarrow> nt_p q | RDF_OBJECT \<Rightarrow> nt_o q))"

definition nt_deref :: "ntparser \<Rightarrow> lib_error + triple \<times> ntparser" where
  "nt_deref q = (case nt_bool q of (b, q') \<Rightarrow> if \<not> b then Inl Empty_iterator else Inr (nt_triple q', q'))"

definition nt_next :: "ntparser \<Rightarrow> ntparser" where
  "nt_next q = q\<lparr>nt_loaded := False\<rparr>"

text \<open>The loop of a client: \<^verbatim>\<open>while (parser) { \<dots> *parser \<dots>; ++parser; }\<close>\<close>

lemma nt_bool_left:
  "nt_bool q = (b, q') \<Longrightarrow>
   (if nt_loaded q then b \<and> q' = q else b \<longrightarrow> nt_loaded q' \<and> stream_left (nt_is q') < stream_left (nt_is q))"
proof (induction q rule: nt_bool.induct)
  case (1 q)
  obtain l i' where g: "is_getline 10 (nt_is q) = (l, i')" by (cases "is_getline 10 (nt_is q)")
  let ?q = "q\<lparr>nt_is := i', nt_line := (case l of None \<Rightarrow> nt_line q | Some l \<Rightarrow> l)\<rparr>"
  show ?case
  proof (cases "nt_loaded q \<or> is_fail (nt_is q) \<or> is_fail i'")
    case True
    with "1.prems" g show ?thesis by (subst (asm) nt_bool.simps) (auto simp: Let_def split: if_splits)
  next
    case False
    then have n: "nt_bool q = nt_bool (parse_line ?q)" using g by (subst nt_bool.simps) (simp add: Let_def)
    have lt: "stream_left i' < stream_left (nt_is q)" using is_getline_left [OF g] False by simp
    show ?thesis
    proof (cases "nt_loaded (parse_line ?q)")
      case True
      then have "nt_bool (parse_line ?q) = (True, parse_line ?q)" by (simp add: nt_bool.simps)
      with n "1.prems" False True lt show ?thesis by simp
    next
      case nl: False
      have "nt_bool (parse_line ?q) = (b, q')" using n "1.prems" by simp
      then have "b \<longrightarrow> nt_loaded q' \<and> stream_left (nt_is q') < stream_left (nt_is (parse_line ?q))"
        using "1.IH" [OF _ _ g [symmetric] refl refl] False nl by simp
      with lt False show ?thesis by auto
    qed
  qed
qed

function nt_all :: "ntparser \<Rightarrow> triple list \<times> ntparser" where
  "nt_all q =
     (case nt_bool q of (b, q') \<Rightarrow>
        if b then (case nt_all (nt_next q') of (ts, q'') \<Rightarrow> (nt_triple q' # ts, q''))
        else ([], q'))"
  by pat_completeness auto
termination
proof (relation "measure (\<lambda>q. 2 * stream_left (nt_is q) + (if nt_loaded q then 1 else 0))", goal_cases)
  case (2 q b q')
  then show ?case using nt_bool_left [of q b q'] by (auto simp: nt_next_def split: if_splits)
qed simp

declare nt_all.simps [simp del]

section \<open>The formats\<close>

datatype rdf_format = RF_NTRIPLES | RF_COUNT

definition GuessFormat :: "cstr \<Rightarrow> rdf_format" where
  "GuessFormat path =
     (if 3 \<le> length path \<and> drop (length path - 3) path = cstr_of ''.nt'' then RF_NTRIPLES else RF_COUNT)"

definition rdf_FormatName :: "rdf_format \<Rightarrow> string" where
  "rdf_FormatName f = (case f of RF_NTRIPLES \<Rightarrow> ''ntriples'' | RF_COUNT \<Rightarrow> ''unknown'')"

text \<open>\<^verbatim>\<open>CreateParser\<close>: \<open>None\<close> is the exception for a format it does not know.\<close>

definition CreateParser :: "rdf_format \<Rightarrow> istream \<Rightarrow> ntparser option" where
  "CreateParser f i = (case f of RF_NTRIPLES \<Rightarrow> Some (RDFParserNTriple i) | RF_COUNT \<Rightarrow> None)"

end
