(* ===== verification/Hdt.thy ===== *)
theory Hdt
  imports Rdf_Parser Crc
begin

text \<open>
  The store of triples, \<^verbatim>\<open>src/core/lib/actslib/hdt.hpp\<close> and \<^verbatim>\<open>hdt.cpp\<close>: control blocks (cookies) with
  a type, a format and properties behind a magic and under a CRC, and the header of a store, whose
  triples are text.

  A result is \<open>None\<close> where the code goes on with bytes that were never written. The order in which an
  \<^verbatim>\<open>unordered_map\<close> is iterated is an argument of \<open>hc_Save\<close>. Objects that an exception leaves half
  changed are part of the result.
\<close>

section \<open>Cookies\<close>

definition HDT_COOKIE_MAGIC :: cstr where "HDT_COOKIE_MAGIC = cstr_of ''$HDT''"

definition HDTV1 :: cstr where "HDTV1 = cstr_of ''<http://purl.org/HDT/hdt#HDTv1>''"

text \<open>\<^verbatim>\<open>HDTCookieType\<close>, an enum over a byte that any byte is cast to.\<close>

definition HCT_UNKNOWN :: u8 where "HCT_UNKNOWN = 0"
definition HCT_GLOBAL :: u8 where "HCT_GLOBAL = 1"
definition HCT_HEADER :: u8 where "HCT_HEADER = 2"
definition HCT_COUNT :: u8 where "HCT_COUNT = 7"

definition HDTCookieTypeNames :: "string list" where
  "HDTCookieTypeNames = [''unknown'', ''global'', ''header'', ''dictionary'', ''triples'', ''index'', ''qepcore_merge'']"

definition hdt_FormatName :: "u8 \<Rightarrow> string" where
  "hdt_FormatName type = (if type < HCT_COUNT then HDTCookieTypeNames ! unat type else ''bad_type'')"

datatype hdt_error =
    InvalidCookieMagic | InvalidCookieCRC
  | NotAPlainHeader | NoValidLength | HeaderTypeExpected u8 | UnknownHeaderFormat cstr | GlobalCookieExpected u8 cstr

record cookie =
  hc_type :: u8
  hc_format :: cstr
  hc_props :: "cstr \<rightharpoonup> cstr"

definition new_cookie :: "u8 \<Rightarrow> cstr \<Rightarrow> cookie" where
  "new_cookie type format = \<lparr>hc_type = type, hc_format = format, hc_props = Map.empty\<rparr>"

text \<open>\<^verbatim>\<open>std::string::find(c, off)\<close>\<close>

definition str_find :: "cstr \<Rightarrow> u8 \<Rightarrow> nat \<Rightarrow> nat option" where
  "str_find s c off =
     (let k = off + length (takeWhile (\<lambda>x. x \<noteq> c) (drop off s)) in if k < length s then Some k else None)"

lemma str_find_ge: "str_find s c off = Some k \<Longrightarrow> off \<le> k"
  by (auto simp: str_find_def Let_def split: if_splits)

text \<open>The loop over the properties.\<close>

function split_props :: "cstr \<Rightarrow> nat \<Rightarrow> (cstr \<rightharpoonup> cstr) \<Rightarrow> (cstr \<rightharpoonup> cstr)" where
  "split_props v off m =
     (if off < length v then
        let idx = (case str_find v 59 off of None \<Rightarrow> length v | Some k \<Rightarrow> k);
            m = (case str_find v 61 off of
                   None \<Rightarrow> m
                 | Some idxeq \<Rightarrow>
                     if idxeq < idx
                     then m(take (idxeq - off) (drop off v) \<mapsto> take (idx - idxeq - 1) (drop (idxeq + 1) v))
                     else m)
        in split_props v (idx + 1) m
      else m)"
  by pat_completeness auto
termination
  by (relation "measure (\<lambda>(v, off, m). length v - off)")
    (auto dest: str_find_ge split: option.splits)

declare split_props.simps [simp del]

text \<open>\<^verbatim>\<open>crc.Update\<close> over bytes; the ranges the code gives lie in the strings with their terminator.\<close>

definition crc16 :: "u16 \<Rightarrow> u8 list \<Rightarrow> u16" where
  "crc16 v bs = foldl CRC16_Update v bs"

definition LoadCookie :: "cookie \<Rightarrow> istream \<Rightarrow> ((hdt_error + unit) \<times> cookie \<times> istream) option" where
  "LoadCookie c i =
     (case is_read 4 i of (buffer, i) \<Rightarrow>
        if take 4 buffer \<noteq> take (length buffer) HDT_COOKIE_MAGIC then Some (Inl InvalidCookieMagic, c, i)
        else if length buffer < 4 then None
        else let crc = crc16 0 buffer
             in case is_get i of (t, i) \<Rightarrow>
                let c = c\<lparr>hc_type := ucast t\<rparr>; crc = crc16 crc [hc_type c]
                in case is_getline 0 i of (f, i) \<Rightarrow>
                   let c = (case f of None \<Rightarrow> c | Some f \<Rightarrow> c\<lparr>hc_format := f\<rparr>);
                       crc = crc16 crc (hc_format c @ [0])
                   in case is_getline 0 i of (p, i) \<Rightarrow>
                      let propsVal = (case p of None \<Rightarrow> [] | Some p \<Rightarrow> p);
                          crc = crc16 crc (propsVal @ [0]);
                          c = c\<lparr>hc_props := split_props propsVal 0 (hc_props c)\<rparr>
                      in case ReadUInt16 i of (v, i) \<Rightarrow>
                         (case v of
                            None \<Rightarrow> None
                          | Some v \<Rightarrow> Some (if v = crc then Inr () else Inl InvalidCookieCRC, c, i)))"

text \<open>\<^verbatim>\<open>Save\<close>: the bytes written, for an order of the properties.\<close>

fun save_props :: "(cstr \<times> cstr) list \<Rightarrow> u16 \<Rightarrow> u8 list \<Rightarrow> u16 \<times> u8 list" where
  "save_props [] crc os = (crc, os)"
| "save_props ((key, val) # kvs) crc os =
     (let os = os @ key; crc = crc16 crc key;
          os = os @ [61]; crc = crc16 crc [61];
          os = os @ val; crc = crc16 crc val;
          os = os @ [59]; crc = crc16 crc [59]
      in save_props kvs crc os)"

definition hc_Save :: "u8 \<Rightarrow> cstr \<Rightarrow> (cstr \<times> cstr) list \<Rightarrow> u8 list" where
  "hc_Save type format kvs =
     (let os = HDT_COOKIE_MAGIC; crc = crc16 0 HDT_COOKIE_MAGIC;
          os = os @ [type]; crc = crc16 crc [type];
          os = os @ format @ [0]; crc = crc16 crc (format @ [0]);
          (crc, os) = save_props kvs crc os;
          os = os @ [0]; crc = crc16 crc [0]
      in os @ WriteUInt16 crc)"

text \<open>\<^verbatim>\<open>GetInteger\<close>: \<^verbatim>\<open>strtoll\<close> throws nothing, so the default is for missing keys only.\<close>

definition GetInteger :: "cookie \<Rightarrow> cstr \<Rightarrow> int \<Rightarrow> int" where
  "GetInteger c key defaultVal =
     (case hc_props c key of None \<Rightarrow> defaultVal | Some v \<Rightarrow> strtoll 10 (c_chars v))"

section \<open>Headers and stores\<close>

text \<open>
  \<^verbatim>\<open>PlainHeader\<close>: the text is read into a zeroed string, however much of it there is, and parsed; the
  copies of the triples.
\<close>

definition PlainHeader :: "istream \<Rightarrow> cookie \<Rightarrow> (hdt_error + triple list) \<times> istream" where
  "PlainHeader i c =
     (if hc_type c \<noteq> HCT_HEADER then (Inl NotAPlainHeader, i)
      else let len = GetInteger c (cstr_of ''length'') (- 1)
           in if len < 0 then (Inl NoValidLength, i)
              else case is_read (nat len) i of (bs, i) \<Rightarrow>
                     (Inr (fst (nt_all (RDFParserNTriple (open_stream (bs @ replicate (nat len - length bs) 0))))), i))"

definition LoadHeader :: "istream \<Rightarrow> ((hdt_error + triple list) \<times> istream) option" where
  "LoadHeader i =
     (case LoadCookie (new_cookie HCT_UNKNOWN []) i of
        None \<Rightarrow> None
      | Some (Inl e, _, i) \<Rightarrow> Some (Inl e, i)
      | Some (Inr _, c, i) \<Rightarrow>
          if hc_type c \<noteq> HCT_HEADER then Some (Inl (HeaderTypeExpected (hc_type c)), i)
          else if hc_format c = cstr_of ''ntriples'' then Some (PlainHeader i c)
          else Some (Inl (UnknownHeaderFormat (hc_format c)), i))"

record hdt =
  hdt_header :: "triple list option"
  hdt_cookie :: cookie

definition new_hdt :: hdt where
  "new_hdt = \<lparr>hdt_header = None, hdt_cookie = new_cookie HCT_GLOBAL HDTV1\<rparr>"

definition LoadStream :: "hdt \<Rightarrow> istream \<Rightarrow> ((hdt_error + unit) \<times> hdt \<times> istream) option" where
  "LoadStream h i =
     (let h = h\<lparr>hdt_header := None\<rparr>
      in case LoadCookie (hdt_cookie h) i of
           None \<Rightarrow> None
         | Some (Inl e, c, i) \<Rightarrow> Some (Inl e, h\<lparr>hdt_cookie := c\<rparr>, i)
         | Some (Inr _, c, i) \<Rightarrow>
             let h = h\<lparr>hdt_cookie := c\<rparr>
             in if hc_type c \<noteq> HCT_GLOBAL \<or> hc_format c \<noteq> HDTV1
                then Some (Inl (GlobalCookieExpected (hc_type c) (hc_format c)), h, i)
                else case LoadHeader i of
                       None \<Rightarrow> None
                     | Some (Inl e, i) \<Rightarrow> Some (Inl e, h, i)
                     | Some (Inr ts, i) \<Rightarrow> Some (Inr (), h\<lparr>hdt_header := Some ts\<rparr>, i))"

end
