(* ===== verification/Rdf_Parser_Properties.thy ===== *)
theory Rdf_Parser_Properties
  imports Rdf_Parser
begin

text \<open>
  The parser of triples on lists of bytes: which lines it takes, and what it makes of them, without any
  index; then the triples of a whole text.
\<close>

section \<open>Reference\<close>

definition rtrim :: "cstr \<Rightarrow> cstr" where
  "rtrim s = rev (dropWhile c_isspace (rev s))"

definition unbracket :: "cstr \<Rightarrow> cstr" where
  "unbracket s = (if s \<noteq> [] \<and> hd s = 60 then if last s = 62 then butlast (tl s) else tl s else s)"

text \<open>The first word and what follows the spaces after it.\<close>

definition token :: "cstr \<Rightarrow> cstr \<times> cstr" where
  "token s = (takeWhile (\<lambda>c. \<not> c_isspace c) s, dropWhile c_isspace (dropWhile (\<lambda>c. \<not> c_isspace c) s))"

definition line_triple :: "cstr \<Rightarrow> (cstr \<times> cstr \<times> cstr) option" where
  "line_triple line =
     (let t = rtrim (dropWhile c_isspace line)
      in if t = [] \<or> hd t = 35 \<or> last t \<noteq> 46 then None
         else let (s, r) = token (rtrim (butlast t)); (p, ob) = token r
              in if length ob < 2 then None else Some (unbracket s, unbracket p, unbracket ob))"

section \<open>Words\<close>

lemma rtrim_Nil [simp]: "rtrim [] = []"
  by (simp add: rtrim_def)

lemma rtrim_snoc [simp]: "rtrim (s @ [c]) = (if c_isspace c then rtrim s else s @ [c])"
  by (simp add: rtrim_def)

lemma rtrim_split: "\<exists>w. s = rtrim s @ w \<and> (\<forall>c \<in> set w. c_isspace c)"
proof (intro exI conjI)
  show "s = rtrim s @ rev (takeWhile c_isspace (rev s))" by (simp add: rtrim_def flip: rev_append)
  show "\<forall>c \<in> set (rev (takeWhile c_isspace (rev s))). c_isspace c" by (auto dest: set_takeWhileD)
qed

lemma last_rtrim: "rtrim s \<noteq> [] \<Longrightarrow> \<not> c_isspace (last (rtrim s))"
  by (induction s rule: rev_induct) (auto split: if_splits)

lemma hd_rtrim: "s \<noteq> [] \<Longrightarrow> \<not> c_isspace (hd s) \<Longrightarrow> rtrim s \<noteq> [] \<and> hd (rtrim s) = hd s"
proof -
  assume s: "s \<noteq> []" "\<not> c_isspace (hd s)"
  obtain w where w: "s = rtrim s @ w" "\<forall>c \<in> set w. c_isspace c" using rtrim_split by blast
  have "rtrim s \<noteq> []"
  proof
    assume "rtrim s = []"
    then have "s = w" using w(1) by simp
    then have "hd s \<in> set w" using s(1) by simp
    with w(2) s(2) show False by blast
  qed
  then show ?thesis by (metis w(1) hd_append2)
qed

lemma token_split:
  assumes "u \<noteq> []" and "\<not> c_isspace (last u)" and "snd (token u) \<noteq> []"
  obtains w where "u = fst (token u) @ w @ snd (token u)" and "w \<noteq> []" and "\<forall>c \<in> set w. c_isspace c"
    and "\<not> c_isspace (hd (snd (token u)))" and "last (snd (token u)) = last u"
proof -
  define S R w R' where "S = takeWhile (\<lambda>c. \<not> c_isspace c) u" and "R = dropWhile (\<lambda>c. \<not> c_isspace c) u"
    and "w = takeWhile c_isspace R" and "R' = dropWhile c_isspace R"
  note d = this
  have t: "token u = (S, R')" by (simp add: token_def d)
  have u: "u = S @ w @ R'" by (simp add: d)
  have R': "R' \<noteq> []" using assms(3) t by simp
  then have R: "R \<noteq> []" by (auto simp: d(4))
  then have "c_isspace (hd R)" using hd_dropWhile [of "\<lambda>c. \<not> c_isspace c" u] unfolding d(2) by blast
  with R have "w \<noteq> []" unfolding d(3) by (cases R) auto
  moreover have "\<not> c_isspace (hd R')" using hd_dropWhile [of c_isspace R] R' unfolding d(4) by blast
  moreover have "last R' = last u" using R' by (simp add: u)
  moreover have "\<forall>c \<in> set w. c_isspace c" unfolding d(3) by (auto dest: set_takeWhileD)
  ultimately show ?thesis using that [of w] u t by simp
qed

lemma token_one: "snd (token u) = [] \<Longrightarrow> u \<noteq> [] \<Longrightarrow> \<not> c_isspace (last u) \<Longrightarrow> dropWhile (\<lambda>c. \<not> c_isspace c) u = []"
proof -
  assume t: "snd (token u) = []" and u: "u \<noteq> []" "\<not> c_isspace (last u)"
  define S R where "S = takeWhile (\<lambda>c. \<not> c_isspace c) u" and "R = dropWhile (\<lambda>c. \<not> c_isspace c) u"
  have sp: "\<forall>c \<in> set R. c_isspace c" using t unfolding token_def snd_conv dropWhile_eq_Nil_conv R_def .
  have e: "u = S @ R" by (simp add: S_def R_def)
  have "R = []"
  proof (rule ccontr)
    assume "R \<noteq> []"
    then have "last u \<in> set R" by (simp add: e)
    with sp u(2) show False by blast
  qed
  then show ?thesis by (simp only: R_def)
qed

lemma token_Nil [simp]: "token [] = ([], [])"
  by (simp add: token_def)

lemma fst_token: "u \<noteq> [] \<Longrightarrow> \<not> c_isspace (hd u) \<Longrightarrow> fst (token u) \<noteq> []"
  unfolding token_def fst_conv by (cases u) auto

section \<open>The loops over indices\<close>

lemma take_drop_Cons: "i < e \<Longrightarrow> e \<le> length s \<Longrightarrow> take (e - i) (drop i s) = s ! i # take (e - (i + 1)) (drop (i + 1) s)"
  using Cons_nth_drop_Suc [of i s] take_Suc_Cons [of "e - (i + 1)" "s ! i" "drop (Suc i) s"]
    Suc_diff_Suc [of i e] by (metis Suc_eq_plus1 less_le_trans)

lemma FindNextSpace_eq:
  "i \<le> e \<Longrightarrow> e \<le> length s \<Longrightarrow> FindNextSpace s i e =
     (let k = length (takeWhile (\<lambda>c. \<not> c_isspace c) (take (e - i) (drop i s))) in if i + k < e then Some (i + k) else None)"
proof (induction s i e rule: FindNextSpace.induct)
  case (1 s i e)
  show ?case
  proof (cases "i < e")
    case True
    with 1 take_drop_Cons [OF True "1.prems"(2)] show ?thesis
      by (subst FindNextSpace.simps) (auto simp: Let_def)
  next
    case False
    with "1.prems" show ?thesis by (subst FindNextSpace.simps) simp
  qed
qed

lemma nt_skip_spaces_eq:
  "i \<le> e \<Longrightarrow> e \<le> length s \<Longrightarrow> nt_skip_spaces s i e = i + length (takeWhile c_isspace (take (e - i) (drop i s)))"
proof (induction s i e rule: nt_skip_spaces.induct)
  case (1 s i e)
  show ?case
  proof (cases "i < e")
    case True
    with 1 take_drop_Cons [OF True "1.prems"(2)] show ?thesis by (subst nt_skip_spaces.simps) auto
  next
    case False
    with "1.prems" show ?thesis by (subst nt_skip_spaces.simps) simp
  qed
qed

lemma trim_end_eq: "e < length s \<Longrightarrow> rtrim (take (Suc e) s) \<noteq> [] \<Longrightarrow> Suc (trim_end s e) = length (rtrim (take (Suc e) s))"
proof (induction e)
  case 0
  then show ?case by (cases s) (auto simp: rtrim_def split: if_splits)
next
  case (Suc e)
  then show ?case by (auto simp: take_Suc_conv_app_nth [of "Suc e"])
qed

lemma back_to_eq:
  "i < e \<Longrightarrow> e \<le> length s \<Longrightarrow> \<not> c_isspace (s ! i) \<Longrightarrow>
   Suc (back_to s i e) = i + length (rtrim (take (e - i) (drop i s)))"
proof (induction e)
  case (Suc e)
  have t: "take (Suc e - i) (drop i s) = take (e - i) (drop i s) @ [s ! e]"
    using Suc.prems by (simp add: Suc_diff_le take_Suc_conv_app_nth)
  show ?case
  proof (cases "c_isspace (s ! e)")
    case True
    then have "i < e" using Suc.prems by (metis less_SucE)
    with True Suc t show ?thesis by simp
  next
    case False
    with Suc.prems t show ?thesis by simp
  qed
qed simp

section \<open>One line\<close>

lemma unbracket_match:
  assumes "u \<noteq> []" and "str = pre @ u @ post"
  shows "case match_IRI str (length pre) (length pre + length u) of (b1, b2) \<Rightarrow>
    nt_component str (b1, b2 - b1) = unbracket u \<and> length pre + length u \<le> b2 + 1 \<and> b2 \<le> length pre + length u"
proof -
  have n: "str ! length pre = hd u" "str ! (length pre + length u - 1) = last u"
    using assms by (cases u; auto simp: nth_append last_conv_nth)+
  obtain c v where u: "u = c # v" using assms(1) by (cases u) auto
  have "take (length v) (drop (Suc (length pre)) str) = v"
    by (simp add: assms(2) u)
  moreover have "take (length v - 1) (drop (Suc (length pre)) str) = butlast v"
    by (simp add: assms(2) u butlast_conv_take)
  moreover have "c = 60 \<Longrightarrow> last u = 62 \<Longrightarrow> v \<noteq> []" by (auto simp: u)
  ultimately show ?thesis
    using n by (auto simp: match_IRI_def unbracket_def nt_component_def assms(2) u)
qed

lemma token_step:
  assumes str: "str = pre @ u @ post" and u: "u \<noteq> []" "\<not> c_isspace (last u)"
    and e: "e = length pre + length u - 1"
  shows "if snd (token u) = [] then FindNextSpace str (length pre) e = None
    else FindNextSpace str (length pre) e = Some (length pre + length (fst (token u))) \<and>
      (\<exists>pre'. str = pre' @ snd (token u) @ post \<and> e = length pre' + length (snd (token u)) - 1 \<and>
        (\<forall>b. length pre + length (fst (token u)) \<le> b + 1 \<longrightarrow> b \<le> length pre + length (fst (token u)) \<longrightarrow>
          nt_skip_spaces str (b + 1) e = length pre'))"
proof -
  have el: "length pre \<le> e" "e \<le> length str" "e - length pre = length u - 1" using u e str by (auto simp: neq_Nil_conv)
  have tk: "take (e - length pre) (drop (length pre) str) = butlast u"
    by (simp add: el(3) str butlast_conv_take)
  note F = FindNextSpace_eq [OF el(1,2), unfolded tk Let_def]
  show ?thesis
  proof (cases "snd (token u) = []")
    case True
    have "\<forall>c \<in> set u. \<not> c_isspace c" using token_one [OF True u] by (simp only: dropWhile_eq_Nil_conv)
    then have "\<forall>c \<in> set (butlast u). \<not> c_isspace c" by (auto dest: in_set_butlastD)
    then have "takeWhile (\<lambda>c. \<not> c_isspace c) (butlast u) = butlast u" by (simp only: takeWhile_eq_all_conv)
    then have "length (takeWhile (\<lambda>c. \<not> c_isspace c) (butlast u)) = length u - 1" by (simp only: length_butlast)
    then show ?thesis using True F u(1) e by simp
  next
    case False
    obtain w where w: "u = fst (token u) @ w @ snd (token u)" "w \<noteq> []" "\<forall>c \<in> set w. c_isspace c"
        "\<not> c_isspace (hd (snd (token u)))" "last (snd (token u)) = last u"
      by (rule token_split [OF u False])
    define S R where "S = fst (token u)" and "R = snd (token u)"
    have S: "\<forall>c \<in> set S. \<not> c_isspace c" unfolding S_def token_def by (auto dest: set_takeWhileD)
    have uw: "u = S @ w @ R" and R: "R \<noteq> []" "\<not> c_isspace (hd R)" using w(1,4) False by (simp_all add: S_def R_def)
    obtain x w' where x: "w = x # w'" "c_isspace x" using w(2,3) by (cases w) auto
    have "butlast u = S @ x # w' @ butlast R" using R(1) by (simp add: uw x(1) butlast_append)
    then have "takeWhile (\<lambda>c. \<not> c_isspace c) (butlast u) = S"
      using S x(2) by (simp add: takeWhile_append2)
    moreover have "length pre + length S < e" using R(1) by (auto simp: e uw x(1) neq_Nil_conv)
    ultimately have f: "FindNextSpace str (length pre) e = Some (length pre + length S)" using F by simp
    let ?p = "pre @ S @ w"
    have sk: "nt_skip_spaces str (length q) e = length ?p" if q: "q @ z = ?p" "\<forall>c \<in> set z. c_isspace c" for q z
    proof -
      have l: "length q \<le> length ?p" using q(1) by (metis length_append le_add1)
      have b: "length ?p \<le> e" using R(1) by (auto simp: e uw neq_Nil_conv)
      have s: "str = q @ z @ R @ post" using q(1) by (simp add: str uw)
      have "length q + length z = length ?p" using q(1) by (metis length_append)
      then have "take (e - length q) (drop (length q) str) = z @ butlast R"
        using R(1) b by (simp add: s e uw butlast_conv_take)
      moreover have "takeWhile c_isspace (z @ butlast R) = z"
      proof (cases "butlast R")
        case (Cons y ys)
        then have "y = hd R" using R(1) by (metis append_butlast_last_id hd_append2 list.sel(1) list.distinct(1))
        then show ?thesis using R(2) q(2) Cons by (simp add: takeWhile_append2)
      qed (use q(2) in simp)
      moreover have "e \<le> length str" by (rule el(2))
      ultimately show ?thesis
        using nt_skip_spaces_eq [of "length q" e str] l b \<open>length q + length z = length ?p\<close> by simp
    qed
    have "nt_skip_spaces str (b + 1) e = length ?p"
      if b: "length pre + length S \<le> b + 1" "b \<le> length pre + length S" for b
    proof -
      consider "b + 1 = length (pre @ S)" | "b + 1 = length (pre @ S @ [x])"
        using b by (cases "b = length pre + length S") auto
      then show ?thesis
        using sk [of "pre @ S" w] sk [of "pre @ S @ [x]" w'] w(3) x(1) by cases auto
    qed
    moreover have "str = ?p @ R @ post" "e = length ?p + length R - 1" by (simp_all add: str uw e)
    ultimately show ?thesis using False f unfolding S_def R_def by auto
  qed
qed


lemma rtrim_append: "rtrim t \<noteq> [] \<Longrightarrow> rtrim (w @ t) = w @ rtrim t"
proof (induction t rule: rev_induct)
  case (snoc c t)
  have "rtrim (w @ t @ [c]) = (if c_isspace c then rtrim (w @ t) else (w @ t) @ [c])"
    using rtrim_snoc [of "w @ t" c] by simp
  with snoc show ?case by (simp split: if_splits)
qed simp

lemma back_to_same [simp]: "back_to str e e = e"
  by (cases e) simp_all

text \<open>The parser after a line, by the reference: first the two ends of the line.\<close>

definition ends :: "cstr \<Rightarrow> nat \<Rightarrow> nat \<Rightarrow> bool" where
  "ends str start e \<longleftrightarrow> nt_skip_spaces str 0 (length str) = start \<and> start < length str \<and> str ! start \<noteq> 35 \<and>
     str ! trim_end str (length str - 1) = 46 \<and> back_to str start (trim_end str (length str - 1)) = e"

lemma parse_line_early:
  assumes "nt_line q = str" and "nt_skip_spaces str 0 (length str) = start"
    and "start = length str \<or> str ! start = 35 \<or> str ! trim_end str (length str - 1) \<noteq> 46 \<or>
      back_to str start (trim_end str (length str - 1)) = start"
  shows "parse_line q = q"
  unfolding parse_line_def Let_def assms(1,2) using assms(3) by presburger

lemma line_ends:
  assumes "nt_line q = str"
  shows "(line_triple str = None \<and> parse_line q = q) \<or>
    (\<exists>pre u post. str = pre @ u @ post \<and> u \<noteq> [] \<and> \<not> c_isspace (hd u) \<and> \<not> c_isspace (last u) \<and>
      ends str (length pre) (length pre + length u - 1) \<and> hd u \<noteq> 35 \<and>
      line_triple str = (let (s, r) = token u; (p, ob) = token r
        in if length ob < 2 then None else Some (unbracket s, unbracket p, unbracket ob)))"
proof -
  define w0 t1 where "w0 = takeWhile c_isspace str" and "t1 = dropWhile c_isspace str"
  have str: "str = w0 @ t1" by (simp add: w0_def t1_def)
  have st: "nt_skip_spaces str 0 (length str) = length w0"
    using nt_skip_spaces_eq [of 0 "length str" str] by (simp add: w0_def)
  have lt: "line_triple str = (let t = rtrim t1
      in if t = [] \<or> hd t = 35 \<or> last t \<noteq> 46 then None
         else let (s, r) = token (rtrim (butlast t)); (p, ob) = token r
              in if length ob < 2 then None else Some (unbracket s, unbracket p, unbracket ob))"
    by (simp only: line_triple_def t1_def)
  show ?thesis
  proof (cases "t1 = []")
    case True
    then have "length w0 = length str" by (simp add: str)
    then have "parse_line q = q" using parse_line_early [OF assms st] by blast
    then show ?thesis using True lt by simp
  next
    case False
    have h1: "\<not> c_isspace (hd t1)" using hd_dropWhile [of c_isspace str] False unfolding t1_def by blast
    define t where "t = rtrim t1"
    have t: "t \<noteq> []" "hd t = hd t1" "\<not> c_isspace (last t)"
      using hd_rtrim [OF False h1] last_rtrim [of t1] by (simp_all add: t_def)
    obtain w4 where w4: "t1 = t @ w4" using rtrim_split [of t1] by (auto simp: t_def)
    have "rtrim str = w0 @ t" using rtrim_append t(1) by (simp add: str t_def)
    then have te: "trim_end str (length str - 1) = length w0 + length t - 1"
      using trim_end_eq [of "length str - 1" str] False t(1) by (simp add: str)
    have nt: "str ! (length w0 + length t - 1) = last t" "str ! length w0 = hd t"
      using t(1) by (cases t; auto simp: str w4 nth_append last_conv_nth)+
    have sl: "length w0 < length str" using False by (simp add: str)
    show ?thesis
    proof (cases "hd t = 35 \<or> last t \<noteq> 46")
      case True
      then have "parse_line q = q" using parse_line_early [OF assms st] unfolding te nt by blast
      then show ?thesis using True lt by (simp add: t_def Let_def)
    next
      case c: False
      obtain v where v: "t = v @ [46]" using t(1) c by (metis append_butlast_last_id)
      have lt': "line_triple str = (let (s, r) = token (rtrim v); (p, ob) = token r
          in if length ob < 2 then None else Some (unbracket s, unbracket p, unbracket ob))"
        using lt t(1) c unfolding t_def [symmetric] by (simp add: v)
      show ?thesis
      proof (cases "v = []")
        case True
        then have "trim_end str (length str - 1) = length w0" using te v by simp
        then have "parse_line q = q" using parse_line_early [OF assms st] by simp
        then show ?thesis using True lt' by (simp add: token_def)
      next
        case vn: False
        define u where "u = rtrim v"
        have hv: "hd v = hd t1" using vn t(2) v by simp
        have u: "u \<noteq> []" "hd u = hd t1" "\<not> c_isspace (last u)"
          using hd_rtrim [OF vn] last_rtrim [of v] h1 hv by (simp_all add: u_def)
        obtain w3 where w3: "v = u @ w3" using rtrim_split [of v] by (auto simp: u_def)
        have s3: "str = w0 @ u @ w3 @ 46 # w4" by (simp add: str w4 v w3)
        have e0: "trim_end str (length str - 1) = length w0 + length v" using te v by simp
        have "take (length w0 + length v - length w0) (drop (length w0) str) = v"
          by (simp add: s3 w3)
        moreover have "length w0 < length w0 + length v" using vn by simp
        moreover have "length w0 + length v \<le> length str" by (simp add: s3 w3)
        moreover have "\<not> c_isspace (str ! length w0)" using nt(2) h1 t(2) by simp
        ultimately have "Suc (back_to str (length w0) (length w0 + length v)) = length w0 + length u"
          using back_to_eq [of "length w0" "length w0 + length v" str] by (simp add: u_def)
        then have "ends str (length w0) (length w0 + length u - 1)"
          using st sl nt c e0 te by (auto simp: ends_def)
        moreover have "\<not> c_isspace (hd u)" "hd u \<noteq> 35" using u(2) h1 c t(2) by simp_all
        ultimately show ?thesis using s3 u(1,3) lt' unfolding u_def [symmetric]
          by (intro disjI2 exI [of _ w0] exI [of _ u] exI [of _ "w3 @ 46 # w4"] conjI) assumption+
      qed
    qed
  qed
qed


text \<open>The object is cut with an inclusive bound, to the same effect.\<close>

definition object_bounds :: "cstr \<Rightarrow> nat \<Rightarrow> nat \<Rightarrow> nat \<times> nat" where
  "object_bounds str start end' =
     (if str ! start = 60 then if str ! end' = 62 then (start + 1, end' - 1) else (start + 1, end') else (start, end'))"

lemma object_bounds_eq:
  "start < end' \<Longrightarrow> (case object_bounds str start end' of (s, e) \<Rightarrow> (s, e + 1 - s)) =
     (case match_IRI str start (end' + 1) of (b1, b2) \<Rightarrow> (b1, b2 - b1))"
  by (simp add: object_bounds_def match_IRI_def)

text \<open>Then the three words between the ends: the stages of the code, once the ends are known.\<close>

lemma parse_line_words:
  assumes "nt_line q = str" and "ends str st e"
  shows "parse_line q =
    (if st = e then q
     else case FindNextSpace str st e of
       None \<Rightarrow> q
     | Some b2 \<Rightarrow>
       case match_IRI str st b2 of (b1, b2) \<Rightarrow>
         if nt_skip_spaces str (b2 + 1) e = e then q\<lparr>nt_s := (b1, b2 - b1)\<rparr>
         else case FindNextSpace str (nt_skip_spaces str (b2 + 1) e) e of
           None \<Rightarrow> q\<lparr>nt_s := (b1, b2 - b1)\<rparr>
         | Some c2 \<Rightarrow>
           case match_IRI str (nt_skip_spaces str (b2 + 1) e) c2 of (c1, c2) \<Rightarrow>
             if nt_skip_spaces str (c2 + 1) e = e then q\<lparr>nt_s := (b1, b2 - b1), nt_p := (c1, c2 - c1)\<rparr>
             else case object_bounds str (nt_skip_spaces str (c2 + 1) e) e of (s, e) \<Rightarrow>
               q\<lparr>nt_s := (b1, b2 - b1), nt_p := (c1, c2 - c1), nt_o := (s, e + 1 - s), nt_loaded := True\<rparr>)"
proof -
  have e: "nt_skip_spaces str 0 (length str) = st" "\<not> (st = length str \<or> str ! st = 35)"
      "\<not> str ! trim_end str (length str - 1) \<noteq> 46" "back_to str st (trim_end str (length str - 1)) = e"
    using assms(2) by (auto simp: ends_def)
  show ?thesis
    unfolding parse_line_def Let_def assms(1) e(1,4) if_not_P [OF e(2)] if_not_P [OF e(3)] object_bounds_def ..
qed

lemma parse_line_eq:
  assumes "\<not> nt_loaded q"
  shows "case line_triple (nt_line q) of
       None \<Rightarrow> \<not> nt_loaded (parse_line q)
     | Some (s, p, ob) \<Rightarrow> nt_loaded (parse_line q) \<and>
         nt_triple (parse_line q) = (\<lambda>t. case t of RDF_SUBJECT \<Rightarrow> s | RDF_PREDICATE \<Rightarrow> p | RDF_OBJECT \<Rightarrow> ob)"
proof (cases "line_triple (nt_line q) = None \<and> parse_line q = q")
  case True
  with assms show ?thesis by simp
next
  case False
  define str where "str = nt_line q"
  obtain pre u post where u: "str = pre @ u @ post" "u \<noteq> []" "\<not> c_isspace (hd u)" "\<not> c_isspace (last u)"
    and en: "ends str (length pre) (length pre + length u - 1)"
    and lt: "line_triple str = (let (s, r) = token u; (p, ob) = token r
        in if length ob < 2 then None else Some (unbracket s, unbracket p, unbracket ob))"
    using line_ends [of q str] False unfolding str_def by blast
  define e where "e = length pre + length u - 1"
  obtain s r where sr: "token u = (s, r)" by (cases "token u")
  obtain p ob where po: "token r = (p, ob)" by (cases "token r")
  have lt': "line_triple str = (if length ob < 2 then None else Some (unbracket s, unbracket p, unbracket ob))"
    using lt by (simp add: sr po)
  note W = parse_line_words [OF str_def [symmetric] en, folded e_def]
  note S1 = token_step [OF u(1,2,4) e_def, unfolded sr fst_conv snd_conv]
  have o0: "r = [] \<Longrightarrow> ob = []" using po by auto
  show ?thesis
  proof (cases "r = []")
    case True
    then have "parse_line q = q" using W S1 by simp
    then show ?thesis using lt' o0 True assms by (simp flip: str_def)
  next
    case r: False
    obtain w where w: "u = s @ w @ r" "w \<noteq> []" "\<not> c_isspace (hd r)" "last r = last u" "s \<noteq> []"
    proof -
      have "s \<noteq> []" using fst_token [OF u(2,3)] by (simp add: sr)
      with token_split [OF u(2,4), unfolded sr fst_conv snd_conv, OF r] that show ?thesis by metis
    qed
    obtain pre1 where f1: "FindNextSpace str (length pre) e = Some (length pre + length s)"
      and p1: "str = pre1 @ r @ post" "e = length pre1 + length r - 1"
      and sk1: "\<And>b. length pre + length s \<le> b + 1 \<Longrightarrow> b \<le> length pre + length s \<Longrightarrow> nt_skip_spaces str (b + 1) e = length pre1"
      using S1 r by auto
    obtain b1 b2 where m1: "match_IRI str (length pre) (length pre + length s) = (b1, b2)"
      by (cases "match_IRI str (length pre) (length pre + length s)")
    have c1: "nt_component str (b1, b2 - b1) = unbracket s" "nt_skip_spaces str (b2 + 1) e = length pre1"
      using unbracket_match [OF w(5), of str pre "w @ r @ post"] m1 sk1 u(1) w(1) by auto
    have ne: "length pre \<noteq> e" using w(1,2,5) r by (auto simp: e_def neq_Nil_conv)
    note S2 = token_step [OF p1(1) r _ p1(2), unfolded po fst_conv snd_conv w(4), OF u(4)]
    define q1 where "q1 = q\<lparr>nt_s := (b1, b2 - b1)\<rparr>"
    have W1: "parse_line q =
      (if length pre1 = e then q1
       else case FindNextSpace str (length pre1) e of
         None \<Rightarrow> q1
       | Some c2 \<Rightarrow>
         case match_IRI str (length pre1) c2 of (c1, c2) \<Rightarrow>
           if nt_skip_spaces str (c2 + 1) e = e then q1\<lparr>nt_p := (c1, c2 - c1)\<rparr>
           else case object_bounds str (nt_skip_spaces str (c2 + 1) e) e of (s, e) \<Rightarrow>
             q1\<lparr>nt_p := (c1, c2 - c1), nt_o := (s, e + 1 - s), nt_loaded := True\<rparr>)"
      using W ne f1 by (simp only: m1 c1(2) q1_def option.case prod.case if_False)
    show ?thesis
    proof (cases "ob = []")
      case True
      then have "\<not> nt_loaded (parse_line q)" using W1 S2 assms by (simp add: q1_def)
      then show ?thesis using lt' True by (simp flip: str_def)
    next
      case ob: False
      have p: "p \<noteq> []" using fst_token [OF r w(3)] by (simp add: po)
      have lr: "\<not> c_isspace (last r)" using w(4) u(4) by simp
      obtain w' where w': "r = p @ w' @ ob" "w' \<noteq> []" "\<not> c_isspace (hd ob)" "last ob = last r"
        using token_split [OF r lr, unfolded po fst_conv snd_conv, OF ob] by metis
      obtain pre2 where f2: "FindNextSpace str (length pre1) e = Some (length pre1 + length p)"
        and p2: "str = pre2 @ ob @ post" "e = length pre2 + length ob - 1"
        and sk2: "\<And>b. length pre1 + length p \<le> b + 1 \<Longrightarrow> b \<le> length pre1 + length p \<Longrightarrow> nt_skip_spaces str (b + 1) e = length pre2"
        using S2 ob by auto
      obtain c1' c2' where m2: "match_IRI str (length pre1) (length pre1 + length p) = (c1', c2')"
        by (cases "match_IRI str (length pre1) (length pre1 + length p)")
      have c2: "nt_component str (c1', c2' - c1') = unbracket p" "nt_skip_spaces str (c2' + 1) e = length pre2"
        using unbracket_match [OF p, of str pre1 "w' @ ob @ post"] m2 sk2 p1(1) w'(1) by auto
      have ne1: "length pre1 \<noteq> e" using w'(1,2) p ob by (auto simp: p1(2) neq_Nil_conv)
      have W2: "parse_line q =
        (if length pre2 = e then q1\<lparr>nt_p := (c1', c2' - c1')\<rparr>
         else case object_bounds str (length pre2) e of (s, e) \<Rightarrow>
           q1\<lparr>nt_p := (c1', c2' - c1'), nt_o := (s, e + 1 - s), nt_loaded := True\<rparr>)"
        using W1 ne1 f2 by (simp only: m2 c2(2) option.case prod.case if_False)
      show ?thesis
      proof (cases "length ob < 2")
        case True
        then have "length pre2 = e" using ob by (cases ob) (auto simp: p2(2))
        then have "\<not> nt_loaded (parse_line q)" using W2 assms by (simp add: q1_def)
        then show ?thesis using lt' True by (simp flip: str_def)
      next
        case l2: False
        have lt2: "length pre2 < e" "e + 1 = length pre2 + length ob" using l2 by (simp_all add: p2(2))
        obtain d1 d2 where m3: "match_IRI str (length pre2) (length pre2 + length ob) = (d1, d2)"
          by (cases "match_IRI str (length pre2) (length pre2 + length ob)")
        have c3: "nt_component str (d1, d2 - d1) = unbracket ob"
          using unbracket_match [OF ob p2(1)] m3 by simp
        have "(case object_bounds str (length pre2) e of (s, e) \<Rightarrow>
            q1\<lparr>nt_p := (c1', c2' - c1'), nt_o := (s, e + 1 - s), nt_loaded := True\<rparr>) =
            q1\<lparr>nt_p := (c1', c2' - c1'), nt_o := (d1, d2 - d1), nt_loaded := True\<rparr>"
          using object_bounds_eq [OF lt2(1), of str] m3 unfolding lt2(2) by (simp split: prod.splits)
        then have "parse_line q = q1\<lparr>nt_p := (c1', c2' - c1'), nt_o := (d1, d2 - d1), nt_loaded := True\<rparr>"
          using W2 lt2(1) by simp
        then show ?thesis
          using lt' l2 c1(1) c2(1) c3 unfolding str_def [symmetric]
          by (auto simp: nt_triple_def q1_def str_def [symmetric] split: rdf_type.split)
      qed
    qed
  qed
qed

text \<open>The reference on a line as it is usually written, and on one whose object is a single character.\<close>

lemma token_word:
  "\<forall>c \<in> set s. \<not> c_isspace c \<Longrightarrow> r \<noteq> [] \<Longrightarrow> \<not> c_isspace (hd r) \<Longrightarrow> token (s @ 32 # r) = (s, r)"
proof -
  assume s: "\<forall>c \<in> set s. \<not> c_isspace c" and r: "r \<noteq> []" "\<not> c_isspace (hd r)"
  have sp: "c_isspace 32" by (simp add: c_isspace_def)
  have "dropWhile c_isspace (32 # r) = r" using r sp by (cases r) auto
  then show ?thesis using s sp by (simp add: token_def takeWhile_append2 dropWhile_append2)
qed

lemma line_triple_written:
  assumes s: "s \<noteq> []" "\<forall>c \<in> set s. \<not> c_isspace c" "hd s \<noteq> 35"
    and p: "p \<noteq> []" "\<forall>c \<in> set p. \<not> c_isspace c"
    and o: "ob \<noteq> []" "\<not> c_isspace (hd ob)" "\<not> c_isspace (last ob)"
  shows "line_triple (s @ 32 # p @ 32 # ob @ [32, 46]) =
    (if length ob < 2 then None else Some (unbracket s, unbracket p, unbracket ob))"
proof -
  let ?u = "s @ 32 # p @ 32 # ob"
  have sp: "c_isspace 32" "\<not> c_isspace 46" by (simp_all add: c_isspace_def)
  have "dropWhile c_isspace (?u @ [32, 46]) = ?u @ [32, 46]" using s by (cases s) auto
  moreover have "rtrim (?u @ [32, 46]) = ?u @ [32, 46]" using rtrim_snoc [of "?u @ [32]" 46] sp by simp
  moreover have "rtrim (?u @ [32]) = ?u"
  proof -
    obtain v c where v: "ob = v @ [c]" using o(1) by (cases ob rule: rev_cases) auto
    then show ?thesis using rtrim_snoc [of ?u 32] rtrim_snoc [of "s @ 32 # p @ 32 # v" c] sp o(3) by simp
  qed
  moreover have "token ?u = (s, p @ 32 # ob)" using s p by (intro token_word) (auto simp: neq_Nil_conv)
  moreover have "token (p @ 32 # ob) = (p, ob)" using p o by (intro token_word)
  ultimately show ?thesis using s(1,3) by (simp add: line_triple_def butlast_append)
qed

section \<open>A whole text\<close>

function text_lines :: "u8 list \<Rightarrow> u8 list list" where
  "text_lines s =
     (if s = [] then []
      else let l = takeWhile (\<lambda>c. c \<noteq> 10) s in l # text_lines (drop (length l + 1) s))"
  by pat_completeness auto
termination by (relation "measure length") (auto simp: neq_Nil_conv)

declare text_lines.simps [simp del]

definition triple_of :: "cstr \<times> cstr \<times> cstr \<Rightarrow> triple" where
  "triple_of x = (case x of (s, p, ob) \<Rightarrow> \<lambda>t. case t of RDF_SUBJECT \<Rightarrow> s | RDF_PREDICATE \<Rightarrow> p | RDF_OBJECT \<Rightarrow> ob)"

text \<open>What a stream still gives.\<close>

definition left_triples :: "istream \<Rightarrow> (cstr \<times> cstr \<times> cstr) list" where
  "left_triples i = List.map_filter line_triple (text_lines (if is_good i then is_rest i else []))"

lemma text_lines_Nil [simp]: "text_lines [] = []"
  by (simp add: text_lines.simps)

lemma getline_triples:
  assumes "is_getline 10 i = (l, i')"
  shows "if is_fail i' then left_triples i = []
    else \<exists>s. l = Some s \<and>
      left_triples i = (case line_triple s of None \<Rightarrow> [] | Some x \<Rightarrow> [x]) @ left_triples i'"
proof (cases "is_good i \<and> is_rest i \<noteq> []")
  case False
  then show ?thesis using assms by (auto simp: is_getline_def left_triples_def map_filter_simps Let_def split: if_splits)
next
  case True
  define s where "s = takeWhile (\<lambda>c. c \<noteq> 10) (is_rest i)"
  have tl: "text_lines (is_rest i) = s # text_lines (drop (length s + 1) (is_rest i))"
    using True by (subst text_lines.simps) (simp add: s_def Let_def)
  have g: "is_getline 10 i = (Some s, if length s = length (is_rest i)
      then i\<lparr>is_rest := [], is_eof := True, is_fail := s = []\<rparr> else i\<lparr>is_rest := drop (length s + 1) (is_rest i)\<rparr>)"
    using True by (simp add: is_getline_def s_def Let_def)
  have f: "\<not> is_fail i'"
    using assms g True by (auto simp: is_good_def split: if_splits)
  moreover have "left_triples i' = List.map_filter line_triple (text_lines (drop (length s + 1) (is_rest i)))"
    using assms g True by (auto simp: left_triples_def is_good_def split: if_splits)
  moreover have "left_triples i = List.map_filter line_triple (s # text_lines (drop (length s + 1) (is_rest i)))"
    using True tl by (simp add: left_triples_def)
  moreover have "l = Some s" using assms g by simp
  ultimately have "l = Some s \<and> left_triples i = (case line_triple s of None \<Rightarrow> [] | Some x \<Rightarrow> [x]) @ left_triples i'"
    by (simp add: map_filter_simps split: option.split)
  with f show ?thesis by auto
qed

lemma nt_bool_triples:
  "\<not> nt_loaded q \<Longrightarrow> nt_bool q = (b, q') \<Longrightarrow>
   if b then nt_loaded q' \<and> (\<exists>x. left_triples (nt_is q) = x # left_triples (nt_is q') \<and> nt_triple q' = triple_of x)
   else left_triples (nt_is q) = []"
proof (induction q rule: nt_bool.induct)
  case (1 q)
  obtain l i' where g: "is_getline 10 (nt_is q) = (l, i')" by (cases "is_getline 10 (nt_is q)")
  note G = getline_triples [OF g]
  show ?case
  proof (cases "is_fail (nt_is q) \<or> is_fail i'")
    case True
    have "left_triples (nt_is q) = []"
    proof (cases "is_fail (nt_is q)")
      case True
      then show ?thesis by (simp add: left_triples_def is_good_def map_filter_simps)
    next
      case False
      then show ?thesis using G True \<open>is_fail (nt_is q) \<or> is_fail i'\<close> by simp
    qed
    moreover have "\<not> b" using "1.prems" g True by (subst (asm) nt_bool.simps) (auto simp: Let_def split: if_splits)
    ultimately show ?thesis by simp
  next
    case False
    then obtain s where s: "l = Some s" "left_triples (nt_is q) =
        (case line_triple s of None \<Rightarrow> [] | Some x \<Rightarrow> [x]) @ left_triples i'" using G by auto
    let ?q = "q\<lparr>nt_is := i', nt_line := s\<rparr>"
    have n: "nt_bool q = nt_bool (parse_line ?q)" using g False "1.prems"(1) s(1)
      by (subst nt_bool.simps) (simp add: Let_def)
    have nq: "\<not> nt_loaded ?q" using "1.prems"(1) by simp
    note P = parse_line_eq [OF nq]
    show ?thesis
    proof (cases "line_triple s")
      case None
      then have nl: "\<not> nt_loaded (parse_line ?q)" using P by simp
      have "nt_bool (parse_line ?q) = (b, q')" using n "1.prems" by simp
      with "1.IH" [OF "1.prems"(1) _ g [symmetric] refl] nl False s None show ?thesis by (cases b) simp_all
    next
      case (Some x)
      then have nl: "nt_loaded (parse_line ?q)" "nt_triple (parse_line ?q) = triple_of x"
        using P by (auto simp: triple_of_def)
      then have "nt_bool q = (True, parse_line ?q)" unfolding n by (subst nt_bool.simps) simp
      moreover have "nt_is (parse_line ?q) = i'" by simp
      ultimately show ?thesis using nl "1.prems"(2) s(2) Some by (auto simp del: parse_line_is)
    qed
  qed
qed

lemma nt_all_triples: "\<not> nt_loaded q \<Longrightarrow> fst (nt_all q) = map triple_of (left_triples (nt_is q))"
proof (induction q rule: nt_all.induct)
  case (1 q)
  obtain b q' where b: "nt_bool q = (b, q')" by (cases "nt_bool q")
  note B = nt_bool_triples [OF "1.prems" b]
  show ?case
  proof (cases b)
    case False
    then show ?thesis using B b by (subst nt_all.simps) simp
  next
    case True
    then have "fst (nt_all (nt_next q')) = map triple_of (left_triples (nt_is q'))"
      using "1.IH" [OF b [symmetric]] True by (simp add: nt_next_def)
    with B True b show ?thesis by (subst nt_all.simps) (auto split: prod.split)
  qed
qed


lemma nt_bool_end: "nt_bool q = (False, q') \<Longrightarrow> is_fail (nt_is q') \<and> \<not> nt_loaded q'"
proof (induction q rule: nt_bool.induct)
  case (1 q)
  obtain l i' where g: "is_getline 10 (nt_is q) = (l, i')" by (cases "is_getline 10 (nt_is q)")
  have nl: "\<not> nt_loaded q" using "1.prems" by (subst (asm) nt_bool.simps) (auto split: if_splits)
  show ?case
  proof (cases "is_fail (nt_is q) \<or> is_fail i'")
    case True
    with "1.prems" g nl show ?thesis by (subst (asm) nt_bool.simps) (auto simp: Let_def split: if_splits)
  next
    case False
    with "1.IH" [OF nl _ g [symmetric] refl] "1.prems" g nl show ?thesis
      by (subst (asm) (2) nt_bool.simps) (simp add: Let_def)
  qed
qed

lemma nt_all_end: "nt_deref (snd (nt_all q)) = Inl Empty_iterator"
proof (induction q rule: nt_all.induct)
  case (1 q)
  obtain b q' where b: "nt_bool q = (b, q')" by (cases "nt_bool q")
  show ?case
  proof (cases b)
    case False
    with b nt_bool_end [of q q'] have "nt_bool q' = (False, q')" by (subst nt_bool.simps) simp
    with b False show ?thesis by (subst nt_all.simps) (simp add: nt_deref_def)
  next
    case True
    with "1.IH" [OF b [symmetric]] b show ?thesis by (subst nt_all.simps) (auto split: prod.splits)
  qed
qed

text \<open>
  C14. Reading a text with the parser gives, in order, the triples of those of its lines that hold one:
  the three words of the line without its final dot and the brackets of IRIs, the object reaching to
  the dot and having at least two characters; comments, blank lines and all other lines are left out,
  and access behind the last triple throws. (\<open>line_triple\<close> is the reference, on lists; the parser moves
  indices.)
\<close>

theorem parser_gives_triples:
  "fst (nt_all (RDFParserNTriple (open_stream text))) = map triple_of (List.map_filter line_triple (text_lines text)) \<and>
   nt_deref (snd (nt_all (RDFParserNTriple (open_stream text)))) = Inl Empty_iterator"
  using nt_all_triples [of "RDFParserNTriple (open_stream text)"]
  by (simp add: RDFParserNTriple_def left_triples_def nt_all_end)

end
