(* ===== verification/Hdt_Properties.thy ===== *)
theory Hdt_Properties
  imports Hdt Rdf_Parser_Properties
begin

text \<open>Cookies are read back as they were saved, and a store gives the triples of its header.\<close>

section \<open>The bytes of a cookie\<close>

lemma crc16_append [simp]: "crc16 (crc16 v a) b = crc16 v (a @ b)"
  by (simp add: crc16_def)

definition props_bytes :: "(cstr \<times> cstr) list \<Rightarrow> u8 list" where
  "props_bytes kvs = concat (map (\<lambda>(k, v). k @ [61] @ v @ [59]) kvs)"

lemma props_bytes_simps [simp]:
  "props_bytes [] = []" "props_bytes ((k, v) # kvs) = k @ [61] @ v @ [59] @ props_bytes kvs"
  by (simp_all add: props_bytes_def)

lemma save_props_eq: "save_props kvs crc os = (crc16 crc (props_bytes kvs), os @ props_bytes kvs)"
  by (induction kvs crc os rule: save_props.induct) (simp_all add: crc16_def)

definition cookie_bytes :: "u8 \<Rightarrow> cstr \<Rightarrow> (cstr \<times> cstr) list \<Rightarrow> u8 list" where
  "cookie_bytes type format kvs = HDT_COOKIE_MAGIC @ [type] @ format @ [0] @ props_bytes kvs @ [0]"

lemma hc_Save_eq: "hc_Save type format kvs = cookie_bytes type format kvs @ WriteUInt16 (crc16 0 (cookie_bytes type format kvs))"
  by (simp add: hc_Save_def save_props_eq cookie_bytes_def)

section \<open>Reading the properties\<close>

text \<open>What can be told apart in the file: no zero bytes, no separator in a key, none between properties in a value.\<close>

definition plain_prop :: "cstr \<times> cstr \<Rightarrow> bool" where
  "plain_prop kv \<longleftrightarrow> (case kv of (k, v) \<Rightarrow> no_nul k \<and> no_nul v \<and> 61 \<notin> set k \<and> 59 \<notin> set k \<and> 59 \<notin> set v)"

lemma str_find_found: "c \<notin> set l \<Longrightarrow> str_find (pre @ l @ c # post) c (length pre) = Some (length pre + length l)"
proof -
  assume "c \<notin> set l"
  then have "takeWhile (\<lambda>x. x \<noteq> c) (l @ c # post) = l" by (induction l) auto
  then show ?thesis by (simp add: str_find_def)
qed

lemma split_props_eq:
  "list_all plain_prop kvs \<Longrightarrow> distinct (map fst kvs) \<Longrightarrow>
   split_props (pre @ props_bytes kvs) (length pre) m = m ++ map_of kvs"
proof (induction kvs arbitrary: pre m)
  case Nil
  then show ?case by (simp add: split_props.simps)
next
  case (Cons kv kvs)
  obtain k v where kv: "kv = (k, v)" by (cases kv)
  have p: "61 \<notin> set k" "59 \<notin> set k" "59 \<notin> set v" using Cons.prems(1) by (simp_all add: kv plain_prop_def)
  let ?s = "pre @ props_bytes (kv # kvs)"
  have f: "str_find ?s 59 (length pre) = Some (length pre + length k + 1 + length v)"
    using str_find_found [of 59 "k @ [61] @ v" pre "props_bytes kvs"] p by (simp add: kv)
  have g: "str_find ?s 61 (length pre) = Some (length pre + length k)"
    using str_find_found [of 61 k pre "v @ [59] @ props_bytes kvs"] p(1) by (simp add: kv)
  have "split_props ?s (length pre) m = split_props ?s (length pre + length k + 1 + length v + 1) (m(k \<mapsto> v))"
    by (subst split_props.simps, subst f, subst g) (simp add: kv)
  also have "\<dots> = m(k \<mapsto> v) ++ map_of kvs"
    using Cons.IH [of "pre @ k @ [61] @ v @ [59]" "m(k \<mapsto> v)"] Cons.prems by (simp add: kv add.commute add.left_commute fun_upd_def)
  also have "\<dots> = m ++ map_of (kv # kvs)"
  proof -
    have "map_of kvs k = None" using Cons.prems(2) by (simp add: kv map_of_eq_None_iff image_iff)
    then show ?thesis by (auto simp: kv map_add_def fun_eq_iff split: option.split)
  qed
  finally show ?case .
qed

section \<open>Round trip\<close>

lemma LoadCookie_bytes:
  assumes i: "is_good i" "is_rest i = cookie_bytes type format kvs @ WriteUInt16 v @ rest"
    and p: "no_nul format" "list_all plain_prop kvs" "distinct (map fst kvs)"
  shows "LoadCookie c i =
    Some (if v = crc16 0 (cookie_bytes type format kvs) then Inr () else Inl InvalidCookieCRC,
      \<lparr>hc_type = type, hc_format = format, hc_props = hc_props c ++ map_of kvs\<rparr>, i\<lparr>is_rest := rest\<rparr>)"
proof -
  have m: "length HDT_COOKIE_MAGIC = 4" by (simp add: HDT_COOKIE_MAGIC_def cstr_of_def)
  define w where "w = WriteUInt16 v"
  let ?P = "props_bytes kvs"
  have r: "is_rest i = HDT_COOKIE_MAGIC @ type # format @ 0 # ?P @ 0 # w @ rest"
    using i(2) by (simp add: cookie_bytes_def w_def)
  let ?i1 = "i\<lparr>is_rest := type # format @ 0 # ?P @ 0 # w @ rest\<rparr>"
  let ?i2 = "i\<lparr>is_rest := format @ 0 # ?P @ 0 # w @ rest\<rparr>"
  let ?i3 = "i\<lparr>is_rest := ?P @ 0 # w @ rest\<rparr>"
  let ?i4 = "i\<lparr>is_rest := w @ rest\<rparr>"
  have s1: "is_read 4 i = (HDT_COOKIE_MAGIC, ?i1)" by (rule is_read_exact [OF i(1) r m])
  have s2: "is_get ?i1 = (ucast type, ?i2)" using is_get_Cons [of ?i1 type] i(1) by simp
  have "0 \<notin> set ?P" using p(2) by (induction kvs) (auto simp: plain_prop_def no_nul_def)
  then have s4: "is_getline 0 ?i3 = (Some ?P, ?i4)" using is_getline_found [of ?i3 ?P 0] i(1) by simp
  have s3: "is_getline 0 ?i2 = (Some format, ?i3)"
    using is_getline_found [of ?i2 format 0] i(1) p(1) by (simp add: no_nul_def)
  have s5: "ReadUInt16 ?i4 = (Some v, i\<lparr>is_rest := rest\<rparr>)"
    using ReadUInt16_Write [of ?i4] i(1) by (simp add: w_def)
  have sp: "split_props ?P 0 (hc_props c) = hc_props c ++ map_of kvs"
    using split_props_eq [OF p(2,3), of "[]"] by simp
  have t: "ucast (ucast type :: u32) = type" by (rule ucast_ucast_up) simp
  show ?thesis
    by (simp add: LoadCookie_def s1 m s2 s3 s4 s5 sp t Let_def cookie_bytes_def)
qed

lemma LoadCookie_Save:
  assumes "is_good i" and "is_rest i = hc_Save type format kvs @ rest"
    and "no_nul format" and "list_all plain_prop kvs" and "distinct (map fst kvs)"
  shows "LoadCookie c i =
    Some (Inr (), \<lparr>hc_type = type, hc_format = format, hc_props = hc_props c ++ map_of kvs\<rparr>, i\<lparr>is_rest := rest\<rparr>)"
  using LoadCookie_bytes [OF assms(1) _ assms(3-5)] assms(2) by (simp add: hc_Save_eq)

lemma WriteUInt16_inj: "WriteUInt16 v = WriteUInt16 w \<longleftrightarrow> v = w"
proof
  let ?s = "open_stream (WriteUInt16 v)"
  assume e: "WriteUInt16 v = WriteUInt16 w"
  have "ReadUInt16 ?s = (Some v, ?s\<lparr>is_rest := []\<rparr>)" by (rule ReadUInt16_Write) simp_all
  moreover have "ReadUInt16 ?s = (Some w, ?s\<lparr>is_rest := []\<rparr>)" by (rule ReadUInt16_Write) (simp_all add: e)
  ultimately show "v = w" by simp
qed simp

text \<open>
  C34. A saved cookie is read back: in whatever order its properties were written, reading gives its type
  (any byte) and format and adds its properties to those the cookie had, its sum is right, and the
  stream is left behind it; with any other sum behind the same bytes reading throws, with the cookie
  already changed. No zero byte may occur, no separator in a key, no semicolon in a value.
\<close>

theorem cookie_roundtrip:
  assumes "is_good i" and "no_nul format" and "list_all plain_prop kvs" and "distinct (map fst kvs)"
    and "c' = \<lparr>hc_type = type, hc_format = format, hc_props = hc_props c ++ map_of kvs\<rparr>"
    and "bs = take (length (hc_Save type format kvs) - 2) (hc_Save type format kvs)"
  shows "LoadCookie c (i\<lparr>is_rest := hc_Save type format kvs @ rest\<rparr>) = Some (Inr (), c', i\<lparr>is_rest := rest\<rparr>) \<and>
    LoadCookie c (i\<lparr>is_rest := bs @ WriteUInt16 v @ rest\<rparr>) =
      Some (if bs @ WriteUInt16 v = hc_Save type format kvs then Inr () else Inl InvalidCookieCRC, c', i\<lparr>is_rest := rest\<rparr>)"
proof -
  have bs: "bs = cookie_bytes type format kvs"
    by (simp add: assms(6) hc_Save_eq WriteUInt16_def)
  have "hc_Save type format kvs = bs @ WriteUInt16 (crc16 0 bs)" by (simp add: bs hc_Save_eq)
  then have e: "bs @ WriteUInt16 v = hc_Save type format kvs \<longleftrightarrow> v = crc16 0 (cookie_bytes type format kvs)"
    by (simp add: WriteUInt16_inj bs)
  let ?i = "i\<lparr>is_rest := bs @ WriteUInt16 v @ rest\<rparr>" and ?j = "i\<lparr>is_rest := hc_Save type format kvs @ rest\<rparr>"
  have "LoadCookie c ?i = Some (if v = crc16 0 (cookie_bytes type format kvs) then Inr () else Inl InvalidCookieCRC,
      c', ?i\<lparr>is_rest := rest\<rparr>)"
    unfolding assms(5) by (rule LoadCookie_bytes) (simp_all add: assms(1-4) bs)
  moreover have "LoadCookie c ?j = Some (Inr (), c', ?j\<lparr>is_rest := rest\<rparr>)"
    unfolding assms(5) by (rule LoadCookie_Save) (simp_all add: assms(1-4))
  ultimately show ?thesis unfolding e by simp
qed

lemma cookie_roundtrip_witness:
  "\<exists>c i. LoadCookie (new_cookie HCT_UNKNOWN []) (open_stream (hc_Save 6 [102] [([97], [98, 61]), ([99], [])] @ [1, 2])) =
     Some (Inr (), c, i) \<and> hc_type c = 6 \<and> hc_format c = [102] \<and> hc_props c [97] = Some [98, 61] \<and> is_rest i = [1, 2]"
proof -
  let ?k = "[([97 :: u8], [98 :: u8, 61]), ([99], [])]"
  have "is_good (open_stream [])" "no_nul [102]" "list_all plain_prop ?k" "distinct (map fst ?k)"
    by (simp_all add: plain_prop_def)
  from cookie_roundtrip [OF this refl refl, where type = 6 and c = "new_cookie HCT_UNKNOWN []" and rest = "[1, 2]"] show ?thesis
    by (simp add: new_cookie_def open_stream_def)
qed

text \<open>
  C15. Loading a stored file: behind a saved global cookie, a saved header cookie whose length property
  reads as the length of a text, and that text, the store holds the triples of the lines of the text
  and the stream is left behind it; a store that held another header gives it up.
\<close>

theorem LoadStream_triples:
  assumes "is_good i"
    and "is_rest i = hc_Save HCT_GLOBAL HDTV1 kvs @ hc_Save HCT_HEADER (cstr_of ''ntriples'') hvs @ body @ rest"
    and "list_all plain_prop kvs" and "distinct (map fst kvs)"
    and "list_all plain_prop hvs" and "distinct (map fst hvs)"
    and "map_of hvs (cstr_of ''length'') = Some l" and "strtoll 10 l = int (length body)"
  shows "\<exists>h'. LoadStream h i = Some (Inr (), h', i\<lparr>is_rest := rest\<rparr>) \<and>
    hdt_header h' = Some (map triple_of (List.map_filter line_triple (text_lines body))) \<and>
    hc_props (hdt_cookie h') = hc_props (hdt_cookie h) ++ map_of kvs"
proof -
  have n: "no_nul HDTV1" "no_nul (cstr_of ''ntriples'')" by (simp_all add: HDTV1_def cstr_of_def of_char_def)
  let ?i1 = "i\<lparr>is_rest := hc_Save HCT_HEADER (cstr_of ''ntriples'') hvs @ body @ rest\<rparr>"
  let ?i2 = "i\<lparr>is_rest := body @ rest\<rparr>"
  have c1: "LoadCookie (hdt_cookie h) i = Some (Inr (), \<lparr>hc_type = HCT_GLOBAL, hc_format = HDTV1,
      hc_props = hc_props (hdt_cookie h) ++ map_of kvs\<rparr>, ?i1)"
    by (rule LoadCookie_Save [OF assms(1,2) n(1) assms(3,4)])
  have c2: "LoadCookie (new_cookie HCT_UNKNOWN []) ?i1 = Some (Inr (), \<lparr>hc_type = HCT_HEADER, hc_format = cstr_of ''ntriples'',
      hc_props = map_of hvs\<rparr>, ?i2)"
    using LoadCookie_Save [of ?i1 HCT_HEADER "cstr_of ''ntriples''" hvs "body @ rest" "new_cookie HCT_UNKNOWN []"] assms(1) n(2) assms(5,6)
    by (simp add: new_cookie_def)
  have "list_all plain_prop hvs \<Longrightarrow> map_of hvs k = Some l \<Longrightarrow> no_nul l" for k
    by (auto simp: list_all_iff plain_prop_def dest: map_of_SomeD)
  then have l: "c_chars l = l" using assms(5,7) by (simp add: c_chars_id)
  have r: "is_read (length body) ?i2 = (body, i\<lparr>is_rest := rest\<rparr>)"
    using is_read_exact [of ?i2 body rest "length body"] assms(1) by simp
  have "LoadHeader ?i1 = Some (Inr (map triple_of (List.map_filter line_triple (text_lines body))), i\<lparr>is_rest := rest\<rparr>)"
    by (simp add: LoadHeader_def c2 PlainHeader_def GetInteger_def assms(7,8) l r nt_all_triples
        RDFParserNTriple_def left_triples_def)
  then show ?thesis by (simp add: LoadStream_def Let_def c1)
qed

text \<open>A store with one triple, \<^verbatim>\<open>a b cd .\<close>\<close>

lemma LoadStream_triples_witness:
  "\<exists>h' i'. LoadStream new_hdt (open_stream (hc_Save HCT_GLOBAL HDTV1 [] @
        hc_Save HCT_HEADER (cstr_of ''ntriples'') [(cstr_of ''length'', [56])] @ [97, 32, 98, 32, 99, 100, 32, 46] @ [])) =
      Some (Inr (), h', i') \<and> hdt_header h' = Some [triple_of ([97], [98], [99, 100])]"
proof -
  let ?b = "[97, 32, 98, 32, 99, 100, 32, 46] :: u8 list" and ?h = "[(cstr_of ''length'', [56])]"
  define i where "i = open_stream (hc_Save HCT_GLOBAL HDTV1 [] @ hc_Save HCT_HEADER (cstr_of ''ntriples'') ?h @ ?b @ [])"
  have "is_good i" "is_rest i = hc_Save HCT_GLOBAL HDTV1 [] @ hc_Save HCT_HEADER (cstr_of ''ntriples'') ?h @ ?b @ []"
      "list_all plain_prop []" "distinct (map fst ([] :: (cstr \<times> cstr) list))" "list_all plain_prop ?h" "distinct (map fst ?h)"
      "map_of ?h (cstr_of ''length'') = Some [56]"
    by (simp_all add: i_def plain_prop_def cstr_of_def of_char_def)
  moreover have "strtoll 10 [56] = int (length ?b)"
    by (simp add: strtoll_def strto_parts_def take_sign_def skip_0x_def is_digit_in_def digit_val_def
        c_isdigit_def c_isspace_def c_isalpha_def c_tolower_def)
  ultimately obtain h' where h': "LoadStream new_hdt i = Some (Inr (), h', i\<lparr>is_rest := []\<rparr>)"
      "hdt_header h' = Some (map triple_of (List.map_filter line_triple (text_lines ?b)))"
    using LoadStream_triples [of i "[]" ?h ?b "[]" "[56]" new_hdt] by blast
  have "text_lines ?b = [?b]" by (simp add: text_lines.simps)
  moreover have "line_triple ?b = Some ([97], [98], [99, 100])"
    using line_triple_written [of "[97]" "[98]" "[99, 100]"] by (simp add: c_isspace_def unbracket_def)
  ultimately show ?thesis using h' unfolding i_def by (auto simp: map_filter_simps)
qed

end
