(* ===== verification/Memory_Arena.thy ===== *)
theory Memory_Arena
  imports Byte_Memory "HOL-Library.Multiset"
begin

text \<open>
  The arena \<^verbatim>\<open>src/core/shared/core/memory_allocator.hpp\<close>: pointers with the functions that delete
  them, all deleted with the arena.

  \<^verbatim>\<open>operator new\<close> is an argument of the operations that call it: the address it returns, or \<open>None\<close> when
  it throws. A deleter is the instance of the lambda: \<^verbatim>\<open>delete\<close> at a type, or \<^verbatim>\<open>delete[]\<close> of bytes; the
  calls an operation makes are listed in its result. What an arena keeps is proved for every sequence
  of operations.
\<close>

section \<open>The arena\<close>

datatype deleter = Delete_object nat | Delete_bytes

record arena_ptr =
  mp_deleteFunc :: deleter
  mp_ptr :: u64

record arena =
  ar_totalLen :: u64
  ar_ptrs :: "arena_ptr list"

definition new_arena :: arena where
  "new_arena = \<lparr>ar_totalLen = 0, ar_ptrs = []\<rparr>"

text \<open>The move constructor: the new arena, and the old one.\<close>

definition move_arena :: "arena \<Rightarrow> arena \<times> arena" where
  "move_arena other = (other, other\<lparr>ar_totalLen := 0, ar_ptrs := []\<rparr>)"

definition destroy_arena :: "arena \<Rightarrow> arena_ptr list" where
  "destroy_arena a = filter (\<lambda>p. mp_ptr p \<noteq> 0) (ar_ptrs a)"

text \<open>\<^verbatim>\<open>New<T>\<close>, for the type \<open>ty\<close>: the length is counted before \<^verbatim>\<open>new\<close> may throw.\<close>

definition arena_New :: "u64 \<Rightarrow> nat \<Rightarrow> u64 option \<Rightarrow> arena \<Rightarrow> u64 option \<times> arena" where
  "arena_New sizeof_T ty new a =
     (let a = a\<lparr>ar_totalLen := ar_totalLen a + sizeof_T\<rparr>
      in case new of
           None \<Rightarrow> (None, a)
         | Some ptr \<Rightarrow>
             (Some ptr, a\<lparr>ar_ptrs := ar_ptrs a @ [\<lparr>mp_deleteFunc = Delete_object ty, mp_ptr = ptr\<rparr>]\<rparr>))"

text \<open>\<^verbatim>\<open>Alloc<T>(size, count)\<close>: \<open>new\<close> is asked for \<open>size * count\<close> bytes, which may wrap around.\<close>

definition arena_Alloc :: "u64 \<Rightarrow> u64 \<Rightarrow> (u64 \<Rightarrow> u64 option) \<Rightarrow> arena \<Rightarrow> u64 option \<times> arena" where
  "arena_Alloc sz n new a =
     (let a = a\<lparr>ar_totalLen := ar_totalLen a + sz * n\<rparr>
      in case new (sz * n) of
           None \<Rightarrow> (None, a)
         | Some ptr \<Rightarrow> (Some ptr, a\<lparr>ar_ptrs := ar_ptrs a @ [\<lparr>mp_deleteFunc = Delete_bytes, mp_ptr = ptr\<rparr>]\<rparr>))"

definition AllocAligned :: "u64 \<Rightarrow> u64 \<Rightarrow> (u64 \<Rightarrow> u64 option) \<Rightarrow> arena \<Rightarrow> u64 option \<times> arena" where
  "AllocAligned sz align new a =
     (case arena_Alloc (sz + align - 1) 1 new a of (r, a) \<Rightarrow> (map_option (\<lambda>p. aligned_w p align) r, a))"

definition arena_Add :: "nat \<Rightarrow> u64 \<Rightarrow> arena \<Rightarrow> u64 \<times> arena" where
  "arena_Add ty ptr a = (ptr, a\<lparr>ar_ptrs := ar_ptrs a @ [\<lparr>mp_deleteFunc = Delete_object ty, mp_ptr = ptr\<rparr>]\<rparr>)"

text \<open>The copies, with the memory they write to. A \<^verbatim>\<open>std::string\<close> has a zero byte behind its bytes.\<close>

definition ClonePtr ::
  "u8 list \<Rightarrow> (u64 \<Rightarrow> u64 option) \<Rightarrow> arena \<times> bytes \<Rightarrow> u64 option \<times> arena \<times> bytes" where
  "ClonePtr src new am =
     (case arena_Alloc (of_nat (length src)) 1 new (fst am) of
        (None, a) \<Rightarrow> (None, a, snd am)
      | (Some dst, a) \<Rightarrow> (Some dst, a, put_list (unat dst) src (snd am)))"

definition arena_Alloc_string ::
  "u8 list \<Rightarrow> (u64 \<Rightarrow> u64 option) \<Rightarrow> arena \<times> bytes \<Rightarrow> u64 option \<times> arena \<times> bytes" where
  "arena_Alloc_string str new am =
     (case arena_Alloc (of_nat (length str + 1)) 1 new (fst am) of
        (None, a) \<Rightarrow> (None, a, snd am)
      | (Some ptr, a) \<Rightarrow> (Some ptr, a, put_list (unat ptr) (str @ [0]) (snd am)))"

definition CloneStr ::
  "cstr \<Rightarrow> (u64 \<Rightarrow> u64 option) \<Rightarrow> arena \<times> bytes \<Rightarrow> u64 option \<times> arena \<times> bytes" where
  "CloneStr str new am = ClonePtr (c_chars str @ [0]) new am"

text \<open>\<^verbatim>\<open>FreeAll\<close> calls every deleter, \<^verbatim>\<open>Free\<close> that of the first entry with the pointer.\<close>

definition FreeAll :: "arena \<Rightarrow> arena_ptr list \<times> arena" where
  "FreeAll a = (ar_ptrs a, a\<lparr>ar_ptrs := []\<rparr>)"

fun free_loop :: "u64 \<Rightarrow> arena_ptr list \<Rightarrow> arena_ptr list \<times> arena_ptr list" where
  "free_loop ptr [] = ([], [])"
| "free_loop ptr (it # its) =
     (if mp_ptr it = ptr then ([it], its)
      else case free_loop ptr its of (d, its) \<Rightarrow> (d, it # its))"

definition arena_Free :: "u64 \<Rightarrow> arena \<Rightarrow> arena_ptr list \<times> arena" where
  "arena_Free ptr a =
     (if ptr = 0 then ([], a)
      else case free_loop ptr (ar_ptrs a) of (d, ps) \<Rightarrow> (d, a\<lparr>ar_ptrs := ps\<rparr>))"

definition arena_Count :: "arena \<Rightarrow> nat" where
  "arena_Count a = length (ar_ptrs a)"

definition DebugAllocSize :: "arena \<Rightarrow> u64" where
  "DebugAllocSize a = ar_totalLen a"

section \<open>Every run of operations\<close>

text \<open>
  \<open>arena_run given a deleted\<close>: what was handed to the arena, with its deleter, and the deleters that
  were called, both in order. An address that \<^verbatim>\<open>new\<close> returns is not null and none of a live entry, and
  a client adds only what the arena does not hold.
\<close>

definition fresh :: "u64 \<Rightarrow> arena \<Rightarrow> bool" where
  "fresh p a \<longleftrightarrow> p \<noteq> 0 \<and> p \<notin> mp_ptr ` set (ar_ptrs a)"

inductive arena_run :: "arena_ptr list \<Rightarrow> arena \<Rightarrow> arena_ptr list \<Rightarrow> bool" where
  run_new: "arena_run [] new_arena []"
| run_New: "arena_run g a d \<Longrightarrow> fresh p a \<Longrightarrow> arena_New s ty (Some p) a = (r, a') \<Longrightarrow>
    arena_run (g @ [\<lparr>mp_deleteFunc = Delete_object ty, mp_ptr = p\<rparr>]) a' d"
| run_New_throws: "arena_run g a d \<Longrightarrow> arena_New s ty None a = (r, a') \<Longrightarrow> arena_run g a' d"
| run_Alloc: "arena_run g a d \<Longrightarrow> new (s * n) = Some p \<Longrightarrow> fresh p a \<Longrightarrow> arena_Alloc s n new a = (r, a') \<Longrightarrow>
    arena_run (g @ [\<lparr>mp_deleteFunc = Delete_bytes, mp_ptr = p\<rparr>]) a' d"
| run_Alloc_throws: "arena_run g a d \<Longrightarrow> new (s * n) = None \<Longrightarrow> arena_Alloc s n new a = (r, a') \<Longrightarrow> arena_run g a' d"
| run_Add: "arena_run g a d \<Longrightarrow> fresh p a \<Longrightarrow> arena_Add ty p a = (r, a') \<Longrightarrow>
    arena_run (g @ [\<lparr>mp_deleteFunc = Delete_object ty, mp_ptr = p\<rparr>]) a' d"
| run_Free: "arena_run g a d \<Longrightarrow> arena_Free p a = (x, a') \<Longrightarrow> arena_run g a' (d @ x)"
| run_FreeAll: "arena_run g a d \<Longrightarrow> FreeAll a = (x, a') \<Longrightarrow> arena_run g a' (d @ x)"
| run_move: "arena_run g a d \<Longrightarrow> move_arena a = (a', a'') \<Longrightarrow> arena_run g a' (d @ destroy_arena a'')"

lemma free_loop_split:
  "free_loop p ps = (d, ps') \<Longrightarrow> mset ps = mset d + mset ps' \<and> set ps' \<subseteq> set ps"
proof (induction p ps arbitrary: d ps' rule: free_loop.induct)
  case (2 p it its)
  obtain e qs where e: "free_loop p its = (e, qs)" by (cases "free_loop p its")
  show ?case
  proof (cases "mp_ptr it = p")
    case True
    with "2.prems" show ?thesis by auto
  next
    case False
    with "2.prems" e have d: "d = e" "ps' = it # qs" by simp_all
    from "2.IH" [OF False e] show ?thesis by (auto simp: d)
  qed
qed simp

lemma free_loop_distinct:
  "free_loop p ps = (d, ps') \<Longrightarrow> distinct (map mp_ptr ps) \<Longrightarrow> distinct (map mp_ptr ps')"
proof (induction p ps arbitrary: d ps' rule: free_loop.induct)
  case (2 p it its)
  obtain e qs where e: "free_loop p its = (e, qs)" by (cases "free_loop p its")
  show ?case
  proof (cases "mp_ptr it = p")
    case True
    with "2.prems" show ?thesis by simp
  next
    case False
    with "2.prems"(1) e have d: "ps' = it # qs" by simp
    have "set qs \<subseteq> set its" using free_loop_split [OF e] by blast
    with "2.IH" [OF False e] "2.prems"(2) show ?thesis by (auto simp: d)
  qed
qed simp

lemma arena_run_inv:
  "arena_run g a d \<Longrightarrow> mset g = mset (ar_ptrs a) + mset d \<and> distinct (map mp_ptr (ar_ptrs a)) \<and>
     (\<forall>p \<in> set (ar_ptrs a). mp_ptr p \<noteq> 0)"
proof (induction rule: arena_run.induct)
  case (run_Free g a d p x a')
  show ?case
  proof (cases "p = 0")
    case False
    then obtain ps where l: "free_loop p (ar_ptrs a) = (x, ps)" and a': "a' = a\<lparr>ar_ptrs := ps\<rparr>"
      using run_Free by (auto simp: arena_Free_def split: prod.splits)
    with run_Free.IH free_loop_split [OF l] free_loop_distinct [OF l] show ?thesis by auto
  qed (use run_Free in \<open>simp add: arena_Free_def\<close>)
qed (auto simp: new_arena_def arena_New_def arena_Alloc_def arena_Add_def FreeAll_def move_arena_def destroy_arena_def
    fresh_def Let_def)

text \<open>
  C37. Whatever is done with an arena, everything it was handed is deleted exactly once, with its own
  deleter: what was handed to it is at every moment what it holds and what it deleted; it deletes
  what it holds when it is destroyed, and afterwards nothing is missing and nothing was deleted twice.
\<close>

theorem arena_deletes_once:
  assumes "arena_run given a deleted"
  shows "mset given = mset (ar_ptrs a) + mset deleted \<and> mset given = mset (deleted @ destroy_arena a) \<and>
    distinct (map mp_ptr (ar_ptrs a)) \<and> arena_Count a + length deleted = length given"
proof -
  note I = arena_run_inv [OF assms]
  then have "destroy_arena a = ar_ptrs a" by (simp add: destroy_arena_def filter_id_conv)
  moreover have "length given = length (ar_ptrs a) + length deleted"
    using I by (metis size_mset size_union)
  ultimately show ?thesis using I by (simp add: arena_Count_def union_commute)
qed

lemma arena_deletes_once_witness:
  "mset [\<lparr>mp_deleteFunc = Delete_object 3, mp_ptr = 16\<rparr>, \<lparr>mp_deleteFunc = Delete_bytes, mp_ptr = 64\<rparr>] =
     mset ([\<lparr>mp_deleteFunc = Delete_object 3, mp_ptr = 16\<rparr>] @
       destroy_arena \<lparr>ar_totalLen = 58, ar_ptrs = [\<lparr>mp_deleteFunc = Delete_bytes, mp_ptr = 64\<rparr>]\<rparr>)"
proof -
  let ?o = "\<lparr>mp_deleteFunc = Delete_object 3, mp_ptr = 16\<rparr>" and ?b = "\<lparr>mp_deleteFunc = Delete_bytes, mp_ptr = 64\<rparr>"
  have "arena_run ([] @ [?o]) \<lparr>ar_totalLen = 8, ar_ptrs = [?o]\<rparr> []"
    by (rule run_New [OF run_new, of 16 8 3 "Some 16"]) (simp_all add: fresh_def new_arena_def arena_New_def)
  then have "arena_run (([] @ [?o]) @ [?b]) \<lparr>ar_totalLen = 58, ar_ptrs = [?o, ?b]\<rparr> []"
    by (rule run_Alloc [where new = "\<lambda>_. Some 64" and s = 10 and n = 5 and r = "Some 64"])
      (simp_all add: fresh_def arena_Alloc_def)
  then have "arena_run (([] @ [?o]) @ [?b]) \<lparr>ar_totalLen = 58, ar_ptrs = [?b]\<rparr> ([] @ [?o])"
    by (rule run_Free [where p = 16]) (simp add: arena_Free_def)
  from arena_deletes_once [OF this] show ?thesis by simp
qed

section \<open>Aligned blocks\<close>

text \<open>
  An aligned block lies inside the block that was allocated for it and starts at a multiple of the
  alignment, for every power of two, while the sizes and addresses do not wrap around.
\<close>

theorem AllocAligned_inside:
  assumes "AllocAligned sz (2 ^ k) new a = (Some q, a')" and "k < 63" and "unat sz + 2 ^ k < 2 ^ 63"
    and "\<forall>n p. new n = Some p \<longrightarrow> unat p < 2 ^ 63"
  shows "\<exists>p n. new n = Some p \<and> unat n = unat sz + 2 ^ k - 1 \<and> 2 ^ k dvd unat q \<and>
    unat p \<le> unat q \<and> unat q + unat sz \<le> unat p + unat n"
proof -
  obtain p where p: "new ((sz + 2 ^ k - 1) * 1) = Some p" "q = aligned_w p (2 ^ k)"
    using assms(1) by (auto simp: AllocAligned_def arena_Alloc_def Let_def split: option.splits)
  let ?n = "(sz + 2 ^ k - 1) * 1"
  have up: "unat p < 2 ^ 63" using assms(4) p(1) by blast
  have m: "(2 ^ k - 1 :: u64) = mask k" by (simp add: mask_eq_exp_minus_1)
  have e: "?n = sz + mask k" by (simp add: m [symmetric])
  have u: "unat (mask k :: u64) = 2 ^ k - 1" using assms(2) by (intro unat_mask_le) simp
  have n: "unat ?n = unat sz + 2 ^ k - 1"
    unfolding e unat_word_ariths u using assms(3) by simp
  have kl: "(2 :: nat) ^ k \<le> 2 ^ 63" using assms(2) by (intro power_increasing) auto
  have q: "unat q = align_up (unat p) (2 ^ k)"
    using unat_aligned_w [of k p] assms(2) up kl by (simp add: p(2))
  show ?thesis
    using p(1) n align_up_ge [of "2 ^ k" "unat p"] align_up_less [of "2 ^ k" "unat p"] align_up_dvd [of "2 ^ k" "unat p"]
    unfolding q by (intro exI [of _ p] exI [of _ ?n]) auto
qed

lemma AllocAligned_inside_witness:
  "\<exists>q a'. AllocAligned 10 (2 ^ 4) (\<lambda>_. Some 100) new_arena = (Some q, a') \<and> 16 dvd unat q \<and> 100 \<le> unat q \<and> unat q + 10 \<le> 125"
proof -
  obtain q a' where r: "AllocAligned 10 (2 ^ 4) (\<lambda>_. Some 100) new_arena = (Some q, a')"
    by (auto simp: AllocAligned_def arena_Alloc_def Let_def)
  have "(4 :: nat) < 63" "unat (10 :: u64) + 2 ^ 4 < 2 ^ 63" "\<forall>n p. (\<lambda>_ :: u64. Some (100 :: u64)) n = Some p \<longrightarrow> unat p < 2 ^ 63"
    by auto
  from AllocAligned_inside [OF r this] r show ?thesis by auto
qed

end
