(* ===== verification/Cli_Options.thy ===== *)
theory Cli_Options
  imports C_Library
begin

text \<open>
  The options of the command line tools, \<^verbatim>\<open>src/core/shared/cli/cli_options.hpp\<close>.

  The variables the options point to are a store, so that two options may share one. \<^verbatim>\<open>strtod\<close> is a
  parameter. An argument is a C string; the log messages are not modelled.
\<close>

section \<open>Options\<close>

text \<open>The types a value may have: the branches of \<^verbatim>\<open>if constexpr\<close>, integers with their width.\<close>

datatype opt_type = T_bool | T_unsigned nat | T_signed nat | T_floating | T_string | T_other

datatype 'f opt_val = V_bool bool | V_int int | V_float 'f | V_str cstr

record cli_option =
  co_longName :: "cstr option"
  co_smallName :: "cstr option"
  co_usage :: "cstr option"
  co_description :: cstr
  co_len :: u64
  co_type :: opt_type
  co_valPtr :: nat

definition c_strlen :: "cstr \<Rightarrow> u64" where
  "c_strlen s = of_nat (length (c_chars s))"

definition new_CliOptionVal ::
  "nat \<Rightarrow> opt_type \<Rightarrow> cstr option \<Rightarrow> cstr option \<Rightarrow> cstr option \<Rightarrow> cstr \<Rightarrow> cli_option" where
  "new_CliOptionVal valPtr ty longName smallName usage description =
     (let len = (case longName of None \<Rightarrow> 0 | Some s \<Rightarrow> c_strlen s);
          len = (case smallName of None \<Rightarrow> len | Some s \<Rightarrow> (if len \<noteq> 0 then len + 1 else len) + c_strlen s);
          len = (case usage of None \<Rightarrow> len | Some s \<Rightarrow> len + c_strlen s)
      in \<lparr>co_longName = longName, co_smallName = smallName, co_usage = usage, co_description = description,
          co_len = len, co_type = ty, co_valPtr = valPtr\<rparr>)"

text \<open>\<^verbatim>\<open>_strcmpi\<close> for the long name, \<^verbatim>\<open>strcmp\<close> for the small one.\<close>

definition opt_Match :: "cli_option \<Rightarrow> cstr \<Rightarrow> bool" where
  "opt_Match o' arg \<longleftrightarrow>
     (case co_longName o' of None \<Rightarrow> False | Some s \<Rightarrow> map c_tolower (c_chars s) = map c_tolower (c_chars arg)) \<or>
     (case co_smallName o' of None \<Rightarrow> False | Some s \<Rightarrow> c_chars s = c_chars arg)"

text \<open>\<^verbatim>\<open>ConsumeArg\<close>: whether it succeeds, the offset, and the store.\<close>

definition ConsumeArg ::
  "(cstr \<Rightarrow> 'f) \<Rightarrow> cli_option \<Rightarrow> nat \<Rightarrow> nat \<Rightarrow> cstr list \<Rightarrow> (nat \<Rightarrow> 'f opt_val) \<Rightarrow> bool \<times> nat \<times> (nat \<Rightarrow> 'f opt_val)" where
  "ConsumeArg strtod o' offset argc argv st =
     (if co_type o' = T_bool then (True, offset, st(co_valPtr o' := V_bool True))
      else if offset = argc then (False, offset, st)
      else let param = argv ! offset; offset = offset + 1
           in (True, offset,
               case co_type o' of
                 T_unsigned w \<Rightarrow> st(co_valPtr o' := V_int (take_bit w (uint (strtoull 10 (c_chars param)))))
               | T_signed w \<Rightarrow> st(co_valPtr o' := V_int (signed_take_bit (w - 1) (strtoll 10 (c_chars param))))
               | T_floating \<Rightarrow> st(co_valPtr o' := V_float (strtod (c_chars param)))
               | T_string \<Rightarrow> st(co_valPtr o' := V_str param)
               | _ \<Rightarrow> st))"

text \<open>\<^verbatim>\<open>StringLine\<close>: \<^verbatim>\<open>setw\<close> pads a space to the right, and has no effect below its length.
  The usage must not be null (\<open>None\<close>).\<close>

definition StringLine :: "u64 \<Rightarrow> cli_option \<Rightarrow> cstr option" where
  "StringLine namePadding o' =
     (case co_usage o' of
        None \<Rightarrow> None
      | Some usage \<Rightarrow>
          let ss = (case co_longName o' of
                      Some l \<Rightarrow> c_chars l @ (case co_smallName o' of Some s \<Rightarrow> 32 # c_chars s | None \<Rightarrow> [])
                    | None \<Rightarrow> (case co_smallName o' of Some s \<Rightarrow> c_chars s | None \<Rightarrow> []));
              delta = namePadding - co_len o' + 1
          in Some (ss @ c_chars usage @ 32 # replicate (unat delta - 1) 32 @ [58, 32] @ c_chars (co_description o')))"

section \<open>The set of options\<close>

record cli_options =
  cl_options :: "cli_option list"
  cl_params :: "cstr list"
  cl_longestOption :: u64

definition new_CliOptions :: cli_options where
  "new_CliOptions = \<lparr>cl_options = [], cl_params = [], cl_longestOption = 0\<rparr>"

definition addOption :: "cli_option \<Rightarrow> cli_options \<Rightarrow> cli_options" where
  "addOption opt c =
     c\<lparr>cl_longestOption := max (co_len opt) (cl_longestOption c), cl_options := cl_options c @ [opt]\<rparr>"

definition PrintOptions :: "cli_options \<Rightarrow> cstr option list" where
  "PrintOptions c = map (StringLine (cl_longestOption c)) (cl_options c)"

definition NotEnoughParam :: "cli_options \<Rightarrow> nat \<Rightarrow> bool" where
  "NotEnoughParam c n \<longleftrightarrow> length (cl_params c) < n"

text \<open>\<^verbatim>\<open>ComputeOptions\<close>: the loop over the arguments; \<open>find\<close> is the loop over the options.\<close>

function ComputeOptions_loop ::
  "(cstr \<Rightarrow> 'f) \<Rightarrow> nat \<Rightarrow> nat \<Rightarrow> cstr list \<Rightarrow> cli_options \<times> (nat \<Rightarrow> 'f opt_val) \<Rightarrow> bool \<times> cli_options \<times> (nat \<Rightarrow> 'f opt_val)" where
  "ComputeOptions_loop strtod i endParam argv (c, st) =
     (if i < endParam then
        let arg = argv ! i
        in if c_chars arg \<noteq> [] \<and> hd arg = 45
           then case find (\<lambda>o'. opt_Match o' arg) (cl_options c) of
                  None \<Rightarrow> (False, c, st)
                | Some o' \<Rightarrow>
                    let (ok, j, st) = ConsumeArg strtod o' (i + 1) endParam argv st
                    in if \<not> ok then (False, c, st) else ComputeOptions_loop strtod j endParam argv (c, st)
           else ComputeOptions_loop strtod (i + 1) endParam argv (c\<lparr>cl_params := cl_params c @ [arg]\<rparr>, st)
      else (True, c, st))"
  by pat_completeness auto
termination
  by (relation "measure (\<lambda>(strtod, i, endParam, argv, cs). endParam - i)")
    (auto simp: ConsumeArg_def Let_def split: if_splits)

declare ComputeOptions_loop.simps [simp del]

definition ComputeOptions ::
  "(cstr \<Rightarrow> 'f) \<Rightarrow> nat \<Rightarrow> nat \<Rightarrow> cstr list \<Rightarrow> cli_options \<Rightarrow> (nat \<Rightarrow> 'f opt_val) \<Rightarrow> bool \<times> cli_options \<times> (nat \<Rightarrow> 'f opt_val)" where
  "ComputeOptions strtod startParam endParam argv c st =
     ComputeOptions_loop strtod startParam endParam argv (c\<lparr>cl_params := []\<rparr>, st)"

section \<open>A command line is read as it was written\<close>

text \<open>What a user writes: parameters, and options with a value unless they are flags.\<close>

datatype cli_item = Param cstr | Flag cli_option cstr | Valued cli_option cstr cstr

fun render :: "cli_item \<Rightarrow> cstr list" where
  "render (Param p) = [p]"
| "render (Flag o' name) = [name]"
| "render (Valued o' name v) = [name, v]"

definition names_first :: "cli_option list \<Rightarrow> cli_option \<Rightarrow> cstr \<Rightarrow> bool" where
  "names_first os o' name \<longleftrightarrow> c_chars name \<noteq> [] \<and> hd name = 45 \<and> find (\<lambda>p. opt_Match p name) os = Some o'"

fun written_for :: "cli_option list \<Rightarrow> cli_item \<Rightarrow> bool" where
  "written_for os (Param p) \<longleftrightarrow> c_chars p = [] \<or> hd p \<noteq> 45"
| "written_for os (Flag o' name) \<longleftrightarrow> names_first os o' name \<and> co_type o' = T_bool"
| "written_for os (Valued o' name v) \<longleftrightarrow> names_first os o' name \<and> co_type o' \<noteq> T_bool"

fun params_of :: "cli_item \<Rightarrow> cstr list" where
  "params_of (Param p) = [p]"
| "params_of _ = []"

definition value_of :: "(cstr \<Rightarrow> 'f) \<Rightarrow> opt_type \<Rightarrow> cstr \<Rightarrow> 'f opt_val option" where
  "value_of strtod ty v =
     (case ty of
        T_unsigned w \<Rightarrow> Some (V_int (take_bit w (uint (strtoull 10 (c_chars v)))))
      | T_signed w \<Rightarrow> Some (V_int (signed_take_bit (w - 1) (strtoll 10 (c_chars v))))
      | T_floating \<Rightarrow> Some (V_float (strtod (c_chars v)))
      | T_string \<Rightarrow> Some (V_str v)
      | _ \<Rightarrow> None)"

fun assign :: "(cstr \<Rightarrow> 'f) \<Rightarrow> cli_item \<Rightarrow> (nat \<Rightarrow> 'f opt_val) \<Rightarrow> (nat \<Rightarrow> 'f opt_val)" where
  "assign strtod (Param p) st = st"
| "assign strtod (Flag o' name) st = st(co_valPtr o' := V_bool True)"
| "assign strtod (Valued o' name v) st =
     (case value_of strtod (co_type o') v of None \<Rightarrow> st | Some x \<Rightarrow> st(co_valPtr o' := x))"

lemma ConsumeArg_value:
  "co_type o' \<noteq> T_bool \<Longrightarrow> offset < argc \<Longrightarrow> ConsumeArg strtod o' offset argc argv st =
     (True, offset + 1, assign strtod (Valued o' name (argv ! offset)) st)"
  by (simp add: ConsumeArg_def value_of_def split: opt_type.split)

text \<open>
  A command line is read as it was written: with the items of a list, parameters that do not begin with
  a dash and options under a name that matches them first, the parameters are those of the items in
  order, and the variables are assigned in order, the last value of an option remaining; values may be
  anything, dashes included.
\<close>

lemma ComputeOptions_render:
  assumes "list_all (written_for (cl_options c)) items"
  shows "ComputeOptions strtod (length pre) (length (pre @ concat (map render items))) (pre @ concat (map render items) @ post) c st =
    (True, c\<lparr>cl_params := concat (map params_of items)\<rparr>, fold (assign strtod) items st)"
proof -
  have "ComputeOptions_loop strtod (length pre) (length (pre @ concat (map render items)))
      (pre @ concat (map render items) @ post) (c, st) =
    (True, c\<lparr>cl_params := cl_params c @ concat (map params_of items)\<rparr>, fold (assign strtod) items st)"
    if "list_all (written_for (cl_options c)) items" for c
    using that
  proof (induction items arbitrary: pre c st)
    case Nil
    then show ?case by (simp add: ComputeOptions_loop.simps)
  next
    case (Cons x items)
    let ?r = "concat (map render items)"
    show ?case
    proof (cases x)
      case (Param p)
      have "ComputeOptions_loop strtod (length pre) (length (pre @ concat (map render (x # items))))
          (pre @ concat (map render (x # items)) @ post) (c, st) =
        ComputeOptions_loop strtod (length (pre @ [p])) (length ((pre @ [p]) @ ?r)) ((pre @ [p]) @ ?r @ post)
          (c\<lparr>cl_params := cl_params c @ [p]\<rparr>, st)"
        using Cons.prems by (subst ComputeOptions_loop.simps) (auto simp: Param Let_def)
      with Cons.IH [of "c\<lparr>cl_params := cl_params c @ [p]\<rparr>" "pre @ [p]" st] Cons.prems show ?thesis
        by (simp add: Param)
    next
      case (Flag o' name)
      have "ComputeOptions_loop strtod (length pre) (length (pre @ concat (map render (x # items))))
          (pre @ concat (map render (x # items)) @ post) (c, st) =
        ComputeOptions_loop strtod (length (pre @ [name])) (length ((pre @ [name]) @ ?r)) ((pre @ [name]) @ ?r @ post)
          (c, st(co_valPtr o' := V_bool True))"
        using Cons.prems by (subst ComputeOptions_loop.simps) (auto simp: Flag names_first_def ConsumeArg_def Let_def)
      with Cons.IH [of c "pre @ [name]" "st(co_valPtr o' := V_bool True)"] Cons.prems show ?thesis
        by (simp add: Flag fun_upd_def)
    next
      case (Valued o' name v)
      have "ComputeOptions_loop strtod (length pre) (length (pre @ concat (map render (x # items))))
          (pre @ concat (map render (x # items)) @ post) (c, st) =
        ComputeOptions_loop strtod (length (pre @ [name, v])) (length ((pre @ [name, v]) @ ?r)) ((pre @ [name, v]) @ ?r @ post)
          (c, assign strtod x st)"
        using Cons.prems by (subst ComputeOptions_loop.simps)
          (auto simp: Valued names_first_def ConsumeArg_value [where name = name] nth_append Let_def simp del: assign.simps)
      with Cons.IH [of c "pre @ [name, v]" "assign strtod x st"] Cons.prems show ?thesis
        by (simp add: Valued)
    qed
  qed
  from this [of "c\<lparr>cl_params := []\<rparr>"] assms show ?thesis by (simp add: ComputeOptions_def)
qed

section \<open>The help text\<close>

text \<open>
  The lines of the options are aligned: in each the colon is one column behind the longest option.
\<close>

lemma StringLine_column:
  assumes o': "o' = new_CliOptionVal v ty l s (Some u) d" and l: "l \<noteq> None \<Longrightarrow> c_chars (the l) \<noteq> []"
    and small: "length (c_chars (case l of None \<Rightarrow> [] | Some l \<Rightarrow> l)) + length (c_chars (case s of None \<Rightarrow> [] | Some s \<Rightarrow> s)) +
      length (c_chars u) < 2 ^ 31"
    and pad: "co_len o' \<le> pad" "unat pad < 2 ^ 31"
  shows "\<exists>x. StringLine pad o' = Some (x @ [58, 32] @ c_chars d) \<and> length x = unat pad + 1"
proof -
  define p where "p = (case l of
      Some l \<Rightarrow> c_chars l @ (case s of Some s \<Rightarrow> 32 # c_chars s | None \<Rightarrow> [])
    | None \<Rightarrow> (case s of Some s \<Rightarrow> c_chars s | None \<Rightarrow> [])) @ c_chars u"
  have nz: "(of_nat k :: u64) = 0 \<longleftrightarrow> k = 0" if "k < 2 ^ 31" for k
    using that unat_of_nat_u64 [of k] by (auto simp: word_unat_eq_iff)
  have len: "co_len o' = of_nat (length p)"
    using small l by (cases l; cases s) (auto simp: o' new_CliOptionVal_def p_def c_strlen_def nz Let_def)
  have lp: "length p \<le> 2 ^ 31" using small by (cases l; cases s) (auto simp: p_def)
  then have u: "unat (co_len o') = length p" by (simp add: len unat_of_nat_u64 del: of_nat_unat)
  have "unat (pad - co_len o') = unat pad - length p" using pad(1) u by (simp add: unat_sub word_le_nat_alt)
  then have "unat (pad - co_len o' + 1) = unat pad - length p + 1"
    using pad(2) by (subst unat_word_ariths) simp
  moreover have "length p \<le> unat pad" using pad(1) u by (simp add: word_le_nat_alt)
  moreover have "co_usage o' = Some u" "co_longName o' = l" "co_smallName o' = s" "co_description o' = d"
    by (simp_all add: o' new_CliOptionVal_def Let_def)
  ultimately show ?thesis
    by (intro exI [of _ "p @ 32 # replicate (unat (pad - co_len o' + 1) - 1) 32"])
      (cases l; cases s; simp add: StringLine_def p_def Let_def)
qed

end
