(* ===== verification/Spec2Isabelle.thy ===== *)
theory Spec2Isabelle
  imports
    Hash_Store Reader_Properties Vm_Info_Properties Gsc_Asm_Properties
    Linker_Properties Ff_Stream_Properties Xpak_Properties Crc Preprocessor_Properties
    Kmerger_Properties Compact Acts_Vm_Properties Ff_Flexible_Properties Hdt_Properties Memory_Arena Cli_Options
begin

text \<open>
  A model of the core of the ACTS tools, a C++ tool set that reads, disassembles, compiles, hashes and
  links the data files and scripts of a family of games. All sources are under \<^verbatim>\<open>src/core\<close>. This theory
  imports the library; it holds the map of the development, and no definitions of its own.

  \<^bold>\<open>How the parts interact.\<close> Names in the data files are hashes (\<^verbatim>\<open>shared/utils\<close>); the hash store
  (\<^verbatim>\<open>shared/core/hashes\<close>) maps hashes back to names and is filled with the hash functions. Every tool reads
  binary data through the abstract byte buffer, implemented over memory and over a stream. The script
  tools describe a virtual machine by a \<^verbatim>\<open>VmInfo\<close> (\<^verbatim>\<open>acts/tools/gsc/gsc_opcodes\<close>), with which the assembler
  of the compiler picks opcodes, sizes and alignment and writes the code of a function. Source texts go
  through the preprocessor first. Fast files are written through the memory linker, which places the
  chunks of assets into blocks, and are loaded by game loaders through the native streams; the payloads of
  archives are decoded from blocks and checked by their sums. The library sorts the triples of a parser on
  disk: worker threads create sorted chunks and merge them through the iterators.

  \<^bold>\<open>Theories and sources.\<close>
  \<^item> \<open>Acts_Prelude\<close>: machine integers, C strings, results that may throw (\<open>ebind\<close>, \<open>guard_or\<close>), alignment
    (\<^verbatim>\<open>utils::Aligned\<close>) and little-endian integers, with the lemmas the components share.
  \<^item> \<open>C_Library\<close>: the functions of the C library the sources call (character classes, \<^verbatim>\<open>strtoull\<close>, \<^verbatim>\<open>printf\<close>).
  \<^item> \<open>Hash_Mini\<close>: the hash functions of \<^verbatim>\<open>shared/utils/hash_mini.hpp\<close> and \<^verbatim>\<open>hash.hpp\<close>; equivalences between
    the salted, wide and specialised hashes and FNV-1a.
  \<^item> \<open>Hash_Store\<close>: \<^verbatim>\<open>shared/core/hashes/hash_store.cpp\<close>, a client of the interface \<open>first_wins_store\<close>.
  \<^item> \<open>Utils\<close>: the byte swap of \<^verbatim>\<open>utils.cpp\<close> the readers call.
  \<^item> \<open>Byte_Buffer\<close>, \<open>Byte_Reader\<close>, \<open>Reader_Properties\<close>: \<^verbatim>\<open>shared/core/bytebuffer*.hpp\<close>. The virtual methods
    are a record of functions; the locale \<open>byte_reader\<close> states what the derived operations need from
    them and is interpreted on \<^verbatim>\<open>ByteBuffer\<close> and \<^verbatim>\<open>FileReader\<close>; \<open>reader_pair\<close> relates two readers.
  \<^item> \<open>Vm_Info\<close>, \<open>Vm_Info_Properties\<close>: \<^verbatim>\<open>acts/tools/gsc/gsc_opcodes.cpp\<close>, \<^verbatim>\<open>.hpp\<close> and \<^verbatim>\<open>gsc_opcodes_load.hpp\<close>.
  \<^item> \<open>Gsc_Asm\<close>, \<open>Gsc_Asm_Properties\<close>: the nodes, the layout and the output of the assembler,
    \<^verbatim>\<open>acts/tools/gsc/compiler/gsc_compiler_{asm,context,function_object}\<close>.
  \<^item> \<open>Linker_Memory\<close>, \<open>Linker_Properties\<close>: \<^verbatim>\<open>acts/tools/fastfile/linkers/linker_memory.cpp\<close>. The states a
    client reaches are an inductive relation (\<open>xl_step\<close>, \<open>xl_reach\<close>); the invariant \<open>xl_inv\<close> keeps the
    pushes and pops of every block nested.
  \<^item> \<open>Ff_Stream\<close>, \<open>Ff_Stream_Properties\<close>: \<^verbatim>\<open>acts/tools/mw19/mw19_ff_stream.hpp\<close>. In \<open>st_step\<close> the game moves the
    cursor and fills memory between two operations.
  \<^item> \<open>Ff_Flexible\<close>, \<open>Ff_Flexible_Properties\<close>: \<^verbatim>\<open>acts/tools/fastfile/fastfile_flexible.cpp\<close> and \<^verbatim>\<open>.hpp\<close>,
    the writer and the reader of typed chunks; SHA-256 is a parameter.
  \<^item> \<open>Xpak\<close>, \<open>Xpak_Properties\<close>: \<^verbatim>\<open>acts/tools/mw19/mw19_xpak.cpp\<close>. The decoders and the reader of the file
    are parameters; no contract of a decoder is assumed, its result is checked as the code checks it.
  \<^item> \<open>Crc\<close>: \<^verbatim>\<open>shared/utils/crc.cpp\<close>, \<^verbatim>\<open>lib/actslib/crc.cpp\<close>: the tables of the sources, proved to be the tables
    of their polynomials, and the checks proved equal to the bit-serial ones.
  \<^item> \<open>Preprocessor\<close>, \<open>Preprocessor_Properties\<close>: \<^verbatim>\<open>shared/core/preprocessor.cpp\<close>.
  \<^item> \<open>Lib_Io\<close>: the streams and integers of \<^verbatim>\<open>lib/actslib/io.cpp\<close> with their round trips.
  \<^item> \<open>Compact\<close>: \<^verbatim>\<open>lib/actslib/data/compact.hpp\<close>, bitmaps and packed sequences as streams of bits.
  \<^item> \<open>Iterators\<close>: \<^verbatim>\<open>lib/actslib/data/iterator.hpp\<close>. The locale \<open>aiterator\<close> is the contract of the virtual methods;
    \<open>merged_pair\<close> and its sublocale show that a merge of two iterators honours it, and every tree of merges does.
  \<^item> \<open>Raio\<close>, \<open>Raio_Properties\<close>: \<^verbatim>\<open>lib/actslib/rdf/raio.hpp\<close>, \<^verbatim>\<open>rdf.hpp\<close>. The reader of component files interprets
    \<open>aiterator\<close>; merging files, creating chunks from triples.
  \<^item> \<open>Rdf_Parser\<close>, \<open>Rdf_Parser_Properties\<close>: \<^verbatim>\<open>lib/actslib/rdf/parser.hpp\<close>, the indices it moves over a line, proved
    equal to a reference on lists of words; its triples are what \<open>Raio\<close> sorts.
  \<^item> \<open>Hdt\<close>, \<open>Hdt_Properties\<close>: \<^verbatim>\<open>lib/actslib/hdt.hpp\<close>: cookies under a sum (\<open>Crc\<close>, \<open>Lib_Io\<close>) and stores, whose header is
    parsed by \<open>Rdf_Parser\<close>.
  \<^item> \<open>Kmerger\<close>, \<open>Kmerger_Properties\<close>: the worker threads of \<^verbatim>\<open>lib/actslib/data/kmerger.hpp\<close> as a step relation
    (\<open>km_step\<close>, \<open>km_reach\<close>). The locale \<open>kmerger_config\<close> is the contract of a configuration, interpreted on that of
    \<open>Raio\<close>; invariants of locks, pending merges and files, progress, and a measure that every step lowers.

  \<^item> \<open>Byte_Memory\<close>, \<open>Static_Allocator\<close>: the free-list allocator over an array, \<^verbatim>\<open>shared/core/memory_allocator_static.hpp\<close>,
    on the bytes of its headers. \<open>heap\<close> is the chain of its blocks; what a client holds is apart until it frees.
  \<^item> \<open>Memory_Arena\<close>: \<^verbatim>\<open>shared/core/memory_allocator.hpp\<close>; \<open>arena_run\<close> is every sequence of its operations.
  \<^item> \<open>Cli_Options\<close>: \<^verbatim>\<open>shared/cli/cli_options.hpp\<close>, a command line read as it was written, and the help text.
  \<^item> \<open>Acts_Vm\<close>, \<open>Acts_Vm_Opcodes\<close>, \<open>Acts_Vm_Link\<close>, \<open>Acts_Vm_Properties\<close>: the virtual machine \<^verbatim>\<open>core/vm\<close> over that
    allocator: its state and operations (\<^verbatim>\<open>acts_vm.cpp\<close>), the instructions and the main loop
    (\<^verbatim>\<open>acts_vm_opcodes.cpp\<close>), linking and loading. A result of \<open>None\<close> is a call that does not return.

  \<^bold>\<open>Conventions.\<close> A struct is a record with the fields of the source under a prefix, an operation a
  function from the old state to the new one, an exception \<open>Inl\<close> of the component's error type, and
  undefined behaviour \<open>None\<close> or a named error. Values whose wrap-around the code can observe are words;
  lengths and indices are natural numbers.

  \<^bold>\<open>Bounds and fuel.\<close> Loops are total functions with their termination proved, except the readers of
  variable-length integers and of strings, which are partial functions on options with theorems that
  they return, and the nested inserts of the preprocessor, whose depth the code limits to 10: the fuel of
  \<open>pp_apply\<close> is what is left of that depth, and it reaches the refusal of the code before it ends. The virtual
  call on a tree of iterators takes the height of the tree as its depth, which no step increases. The loop of
  a client over an iterator is a partial function, with a theorem that it returns. The loops of the virtual machine
  that may not end (the main loop, the search for a string, the release of an array, the linking of scripts
  and the loops over exports) are partial functions, and several theorems say where they do not return.

  \<^bold>\<open>Not modelled.\<close> The opcode tables (\<^verbatim>\<open>gsc/opcodes\<close>, data), the generated grammars and vendored code, the
  decompiler and the compiler's tree walk, the per-game asset handlers and decompressors, process and
  window code, the injected libraries, the user interface, and the commands that only read a file, call
  a component and print. The manifest lists them with reasons.
\<close>

end
